(* ===== verification/Prelude.thy ===== *)
theory Prelude
  imports Main "HOL-Library.Word"
begin

text \<open>
  Shared vocabulary of the development: the C integer types as machine words, byte buffers and the
  write of a byte string at an offset, the error numbers the programs use, and the generic lemmas on
  words, buffers and bounded walks that the component theories rest on.
\<close>

unbundle bit_operations_syntax

section \<open>C types\<close>

type_synonym u8 = "8 word"
type_synonym u16 = "16 word"
type_synonym u32 = "32 word"
type_synonym u64 = "64 word"
type_synonym byte = "8 word"
type_synonym ptr = "64 word"

named_theorems tg_consts \<open>numeric constants of the C headers\<close>
named_theorems tg_defs \<open>definitions that automation may unfold\<close>

section \<open>Error numbers (include/errno.h)\<close>

definition ENOENT :: int where [tg_consts]: "ENOENT = 2"
definition E2BIG :: int where [tg_consts]: "E2BIG = 7"
definition EAGAIN :: int where [tg_consts]: "EAGAIN = 11"
definition EFAULT :: int where [tg_consts]: "EFAULT = 14"
definition EBUSY :: int where [tg_consts]: "EBUSY = 16"
definition EEXIST :: int where [tg_consts]: "EEXIST = 17"
definition EINVAL :: int where [tg_consts]: "EINVAL = 22"
definition ENOSPC :: int where [tg_consts]: "ENOSPC = 28"
definition ENAMETOOLONG :: int where [tg_consts]: "ENAMETOOLONG = 36"

section \<open>Byte buffers\<close>

text \<open>
  \<open>blit off bs buf\<close> is the buffer after the bytes \<open>bs\<close> were copied to offset \<open>off\<close>. A C program that
  writes past the end of the object has no defined meaning, so every component proves that the
  writes it makes stay inside (\<open>off + length bs \<le> length buf\<close>).
\<close>

definition blit :: "nat \<Rightarrow> 'a list \<Rightarrow> 'a list \<Rightarrow> 'a list" where
  "blit off bs buf = take off buf @ bs @ drop (off + length bs) buf"

definition slice :: "nat \<Rightarrow> nat \<Rightarrow> 'a list \<Rightarrow> 'a list" where
  "slice off n buf = take n (drop off buf)"

lemma length_blit [simp]:
  "off + length bs \<le> length buf \<Longrightarrow> length (blit off bs buf) = length buf"
  by (simp add: blit_def)

lemma blit_Nil [simp]: "blit off [] buf = buf"
  by (simp add: blit_def)

lemma take_blit_before: "n \<le> off \<Longrightarrow> off \<le> length buf \<Longrightarrow> take n (blit off bs buf) = take n buf"
  by (simp add: blit_def min_def)

lemma slice_blit_same:
  "off \<le> length buf \<Longrightarrow> slice off (length bs) (blit off bs buf) = bs"
  by (simp add: slice_def blit_def)

lemma slice_blit_before:
  "o1 + n \<le> off \<Longrightarrow> off \<le> length buf \<Longrightarrow> slice o1 n (blit off bs buf) = slice o1 n buf"
  unfolding slice_def blit_def by (simp add: take_drop min_def)

lemma drop_blit_after:
  "off + length bs \<le> n \<Longrightarrow> off \<le> length buf \<Longrightarrow> drop n (blit off bs buf) = drop n buf"
  by (simp add: blit_def min_def)

lemma slice_blit_prefix:
  assumes "p + length bs = q" "q \<le> length buf"
  shows "slice p (length bs + n) (blit p bs buf) = bs @ slice q n buf"
  using assms by (simp add: slice_def blit_def)

lemma blit_append:
  "off + length bs \<le> length buf \<Longrightarrow> blit (off + length bs) cs (blit off bs buf) = blit off (bs @ cs) buf"
  by (simp add: blit_def ac_simps)

lemma length_slice [simp]: "length (slice off n buf) = min n (length buf - off)"
  by (simp add: slice_def)

lemma slice_append_split:
  "slice off (n + m) buf = slice off n buf @ slice (off + n) m buf"
  by (simp add: slice_def take_add add.commute [of n off])

section \<open>Words\<close>

lemma unat_mask_le: "unat ((x :: 'a::len word) AND y) \<le> unat y"
  by (metis word_and_le1 word_le_nat_alt)

lemma word_le_mask_iff_take_bit:
  "(x :: 'a::len word) AND mask n = take_bit n x"
  by (simp add: take_bit_eq_mask)

lemma unat_and_mask: "unat ((x :: 'a::len word) AND mask n) = unat x mod 2 ^ n"
  by (metis word_le_mask_iff_take_bit unsigned_take_bit_eq take_bit_eq_mod)

lemma or_eq_0_iff_word: "(x :: 'a::len word) OR y = 0 \<longleftrightarrow> x = 0 \<and> y = 0"
  by (metis or.right_neutral or_eq_0_iff)

lemma bit_1_u64 [simp]: "bit (1 :: u64) n \<longleftrightarrow> n = 0"
  by (simp add: bit_1_iff)

lemma unat_u8_less: "unat (w :: u8) < 256"
  using unsigned_less [of w] by simp

lemma unat_u16_less: "unat (w :: u16) < 65536"
  using unsigned_less [of w] by simp

lemma unat_u32_less: "unat (w :: u32) < 4294967296"
  using unsigned_less [of w] by simp

lemma unat_u64_less: "unat (w :: u64) < 18446744073709551616"
  using unsigned_less [of w] by simp

lemmas unat_bounds = unat_u8_less unat_u16_less unat_u32_less unat_u64_less

lemma ucast_32_64_32 [simp]: "ucast (ucast (x :: u32) :: u64) = x"
  by (rule bit_word_eqI) (simp add: bit_simps)

lemma unat_u32_plus1: "unat (w :: u32) < 4294967295 \<Longrightarrow> unat (w + 1) = unat w + 1"
  by (simp add: unat_word_ariths)

lemma unat_sub_u32: "unat (y :: u32) \<le> unat x \<Longrightarrow> unat (x - y) = unat x - unat y"
  by (simp add: unat_sub word_le_nat_alt)

lemma unat_sub_u64: "unat (y :: u64) \<le> unat x \<Longrightarrow> unat (x - y) = unat x - unat y"
  by (simp add: unat_sub word_le_nat_alt)

lemma unat_ucast_32_64 [simp]: "unat (ucast (w :: u32) :: u64) = unat w"
  by (simp add: unsigned_ucast_eq take_bit_nat_eq_self unat_bounds [THEN order_less_trans])

lemma and_ff_small: "unat (w :: u32) \<le> 255 \<Longrightarrow> unat (w AND 0xff) = unat w"
  using unat_and_mask [of w 8] by (simp add: mask_eq_exp_minus_1)

lemma sint_small_u64:
  fixes w :: u64 assumes "unat w < 9223372036854775808" shows "sint w = uint w"
proof -
  have "uint w < 9223372036854775808"
    using assms uint_nat [of w] by linarith
  then show ?thesis
    unfolding sint_uint by (intro signed_take_bit_int_eq_self) (auto intro: order_trans [of _ 0])
qed

lemma sint_small_u32:
  fixes w :: u32 assumes "unat w < 2147483648" shows "sint w = uint w"
proof -
  have "uint w < 2147483648"
    using assms uint_nat [of w] by linarith
  then show ?thesis
    unfolding sint_uint by (intro signed_take_bit_int_eq_self) (auto intro: order_trans [of _ 0])
qed

lemma sgt0_u32:
  fixes w :: u32 assumes "unat w < 2147483648" shows "0 <s w \<longleftrightarrow> w \<noteq> 0"
  using sint_small_u32 [OF assms] by (simp add: word_sless_alt less_le unsigned_eq_0_iff)

lemma sless_1_u64:
  fixes w :: u64 assumes "unat w < 9223372036854775808" shows "w <s 1 \<longleftrightarrow> w = 0"
proof -
  have "uint w < 1 \<longleftrightarrow> w = 0"
    by (metis int_one_le_iff_zero_less linorder_not_less uint_0_eq word_uint_eq_iff
        order_le_less unsigned_greater_eq)
  with sint_small_u64 [OF assms] show ?thesis by (simp add: word_sless_alt)
qed

section \<open>Bounded walks\<close>

text \<open>
  Verifier-bounded loops walk a chain of at most \<open>n\<close> links: \<open>iterate_until n next stop x\<close> is the first
  element among \<open>x, next x, next (next x), \<dots>\<close> (at most \<open>n\<close> of them) that satisfies \<open>stop\<close>.
\<close>

fun iterate_until :: "nat \<Rightarrow> ('a \<Rightarrow> 'a option) \<Rightarrow> ('a \<Rightarrow> bool) \<Rightarrow> 'a \<Rightarrow> 'a option" where
  "iterate_until 0 nxt stop x = None"
| "iterate_until (Suc n) nxt stop x =
     (if stop x then Some x
      else case nxt x of None \<Rightarrow> None | Some y \<Rightarrow> iterate_until n nxt stop y)"

fun chain :: "('a \<Rightarrow> 'a option) \<Rightarrow> nat \<Rightarrow> 'a \<Rightarrow> 'a list" where
  "chain nxt 0 x = []"
| "chain nxt (Suc n) x = x # (case nxt x of None \<Rightarrow> [] | Some y \<Rightarrow> chain nxt n y)"

lemma iterate_until_find: "iterate_until n nxt stop x = List.find stop (chain nxt n x)"
  by (induction n nxt stop x rule: iterate_until.induct) (auto split: option.split)

lemma length_chain: "length (chain nxt n x) \<le> n"
  by (induction nxt n x rule: chain.induct) (auto split: option.split)

lemma find_Some_set: "List.find P xs = Some y \<Longrightarrow> y \<in> set xs \<and> P y"
  by (auto simp: find_Some_iff)

end
