(* ===== verification/BPF_Maps.thy ===== *)
theory BPF_Maps
  imports Prelude
begin

text \<open>
  The map helpers of the BPF runtime (\<^verbatim>\<open>bpf/include/api.h\<close>) as the programs use them. A map is its
  contents together with the kernel's own decision about a store: \<open>bm_admit\<close> is the error number the
  kernel answers to a store of a key (0 when it accepts it: the map may be full, memory may be short),
  an arbitrary function, so that no theorem depends on when the kernel refuses. An LRU map also has
  the list of other keys the kernel drops to make room. A value returned by a lookup is a pointer into
  the map: a write through it is \<open>map_modify\<close>.

  Two interfaces are stated as locales: \<open>kv_store\<close>, what a client of a hash map relies on, and
  \<open>counter_store\<close>, what the metric counters (error metrics, missed notifications, policy statistics,
  failed sends) promise.
\<close>

section \<open>Map operations\<close>

record ('k, 'v) bpf_map =
  bm_elems :: "'k \<rightharpoonup> 'v"
  bm_admit :: "('k \<rightharpoonup> 'v) \<Rightarrow> 'k \<Rightarrow> nat"

record ('k, 'v) lru_map = "('k, 'v) bpf_map" +
  lru_evict :: "('k \<rightharpoonup> 'v) \<Rightarrow> 'k \<Rightarrow> 'k list"

datatype upd_flag = BPF_ANY | BPF_NOEXIST

definition map_lookup_elem :: "('k, 'v, 'z) bpf_map_scheme \<Rightarrow> 'k \<Rightarrow> 'v option" where
  "map_lookup_elem m k = bm_elems m k"

definition map_update_elem ::
  "('k, 'v, 'z) bpf_map_scheme \<Rightarrow> 'k \<Rightarrow> 'v \<Rightarrow> upd_flag \<Rightarrow> ('k, 'v, 'z) bpf_map_scheme \<times> int" where
  "map_update_elem m k v fl =
     (if fl = BPF_NOEXIST \<and> bm_elems m k \<noteq> None then (m, - EEXIST)
      else if bm_admit m (bm_elems m) k \<noteq> 0 then (m, - int (bm_admit m (bm_elems m) k))
      else (m\<lparr>bm_elems := (bm_elems m)(k \<mapsto> v)\<rparr>, 0))"

definition lru_update_elem ::
  "('k, 'v, 'z) lru_map_scheme \<Rightarrow> 'k \<Rightarrow> 'v \<Rightarrow> ('k, 'v, 'z) lru_map_scheme \<times> int" where
  "lru_update_elem m k v =
     (if bm_admit m (bm_elems m) k \<noteq> 0 then (m, - int (bm_admit m (bm_elems m) k))
      else (m\<lparr>bm_elems := (\<lambda>j. if j = k then Some v
                               else if j \<in> set (lru_evict m (bm_elems m) k) then None
                               else bm_elems m j)\<rparr>, 0))"

definition map_delete_elem ::
  "('k, 'v, 'z) bpf_map_scheme \<Rightarrow> 'k \<Rightarrow> ('k, 'v, 'z) bpf_map_scheme \<times> int" where
  "map_delete_elem m k =
     (if bm_elems m k = None then (m, - ENOENT)
      else (m\<lparr>bm_elems := (bm_elems m)(k := None)\<rparr>, 0))"

definition map_modify ::
  "('k, 'v, 'z) bpf_map_scheme \<Rightarrow> 'k \<Rightarrow> ('v \<Rightarrow> 'v) \<Rightarrow> ('k, 'v, 'z) bpf_map_scheme" where
  "map_modify m k f = m\<lparr>bm_elems := (bm_elems m)(k := map_option f (bm_elems m k))\<rparr>"

definition empty_map :: "('k, 'v) bpf_map" where
  "empty_map = \<lparr>bm_elems = Map.empty, bm_admit = (\<lambda>_ _. 0)\<rparr>"

definition empty_lru :: "('k, 'v) lru_map" where
  "empty_lru = \<lparr>bm_elems = Map.empty, bm_admit = (\<lambda>_ _. 0), lru_evict = (\<lambda>_ _. [])\<rparr>"

lemmas map_ops_defs [tg_defs] =
  map_lookup_elem_def map_update_elem_def map_delete_elem_def map_modify_def lru_update_elem_def
  empty_map_def empty_lru_def

section \<open>The hash map interface\<close>

locale kv_store =
  fixes lookup :: "'m \<Rightarrow> 'k \<Rightarrow> 'v option"
    and put :: "'m \<Rightarrow> 'k \<Rightarrow> 'v \<Rightarrow> 'm \<times> int"
    and del :: "'m \<Rightarrow> 'k \<Rightarrow> 'm \<times> int"
    and poke :: "'m \<Rightarrow> 'k \<Rightarrow> ('v \<Rightarrow> 'v) \<Rightarrow> 'm"
  assumes put_sign: "snd (put m k v) \<le> 0"
    and put_same: "snd (put m k v) = 0 \<Longrightarrow> lookup (fst (put m k v)) k = Some v"
    and put_refused: "snd (put m k v) \<noteq> 0 \<Longrightarrow> fst (put m k v) = m"
    and put_other: "j \<noteq> k \<Longrightarrow> lookup (fst (put m k v)) j = lookup m j"
    and del_code: "snd (del m k) = (if lookup m k = None then - ENOENT else 0)"
    and del_lookup: "lookup (fst (del m k)) j = (if j = k then None else lookup m j)"
    and poke_lookup: "lookup (poke m k f) j = (if j = k then map_option f (lookup m k) else lookup m j)"
begin

lemma put_lookup:
  "lookup (fst (put m k v)) j =
     (if j = k \<and> snd (put m k v) = 0 then Some v else lookup m j)"
  using put_same [of m k v] put_refused [of m k v] put_other [of j k m v] by auto

lemma put_del_fresh:
  "lookup m k = None \<Longrightarrow> lookup (fst (del (fst (put m k v)) k)) j = lookup m j"
  by (simp add: del_lookup put_lookup)

lemma del_idem: "lookup (fst (del (fst (del m k)) k)) j = lookup (fst (del m k)) j"
  by (simp add: del_lookup)

lemma poke_missing: "lookup m k = None \<Longrightarrow> lookup (poke m k f) = lookup m"
  by (rule ext) (simp add: poke_lookup)

lemma dom_put: "dom (lookup (fst (put m k v))) \<subseteq> insert k (dom (lookup m))"
  by (auto simp: put_lookup split: if_splits)

lemma dom_put_ok:
  "snd (put m k v) = 0 \<Longrightarrow> dom (lookup (fst (put m k v))) = insert k (dom (lookup m))"
  by (auto simp: put_lookup split: if_splits)

lemma dom_del: "dom (lookup (fst (del m k))) = dom (lookup m) - {k}"
  by (auto simp: del_lookup split: if_splits)

lemma dom_poke: "dom (lookup (poke m k f)) = dom (lookup m)"
  by (auto simp: poke_lookup split: if_splits)

end

interpretation hash: kv_store map_lookup_elem "\<lambda>m k v. map_update_elem m k v BPF_ANY"
  map_delete_elem map_modify
  by unfold_locales (auto simp: map_ops_defs ENOENT_def)

lemmas hash_simps [simp] = hash.put_lookup hash.del_lookup hash.poke_lookup hash.del_code

lemma map_update_frame [simp]:
  "bm_admit (fst (map_update_elem m k v fl)) = bm_admit m"
  "bm_admit (fst (map_delete_elem m k)) = bm_admit m"
  "bm_admit (map_modify m k f) = bm_admit m"
  by (auto simp: map_ops_defs)

lemma map_update_accepts:
  "bm_admit m (bm_elems m) k = 0 \<Longrightarrow> snd (map_update_elem m k v BPF_ANY) = 0"
  by (simp add: map_ops_defs)

lemma map_update_noexist_lookup:
  "map_lookup_elem (fst (map_update_elem m k v BPF_NOEXIST)) j =
     (if j = k \<and> map_lookup_elem m k = None \<and> bm_admit m (bm_elems m) k = 0 then Some v
      else map_lookup_elem m j)"
  by (auto simp: map_ops_defs)

lemma lru_lookup_same:
  "snd (lru_update_elem m k v) = 0 \<Longrightarrow> map_lookup_elem (fst (lru_update_elem m k v)) k = Some v"
  by (auto simp: map_ops_defs split: if_splits)

lemma lru_refused: "snd (lru_update_elem m k v) \<noteq> 0 \<Longrightarrow> fst (lru_update_elem m k v) = m"
  by (auto simp: map_ops_defs split: if_splits)

lemma lru_lookup_other:
  "j \<noteq> k \<Longrightarrow> map_lookup_elem (fst (lru_update_elem m k v)) j \<in> {map_lookup_elem m j, None}"
  by (auto simp: map_ops_defs)

section \<open>Counters kept in maps\<close>

text \<open>
  Several components count events in a map: each occurrence adds one to the counter of its key, and a
  counter wraps at the width of the C type. \<open>good\<close> is the part of the state on which the promise is
  made (the kernel accepts the first store).
\<close>

locale counter_store =
  fixes bump :: "'m \<Rightarrow> 'k \<Rightarrow> 'm"
    and cnt :: "'m \<Rightarrow> 'k \<Rightarrow> nat"
    and good :: "'m \<Rightarrow> bool"
    and bound :: nat
  assumes bump_same: "good m \<Longrightarrow> cnt (bump m k) k = (cnt m k + 1) mod bound"
    and bump_other: "good m \<Longrightarrow> j \<noteq> k \<Longrightarrow> cnt (bump m k) j = cnt m j"
    and bump_good: "good m \<Longrightarrow> good (bump m k)"
    and cnt_bound: "cnt m k < bound"
begin

lemma fold_bump_good: "good m \<Longrightarrow> good (foldl bump m ks)"
  by (induction ks arbitrary: m) (auto intro: bump_good)

lemma fold_bump_count: "good m \<Longrightarrow> cnt (foldl bump m ks) k = (cnt m k + count_list ks k) mod bound"
proof (induction ks arbitrary: m)
  case Nil
  then show ?case by (simp add: cnt_bound)
next
  case (Cons x ks)
  then have "cnt (foldl bump (bump m x) ks) k = (cnt (bump m x) k + count_list ks k) mod bound"
    by (simp add: bump_good)
  with Cons.prems show ?case
    by (cases "x = k") (auto simp: bump_same bump_other mod_add_left_eq)
qed

end

end
