(* ===== verification/Kernel_Mem.thy ===== *)
theory Kernel_Mem
  imports BPF_Maps
begin

text \<open>
  Reads of kernel and user memory through the BPF helpers \<^verbatim>\<open>probe_read\<close> and \<^verbatim>\<open>probe_read_str\<close>
  (\<^verbatim>\<open>bpf/include/api.h\<close>). Memory is a parameter: an address holds a byte or cannot be read. A failing
  read leaves zeroes in its destination and answers \<^verbatim>\<open>-EFAULT\<close>. The string read copies up to and
  including the first zero byte, at most the given number of bytes, always terminates what it wrote
  with a zero byte and answers the number of bytes written.
\<close>

type_synonym memory = "ptr \<Rightarrow> byte option"

definition probe_read :: "memory \<Rightarrow> nat \<Rightarrow> ptr \<Rightarrow> byte list \<times> int" where
  "probe_read mem n a =
     (let bs = map (\<lambda>i. mem (a + of_nat i)) [0..<n]
      in if None \<in> set bs then (replicate n 0, - EFAULT) else (map the bs, 0))"

fun str_scan :: "memory \<Rightarrow> nat \<Rightarrow> ptr \<Rightarrow> byte list option" where
  "str_scan mem 0 a = Some []"
| "str_scan mem (Suc n) a =
     (case mem a of
        None \<Rightarrow> None
      | Some b \<Rightarrow> if b = 0 then Some [0] else map_option ((#) b) (str_scan mem n (a + 1)))"

definition probe_read_str :: "memory \<Rightarrow> nat \<Rightarrow> ptr \<Rightarrow> byte list \<times> int" where
  "probe_read_str mem n a =
     (if n = 0 then ([], 0)
      else case str_scan mem n a of
             None \<Rightarrow> (replicate n 0, - EFAULT)
           | Some bs \<Rightarrow> (butlast bs @ [0], int (length bs)))"

lemma length_probe_read [simp]: "length (fst (probe_read mem n a)) = n"
  by (simp add: probe_read_def Let_def)

lemma probe_read_sign: "snd (probe_read mem n a) = 0 \<or> snd (probe_read mem n a) = - EFAULT"
  by (simp add: probe_read_def Let_def)

lemma probe_read_fault: "snd (probe_read mem n a) \<noteq> 0 \<Longrightarrow> fst (probe_read mem n a) = replicate n 0"
  by (auto simp: probe_read_def Let_def split: if_splits)

lemma probe_read_0 [simp]: "probe_read mem 0 a = ([], 0)"
  by (simp add: probe_read_def)

lemma str_scan_length:
  "str_scan mem n a = Some bs \<Longrightarrow> length bs \<le> n \<and> (0 < n \<longrightarrow> 0 < length bs)"
  by (induction mem n a arbitrary: bs rule: str_scan.induct) (auto split: option.splits if_splits)

lemma str_scan_nonzero: "str_scan mem n a = Some bs \<Longrightarrow> 0 \<notin> set (butlast bs)"
  by (induction mem n a arbitrary: bs rule: str_scan.induct) (auto split: option.splits if_splits)

lemma probe_read_str_bounds:
  assumes "probe_read_str mem n a = (bs, r)"
  shows "length bs \<le> n" and "r \<le> int n" and "r < 0 \<Longrightarrow> r = - EFAULT \<and> bs = replicate n 0"
    and "0 \<le> r \<Longrightarrow> int (length bs) = r" and "0 < n \<Longrightarrow> r \<noteq> 0"
    and "0 < r \<Longrightarrow> last bs = 0 \<and> 0 \<notin> set (butlast bs)"
proof -
  have "length bs \<le> n \<and> r \<le> int n \<and> (r < 0 \<longrightarrow> r = - EFAULT \<and> bs = replicate n 0)
        \<and> (0 \<le> r \<longrightarrow> int (length bs) = r) \<and> (0 < n \<longrightarrow> r \<noteq> 0)
        \<and> (0 < r \<longrightarrow> last bs = 0 \<and> 0 \<notin> set (butlast bs))"
  proof (cases "str_scan mem n a")
    case None
    then show ?thesis
      using assms by (auto simp: probe_read_str_def EFAULT_def split: if_splits)
  next
    case (Some xs)
    with str_scan_length [OF Some] str_scan_nonzero [OF Some] show ?thesis
      using assms by (auto simp: probe_read_str_def split: if_splits)
  qed
  then show "length bs \<le> n" "r \<le> int n" "r < 0 \<Longrightarrow> r = - EFAULT \<and> bs = replicate n 0"
    "0 \<le> r \<Longrightarrow> int (length bs) = r" "0 < n \<Longrightarrow> r \<noteq> 0" "0 < r \<Longrightarrow> last bs = 0 \<and> 0 \<notin> set (butlast bs)"
    by auto
qed

text \<open>A memory that holds one byte string at one address, for concrete runs.\<close>

definition mem_at :: "ptr \<Rightarrow> byte list \<Rightarrow> memory" where
  "mem_at base bs a = (if unat (a - base) < length bs then Some (bs ! unat (a - base)) else None)"

lemma probe_read_mem_at:
  assumes "n \<le> length bs" "length bs < 2 ^ 64"
  shows "probe_read (mem_at base bs) n base = (take n bs, 0)"
proof -
  have "mem_at base bs (base + of_nat i) = Some (bs ! i)" if "i < n" for i
    using that assms by (simp add: mem_at_def unsigned_of_nat take_bit_nat_eq_self)
  then have "map (\<lambda>i. mem_at base bs (base + of_nat i)) [0..<n] = map Some (take n bs)"
    using assms by (auto intro!: nth_equalityI)
  moreover have "map the (map Some (take n bs)) = take n bs" by (simp add: comp_def)
  ultimately show ?thesis by (auto simp: probe_read_def Let_def simp del: map_map)
qed

end
