(* ===== verification/Messages.thy ===== *)
theory Messages
  imports BPF_Maps
begin

text \<open>
  The structures shared by the programs and by the user-space reader: the message headers and bodies
  of \<^verbatim>\<open>lib/common.h\<close>, \<^verbatim>\<open>lib/process.h\<close>, \<^verbatim>\<open>lib/bpf_cred.h\<close>, \<^verbatim>\<open>lib/data_msg.h\<close>, \<^verbatim>\<open>lib/bpf_cgroup.h\<close>,
  \<^verbatim>\<open>lib/environ_conf.h\<close> and \<^verbatim>\<open>process/bpf_rate.h\<close>, one record per C structure (padding bytes left out),
  with the sizes and offsets the code computes with \<^verbatim>\<open>sizeof\<close> and \<^verbatim>\<open>offsetof\<close>, and the byte encoding of
  the one structure that the code overlays on a message buffer (\<^verbatim>\<open>struct data_event_desc\<close>).
\<close>

section \<open>Build variants\<close>

text \<open>
  The objects are compiled several times with different feature macros (\<^verbatim>\<open>bpf/Makefile\<close>); a definition
  whose body has conditional compilation takes the variant as its first argument.
\<close>

record build =
  bd_large :: bool  \<comment> \<open>\<^verbatim>\<open>__LARGE_BPF_PROG\<close>\<close>
  bd_v511 :: bool   \<comment> \<open>\<^verbatim>\<open>__V511_BPF_PROG\<close>\<close>
  bd_v61 :: bool    \<comment> \<open>\<^verbatim>\<open>__V61_BPF_PROG\<close>\<close>
  bd_v612 :: bool   \<comment> \<open>\<^verbatim>\<open>__V612_BPF_PROG\<close>\<close>
  bd_rhel7 :: bool  \<comment> \<open>\<^verbatim>\<open>__RHEL7_BPF_PROG\<close>\<close>
  bd_policy_stats :: bool  \<comment> \<open>\<^verbatim>\<open>HAS_POLICY_STATS\<close>\<close>

section \<open>Constants\<close>

definition MAXARGLENGTH :: nat where [tg_consts]: "MAXARGLENGTH = 256"
definition CWD_MAX :: nat where [tg_consts]: "CWD_MAX = 4096"
definition BUFFER :: nat where [tg_consts]: "BUFFER = 1024"
definition PATHNAME_SIZE :: nat where [tg_consts]: "PATHNAME_SIZE = 256"
definition DOCKER_ID_LENGTH :: nat where [tg_consts]: "DOCKER_ID_LENGTH = 128"
definition KN_NAME_LENGTH :: nat where [tg_consts]: "KN_NAME_LENGTH = 128"
definition PATH_MAP_SIZE :: nat where [tg_consts]: "PATH_MAP_SIZE = 4096"
definition BINARY_PATH_MAX_LEN :: nat where [tg_consts]: "BINARY_PATH_MAX_LEN = 256"
definition STRING_POSTFIX_MAX_LENGTH :: nat where [tg_consts]: "STRING_POSTFIX_MAX_LENGTH = 128"
definition MSG_DATA_ARG_LEN :: nat where [tg_consts]: "MSG_DATA_ARG_LEN = 32736"

definition EVENT_EXECVE :: u32 where [tg_consts]: "EVENT_EXECVE = 0x01"
definition EVENT_ENVS_DATA :: u32 where [tg_consts]: "EVENT_ENVS_DATA = 0x02"
definition EVENT_ENVS_ERROR :: u32 where [tg_consts]: "EVENT_ENVS_ERROR = 0x08"
definition EVENT_MISS :: u32 where [tg_consts]: "EVENT_MISS = 0x40"
definition EVENT_ERROR_FILENAME :: u32 where [tg_consts]: "EVENT_ERROR_FILENAME = 0x100"
definition EVENT_ERROR_ARGS :: u32 where [tg_consts]: "EVENT_ERROR_ARGS = 0x200"
definition EVENT_NEEDS_CWD :: u32 where [tg_consts]: "EVENT_NEEDS_CWD = 0x400"
definition EVENT_ROOT_CWD :: u32 where [tg_consts]: "EVENT_ROOT_CWD = 0x1000"
definition EVENT_ERROR_CWD :: u32 where [tg_consts]: "EVENT_ERROR_CWD = 0x2000"
definition EVENT_CLONE :: u32 where [tg_consts]: "EVENT_CLONE = 0x4000"
definition EVENT_ERROR_CGROUP_NAME :: u32 where [tg_consts]: "EVENT_ERROR_CGROUP_NAME = 0x010000"
definition EVENT_ERROR_CGROUP_SUBSYSCGRP :: u32
  where [tg_consts]: "EVENT_ERROR_CGROUP_SUBSYSCGRP = 0x040000"
definition EVENT_ERROR_CGROUP_SUBSYS :: u32 where [tg_consts]: "EVENT_ERROR_CGROUP_SUBSYS = 0x080000"
definition EVENT_ERROR_CGROUPS :: u32 where [tg_consts]: "EVENT_ERROR_CGROUPS = 0x100000"
definition EVENT_ERROR_CGROUP_ID :: u32 where [tg_consts]: "EVENT_ERROR_CGROUP_ID = 0x200000"
definition EVENT_ERROR_PATH_COMPONENTS :: u32
  where [tg_consts]: "EVENT_ERROR_PATH_COMPONENTS = 0x400000"
definition EVENT_DATA_FILENAME :: u32 where [tg_consts]: "EVENT_DATA_FILENAME = 0x800000"
definition EVENT_DATA_ARGS :: u32 where [tg_consts]: "EVENT_DATA_ARGS = 0x1000000"
definition EVENT_IN_INIT_TREE :: u32 where [tg_consts]: "EVENT_IN_INIT_TREE = 0x2000000"
definition EVENT_COMMON_FLAG_CLONE :: u32 where [tg_consts]: "EVENT_COMMON_FLAG_CLONE = 0x01"

definition MSG_OP_EXECVE :: u8 where [tg_consts]: "MSG_OP_EXECVE = 5"
definition MSG_OP_EXIT :: u8 where [tg_consts]: "MSG_OP_EXIT = 7"
definition MSG_OP_CLONE :: u8 where [tg_consts]: "MSG_OP_CLONE = 23"
definition MSG_OP_DATA :: u8 where [tg_consts]: "MSG_OP_DATA = 24"
definition MSG_OP_CGROUP :: u8 where [tg_consts]: "MSG_OP_CGROUP = 25"
definition MSG_OP_LOADER :: u8 where [tg_consts]: "MSG_OP_LOADER = 26"
definition MSG_OP_THROTTLE :: u8 where [tg_consts]: "MSG_OP_THROTTLE = 27"

definition MSG_OP_CGROUP_MKDIR :: u32 where [tg_consts]: "MSG_OP_CGROUP_MKDIR = 1"
definition MSG_OP_CGROUP_RMDIR :: u32 where [tg_consts]: "MSG_OP_CGROUP_RMDIR = 2"
definition MSG_OP_CGROUP_RELEASE :: u32 where [tg_consts]: "MSG_OP_CGROUP_RELEASE = 3"

section \<open>Structures\<close>

record msg_common =
  mc_op :: u8
  mc_flags :: u8
  mc_size :: u32
  mc_ktime :: u64

record msg_execve_key =
  ek_pid :: u32
  ek_ktime :: u64

record execve_info =
  ei_secureexec :: u32
  ei_i_nlink :: u32
  ei_i_ino :: u64

record msg_capabilities =
  cap_permitted :: u64
  cap_effective :: u64
  cap_inheritable :: u64

record msg_user_namespace =
  un_level :: u32
  un_uid :: u32
  un_gid :: u32
  un_ns_inum :: u32

record msg_cred =
  cr_uid :: u32
  cr_gid :: u32
  cr_suid :: u32
  cr_sgid :: u32
  cr_euid :: u32
  cr_egid :: u32
  cr_fsuid :: u32
  cr_fsgid :: u32
  cr_securebits :: u32
  cr_caps :: msg_capabilities
  cr_user_ns :: msg_user_namespace

text \<open>\<^verbatim>\<open>struct msg_ns\<close> is a union of ten named inode numbers and the array \<^verbatim>\<open>inum[ns_max_types]\<close>.\<close>

type_synonym msg_ns = "u32 list"

definition ns_uts :: nat where [tg_consts]: "ns_uts = 0"
definition ns_ipc :: nat where [tg_consts]: "ns_ipc = 1"
definition ns_mnt :: nat where [tg_consts]: "ns_mnt = 2"
definition ns_pid :: nat where [tg_consts]: "ns_pid = 3"
definition ns_pid_for_children :: nat where [tg_consts]: "ns_pid_for_children = 4"
definition ns_net :: nat where [tg_consts]: "ns_net = 5"
definition ns_time :: nat where [tg_consts]: "ns_time = 6"
definition ns_time_for_children :: nat where [tg_consts]: "ns_time_for_children = 7"
definition ns_cgroup :: nat where [tg_consts]: "ns_cgroup = 8"
definition ns_user :: nat where [tg_consts]: "ns_user = 9"
definition ns_max_types :: nat where [tg_consts]: "ns_max_types = 10"

record msg_k8s =
  kb_cgrpid :: u64
  kb_cgrp_tracker_id :: u64
  kb_docker_id :: "byte list"

record heap_exe =
  hx_buf :: "byte list"
  hx_end :: "byte list"
  hx_len :: u32
  hx_error :: u32
  hx_arg_len :: u32
  hx_arg_start :: u32

record msg_process =
  mp_size :: u32
  mp_pid :: u32
  mp_tid :: u32
  mp_nspid :: u32
  mp_secureexec :: u32
  mp_uid :: u32
  mp_auid :: u32
  mp_flags :: u32
  mp_i_nlink :: u32
  mp_i_ino :: u64
  mp_ktime :: u64
  mp_size_path :: u16
  mp_size_args :: u16
  mp_size_cwd :: u16
  mp_size_envs :: u16

text \<open>
  The union of \<^verbatim>\<open>struct msg_process\<close> and \<^verbatim>\<open>char buffer[PADDED_BUFFER]\<close> is kept as the header
  \<open>ee_process\<close> and the bytes \<open>ee_buffer\<close>, both indexed from the start of the union: the header occupies
  the first \<open>SIZEOF_MSG_PROCESS\<close> bytes, which no write to the buffer reaches.
\<close>

record msg_execve_event =
  ee_common :: msg_common
  ee_kube :: msg_k8s
  ee_parent :: msg_execve_key
  ee_parent_flags :: u64
  ee_creds :: msg_cred
  ee_ns :: msg_ns
  ee_cleanup_key :: msg_execve_key
  ee_process :: msg_process
  ee_buffer :: "byte list"
  ee_exe :: heap_exe

record binary =
  bin_path_length :: int
  bin_reversed :: u32
  bin_path :: "byte list"
  bin_end :: "byte list"
  bin_end_r :: "byte list"
  bin_args :: "byte list"
  bin_mb_bitset :: u64
  bin_mb_gen :: u64

record execve_map_value =
  ev_key :: msg_execve_key
  ev_pkey :: msg_execve_key
  ev_flags :: u32
  ev_nspid :: u32
  ev_ns :: msg_ns
  ev_caps :: msg_capabilities
  ev_bin :: binary

record msg_clone_event =
  ce_common :: msg_common
  ce_parent :: msg_execve_key
  ce_tgid :: u32
  ce_tid :: u32
  ce_nspid :: u32
  ce_flags :: u32
  ce_ktime :: u64

record exit_info =
  xi_code :: u32
  xi_tid :: u32

record msg_exit =
  me_common :: msg_common
  me_current :: msg_execve_key
  me_info :: exit_info

record data_event_id =
  di_pid :: u64
  di_time :: u64

record data_event_desc =
  dd_error :: u32
  dd_pad :: u32
  dd_leftover :: u32
  dd_size :: u32
  dd_id :: data_event_id

record msg_data =
  md_common :: msg_common
  md_id :: data_event_id
  md_arg :: "byte list"

datatype cgroup_state = CGROUP_UNTRACKED | CGROUP_NEW | CGROUP_RUNNING | CGROUP_RUNNING_PROC

record cgroup_tracking_value =
  ct_state :: cgroup_state
  ct_hierarchy_id :: u32
  ct_level :: u32
  ct_name :: "byte list"

record msg_cgroup_event =
  cg_common :: msg_common
  cg_parent :: msg_execve_key
  cg_cgrp_op :: u32
  cg_pid :: u32
  cg_nspid :: u32
  cg_flags :: u32
  cg_ktime :: u64
  cg_cgrpid_tracker :: u64
  cg_cgrpid :: u64
  cg_cgrp_data :: cgroup_tracking_value
  cg_path :: "byte list"

record msg_throttle =
  mt_common :: msg_common
  mt_kube :: msg_k8s

text \<open>
  The scratch message of the generic sensors. Its head up to \<open>gk_args\<close> is the event that user space reads; the
  rest is the working state of the tail-called programs. The five registers \<^verbatim>\<open>a0\<close> to \<^verbatim>\<open>a4\<close> are a list.
\<close>

record msg_selector_data =
  sd_curr :: u64
  sd_pass :: bool
  sd_active :: "bool list"
  sd_match_ns :: u64
  sd_match_cap :: u64

datatype path_state = STATE_INIT | STATE_WORK

text \<open>A \<^verbatim>\<open>struct path\<close> lies in the kernel, or is the one the program builds itself for a bare dentry.\<close>

datatype path_ref = Path_at ptr | Path_buf

record path_val =
  pt_mnt :: ptr
  pt_dentry :: ptr

record generic_path =
  gp_state :: path_state
  gp_off :: u32
  gp_cnt :: u32
  gp_path_buf :: path_val
  gp_path :: path_ref
  gp_root_dentry :: ptr
  gp_root_mnt :: ptr
  gp_dentry :: ptr
  gp_vfsmnt :: ptr
  gp_mnt :: ptr

record msg_generic_kprobe =
  gk_common :: msg_common
  gk_current :: msg_execve_key
  gk_ns :: msg_ns
  gk_caps :: msg_capabilities
  gk_func_id :: u64
  gk_retprobe_id :: u64
  gk_action :: u64
  gk_action_arg_id :: u32
  gk_tid :: u32
  gk_kernel_stack_id :: u64
  gk_user_stack_id :: u64
  gk_args :: "byte list"
  gk_a :: "u64 list"
  gk_argsoff :: "u64 list"
  gk_sel :: msg_selector_data
  gk_idx :: u32
  gk_tailcall_index_process :: u32
  gk_tailcall_index_selector :: u32
  gk_pass :: u32
  gk_lsm_post :: bool
  gk_curr :: execve_map_value
  gk_exe :: heap_exe
  gk_path :: generic_path

record tetragon_conf =
  tc_loglevel :: u32
  tc_pid :: u32
  tc_nspid :: u32
  tc_tg_cgrp_hierarchy :: u32
  tc_tg_cgrpv1_subsys_idx :: u32
  tc_tg_cgrp_level :: u32
  tc_tg_cgrpid :: u64
  tc_cgrp_fs_magic :: u64
  tc_use_perf_ring_buf :: u8

text \<open>The message of the loader sensor (\<^verbatim>\<open>process/bpf_loader.c\<close>); \<open>ml_pe\<close> is not sent.\<close>

record msg_loader =
  ml_common :: msg_common
  ml_current :: msg_execve_key
  ml_pid :: u32
  ml_buildid_size :: u32
  ml_path_size :: u32
  ml_buildid :: "byte list"
  ml_path :: "byte list"
  ml_pe :: ptr

text \<open>Every message the modelled programs hand to the event ring.\<close>

datatype tg_event =
    Ev_execve msg_execve_event
  | Ev_clone msg_clone_event
  | Ev_exit msg_exit
  | Ev_data msg_data
  | Ev_cgroup msg_cgroup_event
  | Ev_throttle msg_throttle
  | Ev_generic msg_generic_kprobe
  | Ev_loader msg_loader

section \<open>Sizes and offsets\<close>

definition SIZEOF_MSG_COMMON :: nat where [tg_consts]: "SIZEOF_MSG_COMMON = 16"
definition SIZEOF_MSG_EXECVE_KEY :: nat where [tg_consts]: "SIZEOF_MSG_EXECVE_KEY = 16"
definition SIZEOF_MSG_K8S :: nat where [tg_consts]: "SIZEOF_MSG_K8S = 8 + 8 + 128"
definition SIZEOF_MSG_CRED :: nat where [tg_consts]: "SIZEOF_MSG_CRED = 10 * 4 + 3 * 8 + 4 * 4"
definition SIZEOF_MSG_NS :: nat where [tg_consts]: "SIZEOF_MSG_NS = 10 * 4"
definition SIZEOF_MSG_PROCESS :: nat where [tg_consts]: "SIZEOF_MSG_PROCESS = 10 * 4 + 2 * 8 + 4 * 2"
definition SIZEOF_HEAP_EXE :: nat where [tg_consts]: "SIZEOF_HEAP_EXE = 256 + 128 + 4 * 4"
definition SIZEOF_DATA_EVENT_DESC :: nat where [tg_consts]: "SIZEOF_DATA_EVENT_DESC = 4 * 4 + 2 * 8"
definition SIZEOF_MSG_CLONE_EVENT :: nat where [tg_consts]: "SIZEOF_MSG_CLONE_EVENT = 16 + 16 + 4 * 4 + 8"
definition SIZEOF_MSG_EXIT :: nat where [tg_consts]: "SIZEOF_MSG_EXIT = 16 + 16 + 8"
definition SIZEOF_MSG_THROTTLE :: nat where [tg_consts]: "SIZEOF_MSG_THROTTLE = 16 + 144"
definition SIZEOF_MSG_LOADER :: nat where [tg_consts]: "SIZEOF_MSG_LOADER = 4160"
definition SIZEOF_MSG_CGROUP_EVENT :: nat
  where [tg_consts]: "SIZEOF_MSG_CGROUP_EVENT = 16 + 16 + 4 * 4 + 3 * 8 + 144 + 4096"
definition OFFSETOF_MSG_DATA_ARG :: nat where [tg_consts]: "OFFSETOF_MSG_DATA_ARG = 16 + 16"

definition PADDED_BUFFER :: nat where
  [tg_consts]: "PADDED_BUFFER = BUFFER + MAXARGLENGTH + SIZEOF_MSG_PROCESS + SIZEOF_MSG_PROCESS + CWD_MAX"

definition OFFSETOF_EXECVE_BUFFER :: nat where
  [tg_consts]: "OFFSETOF_EXECVE_BUFFER =
     SIZEOF_MSG_COMMON + SIZEOF_MSG_K8S + SIZEOF_MSG_EXECVE_KEY + 8 + SIZEOF_MSG_CRED
     + SIZEOF_MSG_NS + SIZEOF_MSG_EXECVE_KEY"

definition SIZEOF_MSG_EXECVE_EVENT :: "build \<Rightarrow> nat" where
  [tg_consts]: "SIZEOF_MSG_EXECVE_EVENT bd =
     OFFSETOF_EXECVE_BUFFER + PADDED_BUFFER + (if bd_large bd then SIZEOF_HEAP_EXE else 0)"

section \<open>Little-endian encoding\<close>

definition le_bytes :: "nat \<Rightarrow> 'a::len word \<Rightarrow> byte list" where
  "le_bytes n w = map (\<lambda>i. ucast (drop_bit (8 * i) w)) [0..<n]"

fun le_word :: "byte list \<Rightarrow> 'a::len word" where
  "le_word [] = 0"
| "le_word (b # bs) = ucast b OR push_bit 8 (le_word bs)"

definition desc_bytes :: "data_event_desc \<Rightarrow> byte list" where
  "desc_bytes d = le_bytes 4 (dd_error d) @ le_bytes 4 (dd_pad d) @ le_bytes 4 (dd_leftover d)
     @ le_bytes 4 (dd_size d) @ le_bytes 8 (di_pid (dd_id d)) @ le_bytes 8 (di_time (dd_id d))"

definition desc_of_bytes :: "byte list \<Rightarrow> data_event_desc" where
  "desc_of_bytes bs =
     \<lparr>dd_error = le_word (slice 0 4 bs), dd_pad = le_word (slice 4 4 bs),
      dd_leftover = le_word (slice 8 4 bs), dd_size = le_word (slice 12 4 bs),
      dd_id = \<lparr>di_pid = le_word (slice 16 8 bs), di_time = le_word (slice 24 8 bs)\<rparr>\<rparr>"

lemma length_le_bytes [simp]: "length (le_bytes n w) = n"
  by (simp add: le_bytes_def)

lemma le_bytes_Suc: "le_bytes (Suc n) w = ucast w # le_bytes n (drop_bit 8 w)"
proof -
  have "[0..<Suc n] = 0 # map Suc [0..<n]"
    by (simp add: upt_conv_Cons map_Suc_upt del: upt_Suc)
  then show ?thesis
    by (simp add: le_bytes_def drop_bit_drop_bit ac_simps del: upt_Suc)
qed

lemma bit_le_word: "bit (le_word bs :: 'a::len word) i \<longleftrightarrow>
    i < LENGTH('a) \<and> i div 8 < length bs \<and> bit (bs ! (i div 8)) (i mod 8)"
proof (induction bs arbitrary: i)
  case Nil
  then show ?case by simp
next
  case (Cons b bs)
  show ?case
  proof (cases "i < 8")
    case True
    then show ?thesis by (auto simp: bit_simps)
  next
    case False
    then have "bit b i = False"
      using bit_imp_le_length [of b i] by auto
    with False Cons.IH [of "i - 8"] show ?thesis
      by (auto simp: bit_simps le_div_geq le_mod_geq nth_Cons')
  qed
qed

lemma le_word_le_bytes:
  fixes w :: "'a::len word"
  assumes "LENGTH('a) \<le> 8 * n"
  shows "le_word (le_bytes n w) = w"
proof (rule bit_word_eqI)
  fix i assume i: "i < LENGTH('a)"
  with assms have "i div 8 < n" by auto
  then have "bit (le_bytes n w ! (i div 8)) (i mod 8) = bit w i"
    by (simp add: le_bytes_def bit_simps)
  with i \<open>i div 8 < n\<close> show "bit (le_word (le_bytes n w) :: 'a word) i = bit w i"
    by (simp add: bit_le_word)
qed

lemma length_desc_bytes [simp]: "length (desc_bytes d) = SIZEOF_DATA_EVENT_DESC"
  by (simp add: desc_bytes_def tg_consts)

section \<open>Sample values\<close>

text \<open>A build variant and zeroed messages, for evaluating the model on concrete inputs.\<close>

definition build_v61 :: build where
  "build_v61 = \<lparr>bd_large = True, bd_v511 = True, bd_v61 = True, bd_v612 = False, bd_rhel7 = False,
     bd_policy_stats = False\<rparr>"

definition build_v419 :: build where
  "build_v419 = \<lparr>bd_large = False, bd_v511 = False, bd_v61 = False, bd_v612 = False, bd_rhel7 = False,
     bd_policy_stats = False\<rparr>"

definition zero_common :: msg_common where
  "zero_common = \<lparr>mc_op = 0, mc_flags = 0, mc_size = 0, mc_ktime = 0\<rparr>"

definition zero_k8s :: msg_k8s where
  "zero_k8s = \<lparr>kb_cgrpid = 0, kb_cgrp_tracker_id = 0, kb_docker_id = replicate DOCKER_ID_LENGTH 0\<rparr>"

definition zero_exit :: msg_exit where
  "zero_exit = \<lparr>me_common = zero_common, me_current = \<lparr>ek_pid = 0, ek_ktime = 0\<rparr>,
     me_info = \<lparr>xi_code = 0, xi_tid = 0\<rparr>\<rparr>"

end
