(* ===== verification/Event_Output.thy ===== *)
theory Event_Output
  imports Messages
begin

text \<open>
  Sending a message to user space and the counters kept on the way: the error metrics
  (\<^verbatim>\<open>lib/errmetrics.h\<close>), the policy action counters (\<^verbatim>\<open>lib/policy_stats.h\<close>) and the output functions
  with their per-message failure statistics (\<^verbatim>\<open>lib/process.h\<close>). The three kinds of counters satisfy
  the \<open>counter_store\<close> interface.
\<close>

section \<open>Error metrics\<close>

record errmetrics_key =
  emk_error :: u16
  emk_file_id :: u8
  emk_line_nr :: u16
  emk_helper_id :: u32

type_synonym errmetrics_map = "(errmetrics_key, u32) lru_map"

definition errmetrics_update ::
  "u16 \<Rightarrow> u8 \<Rightarrow> u16 \<Rightarrow> u64 \<Rightarrow> errmetrics_map \<Rightarrow> errmetrics_map" where
  "errmetrics_update error file_id line_nr helper_id m =
     (let key = \<lparr>emk_error = error, emk_file_id = file_id, emk_line_nr = line_nr,
                 emk_helper_id = ucast helper_id\<rparr>
      in case map_lookup_elem m key of
           Some count \<Rightarrow> map_modify m key (\<lambda>c. c + 1)
         | None \<Rightarrow> fst (lru_update_elem m key 1))"

text \<open>
  \<^verbatim>\<open>with_errmetrics(helper, \<dots>)\<close>: a helper call that answers an error is counted under the file, the
  line and the helper; the answer is passed on. The helper number is the BPF function id
  (\<^verbatim>\<open>map_update_elem\<close> is 2, \<^verbatim>\<open>probe_read\<close> is 4).
\<close>

definition with_errmetrics ::
  "u8 \<Rightarrow> u16 \<Rightarrow> u64 \<Rightarrow> int \<Rightarrow> errmetrics_map \<Rightarrow> errmetrics_map" where
  "with_errmetrics fileid line helper err m =
     (if err \<noteq> 0 then errmetrics_update (word_of_int (- err)) fileid line helper m else m)"

definition fn_map_update_elem :: u64 where [tg_consts]: "fn_map_update_elem = 2"
definition fn_probe_read :: u64 where [tg_consts]: "fn_probe_read = 4"

fun get_fileid :: "string \<Rightarrow> u8" where
  "get_fileid f =
     (if f = ''bpf_cgtracker.c'' then 1
      else if f = ''bpf_cgroup_mkdir.c'' then 2
      else if f = ''bpf_enforcer.h'' then 3
      else if f = ''bpf_alignchecker.c'' then 4
      else if f = ''retprobe_map.h'' then 5
      else if f = ''generic_path.h'' then 6
      else if f = ''bpf_generic_tracepoint.c'' then 7
      else if f = ''process.h'' then 8
      else if f = ''bpf_execve_event.c'' then 9
      else if f = ''uprobe_offload.h'' then 10
      else 0)"

section \<open>Output\<close>

datatype ring = Perf_ring | Bpf_ring

definition SENT_FAILED_UNKNOWN :: nat where [tg_consts]: "SENT_FAILED_UNKNOWN = 0"
definition SENT_FAILED_ENOENT :: nat where [tg_consts]: "SENT_FAILED_ENOENT = 1"
definition SENT_FAILED_E2BIG :: nat where [tg_consts]: "SENT_FAILED_E2BIG = 2"
definition SENT_FAILED_EBUSY :: nat where [tg_consts]: "SENT_FAILED_EBUSY = 3"
definition SENT_FAILED_EINVAL :: nat where [tg_consts]: "SENT_FAILED_EINVAL = 4"
definition SENT_FAILED_ENOSPC :: nat where [tg_consts]: "SENT_FAILED_ENOSPC = 5"
definition SENT_FAILED_EAGAIN :: nat where [tg_consts]: "SENT_FAILED_EAGAIN = 6"
definition SENT_FAILED_MAX :: nat where [tg_consts]: "SENT_FAILED_MAX = 7"

definition POLICY_POST :: nat where [tg_consts]: "POLICY_POST = 1"
definition POLICY_NACTIONS :: nat where [tg_consts]: "POLICY_NACTIONS = 8"

text \<open>
  \<open>os_answer\<close> is what the kernel's output helper answers, given the ring, the messages it already took
  and the size: any function, as ring occupancy and the reader are outside the programs. The array
  maps with one element are optional values (\<open>None\<close>: the lookup answers NULL).
\<close>

record out_state =
  os_sent :: "(tg_event \<times> u64) list"
  os_answer :: "ring \<Rightarrow> (tg_event \<times> u64) list \<Rightarrow> u64 \<Rightarrow> int"
  os_tg_stats :: "(u8 \<Rightarrow> nat \<Rightarrow> u64) option"
  os_policy_stats :: "(nat \<Rightarrow> u64) option"
  os_conf :: "tetragon_conf option"

definition policy_stats_update :: "build \<Rightarrow> nat \<Rightarrow> out_state \<Rightarrow> out_state" where
  "policy_stats_update bd act s =
     (if bd_policy_stats bd
      then s\<lparr>os_policy_stats := map_option (\<lambda>ps. ps(act := ps act + 1)) (os_policy_stats s)\<rparr>
      else s)"

definition sent_failed_slot :: "int \<Rightarrow> nat" where
  "sent_failed_slot err =
     (if err = -2 then SENT_FAILED_ENOENT
      else if err = -7 then SENT_FAILED_E2BIG
      else if err = -11 then SENT_FAILED_EAGAIN
      else if err = -16 then SENT_FAILED_EBUSY
      else if err = -22 then SENT_FAILED_EINVAL
      else if err = -28 then SENT_FAILED_ENOSPC
      else SENT_FAILED_UNKNOWN)"

definition event_output_update_error_metric :: "u8 \<Rightarrow> int \<Rightarrow> out_state \<Rightarrow> out_state" where
  "event_output_update_error_metric msg_op err s =
     s\<lparr>os_tg_stats :=
         map_option (\<lambda>ks. ks(msg_op := (ks msg_op)(sent_failed_slot err := ks msg_op (sent_failed_slot err) + 1)))
           (os_tg_stats s)\<rparr>"

definition ring_output :: "ring \<Rightarrow> tg_event \<Rightarrow> u64 \<Rightarrow> out_state \<Rightarrow> out_state \<times> int" where
  "ring_output r ev sz s =
     (let err = os_answer s r (os_sent s) sz
      in if err < 0 then (s, err) else (s\<lparr>os_sent := os_sent s @ [(ev, sz)]\<rparr>, err))"

definition perf_event_output_metric ::
  "build \<Rightarrow> u8 \<Rightarrow> tg_event \<Rightarrow> u64 \<Rightarrow> out_state \<Rightarrow> out_state" where
  "perf_event_output_metric bd msg_op ev sz s =
     (case ring_output Perf_ring ev sz s of
        (s', err) \<Rightarrow> if err < 0 then event_output_update_error_metric msg_op err s'
                    else policy_stats_update bd POLICY_POST s')"

definition uses_perf_ring :: "build \<Rightarrow> out_state \<Rightarrow> bool" where
  "uses_perf_ring bd s =
     (if bd_v511 bd then (case os_conf s of None \<Rightarrow> False | Some c \<Rightarrow> tc_use_perf_ring_buf c \<noteq> 0)
      else True)"

definition event_output :: "build \<Rightarrow> tg_event \<Rightarrow> u64 \<Rightarrow> out_state \<Rightarrow> out_state \<times> int" where
  "event_output bd ev sz s =
     ring_output (if uses_perf_ring bd s then Perf_ring else Bpf_ring) ev sz s"

definition event_output_metric ::
  "build \<Rightarrow> u8 \<Rightarrow> tg_event \<Rightarrow> u64 \<Rightarrow> out_state \<Rightarrow> out_state" where
  "event_output_metric bd msg_op ev sz s =
     (if uses_perf_ring bd s then perf_event_output_metric bd msg_op ev sz s
      else case ring_output Bpf_ring ev sz s of
             (s', err) \<Rightarrow> if err < 0 then event_output_update_error_metric msg_op err s'
                         else policy_stats_update bd POLICY_POST s')"

lemmas output_defs [tg_defs] =
  policy_stats_update_def event_output_update_error_metric_def ring_output_def
  perf_event_output_metric_def event_output_metric_def event_output_def

section \<open>Counters\<close>

definition em_count :: "errmetrics_map \<Rightarrow> errmetrics_key \<Rightarrow> nat" where
  "em_count m k = (case map_lookup_elem m k of None \<Rightarrow> 0 | Some c \<Rightarrow> unat c)"

definition em_bump :: "errmetrics_map \<Rightarrow> errmetrics_key \<Rightarrow> errmetrics_map" where
  "em_bump m k = errmetrics_update (emk_error k) (emk_file_id k) (emk_line_nr k) (ucast (emk_helper_id k)) m"

definition em_roomy :: "errmetrics_map \<Rightarrow> bool" where
  "em_roomy m \<longleftrightarrow> (\<forall>e k. bm_admit m e k = 0 \<and> lru_evict m e k = [])"

lemma em_bump_eq:
  "em_bump m k = (case map_lookup_elem m k of
     Some _ \<Rightarrow> map_modify m k (\<lambda>c. c + 1) | None \<Rightarrow> fst (lru_update_elem m k 1))"
  by (cases k) (auto simp: em_bump_def errmetrics_update_def Let_def split: option.split)

interpretation em: counter_store em_bump em_count em_roomy "2 ^ 32"
proof unfold_locales
  fix m k assume g: "em_roomy m"
  then show "em_count (em_bump m k) k = (em_count m k + 1) mod 2 ^ 32"
    by (auto simp: em_count_def em_bump_eq em_roomy_def map_ops_defs unat_word_ariths
        split: option.split)
  show "em_roomy (em_bump m k)"
    using g by (auto simp: em_bump_eq em_roomy_def map_ops_defs split: option.split)
next
  fix m :: errmetrics_map and j k :: errmetrics_key assume "em_roomy m" "j \<noteq> k"
  then show "em_count (em_bump m k) j = em_count m j"
    by (auto simp: em_count_def em_bump_eq em_roomy_def map_ops_defs split: option.split)
next
  fix m k show "em_count m k < 2 ^ 32"
    by (auto simp: em_count_def unat_bounds split: option.split)
qed

definition sent_failed :: "out_state \<Rightarrow> u8 \<times> nat \<Rightarrow> nat" where
  "sent_failed s = (\<lambda>(msg_op, slot). case os_tg_stats s of None \<Rightarrow> 0 | Some ks \<Rightarrow> unat (ks msg_op slot))"

definition posted :: "out_state \<Rightarrow> nat \<Rightarrow> nat" where
  "posted s act = (case os_policy_stats s of None \<Rightarrow> 0 | Some ps \<Rightarrow> unat (ps act))"

interpretation pol: counter_store "\<lambda>s a. policy_stats_update bd a s" posted
  "\<lambda>s. os_policy_stats s \<noteq> None \<and> bd_policy_stats bd" "2 ^ 64" for bd
proof unfold_locales
  fix s :: out_state and k :: nat
  show "posted s k < 2 ^ 64"
    by (auto simp: posted_def unat_bounds split: option.split)
qed (auto simp: posted_def policy_stats_update_def unat_word_ariths)

section \<open>Every message is accounted for\<close>

text \<open>\<open>failed_total\<close> sums the failure counters of all message operations, \<open>send_all\<close> is a sequence of sends.\<close>

definition failed_total :: "out_state \<Rightarrow> u64" where
  "failed_total s = (case os_tg_stats s of None \<Rightarrow> 0
     | Some ks \<Rightarrow> (\<Sum>op \<in> UNIV. \<Sum>slot < SENT_FAILED_MAX. ks op slot))"

definition send_all :: "build \<Rightarrow> (u8 \<times> tg_event \<times> u64) list \<Rightarrow> out_state \<Rightarrow> out_state" where
  "send_all bd xs s = foldl (\<lambda>s (op, ev, sz). event_output_metric bd op ev sz s) s xs"

lemma sent_failed_slot_less: "sent_failed_slot err < SENT_FAILED_MAX"
  by (simp add: sent_failed_slot_def tg_consts)

lemma sum_fun_upd_Suc:
  fixes f :: "'b \<Rightarrow> 'c::comm_ring_1"
  assumes "finite A" "x \<in> A"
  shows "sum (f(x := f x + 1)) A = sum f A + 1"
proof -
  have "sum (f(x := f x + 1)) A = (f x + 1) + sum f (A - {x})"
    using assms by (simp add: sum.remove [of A x])
  moreover have "sum f A = f x + sum f (A - {x})"
    using assms by (simp add: sum.remove)
  ultimately show ?thesis by (simp add: algebra_simps)
qed

lemma failed_total_update:
  assumes "os_tg_stats s \<noteq> None"
  shows "failed_total (event_output_update_error_metric op err s) = failed_total s + 1"
proof -
  obtain ks where ks: "os_tg_stats s = Some ks" using assms by auto
  define slot where "slot = sent_failed_slot err"
  define row where "row = (\<lambda>o'. \<Sum>l < SENT_FAILED_MAX. ks o' l)"
  have row: "(\<Sum>l < SENT_FAILED_MAX. ((ks op)(slot := ks op slot + 1)) l) = row op + 1"
    unfolding row_def using sent_failed_slot_less [of err]
    by (intro sum_fun_upd_Suc) (auto simp: slot_def)
  have "failed_total (event_output_update_error_metric op err s) = sum (row(op := row op + 1)) UNIV"
    unfolding failed_total_def event_output_update_error_metric_def
  proof (simp add: ks, rule sum.cong)
    fix o' :: u8
    show "sum (if o' = op then (ks op)(sent_failed_slot err := ks op (sent_failed_slot err) + 1) else ks o')
            {..<SENT_FAILED_MAX} = (if o' = op then row op + 1 else row o')"
      using row by (simp add: row_def slot_def)
  qed simp
  moreover have "sum (row(op := row op + 1)) UNIV = sum row UNIV + 1"
    by (rule sum_fun_upd_Suc) auto
  moreover have "failed_total s = sum row UNIV"
    by (simp add: failed_total_def ks row_def)
  ultimately show ?thesis by simp
qed

text \<open>The two outcomes of a send, as one case rule.\<close>

lemma event_output_metric_cases:
  obtains (sent) s' where "os_sent s' = os_sent s @ [(ev, sz)]" "os_tg_stats s' = os_tg_stats s"
      "os_answer s' = os_answer s" "os_conf s' = os_conf s" "os_policy_stats s' = os_policy_stats s"
      "event_output_metric bd op ev sz s = policy_stats_update bd POLICY_POST s'"
    | (failed) err where "err < 0"
      "event_output_metric bd op ev sz s = event_output_update_error_metric op err s"
proof (cases "os_answer s (if uses_perf_ring bd s then Perf_ring else Bpf_ring) (os_sent s) sz < 0")
  case True
  then show ?thesis
    by (intro failed) (auto simp: event_output_metric_def perf_event_output_metric_def
        ring_output_def Let_def)
next
  case False
  then show ?thesis
    by (intro sent [of "s\<lparr>os_sent := os_sent s @ [(ev, sz)]\<rparr>"])
      (auto simp: event_output_metric_def perf_event_output_metric_def ring_output_def Let_def)
qed

lemma output_metric_frame [simp]:
  "os_answer (event_output_metric bd op ev sz s) = os_answer s"
  "os_conf (event_output_metric bd op ev sz s) = os_conf s"
  "(os_tg_stats (event_output_metric bd op ev sz s) = None) = (os_tg_stats s = None)"
  "(os_policy_stats (event_output_metric bd op ev sz s) = None) = (os_policy_stats s = None)"
  by (cases rule: event_output_metric_cases [of s ev sz bd op];
      simp add: policy_stats_update_def event_output_update_error_metric_def)+

lemma output_metric_accounting:
  assumes "os_tg_stats s \<noteq> None"
  shows "of_nat (length (os_sent (event_output_metric bd op ev sz s)))
           + failed_total (event_output_metric bd op ev sz s)
         = of_nat (length (os_sent s)) + failed_total s + 1"
proof (cases rule: event_output_metric_cases [of s ev sz bd op])
  case (sent s')
  then show ?thesis by (simp add: failed_total_def policy_stats_update_def)
next
  case (failed err)
  moreover have "os_sent (event_output_update_error_metric op err s) = os_sent s"
    by (simp add: event_output_update_error_metric_def)
  ultimately show ?thesis by (simp add: failed_total_update [OF assms])
qed

text \<open>
  C15. Every send is accounted for: after any sequence of sends, in any build variant and whatever the
  kernel's ring answers, the number of messages delivered plus the sum of all failure counters has
  grown by exactly the number of sends (modulo the width of the counters), so no message is dropped
  without being counted and none is counted twice.
\<close>

theorem send_all_accounting:
  assumes "os_tg_stats s \<noteq> None"
  shows "of_nat (length (os_sent (send_all bd xs s))) + failed_total (send_all bd xs s)
         = of_nat (length (os_sent s)) + failed_total s + of_nat (length xs)"
  using assms
proof (induction xs arbitrary: s)
  case Nil
  then show ?case by (simp add: send_all_def)
next
  case (Cons x xs)
  obtain op ev sz where x: "x = (op, ev, sz)" by (cases x)
  have "os_tg_stats (event_output_metric bd op ev sz s) \<noteq> None"
    using Cons.prems by simp
  from Cons.IH [OF this] output_metric_accounting [OF Cons.prems, of bd op ev sz]
  show ?case by (simp add: send_all_def x algebra_simps)
qed

text \<open>A kernel that refuses every 40-byte message with \<open>-ENOSPC\<close>.\<close>

definition busy_out :: out_state where
  "busy_out = \<lparr>os_sent = [], os_answer = (\<lambda>_ xs sz. if sz = 40 then -28 else 0),
     os_tg_stats = Some (\<lambda>_ _. 0), os_policy_stats = None, os_conf = None\<rparr>"

theorem send_all_accounting_witness:
  "os_tg_stats busy_out \<noteq> None
   \<and> of_nat (length (os_sent (send_all build_v61 [(7, Ev_exit zero_exit, 40), (23, Ev_exit zero_exit, 56)] busy_out)))
       + failed_total (send_all build_v61 [(7, Ev_exit zero_exit, 40), (23, Ev_exit zero_exit, 56)] busy_out) = 2
   \<and> length (os_sent (send_all build_v61 [(7, Ev_exit zero_exit, 40), (23, Ev_exit zero_exit, 56)] busy_out)) = 1"
proof -
  let ?xs = "[(7, Ev_exit zero_exit, 40), (23, Ev_exit zero_exit, 56)]"
  have st: "os_tg_stats busy_out \<noteq> None" and sent: "os_sent busy_out = []"
    and total: "failed_total busy_out = 0"
    by (simp_all add: busy_out_def failed_total_def)
  have len: "length (os_sent (send_all build_v61 ?xs busy_out)) = 1"
    by (simp add: send_all_def busy_out_def tg_defs uses_perf_ring_def build_v61_def)
  show ?thesis
    using st len send_all_accounting [OF st, of build_v61 ?xs] sent total by simp
qed

end
