(* ===== verification/Execve_Map.thy ===== *)
theory Execve_Map
  imports Event_Output
begin

text \<open>
  The process table of the base sensor (\<^verbatim>\<open>lib/process.h\<close>): \<^verbatim>\<open>execve_map\<close>, indexed by thread-group id,
  its entry counter \<^verbatim>\<open>execve_map_stats\<close>, and \<^verbatim>\<open>tg_execve_joined_info_map\<close>, which carries credential
  information from the \<^verbatim>\<open>security_bprm_committing_creds\<close> hook to the exec tracepoint.
\<close>

section \<open>State\<close>

definition zero_key :: msg_execve_key where
  "zero_key = \<lparr>ek_pid = 0, ek_ktime = 0\<rparr>"

definition zero_binary :: binary where
  "zero_binary = \<lparr>bin_path_length = 0, bin_reversed = 0,
     bin_path = replicate BINARY_PATH_MAX_LEN 0, bin_end = replicate STRING_POSTFIX_MAX_LENGTH 0,
     bin_end_r = replicate STRING_POSTFIX_MAX_LENGTH 0, bin_args = replicate MAXARGLENGTH 0,
     bin_mb_bitset = 0, bin_mb_gen = 0\<rparr>"

definition zero_execve_map_value :: execve_map_value where
  "zero_execve_map_value = \<lparr>ev_key = zero_key, ev_pkey = zero_key, ev_flags = 0, ev_nspid = 0,
     ev_ns = replicate ns_max_types 0,
     ev_caps = \<lparr>cap_permitted = 0, cap_effective = 0, cap_inheritable = 0\<rparr>, ev_bin = zero_binary\<rparr>"

text \<open>
  \<open>xs_val\<close> is the per-CPU scratch value \<^verbatim>\<open>execve_val\<close>. The counters are signed 64-bit numbers, kept as
  words; \<open>None\<close> stands for a failed array lookup.
\<close>

record exec_state =
  xs_map :: "(u32, execve_map_value) bpf_map"
  xs_val :: "execve_map_value option"
  xs_stats :: "(nat \<Rightarrow> u64) option"
  xs_joined :: "(u64, execve_info) lru_map"
  xs_joined_stats :: "(nat \<Rightarrow> u64) option"

definition MAP_STATS_COUNT :: nat where [tg_consts]: "MAP_STATS_COUNT = 0"
definition MAP_STATS_EUPDATE :: nat where [tg_consts]: "MAP_STATS_EUPDATE = 1"
definition MAP_STATS_EDELETE :: nat where [tg_consts]: "MAP_STATS_EDELETE = 2"

section \<open>Operations\<close>

definition binary_reset :: "binary \<Rightarrow> binary" where
  "binary_reset b = zero_binary\<lparr>bin_mb_bitset := bin_mb_bitset b, bin_mb_gen := bin_mb_gen b\<rparr>"

text \<open>The first comparison of the C code converts its signed argument to unsigned.\<close>

definition validate_msg_execve_size :: "build \<Rightarrow> u64 \<Rightarrow> u64" where
  "validate_msg_execve_size bd size0 =
     (let mx = of_nat (SIZEOF_MSG_EXECVE_EVENT bd);
          size1 = (if size0 > mx then mx else size0)
      in if size1 <s 1 then of_nat OFFSETOF_EXECVE_BUFFER else size1)"

definition stats_update :: "(nat \<Rightarrow> u64) option \<Rightarrow> nat \<Rightarrow> u64 \<Rightarrow> (nat \<Rightarrow> u64) option" where
  "stats_update st key inc = map_option (\<lambda>c. c(key := c key + inc)) st"

definition execve_map_get_noinit :: "u32 \<Rightarrow> exec_state \<Rightarrow> execve_map_value option" where
  "execve_map_get_noinit pid s = map_lookup_elem (xs_map s) pid"

definition execve_map_get :: "u32 \<Rightarrow> exec_state \<Rightarrow> exec_state \<times> execve_map_value option" where
  "execve_map_get pid s =
     (case map_lookup_elem (xs_map s) pid of
        Some ev \<Rightarrow> (s, Some ev)
      | None \<Rightarrow>
          (case xs_val s of
             None \<Rightarrow> (s, None)
           | Some _ \<Rightarrow>
               (case map_update_elem (xs_map s) pid zero_execve_map_value BPF_ANY of
                  (m', err) \<Rightarrow>
                    let s' = s\<lparr>xs_val := Some zero_execve_map_value, xs_map := m',
                               xs_stats := (if err = 0 then stats_update (xs_stats s) MAP_STATS_COUNT 1
                                            else stats_update (xs_stats s) MAP_STATS_EUPDATE 1)\<rparr>
                    in (s', map_lookup_elem m' pid))))"

definition execve_map_delete :: "u32 \<Rightarrow> exec_state \<Rightarrow> exec_state" where
  "execve_map_delete pid s =
     (case map_delete_elem (xs_map s) pid of
        (m', err) \<Rightarrow>
          s\<lparr>xs_map := m',
            xs_stats := (if err = 0 then stats_update (xs_stats s) MAP_STATS_COUNT (-1)
                         else stats_update (xs_stats s) MAP_STATS_EDELETE 1)\<rparr>)"

text \<open>A write through the pointer that a lookup of \<open>pid\<close> returned.\<close>

definition execve_map_write :: "u32 \<Rightarrow> (execve_map_value \<Rightarrow> execve_map_value) \<Rightarrow> exec_state \<Rightarrow> exec_state" where
  "execve_map_write pid f s = s\<lparr>xs_map := map_modify (xs_map s) pid f\<rparr>"

definition execve_joined_info_map_set :: "u64 \<Rightarrow> execve_info \<Rightarrow> exec_state \<Rightarrow> exec_state" where
  "execve_joined_info_map_set tid info s =
     (case lru_update_elem (xs_joined s) tid info of
        (m', err) \<Rightarrow>
          s\<lparr>xs_joined := m',
            xs_joined_stats := (if err = 0 then stats_update (xs_joined_stats s) MAP_STATS_COUNT 1
                                else stats_update (xs_joined_stats s) MAP_STATS_EUPDATE 1)\<rparr>)"

definition execve_joined_info_map_clear :: "u64 \<Rightarrow> exec_state \<Rightarrow> exec_state" where
  "execve_joined_info_map_clear tid s =
     (case map_delete_elem (xs_joined s) tid of
        (m', err) \<Rightarrow>
          s\<lparr>xs_joined := m',
            xs_joined_stats := (if err = 0 then stats_update (xs_joined_stats s) MAP_STATS_COUNT (-1)
                                else stats_update (xs_joined_stats s) MAP_STATS_EDELETE 1)\<rparr>)"

definition execve_joined_info_map_get :: "u64 \<Rightarrow> exec_state \<Rightarrow> execve_info option" where
  "execve_joined_info_map_get tid s = map_lookup_elem (xs_joined s) tid"

section \<open>What the operations do to the table\<close>

abbreviation table :: "exec_state \<Rightarrow> u32 \<rightharpoonup> execve_map_value" where
  "table s \<equiv> map_lookup_elem (xs_map s)"

lemma table_write [simp]:
  "table (execve_map_write pid f s) j = (if j = pid then map_option f (table s pid) else table s j)"
  by (simp add: execve_map_write_def)

lemma write_frame [simp]:
  "xs_stats (execve_map_write pid f s) = xs_stats s"
  "xs_joined (execve_map_write pid f s) = xs_joined s"
  "xs_joined_stats (execve_map_write pid f s) = xs_joined_stats s"
  "xs_val (execve_map_write pid f s) = xs_val s"
  "bm_admit (xs_map (execve_map_write pid f s)) = bm_admit (xs_map s)"
  by (simp_all add: execve_map_write_def)

lemma table_delete [simp]:
  "table (execve_map_delete pid s) j = (if j = pid then None else table s j)"
  by (simp add: execve_map_delete_def split_beta)

lemma delete_frame [simp]:
  "xs_joined (execve_map_delete pid s) = xs_joined s"
  "xs_val (execve_map_delete pid s) = xs_val s"
  by (simp_all add: execve_map_delete_def split_beta)

text \<open>
  \<open>execve_map_get\<close> never changes an existing entry, adds at most a zeroed entry for its own id, and
  returns what the table holds afterwards.
\<close>

lemma execve_map_get_table:
  assumes "execve_map_get pid s = (s', r)"
  shows "r = table s' pid"
    and "j \<noteq> pid \<Longrightarrow> table s' j = table s j"
    and "table s pid \<noteq> None \<Longrightarrow> s' = s"
    and "table s pid = None \<Longrightarrow> table s' pid \<in> {None, Some zero_execve_map_value}"
  using assms by (auto simp: execve_map_get_def Let_def split_beta split: option.splits)

lemma execve_map_get_frame:
  assumes "execve_map_get pid s = (s', r)"
  shows "xs_joined s' = xs_joined s" "xs_joined_stats s' = xs_joined_stats s"
  using assms by (auto simp: execve_map_get_def Let_def split: option.splits prod.splits)

lemma execve_map_get_present: "table s pid = Some v \<Longrightarrow> execve_map_get pid s = (s, Some v)"
  by (simp add: execve_map_get_def)

lemma execve_map_get_accepts:
  assumes "table s pid = None" "xs_val s \<noteq> None" "bm_admit (xs_map s) (bm_elems (xs_map s)) pid = 0"
  shows "snd (execve_map_get pid s) = Some zero_execve_map_value"
  using assms map_update_accepts [OF assms(3), of zero_execve_map_value]
  by (auto simp: execve_map_get_def Let_def split_beta)

section \<open>The entry counter\<close>

text \<open>
  \<open>drift s\<close> is the difference between the counter and the number of entries: user space adds its own
  entries at startup, so the difference is a constant, not zero.
\<close>

definition drift :: "exec_state \<Rightarrow> u64 option" where
  "drift s = map_option (\<lambda>c. c MAP_STATS_COUNT - of_nat (card (dom (table s)))) (xs_stats s)"

lemma drift_get:
  assumes fin: "finite (dom (table s))" and g: "execve_map_get pid s = (s', r)"
  shows "finite (dom (table s')) \<and> drift s' = drift s"
proof (cases "table s pid = None \<and> xs_val s \<noteq> None")
  case False
  then have "s' = s" using g by (auto simp: execve_map_get_def split: option.splits)
  with fin show ?thesis by simp
next
  case True
  obtain m' err where up: "map_update_elem (xs_map s) pid zero_execve_map_value BPF_ANY = (m', err)"
    by (cases "map_update_elem (xs_map s) pid zero_execve_map_value BPF_ANY") auto
  have s': "s' = s\<lparr>xs_val := Some zero_execve_map_value, xs_map := m',
              xs_stats := (if err = 0 then stats_update (xs_stats s) MAP_STATS_COUNT 1
                           else stats_update (xs_stats s) MAP_STATS_EUPDATE 1)\<rparr>"
    using g True up by (auto simp: execve_map_get_def Let_def split: option.splits)
  have pid: "pid \<notin> dom (table s)" using True by auto
  show ?thesis
  proof (cases "err = 0")
    case True
    then have "dom (map_lookup_elem m') = insert pid (dom (table s))"
      using hash.dom_put_ok [of "xs_map s" pid zero_execve_map_value] up by simp
    with True s' fin pid show ?thesis
      by (cases "xs_stats s") (auto simp: drift_def stats_update_def)
  next
    case False
    then have "m' = xs_map s"
      using hash.put_refused [of "xs_map s" pid zero_execve_map_value] up by simp
    with False s' fin show ?thesis
      by (cases "xs_stats s") (auto simp: drift_def stats_update_def tg_consts)
  qed
qed

lemma dom_table_delete: "dom (table (execve_map_delete pid s)) = dom (table s) - {pid}"
  by (auto split: if_splits)

lemma drift_delete:
  assumes fin: "finite (dom (table s))"
  shows "finite (dom (table (execve_map_delete pid s))) \<and> drift (execve_map_delete pid s) = drift s"
proof -
  have st: "xs_stats (execve_map_delete pid s) =
      (if table s pid = None then stats_update (xs_stats s) MAP_STATS_EDELETE 1
       else stats_update (xs_stats s) MAP_STATS_COUNT (-1))"
    by (simp add: execve_map_delete_def ENOENT_def split_beta)
  have card: "card (dom (table s) - {pid}) =
      (if table s pid = None then card (dom (table s)) else card (dom (table s)) - 1)"
    using fin by (auto simp: card_Diff_singleton_if)
  have pos: "table s pid \<noteq> None \<Longrightarrow> 0 < card (dom (table s))"
    using fin by (auto simp: card_gt_0_iff)
  show ?thesis
    unfolding drift_def dom_table_delete st card using fin pos
    by (cases "xs_stats s") (auto simp: stats_update_def tg_consts of_nat_diff)
qed

lemma drift_write:
  assumes "finite (dom (table s))"
  shows "finite (dom (table (execve_map_write pid f s))) \<and> drift (execve_map_write pid f s) = drift s"
proof -
  have "dom (table (execve_map_write pid f s)) = dom (table s)"
    by (auto split: if_splits)
  with assms show ?thesis by (simp add: drift_def)
qed

section \<open>Properties\<close>

lemma validate_cases:
  "1 \<le> unat (validate_msg_execve_size bd sz)
   \<and> unat (validate_msg_execve_size bd sz) \<le> SIZEOF_MSG_EXECVE_EVENT bd
   \<and> (1 \<le> unat sz \<and> unat sz \<le> SIZEOF_MSG_EXECVE_EVENT bd \<longrightarrow> validate_msg_execve_size bd sz = sz)"
proof -
  let ?n = "SIZEOF_MSG_EXECVE_EVENT bd" and ?v = "validate_msg_execve_size bd sz"
  define size1 where "size1 = (if sz > of_nat ?n then of_nat ?n else sz)"
  have n: "?n = 5824 \<or> ?n = 6224" by (simp add: tg_consts)
  have v: "?v = (if size1 <s 1 then 320 else size1)"
    by (simp add: validate_msg_execve_size_def size1_def Let_def tg_consts)
  have le: "unat size1 \<le> ?n"
    using n by (auto simp: size1_def word_le_nat_alt linorder_not_less)
  have sgn: "size1 <s 1 \<longleftrightarrow> unat size1 = 0"
    using le n sless_1_u64 [of size1] by (auto simp: unat_eq_zero)
  have "unat sz \<le> ?n \<Longrightarrow> size1 = sz"
    using n by (auto simp: size1_def word_less_nat_alt)
  with le sgn v n show ?thesis by (auto split: if_splits)
qed

lemma validate_in_range:
  "1 \<le> unat sz \<Longrightarrow> unat sz \<le> SIZEOF_MSG_EXECVE_EVENT bd \<Longrightarrow> validate_msg_execve_size bd sz = sz"
  using validate_cases [of bd sz] by simp

text \<open>
  The size handed to the event ring for an exec message is always between 1 and the size of the
  message structure, whatever the collected size was (also when it is zero or, read as a signed number,
  negative), and a size that is already in this range is passed on unchanged.
\<close>

theorem validate_msg_execve_size_bounds:
  "1 \<le> unat (validate_msg_execve_size bd sz)
   \<and> unat (validate_msg_execve_size bd sz) \<le> SIZEOF_MSG_EXECVE_EVENT bd
   \<and> (1 \<le> unat sz \<and> unat sz \<le> SIZEOF_MSG_EXECVE_EVENT bd \<longrightarrow> validate_msg_execve_size bd sz = sz)"
  by (rule validate_cases)

theorem validate_msg_execve_size_bounds_witness:
  "validate_msg_execve_size build_v61 400 = 400"
  using validate_msg_execve_size_bounds [of build_v61 400] by (simp add: tg_consts)

end
