(* ===== verification/D_Path.thy ===== *)
theory D_Path
  imports Kernel_Mem Execve_Map
begin

text \<open>
  Path resolution (\<^verbatim>\<open>lib/bpf_d_path.h\<close>): the walk from a dentry to the process root that fills a
  4096-byte buffer from its end, and \<^verbatim>\<open>read_exe\<close> (\<^verbatim>\<open>lib/process.h\<close>), which keeps a prefix and a suffix
  of the executable's path. The dentry and mount structures of the kernel are the parameter \<open>kvfs\<close>.
  Pointers into the buffer are offsets from its start; \<^verbatim>\<open>int\<close> lengths are 32-bit words.
\<close>

section \<open>Kernel view\<close>

record kvfs =
  vf_mem :: memory
  vf_d_parent :: "ptr \<Rightarrow> ptr"
  vf_d_hash_pprev :: "ptr \<Rightarrow> ptr"
  vf_d_name_name :: "ptr \<Rightarrow> ptr"
  vf_d_name_len :: "ptr \<Rightarrow> u32"
  vf_mnt_root :: "ptr \<Rightarrow> ptr"
  vf_mnt_parent :: "ptr \<Rightarrow> ptr"
  vf_mnt_mountpoint :: "ptr \<Rightarrow> ptr"
  vf_mnt_offset :: u64
  vf_path_dentry :: "ptr \<Rightarrow> ptr"
  vf_path_mnt :: "ptr \<Rightarrow> ptr"
  vf_fs_root :: ptr  \<comment> \<open>\<^verbatim>\<open>&current->fs->root\<close>\<close>
  vf_exe_path :: ptr  \<comment> \<open>\<^verbatim>\<open>&task->mm->exe_file->f_path\<close>\<close>

definition MAX_BUF_LEN :: nat where [tg_consts]: "MAX_BUF_LEN = 4096"
definition UNRESOLVED_PATH_COMPONENTS :: int where [tg_consts]: "UNRESOLVED_PATH_COMPONENTS = 2"
definition BUFFER_HEAP_SIZE :: nat where [tg_consts]: "BUFFER_HEAP_SIZE = 4096 + 256"
definition SLASH :: byte where [tg_consts]: "SLASH = 47"

definition DELETED :: "byte list" where
  "DELETED = [32, 40, 100, 101, 108, 101, 116, 101, 100, 41]"

definition PROBE_CWD_READ_ITERATIONS :: "build \<Rightarrow> nat" where
  "PROBE_CWD_READ_ITERATIONS bd = (if \<not> bd_v61 bd then (if bd_large bd then 128 else 11) else 2048)"

section \<open>Operations\<close>

definition real_mount :: "kvfs \<Rightarrow> ptr \<Rightarrow> ptr" where
  "real_mount vf mnt = mnt - vf_mnt_offset vf"

definition IS_ROOT :: "kvfs \<Rightarrow> ptr \<Rightarrow> bool" where
  "IS_ROOT vf dentry \<longleftrightarrow> dentry = vf_d_parent vf dentry"

definition d_unhashed :: "kvfs \<Rightarrow> ptr \<Rightarrow> bool" where
  "d_unhashed vf dentry \<longleftrightarrow> vf_d_hash_pprev vf dentry = 0"

definition d_unlinked :: "kvfs \<Rightarrow> ptr \<Rightarrow> bool" where
  "d_unlinked vf dentry \<longleftrightarrow> d_unhashed vf dentry \<and> \<not> IS_ROOT vf dentry"

record pbuf =
  pb_buf :: "byte list"
  pb_ptr :: u64
  pb_len :: u32

definition prepend :: "byte list \<Rightarrow> pbuf \<Rightarrow> pbuf \<times> int" where
  "prepend str b =
     (let b1 = b\<lparr>pb_len := pb_len b - of_nat (length str)\<rparr>
      in if pb_len b1 <s 0 then (b1, - ENAMETOOLONG)
         else let p = pb_ptr b1 - of_nat (length str)
              in (b1\<lparr>pb_ptr := p, pb_buf := blit (unat p) str (pb_buf b1)\<rparr>, 0))"

definition prepend_name :: "memory \<Rightarrow> ptr \<Rightarrow> u32 \<Rightarrow> pbuf \<Rightarrow> pbuf \<times> int" where
  "prepend_name mem name0 namelen0 b =
     (let buffer_offset = pb_ptr b;
          trunc = (namelen0 \<ge> pb_len b);
          name = (if trunc then name0 + ucast (namelen0 - pb_len b) else name0);
          namelen = (if trunc then pb_len b else namelen0);
          write_slash = (if trunc then 0 else 1 :: u32);
          b1 = b\<lparr>pb_len := pb_len b - (namelen + write_slash)\<rparr>
      in if ucast (namelen + write_slash) > buffer_offset then (b1, - ENAMETOOLONG)
         else let off = buffer_offset - ucast (namelen + write_slash)
              in if off \<ge> of_nat MAX_BUF_LEN then (b1, - ENAMETOOLONG)
                 else let buf1 = (if write_slash \<noteq> 0 then blit (unat off) [SLASH] (pb_buf b1) else pb_buf b1);
                          n = unat (namelen AND 0xff);
                          buf2 = blit (unat off + unat write_slash) (fst (probe_read mem n name)) buf1
                      in (b1\<lparr>pb_buf := buf2, pb_ptr := off\<rparr>, if write_slash \<noteq> 0 then 0 else - ENAMETOOLONG))"

record cwd_read_data =
  cw_root_dentry :: ptr
  cw_root_mnt :: ptr
  cw_dentry :: ptr
  cw_vfsmnt :: ptr
  cw_mnt :: ptr
  cw_b :: pbuf
  cw_resolved :: bool

text \<open>One step of the walk; the flag of the result says that the loop ends.\<close>

definition cwd_read :: "kvfs \<Rightarrow> cwd_read_data \<Rightarrow> cwd_read_data \<times> bool" where
  "cwd_read vf d =
     (let dentry = cw_dentry d; vfsmnt = cw_vfsmnt d; mnt = cw_mnt d
      in if \<not> (dentry \<noteq> cw_root_dentry d \<or> vfsmnt \<noteq> cw_root_mnt d) then (d\<lparr>cw_resolved := True\<rparr>, True)
         else if dentry = vf_mnt_root vf vfsmnt \<or> IS_ROOT vf dentry
         then (let parent = vf_mnt_parent vf mnt
               in if mnt \<noteq> parent
                  then (d\<lparr>cw_dentry := vf_mnt_mountpoint vf mnt, cw_mnt := parent,
                          cw_vfsmnt := parent + vf_mnt_offset vf\<rparr>, False)
                  else (d\<lparr>cw_resolved := True\<rparr>, True))
         else (case prepend_name (vf_mem vf) (vf_d_name_name vf dentry) (vf_d_name_len vf dentry) (cw_b d) of
                 (b, error) \<Rightarrow>
                   if error \<noteq> 0 then (d\<lparr>cw_b := b\<rparr>, True)
                   else (d\<lparr>cw_b := b, cw_dentry := vf_d_parent vf dentry\<rparr>, False)))"

fun cwd_read_loop :: "kvfs \<Rightarrow> nat \<Rightarrow> cwd_read_data \<Rightarrow> cwd_read_data" where
  "cwd_read_loop vf 0 d = d"
| "cwd_read_loop vf (Suc n) d =
     (case cwd_read vf d of (d', stop) \<Rightarrow> if stop then d' else cwd_read_loop vf n d')"

definition prepend_path :: "build \<Rightarrow> kvfs \<Rightarrow> ptr \<Rightarrow> ptr \<Rightarrow> pbuf \<Rightarrow> pbuf \<times> int" where
  "prepend_path bd vf path root b =
     (let data0 = \<lparr>cw_root_dentry = vf_path_dentry vf root, cw_root_mnt = vf_path_mnt vf root,
                   cw_dentry = vf_path_dentry vf path, cw_vfsmnt = vf_path_mnt vf path,
                   cw_mnt = real_mount vf (vf_path_mnt vf path), cw_b = b, cw_resolved = False\<rparr>;
          data = cwd_read_loop vf (PROBE_CWD_READ_ITERATIONS bd) data0
      in if pb_ptr (cw_b data) = pb_ptr b
         then (b\<lparr>pb_buf := pb_buf (cw_b data), pb_len := 0\<rparr>, 0)
         else (cw_b data, if \<not> cw_resolved data then UNRESOLVED_PATH_COMPONENTS else 0))"

definition path_with_deleted :: "build \<Rightarrow> kvfs \<Rightarrow> ptr \<Rightarrow> ptr \<Rightarrow> pbuf \<Rightarrow> pbuf \<times> int" where
  "path_with_deleted bd vf path root b =
     (if d_unlinked vf (vf_path_dentry vf path)
      then (case prepend DELETED b of
              (b', error) \<Rightarrow> if error \<noteq> 0 then (b', error) else prepend_path bd vf path root b')
      else prepend_path bd vf path root b)"

definition d_path_local_aux :: "build \<Rightarrow> kvfs \<Rightarrow> ptr \<Rightarrow> byte list \<Rightarrow> u32 \<Rightarrow> pbuf \<times> int" where
  "d_path_local_aux bd vf path buf buflen =
     path_with_deleted bd vf path (vf_fs_root vf) \<lparr>pb_buf = buf, pb_ptr = ucast buflen, pb_len = buflen\<rparr>"

text \<open>
  The buffer is the per-CPU element of \<^verbatim>\<open>buffer_heap_map\<close> (\<open>None\<close>: the lookup answers NULL). The result
  is the buffer contents with the offset and the length of the path in it, and the error.
\<close>

definition d_path_local :: "build \<Rightarrow> kvfs \<Rightarrow> ptr \<Rightarrow> byte list option \<Rightarrow> (pbuf \<times> int) option" where
  "d_path_local bd vf path heap =
     (case heap of
        None \<Rightarrow> None
      | Some buffer \<Rightarrow>
          (case d_path_local_aux bd vf path buffer (of_nat MAX_BUF_LEN) of
             (b, error) \<Rightarrow>
               Some (if 0 <s pb_len b then b\<lparr>pb_len := of_nat MAX_BUF_LEN - pb_len b\<rparr> else b, error)))"

definition read_exe :: "build \<Rightarrow> kvfs \<Rightarrow> byte list option \<Rightarrow> heap_exe \<Rightarrow> byte list option \<times> heap_exe \<times> u32" where
  "read_exe bd vf heap exe =
     (case d_path_local bd vf (vf_exe_path vf) heap of
        None \<Rightarrow> (heap, exe, 0)
      | Some (b, error) \<Rightarrow>
          let len = pb_len b;
              post = of_nat (STRING_POSTFIX_MAX_LENGTH - 1);
              offset = (if len > post then len - post else 0);
              revlen = (if len > post then post else len);
              len1 = (if len > of_nat (BINARY_PATH_MAX_LEN - 1) then of_nat (BINARY_PATH_MAX_LEN - 1) else len);
              len2 = len1 AND 0xff;
              from = unat (pb_ptr b);
              ebuf = blit 0 (slice from (unat len2) (pb_buf b)) (hx_buf exe);
              eend = (if unat revlen < STRING_POSTFIX_MAX_LENGTH
                      then blit 0 (slice (from + unat offset) (unat revlen) (pb_buf b)) (hx_end exe)
                      else hx_end exe)
          in (Some (pb_buf b),
              exe\<lparr>hx_len := len2, hx_error := word_of_int error, hx_buf := ebuf, hx_end := eend\<rparr>, len2))"

section \<open>Specification\<close>

text \<open>
  The path of a dentry, independently of the buffer: the names met on the way up (leaf first), crossing
  mount points, until the process root or the global root is reached; the flag says that one of the two
  was reached within the given number of steps.
\<close>

definition dentry_name :: "kvfs \<Rightarrow> ptr \<Rightarrow> byte list" where
  "dentry_name vf d = fst (probe_read (vf_mem vf) (unat (vf_d_name_len vf d)) (vf_d_name_name vf d))"

fun path_walk :: "kvfs \<Rightarrow> ptr \<Rightarrow> ptr \<Rightarrow> nat \<Rightarrow> ptr \<Rightarrow> ptr \<Rightarrow> ptr \<Rightarrow> byte list list \<times> bool" where
  "path_walk vf rd rm 0 dentry vfsmnt mnt = ([], False)"
| "path_walk vf rd rm (Suc n) dentry vfsmnt mnt =
     (if dentry = rd \<and> vfsmnt = rm then ([], True)
      else if dentry = vf_mnt_root vf vfsmnt \<or> IS_ROOT vf dentry
      then (let parent = vf_mnt_parent vf mnt
            in if mnt = parent then ([], True)
               else path_walk vf rd rm n (vf_mnt_mountpoint vf mnt) (parent + vf_mnt_offset vf) parent)
      else (case path_walk vf rd rm n (vf_d_parent vf dentry) vfsmnt mnt of
              (names, r) \<Rightarrow> (dentry_name vf dentry # names, r)))"

definition path_string :: "byte list list \<Rightarrow> byte list" where
  "path_string names = concat (map (\<lambda>nm. SLASH # nm) (rev names))"

lemma path_string_Cons [simp]: "path_string (nm # names) = path_string names @ SLASH # nm"
  by (simp add: path_string_def)

lemma path_string_Nil [simp]: "path_string [] = []"
  by (simp add: path_string_def)

definition walk_of :: "build \<Rightarrow> kvfs \<Rightarrow> ptr \<Rightarrow> byte list list \<times> bool" where
  "walk_of bd vf path =
     path_walk vf (vf_path_dentry vf (vf_fs_root vf)) (vf_path_mnt vf (vf_fs_root vf))
       (PROBE_CWD_READ_ITERATIONS bd) (vf_path_dentry vf path) (vf_path_mnt vf path)
       (real_mount vf (vf_path_mnt vf path))"

text \<open>A kernel property: file names have at most 255 bytes (\<^verbatim>\<open>NAME_MAX\<close>).\<close>

definition names_bounded :: "kvfs \<Rightarrow> bool" where
  "names_bounded vf \<longleftrightarrow> (\<forall>d. unat (vf_d_name_len vf d) \<le> 255)"

section \<open>The buffer invariant\<close>

definition pb_inv :: "pbuf \<Rightarrow> byte list \<Rightarrow> bool" where
  "pb_inv b acc \<longleftrightarrow> length (pb_buf b) = 4352 \<and> length acc \<le> 4096
     \<and> unat (pb_len b) = 4096 - length acc \<and> unat (pb_ptr b) = 4096 - length acc
     \<and> slice (4096 - length acc) (length acc) (pb_buf b) = acc"

text \<open>
  A name that fits, with its slash, is put in front of what is there; one that does not fit leaves no
  room at all and stops the walk.
\<close>

lemma prepend_name_fits:
  assumes inv: "pb_inv b acc" and small: "unat namelen \<le> 255" and fits: "length acc + unat namelen + 1 \<le> 4096"
  obtains b' where "prepend_name mem name namelen b = (b', 0)"
    and "pb_inv b' (SLASH # fst (probe_read mem (unat namelen) name) @ acc)"
proof -
  let ?n = "unat namelen" and ?nm = "fst (probe_read mem (unat namelen) name)"
  define off where "off = pb_ptr b - ucast (namelen + 1)"
  have len: "unat (pb_len b) = 4096 - length acc" and ptr: "unat (pb_ptr b) = 4096 - length acc"
    and buf: "length (pb_buf b) = 4352" using inv by (auto simp: pb_inv_def)
  have n1: "unat (namelen + 1) = ?n + 1" using small by (intro unat_u32_plus1) simp
  have ntr: "\<not> namelen \<ge> pb_len b" using fits len by (simp add: word_le_nat_alt)
  have noff: "\<not> ucast (namelen + 1) > pb_ptr b" using fits ptr n1 by (simp add: word_less_nat_alt)
  have off: "unat off = 4096 - length acc - (?n + 1)"
    unfolding off_def using fits ptr n1 by (subst unat_sub_u64) auto
  have noff2: "\<not> off \<ge> of_nat MAX_BUF_LEN" using off fits by (simp add: word_le_nat_alt tg_consts)
  define b' where "b' = b\<lparr>pb_len := pb_len b - (namelen + 1), pb_ptr := off,
     pb_buf := blit (unat off + 1) ?nm (blit (unat off) [SLASH] (pb_buf b))\<rparr>"
  have eq: "prepend_name mem name namelen b = (b', 0)"
    using ntr noff noff2 small by (simp add: prepend_name_def Let_def off_def [symmetric] b'_def and_ff_small)
  have two: "blit (unat off + 1) ?nm (blit (unat off) [SLASH] (pb_buf b)) = blit (unat off) (SLASH # ?nm) (pb_buf b)"
    using blit_append [of "unat off" "[SLASH]" "pb_buf b" ?nm] off buf by simp
  have buf': "pb_buf b' = blit (unat off) (SLASH # ?nm) (pb_buf b)" using two by (simp add: b'_def)
  have "slice (unat off) (length (SLASH # ?nm) + length acc) (blit (unat off) (SLASH # ?nm) (pb_buf b))
        = (SLASH # ?nm) @ slice (4096 - length acc) (length acc) (pb_buf b)"
    by (rule slice_blit_prefix) (use off fits buf in auto)
  then have "slice (unat off) (length (SLASH # ?nm @ acc)) (pb_buf b') = SLASH # ?nm @ acc"
    using inv by (simp add: buf' pb_inv_def ac_simps)
  moreover have "unat (pb_len b') = 4096 - length acc - (?n + 1)"
    unfolding b'_def using fits len n1 by (simp add: unat_sub_u32)
  ultimately have "pb_inv b' (SLASH # ?nm @ acc)"
    unfolding pb_inv_def using off fits buf by (simp add: buf') (simp add: b'_def algebra_simps)
  with eq show ?thesis by (rule that)
qed

lemma prepend_name_full:
  assumes inv: "pb_inv b acc" and full: "4096 < length acc + unat namelen + 1" and small: "unat namelen \<le> 255"
  obtains b' where "prepend_name mem name namelen b = (b', - ENAMETOOLONG)"
    and "pb_len b' = 0" "pb_ptr b' = 0" "length (pb_buf b') = 4352"
proof -
  have len: "unat (pb_len b) = 4096 - length acc" and ptr: "unat (pb_ptr b) = 4096 - length acc"
    and buf: "length (pb_buf b) = 4352" and acc: "length acc \<le> 4096" using inv by (auto simp: pb_inv_def)
  have tr: "namelen \<ge> pb_len b" using full len by (simp add: word_le_nat_alt)
  have "ucast (pb_len b) = pb_ptr b" using len ptr by (simp add: word_unat_eq_iff)
  moreover have "unat (pb_len b) \<le> 255" using full small len by simp
  ultimately have eq: "prepend_name mem name namelen b =
      (b\<lparr>pb_len := 0, pb_ptr := 0,
         pb_buf := blit 0 (fst (probe_read mem (unat (pb_len b)) (name + ucast (namelen - pb_len b)))) (pb_buf b)\<rparr>,
       - ENAMETOOLONG)" (is "_ = (?b, _)") and "unat (pb_len b) \<le> 255"
    using tr by (simp_all add: prepend_name_def Let_def tg_consts and_ff_small)
  with buf show ?thesis by (intro that [OF eq]) simp_all
qed

lemma dentry_name_length [simp]: "length (dentry_name vf d) = unat (vf_d_name_len vf d)"
  by (simp add: dentry_name_def)

section \<open>The walk\<close>

definition full :: "cwd_read_data \<Rightarrow> bool" where
  "full d \<longleftrightarrow> \<not> cw_resolved d \<and> pb_len (cw_b d) = 0 \<and> pb_ptr (cw_b d) = 0 \<and> length (pb_buf (cw_b d)) = 4352"

lemma cwd_read_loop_walk:
  assumes nb: "names_bounded vf" and "pb_inv (cw_b d) acc" and "\<not> cw_resolved d"
    and "path_walk vf (cw_root_dentry d) (cw_root_mnt d) n (cw_dentry d) (cw_vfsmnt d) (cw_mnt d) = (names, r)"
  shows "if length (path_string names) + length acc \<le> 4096
         then pb_inv (cw_b (cwd_read_loop vf n d)) (path_string names @ acc)
              \<and> cw_resolved (cwd_read_loop vf n d) = r
         else full (cwd_read_loop vf n d)"
  using assms(2-)
proof (induction n arbitrary: d acc names r)
  case 0
  then show ?case by (auto simp: pb_inv_def)
next
  case (Suc n)
  let ?rd = "cw_root_dentry d" and ?rm = "cw_root_mnt d"
  consider (root) "cw_dentry d = ?rd" "cw_vfsmnt d = ?rm"
    | (mount) "\<not> (cw_dentry d = ?rd \<and> cw_vfsmnt d = ?rm)"
        "cw_dentry d = vf_mnt_root vf (cw_vfsmnt d) \<or> IS_ROOT vf (cw_dentry d)"
    | (name) "\<not> (cw_dentry d = ?rd \<and> cw_vfsmnt d = ?rm)"
        "\<not> (cw_dentry d = vf_mnt_root vf (cw_vfsmnt d) \<or> IS_ROOT vf (cw_dentry d))" by blast
  then show ?case
  proof cases
    case root
    with Suc.prems show ?thesis by (auto simp: cwd_read_def pb_inv_def)
  next
    case mount
    show ?thesis
    proof (cases "cw_mnt d = vf_mnt_parent vf (cw_mnt d)")
      case True
      with mount Suc.prems show ?thesis by (auto simp: cwd_read_def Let_def pb_inv_def)
    next
      case False
      define d' where "d' = d\<lparr>cw_dentry := vf_mnt_mountpoint vf (cw_mnt d), cw_mnt := vf_mnt_parent vf (cw_mnt d),
        cw_vfsmnt := vf_mnt_parent vf (cw_mnt d) + vf_mnt_offset vf\<rparr>"
      have "cwd_read vf d = (d', False)" using mount False by (auto simp: cwd_read_def Let_def d'_def)
      moreover have "path_walk vf (cw_root_dentry d') (cw_root_mnt d') n (cw_dentry d') (cw_vfsmnt d') (cw_mnt d') = (names, r)"
        using mount False Suc.prems(3) by (auto simp: d'_def Let_def)
      moreover have "pb_inv (cw_b d') acc" "\<not> cw_resolved d'" using Suc.prems by (simp_all add: d'_def)
      ultimately show ?thesis using Suc.IH [of d' acc names r] by simp
    qed
  next
    case name
    let ?nm = "dentry_name vf (cw_dentry d)"
    obtain names' where names: "names = ?nm # names'"
      and walk: "path_walk vf ?rd ?rm n (vf_d_parent vf (cw_dentry d)) (cw_vfsmnt d) (cw_mnt d) = (names', r)"
      using name Suc.prems(3) by (auto split: prod.splits if_splits)
    have small: "unat (vf_d_name_len vf (cw_dentry d)) \<le> 255" using nb by (simp add: names_bounded_def)
    show ?thesis
    proof (cases "length acc + length ?nm + 1 \<le> 4096")
      case True
      then obtain b where b: "prepend_name (vf_mem vf) (vf_d_name_name vf (cw_dentry d)) (vf_d_name_len vf (cw_dentry d)) (cw_b d) = (b, 0)"
        and inv: "pb_inv b (SLASH # ?nm @ acc)"
        using prepend_name_fits [OF Suc.prems(1) small, of "vf_mem vf" "vf_d_name_name vf (cw_dentry d)"]
        by (metis dentry_name_def dentry_name_length)
      define d' where "d' = d\<lparr>cw_b := b, cw_dentry := vf_d_parent vf (cw_dentry d)\<rparr>"
      have "cwd_read vf d = (d', False)" using name b by (auto simp: cwd_read_def Let_def d'_def)
      moreover have "pb_inv (cw_b d') (SLASH # ?nm @ acc)" "\<not> cw_resolved d'"
        "path_walk vf (cw_root_dentry d') (cw_root_mnt d') n (cw_dentry d') (cw_vfsmnt d') (cw_mnt d') = (names', r)"
        using inv walk Suc.prems(2) by (simp_all add: d'_def)
      ultimately show ?thesis using Suc.IH [of d' "SLASH # ?nm @ acc" names' r]
        by (simp add: names algebra_simps)
    next
      case False
      then obtain b where "prepend_name (vf_mem vf) (vf_d_name_name vf (cw_dentry d)) (vf_d_name_len vf (cw_dentry d)) (cw_b d) = (b, - ENAMETOOLONG)"
        and "pb_len b = 0" "pb_ptr b = 0" "length (pb_buf b) = 4352"
        using prepend_name_full [OF Suc.prems(1) _ small, of "vf_mem vf" "vf_d_name_name vf (cw_dentry d)"]
        by (metis dentry_name_length linorder_not_le)
      with name Suc.prems False show ?thesis
        by (auto simp: cwd_read_def Let_def full_def names ENAMETOOLONG_def)
    qed
  qed
qed

text \<open>The whole resolution from a buffer that already ends in \<open>acc\<close> (nothing, or the deleted mark).\<close>

lemma prepend_path_walk:
  assumes "names_bounded vf" "pb_inv b acc" "length acc < 4096" "walk_of bd vf path = (names, r)"
    and "prepend_path bd vf path (vf_fs_root vf) b = (b', err)"
  shows "if names = [] then pb_len b' = 0 \<and> err = 0 \<and> pb_ptr b' = pb_ptr b
         else if length (path_string names) + length acc \<le> 4096
         then pb_inv b' (path_string names @ acc) \<and> err = (if r then 0 else UNRESOLVED_PATH_COMPONENTS)
         else pb_len b' = 0 \<and> pb_ptr b' = 0 \<and> err = UNRESOLVED_PATH_COMPONENTS"
proof -
  define d0 where "d0 = \<lparr>cw_root_dentry = vf_path_dentry vf (vf_fs_root vf), cw_root_mnt = vf_path_mnt vf (vf_fs_root vf),
     cw_dentry = vf_path_dentry vf path, cw_vfsmnt = vf_path_mnt vf path,
     cw_mnt = real_mount vf (vf_path_mnt vf path), cw_b = b, cw_resolved = False\<rparr>"
  define d where "d = cwd_read_loop vf (PROBE_CWD_READ_ITERATIONS bd) d0"
  have L: "if length (path_string names) + length acc \<le> 4096
           then pb_inv (cw_b d) (path_string names @ acc) \<and> cw_resolved d = r else full d"
    unfolding d_def by (rule cwd_read_loop_walk) (use assms in \<open>auto simp: d0_def walk_of_def\<close>)
  have P: "prepend_path bd vf path (vf_fs_root vf) b =
     (if pb_ptr (cw_b d) = pb_ptr b then (b\<lparr>pb_buf := pb_buf (cw_b d), pb_len := 0\<rparr>, 0)
      else (cw_b d, if \<not> cw_resolved d then UNRESOLVED_PATH_COMPONENTS else 0))"
    by (simp add: prepend_path_def Let_def d_def d0_def)
  have ptr: "unat (pb_ptr b) = 4096 - length acc" using assms(2) by (simp add: pb_inv_def)
  show ?thesis
  proof (cases "names = []")
    case True
    with L assms have "unat (pb_ptr (cw_b d)) = 4096 - length acc"
      by (auto simp: pb_inv_def split: if_splits)
    with ptr have "pb_ptr (cw_b d) = pb_ptr b" by (simp add: word_unat_eq_iff)
    with True P assms(5) show ?thesis by auto
  next
    case False
    then have pos: "0 < length (path_string names)" by (cases names) auto
    have "unat (pb_ptr (cw_b d)) \<le> 4096 - (length (path_string names) + length acc)"
      using L by (cases "length (path_string names) + length acc \<le> 4096") (simp_all add: pb_inv_def full_def)
    then have "unat (pb_ptr (cw_b d)) \<noteq> unat (pb_ptr b)" using ptr pos assms(3) by linarith
    then have "pb_ptr (cw_b d) \<noteq> pb_ptr b" by auto
    with False L P assms(5) show ?thesis by (auto simp: full_def)
  qed
qed

section \<open>Properties\<close>

definition deleted_mark :: "kvfs \<Rightarrow> ptr \<Rightarrow> byte list" where
  "deleted_mark vf path = (if d_unlinked vf (vf_path_dentry vf path) then DELETED else [])"

lemma pb_inv_start: "length buf = 4352 \<Longrightarrow> pb_inv \<lparr>pb_buf = buf, pb_ptr = 4096, pb_len = 4096\<rparr> []"
  by (simp add: pb_inv_def slice_def)

lemma length_deleted_mark: "length (deleted_mark vf path) \<le> 10"
  by (simp add: deleted_mark_def DELETED_def)

lemma path_with_deleted_start:
  assumes "length buf = 4352"
  obtains b where "pb_inv b (deleted_mark vf path)"
    and "d_path_local_aux bd vf path buf 4096 = prepend_path bd vf path (vf_fs_root vf) b"
proof (cases "d_unlinked vf (vf_path_dentry vf path)")
  case False
  then show ?thesis
    using that [of "\<lparr>pb_buf = buf, pb_ptr = 4096, pb_len = 4096\<rparr>"] pb_inv_start [OF assms]
    by (simp add: deleted_mark_def d_path_local_aux_def path_with_deleted_def)
next
  case True
  define b where "b = \<lparr>pb_buf = blit 4086 DELETED buf, pb_ptr = 4086, pb_len = 4086 :: u32\<rparr>"
  have "prepend DELETED \<lparr>pb_buf = buf, pb_ptr = 4096, pb_len = 4096\<rparr> = (b, 0)"
    by (simp add: prepend_def Let_def b_def DELETED_def word_sless_alt)
  moreover have "slice 4086 (length DELETED) (blit 4086 DELETED buf) = DELETED"
    using assms by (intro slice_blit_same) simp
  then have "pb_inv b DELETED" using assms by (simp add: pb_inv_def b_def) (simp add: DELETED_def)
  ultimately show ?thesis
    using that [of b] True by (simp add: deleted_mark_def d_path_local_aux_def path_with_deleted_def)
qed

lemma unat_4096_minus:
  assumes "unat (w :: u32) = 4096 - n" "n \<le> 4096" shows "unat (4096 - w) = n"
  using assms by (subst unat_sub_u32) auto

lemma d_path_local_result:
  assumes "names_bounded vf" and "length buf = BUFFER_HEAP_SIZE"
    and "walk_of bd vf path = (names, r)" and "names \<noteq> []"
    and "str = path_string names @ deleted_mark vf path" and "length str < 4096"
  shows "\<exists>b. d_path_local bd vf path (Some buf) = Some (b, if r then 0 else UNRESOLVED_PATH_COMPONENTS)
           \<and> unat (pb_len b) = length str \<and> slice (unat (pb_ptr b)) (length str) (pb_buf b) = str"
proof -
  have len: "length buf = 4352" using assms(2) by (simp add: tg_consts)
  obtain b0 where inv: "pb_inv b0 (deleted_mark vf path)"
    and eq: "d_path_local_aux bd vf path buf 4096 = prepend_path bd vf path (vf_fs_root vf) b0"
    by (rule path_with_deleted_start [OF len])
  obtain b err where pp: "prepend_path bd vf path (vf_fs_root vf) b0 = (b, err)" by fastforce
  have "length (deleted_mark vf path) < 4096" using length_deleted_mark [of vf path] by simp
  from prepend_path_walk [OF assms(1) inv this assms(3) pp] assms(4-6)
  have b: "pb_inv b str" and err: "err = (if r then 0 else UNRESOLVED_PATH_COMPONENTS)" by auto
  have l: "unat (pb_len b) = 4096 - length str" and p: "unat (pb_ptr b) = 4096 - length str"
    using b by (auto simp: pb_inv_def)
  then have "0 <s pb_len b" using assms(6) sgt0_u32 [of "pb_len b"] by (auto simp: unat_eq_zero)
  then have "d_path_local bd vf path (Some buf) = Some (b\<lparr>pb_len := 4096 - pb_len b\<rparr>, err)"
    using eq pp by (simp add: d_path_local_def MAX_BUF_LEN_def)
  moreover have "unat (4096 - pb_len b) = length str"
    using assms(6) by (intro unat_4096_minus [OF l]) simp
  ultimately show ?thesis using b err p by (auto simp: pb_inv_def)
qed

text \<open>
  C37. Path resolution returns the path. For names of at most 255 bytes and a path shorter than the
  4096-byte buffer, what \<^verbatim>\<open>d_path_local\<close> returns (the bytes from the returned pointer, as many as the
  returned length) is the slash-separated path from the process root, with the deleted mark appended
  for an unlinked file; the error is 0 when the walk reached the root within the iteration bound, and
  otherwise it is set and the bytes are the part of the path that was walked, always the trailing one.
\<close>

theorem d_path_local_correct:
  assumes "names_bounded vf" and "length buf = BUFFER_HEAP_SIZE"
    and "walk_of bd vf path = (names, r)" and "names \<noteq> []"
    and "str = path_string names @ deleted_mark vf path" and "length str < 4096"
  shows "\<exists>b. d_path_local bd vf path (Some buf) = Some (b, if r then 0 else UNRESOLVED_PATH_COMPONENTS)
           \<and> unat (pb_len b) = length str \<and> slice (unat (pb_ptr b)) (length str) (pb_buf b) = str"
  using assms by (rule d_path_local_result)

text \<open>
  A path that does not leave at least one byte of the buffer free is reported with length 0,
  although its trailing part is in the buffer and although the comment of \<^verbatim>\<open>prepend_name\<close> says that the
  part that fits is kept: the length is computed as the buffer size minus the free space only when the
  free space is positive. This also holds for a path of exactly 4096 bytes, which is reported without
  any error.
\<close>

theorem d_path_local_overflow:
  assumes "names_bounded vf" and "length buf = BUFFER_HEAP_SIZE"
    and "walk_of bd vf path = (names, r)" and "names \<noteq> []"
    and "str = path_string names @ deleted_mark vf path" and "length str \<ge> 4096"
    and "d_path_local bd vf path (Some buf) = Some (b, err)"
  shows "pb_len b = 0 \<and> err = (if r \<and> length str = 4096 then 0 else UNRESOLVED_PATH_COMPONENTS)"
proof -
  have len: "length buf = 4352" using assms(2) by (simp add: tg_consts)
  obtain b0 where inv: "pb_inv b0 (deleted_mark vf path)"
    and eq: "d_path_local_aux bd vf path buf 4096 = prepend_path bd vf path (vf_fs_root vf) b0"
    by (rule path_with_deleted_start [OF len])
  obtain b1 err1 where pp: "prepend_path bd vf path (vf_fs_root vf) b0 = (b1, err1)" by fastforce
  have "length (deleted_mark vf path) < 4096" using length_deleted_mark [of vf path] by simp
  from prepend_path_walk [OF assms(1) inv this assms(3) pp] assms(4-6)
  have "unat (pb_len b1) = 0 \<and> err1 = (if r \<and> length str = 4096 then 0 else UNRESOLVED_PATH_COMPONENTS)"
    by (auto simp: pb_inv_def split: if_splits)
  then have "pb_len b1 = 0" and "err1 = (if r \<and> length str = 4096 then 0 else UNRESOLVED_PATH_COMPONENTS)"
    by (auto simp: unat_eq_zero)
  with assms(7) eq pp show ?thesis by (auto simp: d_path_local_def MAX_BUF_LEN_def)
qed

lemma slice_sub: "o1 + n1 \<le> n \<Longrightarrow> slice (off + o1) n1 buf = slice o1 n1 (slice off n buf)"
  by (simp add: slice_def take_drop min_def ac_simps)

lemma take_blit_0: "take (length bs) (blit 0 bs buf) = bs"
  by (simp add: blit_def)

lemma read_exe_result:
  assumes "names_bounded vf" and "length buf = BUFFER_HEAP_SIZE"
    and "walk_of bd vf (vf_exe_path vf) = (names, r)" and "names \<noteq> []"
    and "str = path_string names @ deleted_mark vf (vf_exe_path vf)" and "length str < 4096"
    and "length (hx_buf exe) = BINARY_PATH_MAX_LEN" and "length (hx_end exe) = STRING_POSTFIX_MAX_LENGTH"
    and "read_exe bd vf (Some buf) exe = (heap', exe', n)"
  shows "unat n = min 255 (length str) \<and> hx_len exe' = n
         \<and> take (unat n) (hx_buf exe') = take (unat n) str
         \<and> take (min 127 (length str)) (hx_end exe') = drop (length str - 127) str
         \<and> length (hx_buf exe') = BINARY_PATH_MAX_LEN \<and> length (hx_end exe') = STRING_POSTFIX_MAX_LENGTH"
proof -
  obtain b where dp: "d_path_local bd vf (vf_exe_path vf) (Some buf) = Some (b, if r then 0 else UNRESOLVED_PATH_COMPONENTS)"
    and len: "unat (pb_len b) = length str" and sl: "slice (unat (pb_ptr b)) (length str) (pb_buf b) = str"
    using d_path_local_result [OF assms(1-6)] by blast
  let ?p = "unat (pb_ptr b)"
  define len1 where "len1 = (if pb_len b > 255 then 255 else pb_len b)"
  define offs where "offs = (if pb_len b > 127 then pb_len b - 127 else 0)"
  define revl where "revl = (if pb_len b > 127 then 127 else pb_len b)"
  have l1: "unat len1 = min 255 (length str)" using len by (auto simp: len1_def word_less_nat_alt)
  then have l2: "unat (len1 AND 0xff) = min 255 (length str)" by (subst and_ff_small) auto
  have rv: "unat revl = min 127 (length str)" using len by (auto simp: revl_def word_less_nat_alt)
  have off: "unat offs = length str - 127"
    using len by (auto simp: offs_def word_less_nat_alt unat_sub_u32)
  have pre: "slice ?p (min 255 (length str)) (pb_buf b) = take (min 255 (length str)) str"
    using slice_sub [of 0 "min 255 (length str)" "length str" ?p "pb_buf b"]
    unfolding sl by (simp add: slice_def)
  have suf: "slice (?p + (length str - 127)) (min 127 (length str)) (pb_buf b) = drop (length str - 127) str"
    using slice_sub [of "length str - 127" "min 127 (length str)" "length str" ?p "pb_buf b"]
    unfolding sl by (simp add: slice_def)
  have E: "read_exe bd vf (Some buf) exe = (Some (pb_buf b), exe\<lparr>hx_len := len1 AND 0xff,
      hx_error := word_of_int (if r then 0 else UNRESOLVED_PATH_COMPONENTS),
      hx_buf := blit 0 (slice ?p (unat (len1 AND 0xff)) (pb_buf b)) (hx_buf exe),
      hx_end := (if unat revl < 128 then blit 0 (slice (?p + unat offs) (unat revl) (pb_buf b)) (hx_end exe)
                 else hx_end exe)\<rparr>, len1 AND 0xff)"
    unfolding read_exe_def dp len1_def offs_def revl_def by (simp add: Let_def tg_consts)
  have R: "n = len1 AND 0xff" "hx_len exe' = len1 AND 0xff"
    "hx_buf exe' = blit 0 (take (min 255 (length str)) str) (hx_buf exe)"
    "hx_end exe' = blit 0 (drop (length str - 127) str) (hx_end exe)"
    using assms(9) [unfolded E] l2 rv off pre suf by auto
  have "length (drop (length str - 127) str) = min 127 (length str)" by auto
  then show ?thesis
    using R l2 assms(7,8) take_blit_0 [of "take (min 255 (length str)) str" "hx_buf exe"]
      take_blit_0 [of "drop (length str - 127) str" "hx_end exe"]
    by (simp add: tg_consts min_def split: if_splits)
qed

text \<open>
  The executable's path as kept for matching: with a path shorter than the buffer, \<^verbatim>\<open>read_exe\<close>
  stores its first bytes, at most 255, and its last bytes, at most 127, reports the length of the
  stored prefix, and stays inside its two destination arrays.
\<close>

theorem read_exe_correct:
  assumes "names_bounded vf" and "length buf = BUFFER_HEAP_SIZE"
    and "walk_of bd vf (vf_exe_path vf) = (names, r)" and "names \<noteq> []"
    and "str = path_string names @ deleted_mark vf (vf_exe_path vf)" and "length str < 4096"
    and "length (hx_buf exe) = BINARY_PATH_MAX_LEN" and "length (hx_end exe) = STRING_POSTFIX_MAX_LENGTH"
    and "read_exe bd vf (Some buf) exe = (heap', exe', n)"
  shows "unat n = min 255 (length str) \<and> hx_len exe' = n
         \<and> take (unat n) (hx_buf exe') = take (unat n) str
         \<and> take (min 127 (length str)) (hx_end exe') = drop (length str - 127) str
         \<and> length (hx_buf exe') = BINARY_PATH_MAX_LEN \<and> length (hx_end exe') = STRING_POSTFIX_MAX_LENGTH"
  using assms by (rule read_exe_result)

section \<open>A sample file system\<close>

text \<open>
  Dentry 30 (a two-byte name) in dentry 20 (a three-byte name) in the root dentry 10, on one mount. The
  byte at an address is the low byte of the address.
\<close>

definition vf_example :: kvfs where
  "vf_example = \<lparr>vf_mem = (\<lambda>a. Some (ucast a)),
     vf_d_parent = (\<lambda>d. if d = 30 then 20 else 10), vf_d_hash_pprev = (\<lambda>_. 1),
     vf_d_name_name = (\<lambda>d. if d = 30 then 0x6c else 0x62), vf_d_name_len = (\<lambda>d. if d = 30 then 2 else 3),
     vf_mnt_root = (\<lambda>_. 10), vf_mnt_parent = (\<lambda>m. m), vf_mnt_mountpoint = (\<lambda>_. 0), vf_mnt_offset = 8,
     vf_path_dentry = (\<lambda>p. if p = 1 then 30 else 10), vf_path_mnt = (\<lambda>_. 500),
     vf_fs_root = 2, vf_exe_path = 1\<rparr>"

lemmas path_walk_numeral =
  path_walk.simps(2) [of vf rd rm "pred_numeral v" for vf rd rm v, folded numeral_eq_Suc]

lemma vf_example_walk: "walk_of build_v419 vf_example 1 = ([[0x6c, 0x6d], [0x62, 0x63, 0x64]], True)"
  by (simp add: walk_of_def PROBE_CWD_READ_ITERATIONS_def build_v419_def path_walk_numeral IS_ROOT_def
      dentry_name_def probe_read_def vf_example_def upt_rec Let_def)

lemma vf_example_bounded: "names_bounded vf_example"
  by (simp add: names_bounded_def vf_example_def)

lemma vf_example_mark: "deleted_mark vf_example 1 = []"
  by (simp add: deleted_mark_def d_unlinked_def d_unhashed_def vf_example_def)

lemma vf_example_string:
  "[47, 0x62, 0x63, 0x64, 47, 0x6c, 0x6d] =
     path_string [[0x6c, 0x6d], [0x62, 0x63, 0x64]] @ deleted_mark vf_example 1"
  by (simp add: vf_example_mark SLASH_def)

theorem d_path_local_correct_witness:
  "\<exists>b. d_path_local build_v419 vf_example 1 (Some (replicate BUFFER_HEAP_SIZE 0)) = Some (b, 0)
     \<and> unat (pb_len b) = 7
     \<and> slice (unat (pb_ptr b)) 7 (pb_buf b) = [47, 0x62, 0x63, 0x64, 47, 0x6c, 0x6d]"
proof -
  have seven: "length [47, 0x62, 0x63, 0x64, 47, 0x6c, 0x6d :: byte] = 7" by simp
  show ?thesis
    using d_path_local_correct [OF vf_example_bounded _ vf_example_walk _ vf_example_string,
        of "replicate BUFFER_HEAP_SIZE 0", unfolded seven] by simp
qed

definition zero_exe :: heap_exe where
  "zero_exe = \<lparr>hx_buf = replicate BINARY_PATH_MAX_LEN 0, hx_end = replicate STRING_POSTFIX_MAX_LENGTH 0,
     hx_len = 0, hx_error = 0, hx_arg_len = 0, hx_arg_start = 0\<rparr>"

theorem read_exe_correct_witness:
  "unat (snd (snd (read_exe build_v419 vf_example (Some (replicate BUFFER_HEAP_SIZE 0)) zero_exe))) = 7"
proof -
  obtain h e n where r: "read_exe build_v419 vf_example (Some (replicate BUFFER_HEAP_SIZE 0)) zero_exe = (h, e, n)"
    by (metis prod.exhaust)
  have p: "vf_exe_path vf_example = 1" by (simp add: vf_example_def)
  from read_exe_correct [OF vf_example_bounded _ vf_example_walk [folded p] _ refl _ _ _ r]
  show ?thesis unfolding r by (simp add: p vf_example_mark zero_exe_def)
qed

text \<open>A file system with twenty directories of 255-byte names: the path does not fit.\<close>

definition vf_deep :: kvfs where
  "vf_deep = vf_example\<lparr>vf_d_parent := (\<lambda>d. if d > 10 then d - 1 else 10), vf_d_name_len := (\<lambda>_. 255),
     vf_path_dentry := (\<lambda>p. if p = 1 then 30 else 10)\<rparr>"

lemma vf_deep_walk:
  "walk_of build_v61 vf_deep 1 =
     (map (dentry_name vf_deep) [30, 29, 28, 27, 26, 25, 24, 23, 22, 21, 20, 19, 18, 17, 16, 15, 14, 13, 12, 11], True)"
  by (simp add: walk_of_def PROBE_CWD_READ_ITERATIONS_def build_v61_def path_walk_numeral IS_ROOT_def
      vf_deep_def vf_example_def Let_def)

theorem d_path_local_overflow_witness:
  "\<exists>b. d_path_local build_v61 vf_deep 1 (Some (replicate BUFFER_HEAP_SIZE 0)) = Some (b, UNRESOLVED_PATH_COMPONENTS)
     \<and> pb_len b = 0"
proof -
  obtain b err where r: "d_path_local build_v61 vf_deep 1 (Some (replicate BUFFER_HEAP_SIZE 0)) = Some (b, err)"
    by (simp add: d_path_local_def split_beta)
  have nb: "names_bounded vf_deep" by (simp add: names_bounded_def vf_deep_def)
  have len: "\<And>d. length (dentry_name vf_deep d) = 255" by (simp add: vf_deep_def)
  from d_path_local_overflow [OF nb _ vf_deep_walk _ refl _ r] len show ?thesis
    unfolding r by (simp add: path_string_def)
qed

end
