(* ===== verification/Task.thy ===== *)
theory Task
  imports Execve_Map
begin

text \<open>
  The walk over the kernel's process tree (\<^verbatim>\<open>lib/bpf_task.h\<close>): parents, namespaced pids, and the bounded
  searches for the nearest tracked ancestor in \<^verbatim>\<open>execve_map\<close>. The kernel's task structures are a
  parameter: functions from addresses to field values. A read through a bad pointer gives 0, as
  \<^verbatim>\<open>bpf_probe_read_kernel\<close> zeroes its destination on failure.
\<close>

section \<open>Kernel view\<close>

record ktask =
  kt_current :: ptr
  kt_pid_tgid :: u64
  kt_real_parent :: "ptr \<Rightarrow> ptr"
  kt_tgid :: "ptr \<Rightarrow> u32"
  kt_pid :: "ptr \<Rightarrow> u32"
  kt_has_thread_pid :: bool
  kt_thread_pid :: "ptr \<Rightarrow> ptr"
  kt_pids_pid :: "ptr \<Rightarrow> ptr"
  kt_pid_level :: "ptr \<Rightarrow> u32"
  kt_upid_nr :: "ptr \<Rightarrow> u32 \<Rightarrow> u32"

definition current_tgid :: "ktask \<Rightarrow> u32" where
  "current_tgid kt = ucast (drop_bit 32 (kt_pid_tgid kt))"

section \<open>Operations\<close>

definition get_parent :: "ktask \<Rightarrow> ptr \<Rightarrow> ptr" where
  "get_parent kt t = kt_real_parent kt t"

definition TASK_PID_LOOP :: nat where [tg_consts]: "TASK_PID_LOOP = 20"

fun task_pid_loop :: "ktask \<Rightarrow> u32 \<Rightarrow> nat \<Rightarrow> ptr \<Rightarrow> u32 \<Rightarrow> ptr \<times> u32" where
  "task_pid_loop kt pid 0 task cpid = (task, cpid)"
| "task_pid_loop kt pid (Suc n) task cpid =
     (if task = 0 then (task, cpid)
      else if kt_tgid kt task = pid then (task, kt_tgid kt task)
      else task_pid_loop kt pid n (get_parent kt task) (kt_tgid kt task))"

definition get_task_from_pid :: "ktask \<Rightarrow> u32 \<Rightarrow> ptr" where
  "get_task_from_pid kt pid =
     (case task_pid_loop kt pid TASK_PID_LOOP (kt_current kt) 0 of
        (task, cpid) \<Rightarrow> if cpid \<noteq> pid then 0 else task)"

definition get_task_pid_vnr_by_task :: "ktask \<Rightarrow> ptr \<Rightarrow> u32" where
  "get_task_pid_vnr_by_task kt t =
     (let vnr = (\<lambda>pid. if kt_pid_level kt pid < 1 then 0 else kt_upid_nr kt pid (kt_pid_level kt pid))
      in if kt_has_thread_pid kt
         then (if kt_thread_pid kt t = 0 then 0 else vnr (kt_thread_pid kt t))
         else vnr (kt_pids_pid kt t))"

definition get_task_pid_vnr_curr :: "ktask \<Rightarrow> u32" where
  "get_task_pid_vnr_curr kt = get_task_pid_vnr_by_task kt (kt_current kt)"

definition event_find_parent_pid :: "ktask \<Rightarrow> ptr \<Rightarrow> u32" where
  "event_find_parent_pid kt t = (if get_parent kt t = 0 then 0 else kt_tgid kt (get_parent kt t))"

text \<open>
  A returned pointer into the table is the pair of the key it was found under and the value.
\<close>

fun find_parent_loop :: "ktask \<Rightarrow> exec_state \<Rightarrow> nat \<Rightarrow> ptr \<Rightarrow> (u32 \<times> execve_map_value) option" where
  "find_parent_loop kt s 0 task = None"
| "find_parent_loop kt s (Suc n) task =
     (let task' = kt_real_parent kt task
      in if task' = 0 then None
         else let pid = kt_tgid kt task'
              in case execve_map_get_noinit pid s of
                   Some v \<Rightarrow> if ek_ktime (ev_key v) \<noteq> 0 then Some (pid, v) else find_parent_loop kt s n task'
                 | None \<Rightarrow> find_parent_loop kt s n task')"

definition event_find_parent_of :: "ktask \<Rightarrow> exec_state \<Rightarrow> ptr \<Rightarrow> (u32 \<times> execve_map_value) option" where
  "event_find_parent_of kt s task = find_parent_loop kt s 4 task"

definition event_find_parent :: "ktask \<Rightarrow> exec_state \<Rightarrow> (u32 \<times> execve_map_value) option" where
  "event_find_parent kt s = event_find_parent_of kt s (kt_current kt)"

definition event_minimal_parent :: "ktask \<Rightarrow> ptr \<Rightarrow> msg_execve_event \<Rightarrow> msg_execve_event" where
  "event_minimal_parent kt task event =
     event\<lparr>ee_parent := (ee_parent event)\<lparr>ek_pid := event_find_parent_pid kt task, ek_ktime := 0\<rparr>,
           ee_parent_flags := ucast EVENT_MISS\<rparr>"

definition event_minimal_curr :: "ktask \<Rightarrow> execve_map_value \<Rightarrow> execve_map_value" where
  "event_minimal_curr kt event =
     event\<lparr>ev_key := (ev_key event)\<lparr>ek_pid := current_tgid kt, ek_ktime := 0\<rparr>, ev_flags := EVENT_MISS\<rparr>"

text \<open>The result of \<^verbatim>\<open>event_find_curr\<close>: the last pid looked at, the walked flag, and the entry.\<close>

fun find_curr_loop ::
  "ktask \<Rightarrow> exec_state \<Rightarrow> nat \<Rightarrow> ptr \<Rightarrow> u32 \<Rightarrow> bool \<Rightarrow> u32 \<times> bool \<times> execve_map_value option" where
  "find_curr_loop kt s 0 task pid walked = (pid, walked, None)"
| "find_curr_loop kt s (Suc n) task pid walked =
     (let pid' = kt_tgid kt task;
          task' = kt_real_parent kt task;
          more = (if task' = 0 then (pid', True, None) else find_curr_loop kt s n task' pid' True)
      in case execve_map_get_noinit pid' s of
           Some v \<Rightarrow> if ek_ktime (ev_key v) \<noteq> 0 then (pid', walked, Some v) else more
         | None \<Rightarrow> more)"

definition event_find_curr :: "ktask \<Rightarrow> exec_state \<Rightarrow> u32 \<times> bool \<times> execve_map_value option" where
  "event_find_curr kt s = find_curr_loop kt s 4 (kt_current kt) 0 False"

section \<open>Specification: the ancestor chain\<close>

text \<open>The proper ancestors of a task, at most \<open>n\<close>, ending at a null parent pointer.\<close>

fun ancestors :: "ktask \<Rightarrow> nat \<Rightarrow> ptr \<Rightarrow> ptr list" where
  "ancestors kt 0 t = []"
| "ancestors kt (Suc n) t =
     (if kt_real_parent kt t = 0 then [] else kt_real_parent kt t # ancestors kt n (kt_real_parent kt t))"

lemmas walk_numeral =
  ancestors.simps(2) [of kt "pred_numeral v" for kt v, folded numeral_eq_Suc]
  find_parent_loop.simps(2) [of kt s "pred_numeral v" for kt s v, folded numeral_eq_Suc]
  find_curr_loop.simps(2) [of kt s "pred_numeral v" for kt s v, folded numeral_eq_Suc]
  task_pid_loop.simps(2) [of kt pid "pred_numeral v" for kt pid v, folded numeral_eq_Suc]

definition tracked :: "ktask \<Rightarrow> exec_state \<Rightarrow> ptr \<Rightarrow> bool" where
  "tracked kt s t = (case table s (kt_tgid kt t) of None \<Rightarrow> False | Some v \<Rightarrow> ek_ktime (ev_key v) \<noteq> 0)"

definition entry_of :: "ktask \<Rightarrow> exec_state \<Rightarrow> ptr \<Rightarrow> u32 \<times> execve_map_value" where
  "entry_of kt s t = (kt_tgid kt t, the (table s (kt_tgid kt t)))"

lemma find_parent_loop_find:
  "find_parent_loop kt s n t = map_option (entry_of kt s) (List.find (tracked kt s) (ancestors kt n t))"
  by (induction n arbitrary: t)
    (auto simp: Let_def tracked_def entry_of_def execve_map_get_noinit_def split: option.split)

lemma find_curr_loop_find:
  "find_curr_loop kt s (Suc n) t pid w =
     (case List.find (tracked kt s) (t # ancestors kt n t) of
        Some u \<Rightarrow> (fst (entry_of kt s u), w \<or> \<not> tracked kt s t, Some (snd (entry_of kt s u)))
      | None \<Rightarrow> (kt_tgid kt (last (t # ancestors kt n t)), True, None))"
proof (induction n arbitrary: t pid w)
  case 0
  show ?case
    by (auto simp: Let_def tracked_def entry_of_def execve_map_get_noinit_def split: option.split)
next
  case (Suc n)
  show ?case
    by (subst find_curr_loop.simps, simp only: Suc.IH)
      (auto simp: Let_def tracked_def entry_of_def execve_map_get_noinit_def split: option.split)
qed

text \<open>
  The parent search returns the nearest tracked ancestor: of the at most four proper ancestors
  reached through \<^verbatim>\<open>real_parent\<close>, the first whose thread group has an initialised entry in the process
  table, together with that entry; nothing when none of the four is tracked.
\<close>

theorem event_find_parent_nearest:
  "event_find_parent_of kt s t =
     (case List.find (tracked kt s) (ancestors kt 4 t) of
        None \<Rightarrow> None
      | Some u \<Rightarrow> Some (kt_tgid kt u, the (table s (kt_tgid kt u))))"
  by (auto simp: event_find_parent_of_def find_parent_loop_find entry_of_def split: option.split)

text \<open>
  The search for the current process starts at the current task: it returns the first tracked one
  among the task and its three nearest ancestors, and it reports that it had to walk exactly when the
  current task itself is not tracked.
\<close>

theorem event_find_curr_nearest:
  assumes "event_find_curr kt s = (pid, walked, r)"
  shows "walked = (\<not> tracked kt s (kt_current kt))
         \<and> r = map_option (\<lambda>u. the (table s (kt_tgid kt u)))
                 (List.find (tracked kt s) (kt_current kt # ancestors kt 3 (kt_current kt)))
         \<and> (case r of Some v \<Rightarrow> table s pid = Some v \<and> ek_ktime (ev_key v) \<noteq> 0 | None \<Rightarrow> walked)"
proof -
  have "event_find_curr kt s =
     (case List.find (tracked kt s) (kt_current kt # ancestors kt 3 (kt_current kt)) of
        Some u \<Rightarrow> (fst (entry_of kt s u), \<not> tracked kt s (kt_current kt), Some (snd (entry_of kt s u)))
      | None \<Rightarrow> (kt_tgid kt (last (kt_current kt # ancestors kt 3 (kt_current kt))), True, None))"
    using find_curr_loop_find [of kt s 3 "kt_current kt" 0 False]
    by (simp add: event_find_curr_def cong: option.case_cong)
  note eq = this [unfolded assms]
  show ?thesis
  proof (cases "List.find (tracked kt s) (kt_current kt # ancestors kt 3 (kt_current kt))")
    case None
    then have "\<not> tracked kt s (kt_current kt)" by (simp split: if_splits)
    with None eq show ?thesis by simp
  next
    case (Some u)
    then have "tracked kt s u" using find_Some_set by fast
    with Some eq show ?thesis by (auto simp: entry_of_def tracked_def split: option.splits)
  qed
qed

lemma task_pid_loop_tgid:
  "task_pid_loop kt pid n t c = (task, cpid) \<Longrightarrow> cpid = pid \<Longrightarrow> c \<noteq> pid \<Longrightarrow> task \<noteq> 0 \<and> kt_tgid kt task = pid"
  by (induction kt pid n t c rule: task_pid_loop.induct) (auto split: if_splits)

text \<open>
  \<^verbatim>\<open>get_task_from_pid\<close> only answers tasks of the requested thread group: for a nonzero pid the answer
  is null or a task whose thread-group id is that pid.
\<close>

theorem get_task_from_pid_tgid:
  assumes "pid \<noteq> 0"
  shows "get_task_from_pid kt pid = 0 \<or> kt_tgid kt (get_task_from_pid kt pid) = pid"
  using assms task_pid_loop_tgid [of kt pid TASK_PID_LOOP "kt_current kt" 0]
  by (auto simp: get_task_from_pid_def split: prod.split)

section \<open>A sample process tree\<close>

text \<open>Task 100 (tgid 10) has the ancestors 99 (tgid 9), 98 (tgid 8), 97 (tgid 1) and none above.\<close>

definition kt_example :: ktask where
  "kt_example = \<lparr>kt_current = 100, kt_pid_tgid = push_bit 32 10 OR 10,
     kt_real_parent = (\<lambda>p. if p = 100 then 99 else if p = 99 then 98 else if p = 98 then 97 else 0),
     kt_tgid = (\<lambda>p. if p = 100 then 10 else if p = 99 then 9 else if p = 98 then 8 else if p = 97 then 1 else 0),
     kt_pid = (\<lambda>p. if p = 100 then 10 else if p = 99 then 9 else if p = 98 then 8 else if p = 97 then 1 else 0),
     kt_has_thread_pid = True, kt_thread_pid = (\<lambda>p. p), kt_pids_pid = (\<lambda>p. p),
     kt_pid_level = (\<lambda>_. 1), kt_upid_nr = (\<lambda>p l. if p = 97 then 1 else 2)\<rparr>"

definition tracked_value :: "u32 \<Rightarrow> u64 \<Rightarrow> execve_map_value" where
  "tracked_value pid ktime = zero_execve_map_value\<lparr>ev_key := \<lparr>ek_pid = pid, ek_ktime = ktime\<rparr>\<rparr>"

definition xs_example :: exec_state where
  "xs_example = \<lparr>xs_map = \<lparr>bm_elems = [8 \<mapsto> tracked_value 8 5, 10 \<mapsto> zero_execve_map_value], bm_admit = (\<lambda>_ _. 0)\<rparr>,
     xs_val = Some zero_execve_map_value, xs_stats = Some (\<lambda>_. 0),
     xs_joined = empty_lru, xs_joined_stats = Some (\<lambda>_. 0)\<rparr>"

lemma kt_example_search:
  "tracked kt_example xs_example 98" "\<not> tracked kt_example xs_example 99" "\<not> tracked kt_example xs_example 100"
  by (simp_all add: tracked_def kt_example_def xs_example_def map_lookup_elem_def tracked_value_def
      zero_execve_map_value_def zero_key_def)

lemma kt_example_fields [simp]:
  "kt_current kt_example = 100" "kt_real_parent kt_example 100 = 99" "kt_real_parent kt_example 99 = 98"
  "kt_real_parent kt_example 98 = 97" "kt_real_parent kt_example 97 = 0"
  "kt_tgid kt_example 100 = 10" "kt_tgid kt_example 99 = 9" "kt_tgid kt_example 98 = 8"
  by (simp_all add: kt_example_def)

lemma xs_example_table: "table xs_example 8 = Some (tracked_value 8 5)"
  by (simp add: xs_example_def map_lookup_elem_def)

theorem event_find_curr_nearest_witness:
  "fst (snd (event_find_curr kt_example xs_example))
   \<and> snd (snd (event_find_curr kt_example xs_example)) = Some (tracked_value 8 5)"
proof -
  obtain pid walked r where c: "event_find_curr kt_example xs_example = (pid, walked, r)"
    by (metis prod.exhaust)
  have anc: "ancestors kt_example 3 100 = [99, 98, 97]" by (simp add: walk_numeral)
  from event_find_curr_nearest [OF c] show ?thesis
    unfolding c by (simp add: anc kt_example_search xs_example_table)
qed

theorem get_task_from_pid_tgid_witness:
  "kt_tgid kt_example (get_task_from_pid kt_example 8) = 8 \<and> get_task_from_pid kt_example 8 \<noteq> 0"
proof -
  have "get_task_from_pid kt_example 8 = 98"
    by (simp add: get_task_from_pid_def tg_consts walk_numeral get_parent_def)
  with get_task_from_pid_tgid [of 8 kt_example] show ?thesis by simp
qed

end
