(* ===== verification/Cgroup.thy ===== *)
theory Cgroup
  imports Kernel_Mem Task
begin

text \<open>
  Cgroups (\<^verbatim>\<open>lib/bpf_cgroup.h\<close>, \<^verbatim>\<open>cgroup/\<close>) and the policy filter built on them
  (\<^verbatim>\<open>process/policy_filter.h\<close>): reading a task's cgroup, the handlers that track created and removed
  cgroups, and the tracker that gives every cgroup created below a container's cgroup the id of the
  container. The kernel's cgroup structures are the parameter \<open>kcgrp\<close>; reads that fail give 0.
\<close>

section \<open>Kernel view\<close>

record kcgrp =
  kc_mem :: memory
  kc_task_cgroups :: "ptr \<Rightarrow> ptr"
  kc_dfl_cgrp :: "ptr \<Rightarrow> ptr"
  kc_subsys :: "ptr \<Rightarrow> u32 \<Rightarrow> ptr"
  kc_css_cgroup :: "ptr \<Rightarrow> ptr"
  kc_kn :: "ptr \<Rightarrow> ptr"
  kc_kn_name :: "ptr \<Rightarrow> ptr"
  kc_kn_id :: "ptr \<Rightarrow> u64"
  kc_hierarchy_id :: "ptr \<Rightarrow> u32"
  kc_level :: "ptr \<Rightarrow> u32"
  kc_has_id_helper :: bool
  kc_current_cgroup_id :: u64
  kc_pids_cgrp_id :: u32  \<comment> \<open>an enumerator of the kernel's headers, 11 on x86 and 10 on arm64\<close>
  kc_has_ancestors :: bool
  kc_ancestors :: "ptr \<Rightarrow> u32 \<Rightarrow> ptr"
  kc_self_parent :: "ptr \<Rightarrow> ptr"
  kc_self_offset :: u64

definition CGROUP2_SUPER_MAGIC :: u64 where [tg_consts]: "CGROUP2_SUPER_MAGIC = 0x63677270"
definition LOG_TRACE_LEVEL :: u32 where [tg_consts]: "LOG_TRACE_LEVEL = 6"

section \<open>Reading cgroups\<close>

definition get_cgroup_kn_name :: "kcgrp \<Rightarrow> ptr \<Rightarrow> ptr" where
  "get_cgroup_kn_name kc kn = (if kn \<noteq> 0 then kc_kn_name kc kn else 0)"

definition get_cgroup_kn_id :: "kcgrp \<Rightarrow> ptr \<Rightarrow> u64" where
  "get_cgroup_kn_id kc kn = (if kn = 0 then 0 else kc_kn_id kc kn)"

definition get_cgroup_kn :: "kcgrp \<Rightarrow> ptr \<Rightarrow> ptr" where
  "get_cgroup_kn kc cgrp = (if cgrp \<noteq> 0 then kc_kn kc cgrp else 0)"

definition get_cgroup_hierarchy_id :: "kcgrp \<Rightarrow> ptr \<Rightarrow> u32" where
  "get_cgroup_hierarchy_id kc cgrp = kc_hierarchy_id kc cgrp"

definition get_cgroup_name :: "kcgrp \<Rightarrow> ptr \<Rightarrow> ptr" where
  "get_cgroup_name kc cgrp = (if cgrp = 0 then 0 else kc_kn_name kc (kc_kn kc cgrp))"

definition get_cgroup_level :: "kcgrp \<Rightarrow> ptr \<Rightarrow> u32" where
  "get_cgroup_level kc cgrp = kc_level kc cgrp"

definition get_cgroup_id :: "kcgrp \<Rightarrow> ptr \<Rightarrow> u64" where
  "get_cgroup_id kc cgrp = get_cgroup_kn_id kc (get_cgroup_kn kc cgrp)"

definition get_task_cgroup :: "build \<Rightarrow> kcgrp \<Rightarrow> ptr \<Rightarrow> u64 \<Rightarrow> u32 \<Rightarrow> u32 \<Rightarrow> ptr \<times> u32" where
  "get_task_cgroup bd kc task cgrpfs_ver subsys_idx error_flags =
     (let cgroups = kc_task_cgroups kc task
      in if cgroups = 0 then (0, error_flags OR EVENT_ERROR_CGROUPS)
         else if \<not> bd_rhel7 bd \<and> cgrpfs_ver = CGROUP2_SUPER_MAGIC
         then (let cgrp = kc_dfl_cgrp kc cgroups
               in (cgrp, if cgrp = 0 then error_flags OR EVENT_ERROR_CGROUP_SUBSYSCGRP else error_flags))
         else if subsys_idx > kc_pids_cgrp_id kc then (0, error_flags OR EVENT_ERROR_CGROUP_SUBSYS)
         else let subsys = kc_subsys kc cgroups subsys_idx
              in if subsys = 0 then (0, error_flags OR EVENT_ERROR_CGROUP_SUBSYS)
                 else let cgrp = kc_css_cgroup kc subsys
                      in (cgrp, if cgrp = 0 then error_flags OR EVENT_ERROR_CGROUP_SUBSYSCGRP else error_flags))"

definition tg_get_current_cgroup_id_of :: "kcgrp \<Rightarrow> ptr \<Rightarrow> u64 \<Rightarrow> u64" where
  "tg_get_current_cgroup_id_of kc cgrp cgrpfs_ver =
     (if kc_has_id_helper kc \<and> cgrpfs_ver = CGROUP2_SUPER_MAGIC then kc_current_cgroup_id kc
      else get_cgroup_id kc cgrp)"

text \<open>\<open>conf\<close> is the element of \<^verbatim>\<open>tg_conf_map\<close>, if it is there.\<close>

definition tg_get_current_cgroup_id :: "build \<Rightarrow> kcgrp \<Rightarrow> ptr \<Rightarrow> tetragon_conf option \<Rightarrow> u64" where
  "tg_get_current_cgroup_id bd kc task conf =
     (let cgrpfs_magic = (case conf of None \<Rightarrow> 0 | Some c \<Rightarrow> tc_cgrp_fs_magic c);
          subsys_idx = (case conf of None \<Rightarrow> 0 | Some c \<Rightarrow> tc_tg_cgrpv1_subsys_idx c)
      in if kc_has_id_helper kc \<and> cgrpfs_magic = CGROUP2_SUPER_MAGIC then kc_current_cgroup_id kc
         else let cgrp = fst (get_task_cgroup bd kc task cgrpfs_magic subsys_idx 0)
              in if cgrp = 0 then 0 else get_cgroup_id kc cgrp)"

section \<open>Tracking\<close>

record cgrp_state =
  cs_tracking :: "(u64, cgroup_tracking_value) bpf_map"
  cs_heap :: "cgroup_tracking_value option"
  cs_msg :: "msg_cgroup_event option"
  cs_tracker :: "(u64, u64) bpf_map"
  cs_errm :: errmetrics_map

definition get_cgrp_tracking_val_heap ::
  "cgroup_state \<Rightarrow> u32 \<Rightarrow> u32 \<Rightarrow> cgrp_state \<Rightarrow> cgroup_tracking_value option" where
  "get_cgrp_tracking_val_heap state hierarchy_id level cs =
     (case cs_heap cs of
        None \<Rightarrow> None
      | Some _ \<Rightarrow> Some \<lparr>ct_state = state, ct_hierarchy_id = hierarchy_id, ct_level = level,
                       ct_name = replicate KN_NAME_LENGTH 0\<rparr>)"

definition init_cgrp_tracking_val_heap ::
  "kcgrp \<Rightarrow> ptr \<Rightarrow> cgroup_state \<Rightarrow> cgrp_state \<Rightarrow> cgrp_state \<times> cgroup_tracking_value option" where
  "init_cgrp_tracking_val_heap kc cgrp state cs =
     (case get_cgrp_tracking_val_heap state (get_cgroup_hierarchy_id kc cgrp) (get_cgroup_level kc cgrp) cs of
        None \<Rightarrow> (cs, None)
      | Some heap \<Rightarrow>
          let name = get_cgroup_kn_name kc (get_cgroup_kn kc cgrp);
              heap' = (if name \<noteq> 0
                       then heap\<lparr>ct_name := blit 0 (fst (probe_read_str (kc_mem kc) (KN_NAME_LENGTH - 1) name)) (ct_name heap)\<rparr>
                       else heap)
          in (cs\<lparr>cs_heap := Some heap'\<rparr>, Some heap'))"

text \<open>
  The message buffer is per CPU and keeps the fields of an earlier message that this one does not
  write: with no entry for the current process the time, the parent and the flags are left as they are.
\<close>

definition send_cgrp_event ::
  "build \<Rightarrow> kcgrp \<Rightarrow> ktask \<Rightarrow> exec_state \<Rightarrow> ptr \<Rightarrow> cgroup_tracking_value \<Rightarrow> u64 \<Rightarrow> u32
     \<Rightarrow> cgrp_state \<times> out_state \<Rightarrow> cgrp_state \<times> out_state" where
  "send_cgrp_event bd kc kt xs path cgrp_track cgrpid op = (\<lambda>(cs, os).
     case cs_msg cs of
       None \<Rightarrow> (cs, os)
     | Some msg \<Rightarrow>
         let pid = current_tgid kt;
             sz = SIZEOF_MSG_CGROUP_EVENT;
             msg1 = msg\<lparr>cg_common := (cg_common msg)\<lparr>mc_op := MSG_OP_CGROUP, mc_size := of_nat sz\<rparr>\<rparr>;
             msg2 = (case execve_map_get_noinit pid xs of
                       None \<Rightarrow> msg1
                     | Some c \<Rightarrow> msg1\<lparr>cg_common := (cg_common msg1)\<lparr>mc_ktime := ek_ktime (ev_key c)\<rparr>,
                                      cg_parent := ev_pkey c, cg_flags := ev_flags c, cg_ktime := ek_ktime (ev_key c)\<rparr>);
             msg3 = msg2\<lparr>cg_cgrp_op := op, cg_pid := pid, cg_nspid := get_task_pid_vnr_curr kt,
                         cg_cgrpid := cgrpid, cg_cgrpid_tracker := cgrpid,
                         cg_cgrp_data := \<lparr>ct_state = ct_state cgrp_track, ct_hierarchy_id = ct_hierarchy_id cgrp_track,
                                          ct_level = ct_level cgrp_track, ct_name = ct_name cgrp_track\<rparr>,
                         cg_path := blit 0 (fst (probe_read_str (kc_mem kc) (PATH_MAP_SIZE - 1) path)) (cg_path msg2)\<rparr>
         in (cs\<lparr>cs_msg := Some msg3\<rparr>, event_output_metric bd MSG_OP_CGROUP (Ev_cgroup msg3) (of_nat sz) os))"

definition tg_tp_cgrp_mkdir ::
  "build \<Rightarrow> kcgrp \<Rightarrow> ktask \<Rightarrow> exec_state \<Rightarrow> ptr \<Rightarrow> ptr \<Rightarrow> cgrp_state \<times> out_state \<Rightarrow> cgrp_state \<times> out_state" where
  "tg_tp_cgrp_mkdir bd kc kt xs cgrp path = (\<lambda>(cs, os).
     case os_conf os of
       None \<Rightarrow> (cs, os)
     | Some config \<Rightarrow>
         if tc_tg_cgrp_level config = 0 then (cs, os)
         else let hierarchy_id = get_cgroup_hierarchy_id kc cgrp;
                  level = get_cgroup_level kc cgrp;
                  cgrpid = get_cgroup_id kc cgrp
              in if tc_tg_cgrp_hierarchy config \<noteq> hierarchy_id then (cs, os)
                 else if level = 0 then (cs, os)
                 else if cgrpid = 0 then (cs, os)
                 else if level \<le> tc_tg_cgrp_level config
                 then (case init_cgrp_tracking_val_heap kc cgrp CGROUP_NEW cs of
                         (cs1, None) \<Rightarrow> (cs1, os)
                       | (cs1, Some cgrp_heap) \<Rightarrow>
                           (case map_update_elem (cs_tracking cs1) cgrpid cgrp_heap BPF_ANY of
                              (m, err) \<Rightarrow>
                                let cs2 = cs1\<lparr>cs_tracking := m,
                                      cs_errm := with_errmetrics (get_fileid ''bpf_cgroup_mkdir.c'') 71
                                                   fn_map_update_elem err (cs_errm cs1)\<rparr>
                                in if tc_loglevel config = LOG_TRACE_LEVEL
                                   then send_cgrp_event bd kc kt xs path cgrp_heap cgrpid MSG_OP_CGROUP_MKDIR (cs2, os)
                                   else (cs2, os)))
                 else (cs, os))"

text \<open>
  \<^verbatim>\<open>tg_tp_cgrp_rmdir\<close> and \<^verbatim>\<open>tg_tp_cgrp_release\<close> have the same body up to the reported operation. The value
  is used after its deletion; \<open>stale\<close> is what the pointer then shows (the kernel may already have reused
  the element).
\<close>

definition cgrp_forget ::
  "u32 \<Rightarrow> (cgroup_tracking_value \<Rightarrow> cgroup_tracking_value) \<Rightarrow> build \<Rightarrow> kcgrp \<Rightarrow> ktask \<Rightarrow> exec_state \<Rightarrow> ptr \<Rightarrow> ptr
     \<Rightarrow> cgrp_state \<times> out_state \<Rightarrow> cgrp_state \<times> out_state" where
  "cgrp_forget op stale bd kc kt xs cgrp path = (\<lambda>(cs, os).
     let cgrpid = get_cgroup_id kc cgrp
     in if cgrpid = 0 then (cs, os)
        else case map_lookup_elem (cs_tracking cs) cgrpid of
               None \<Rightarrow> (cs, os)
             | Some cgrp_track \<Rightarrow>
                 let cs1 = cs\<lparr>cs_tracking := fst (map_delete_elem (cs_tracking cs) cgrpid)\<rparr>
                 in case os_conf os of
                      None \<Rightarrow> (cs1, os)
                    | Some conf \<Rightarrow>
                        if tc_loglevel conf = LOG_TRACE_LEVEL
                        then send_cgrp_event bd kc kt xs path (stale cgrp_track) cgrpid op (cs1, os)
                        else (cs1, os))"

definition tg_tp_cgrp_rmdir where "tg_tp_cgrp_rmdir = cgrp_forget MSG_OP_CGROUP_RMDIR"
definition tg_tp_cgrp_release where "tg_tp_cgrp_release = cgrp_forget MSG_OP_CGROUP_RELEASE"

section \<open>The tracker\<close>

definition cgroup_get_parent_id :: "kcgrp \<Rightarrow> ptr \<Rightarrow> u64" where
  "cgroup_get_parent_id kc cgrp =
     (if kc_has_ancestors kc
      then (let level = get_cgroup_level kc cgrp
            in if sint level \<le> 0 then 0 else kc_kn_id kc (kc_kn kc (kc_ancestors kc cgrp (level - 1))))
      else let parent_css = kc_self_parent kc cgrp
           in if parent_css \<noteq> 0 then get_cgroup_id kc (parent_css - kc_self_offset kc) else 0)"

definition tg_cgtracker_cgroup_mkdir :: "kcgrp \<Rightarrow> ptr \<Rightarrow> cgrp_state \<Rightarrow> cgrp_state" where
  "tg_cgtracker_cgroup_mkdir kc cgrp cs =
     (let cgid = get_cgroup_id kc cgrp
      in if cgid = 0 then cs
         else let cgid_parent = cgroup_get_parent_id kc cgrp
              in if cgid_parent = 0 then cs
                 else case map_lookup_elem (cs_tracker cs) cgid_parent of
                        None \<Rightarrow> cs
                      | Some cgid_tracker \<Rightarrow>
                          (case map_update_elem (cs_tracker cs) cgid cgid_tracker BPF_ANY of
                             (m, err) \<Rightarrow> cs\<lparr>cs_tracker := m,
                               cs_errm := with_errmetrics (get_fileid ''bpf_cgtracker.c'') 64
                                            fn_map_update_elem err (cs_errm cs)\<rparr>))"

definition tg_cgtracker_cgroup_release :: "kcgrp \<Rightarrow> ptr \<Rightarrow> cgrp_state \<Rightarrow> cgrp_state" where
  "tg_cgtracker_cgroup_release kc cgrp cs =
     (let cgid = get_cgroup_id kc cgrp
      in if cgid \<noteq> 0 then cs\<lparr>cs_tracker := fst (map_delete_elem (cs_tracker cs) cgid)\<rparr> else cs)"

definition cgrp_get_tracker_id :: "u64 \<Rightarrow> cgrp_state \<Rightarrow> u64" where
  "cgrp_get_tracker_id cgid cs = (case map_lookup_elem (cs_tracker cs) cgid of Some r \<Rightarrow> r | None \<Rightarrow> 0)"

section \<open>The policy filter\<close>

text \<open>\<open>policies\<close> is the map of maps \<^verbatim>\<open>policy_filter_maps\<close>, filled by user space.\<close>

definition policy_filter_check ::
  "build \<Rightarrow> kcgrp \<Rightarrow> ptr \<Rightarrow> tetragon_conf option \<Rightarrow> (u32 \<rightharpoonup> (u64 \<rightharpoonup> u8)) \<Rightarrow> cgrp_state \<Rightarrow> u32 \<Rightarrow> bool" where
  "policy_filter_check bd kc task conf policies cs policy_id =
     (if policy_id = 0 then True
      else case policies policy_id of
             None \<Rightarrow> False
           | Some policy_map \<Rightarrow>
               let cgroupid = tg_get_current_cgroup_id bd kc task conf
               in if cgroupid = 0 then False
                  else let trackerid = cgrp_get_tracker_id cgroupid cs;
                           cg = (if trackerid \<noteq> 0 then trackerid else cgroupid)
                       in policy_map cg \<noteq> None)"

section \<open>What the handlers do\<close>

lemma send_cgrp_event_frame [simp]:
  "cs_tracking (fst (send_cgrp_event bd kc kt xs p v cid op st)) = cs_tracking (fst st)"
  "cs_tracker (fst (send_cgrp_event bd kc kt xs p v cid op st)) = cs_tracker (fst st)"
  "os_conf (snd (send_cgrp_event bd kc kt xs p v cid op st)) = os_conf (snd st)"
  by (cases st; cases "cs_msg (fst st)"; simp add: send_cgrp_event_def Let_def split_beta)+

lemma init_heap_value:
  assumes "init_cgrp_tracking_val_heap kc cgrp st cs = (cs', r)"
  shows "cs_tracking cs' = cs_tracking cs" "cs_tracker cs' = cs_tracker cs"
    and "r = Some v \<Longrightarrow> ct_level v = get_cgroup_level kc cgrp \<and> ct_hierarchy_id v = get_cgroup_hierarchy_id kc cgrp
           \<and> ct_state v = st"
  using assms
  by (auto simp: init_cgrp_tracking_val_heap_def get_cgrp_tracking_val_heap_def Let_def split: option.splits if_splits)

text \<open>Level and hierarchy of what may be tracked under a configuration.\<close>

definition trackable :: "tetragon_conf \<Rightarrow> cgroup_tracking_value \<Rightarrow> bool" where
  "trackable conf v \<longleftrightarrow> ct_level v \<noteq> 0 \<and> ct_level v \<le> tc_tg_cgrp_level conf
     \<and> ct_hierarchy_id v = tc_tg_cgrp_hierarchy conf"

lemma mkdir_tracking:
  assumes "os_conf os = Some conf"
    and "map_lookup_elem (cs_tracking (fst (tg_tp_cgrp_mkdir bd kc kt xs cgrp path (cs, os)))) cid = Some v"
  shows "map_lookup_elem (cs_tracking cs) cid = Some v \<or> (cid = get_cgroup_id kc cgrp \<and> trackable conf v)"
proof (cases "init_cgrp_tracking_val_heap kc cgrp CGROUP_NEW cs")
  case (Pair cs1 r)
  note init = init_heap_value [OF Pair]
  show ?thesis
  proof (cases r)
    case None
    with assms init(1) show ?thesis
      by (auto simp: tg_tp_cgrp_mkdir_def Pair Let_def split: if_splits)
  next
    case (Some h)
    with init(3) have "ct_level h = get_cgroup_level kc cgrp" "ct_hierarchy_id h = get_cgroup_hierarchy_id kc cgrp" by auto
    with assms init(1) Some show ?thesis
      by (auto simp: tg_tp_cgrp_mkdir_def Pair Let_def split_beta trackable_def split: if_splits)
  qed
qed

lemma forget_tracking:
  "map_lookup_elem (cs_tracking (fst (cgrp_forget op stale bd kc kt xs cgrp path (cs, os)))) cid =
     (if cid = get_cgroup_id kc cgrp \<and> cid \<noteq> 0 then None else map_lookup_elem (cs_tracking cs) cid)"
  by (auto simp: cgrp_forget_def Let_def split: option.split)

lemma mkdir_conf [simp]: "os_conf (snd (tg_tp_cgrp_mkdir bd kc kt xs cgrp path st)) = os_conf (snd st)"
  by (cases st; cases "init_cgrp_tracking_val_heap kc cgrp CGROUP_NEW (fst st)"; cases "os_conf (snd st)")
    (auto simp: tg_tp_cgrp_mkdir_def Let_def split_beta split: option.split)

lemma forget_conf [simp]: "os_conf (snd (cgrp_forget op stale bd kc kt xs cgrp path st)) = os_conf (snd st)"
  by (cases st) (auto simp: cgrp_forget_def Let_def split: option.split)

section \<open>The tracking map as a state machine\<close>

inductive cg_step :: "cgrp_state \<times> out_state \<Rightarrow> cgrp_state \<times> out_state \<Rightarrow> bool" where
  cg_mkdir: "cg_step st (tg_tp_cgrp_mkdir bd kc kt xs cgrp path st)"
| cg_rmdir: "cg_step st (tg_tp_cgrp_rmdir stale bd kc kt xs cgrp path st)"
| cg_release: "cg_step st (tg_tp_cgrp_release stale bd kc kt xs cgrp path st)"
| cg_tr_mkdir: "cg_step (cs, os) (tg_cgtracker_cgroup_mkdir kc cgrp cs, os)"
| cg_tr_release: "cg_step (cs, os) (tg_cgtracker_cgroup_release kc cgrp cs, os)"

lemma tracker_frame [simp]:
  "cs_tracking (tg_cgtracker_cgroup_mkdir kc cgrp cs) = cs_tracking cs"
  "cs_tracking (tg_cgtracker_cgroup_release kc cgrp cs) = cs_tracking cs"
  by (auto simp: tg_cgtracker_cgroup_mkdir_def tg_cgtracker_cgroup_release_def Let_def split: option.split prod.split)

definition tracking_ok :: "tetragon_conf \<Rightarrow> cgrp_state \<times> out_state \<Rightarrow> bool" where
  "tracking_ok conf st \<longleftrightarrow> os_conf (snd st) = Some conf
     \<and> (\<forall>cid v. map_lookup_elem (cs_tracking (fst st)) cid = Some v \<longrightarrow> trackable conf v)"

lemma cg_step_tracking_ok: "cg_step st st' \<Longrightarrow> tracking_ok conf st \<Longrightarrow> tracking_ok conf st'"
proof (induction rule: cg_step.induct)
  case (cg_mkdir st bd kc kt xs cgrp path)
  then show ?case
    using mkdir_tracking [of "snd st" conf bd kc kt xs cgrp path "fst st"] by (auto simp: tracking_ok_def)
next
  case (cg_rmdir st stale bd kc kt xs cgrp path)
  then show ?case
    by (cases st) (auto simp: tracking_ok_def tg_tp_cgrp_rmdir_def forget_tracking split: if_splits)
next
  case (cg_release st stale bd kc kt xs cgrp path)
  then show ?case
    by (cases st) (auto simp: tracking_ok_def tg_tp_cgrp_release_def forget_tracking split: if_splits)
qed (auto simp: tracking_ok_def)

text \<open>
  C39. Only cgroups that matter are tracked: in every state reached from an empty tracking map by any
  interleaving of the cgroup handlers, every tracked cgroup is in the configured hierarchy, at a level
  between 1 and the configured one.
\<close>

theorem cgroup_tracking_invariant:
  assumes "cg_step\<^sup>*\<^sup>* (cs0, os0) (cs, os)" and "os_conf os0 = Some conf"
    and "map_lookup_elem (cs_tracking cs0) = Map.empty"
    and "map_lookup_elem (cs_tracking cs) cid = Some v"
  shows "1 \<le> unat (ct_level v) \<and> ct_level v \<le> tc_tg_cgrp_level conf \<and> ct_hierarchy_id v = tc_tg_cgrp_hierarchy conf"
proof -
  have "tracking_ok conf (cs0, os0)" using assms(2,3) by (simp add: tracking_ok_def)
  with assms(1) have "tracking_ok conf (cs, os)"
    by (induction rule: rtranclp_induct) (auto intro: cg_step_tracking_ok)
  with assms(4) show ?thesis
    by (auto simp: tracking_ok_def trackable_def unat_gt_0 Suc_le_eq)
qed

text \<open>
  A removed cgroup is forgotten and nothing else is: after the rmdir or the release handler the
  cgroup's id is not tracked, and every other id is tracked exactly as before.
\<close>

theorem cgroup_removed_forgotten:
  assumes "get_cgroup_id kc cgrp \<noteq> 0"
    and "st' = tg_tp_cgrp_rmdir stale bd kc kt xs cgrp path (cs, os)
       \<or> st' = tg_tp_cgrp_release stale bd kc kt xs cgrp path (cs, os)"
  shows "map_lookup_elem (cs_tracking (fst st')) =
     (map_lookup_elem (cs_tracking cs))(get_cgroup_id kc cgrp := None)"
  using assms by (auto simp: tg_tp_cgrp_rmdir_def tg_tp_cgrp_release_def forget_tracking fun_eq_iff)

section \<open>Cgroups created below a tracked cgroup\<close>

definition roomy :: "('k, 'v, 'z) bpf_map_scheme \<Rightarrow> bool" where
  "roomy m \<longleftrightarrow> (\<forall>e k. bm_admit m e k = 0)"

text \<open>
  A creation is a kernel view and a cgroup in it; \<open>created\<close> lists the child and parent ids in the order
  of the creations, \<open>descendants\<close> closes a set of ids under them.
\<close>

definition created :: "kcgrp \<times> ptr \<Rightarrow> u64 \<times> u64" where
  "created = (\<lambda>(kc, cgrp). (get_cgroup_id kc cgrp, cgroup_get_parent_id kc cgrp))"

fun descendants :: "(u64 \<times> u64) list \<Rightarrow> u64 set \<Rightarrow> u64 set" where
  "descendants [] S = S"
| "descendants ((c, p) # es) S = descendants es (if p \<in> S then insert c S else S)"

definition track_all :: "(kcgrp \<times> ptr) list \<Rightarrow> cgrp_state \<Rightarrow> cgrp_state" where
  "track_all evs cs = fold (\<lambda>(kc, cgrp). tg_cgtracker_cgroup_mkdir kc cgrp) evs cs"

lemma tracker_mkdir_lookup:
  assumes "roomy (cs_tracker cs)" and "created (kc, cgrp) = (c, p)" "c \<noteq> 0" "p \<noteq> 0"
  shows "map_lookup_elem (cs_tracker (tg_cgtracker_cgroup_mkdir kc cgrp cs)) j =
           (if j = c \<and> map_lookup_elem (cs_tracker cs) p \<noteq> None then map_lookup_elem (cs_tracker cs) p
            else map_lookup_elem (cs_tracker cs) j)"
    and "roomy (cs_tracker (tg_cgtracker_cgroup_mkdir kc cgrp cs))"
  using assms map_update_accepts [of "cs_tracker cs" c]
  by (auto simp: tg_cgtracker_cgroup_mkdir_def created_def Let_def split_beta roomy_def split: option.split)

lemma track_all_descendants:
  assumes "roomy (cs_tracker cs)"
    and "\<forall>e \<in> set evs. fst (created e) \<noteq> 0 \<and> snd (created e) \<noteq> 0"
    and "distinct (map (fst \<circ> created) evs)"
    and "\<forall>e \<in> set evs. map_lookup_elem (cs_tracker cs) (fst (created e)) = None"
  shows "{c. map_lookup_elem (cs_tracker (track_all evs cs)) c = Some t}
         = descendants (map created evs) {c. map_lookup_elem (cs_tracker cs) c = Some t}"
  using assms
proof (induction evs arbitrary: cs)
  case Nil
  then show ?case by (simp add: track_all_def)
next
  case (Cons e evs)
  obtain kc cgrp where e: "e = (kc, cgrp)" by (cases e)
  obtain c p where cp: "created (kc, cgrp) = (c, p)" by (cases "created (kc, cgrp)")
  define cs1 where "cs1 = tg_cgtracker_cgroup_mkdir kc cgrp cs"
  have nz: "c \<noteq> 0" "p \<noteq> 0" using Cons.prems(2) by (auto simp: e cp)
  note lk = tracker_mkdir_lookup [OF Cons.prems(1) cp nz, folded cs1_def]
  have fresh: "map_lookup_elem (cs_tracker cs) c = None" using Cons.prems(4) by (auto simp: e cp)
  have "{j. map_lookup_elem (cs_tracker (track_all evs cs1)) j = Some t}
        = descendants (map created evs) {j. map_lookup_elem (cs_tracker cs1) j = Some t}"
    using Cons.prems(2-4) by (intro Cons.IH lk(2)) (auto simp: lk(1) e cp)
  moreover have "{j. map_lookup_elem (cs_tracker cs1) j = Some t} =
      (if p \<in> {j. map_lookup_elem (cs_tracker cs) j = Some t}
       then insert c {j. map_lookup_elem (cs_tracker cs) j = Some t}
       else {j. map_lookup_elem (cs_tracker cs) j = Some t})"
    using fresh by (auto simp: lk(1) split: if_splits)
  ultimately show ?case by (simp add: track_all_def e cp cs1_def)
qed

text \<open>
  C40. A policy on a container covers the cgroups created inside it. Take any sequence of cgroup
  creations with fresh nonzero ids that the tracker map has room for, and a process that runs in a
  cgroup which is, after them, a descendant of a cgroup tracked under the nonzero container id \<open>t\<close>: then a
  policy with a nonzero id and a map of its own applies to the process exactly when it is installed for \<open>t\<close>.
\<close>

theorem policy_covers_descendants:
  assumes "roomy (cs_tracker cs)"
    and "\<forall>e \<in> set evs. fst (created e) \<noteq> 0 \<and> snd (created e) \<noteq> 0"
    and "distinct (map (fst \<circ> created) evs)"
    and "\<forall>e \<in> set evs. map_lookup_elem (cs_tracker cs) (fst (created e)) = None"
    and "tg_get_current_cgroup_id bd kc task conf \<in>
           descendants (map created evs) {c. map_lookup_elem (cs_tracker cs) c = Some t} - {0}"
    and "t \<noteq> 0" and "policy_id \<noteq> 0" and "policies policy_id = Some pm"
  shows "policy_filter_check bd kc task conf policies (track_all evs cs) policy_id \<longleftrightarrow> pm t \<noteq> None"
proof -
  have "map_lookup_elem (cs_tracker (track_all evs cs)) (tg_get_current_cgroup_id bd kc task conf) = Some t"
    using track_all_descendants [OF assms(1-4), of t] assms(5) by auto
  with assms(5-8) show ?thesis
    by (simp add: policy_filter_check_def cgrp_get_tracker_id_def Let_def)
qed

section \<open>Concrete runs\<close>

definition kc_example :: kcgrp where
  "kc_example = \<lparr>kc_mem = (\<lambda>_. Some 65), kc_task_cgroups = (\<lambda>_. 1), kc_dfl_cgrp = (\<lambda>_. 102),
     kc_subsys = (\<lambda>_ _. 0), kc_css_cgroup = (\<lambda>_. 0), kc_kn = (\<lambda>p. p), kc_kn_name = (\<lambda>_. 0), kc_kn_id = (\<lambda>p. p),
     kc_hierarchy_id = (\<lambda>_. 0), kc_level = (\<lambda>p. if p = 102 then 3 else 2), kc_has_id_helper = True,
     kc_current_cgroup_id = 102, kc_pids_cgrp_id = 11, kc_has_ancestors = False, kc_ancestors = (\<lambda>_ _. 0),
     kc_self_parent = (\<lambda>p. if p = 102 then 101 else if p = 101 then 100 else 0), kc_self_offset = 0\<rparr>"

definition conf_example :: tetragon_conf where
  "conf_example = \<lparr>tc_loglevel = 4, tc_pid = 1, tc_nspid = 0, tc_tg_cgrp_hierarchy = 0, tc_tg_cgrpv1_subsys_idx = 0,
     tc_tg_cgrp_level = 2, tc_tg_cgrpid = 5, tc_cgrp_fs_magic = 0x63677270, tc_use_perf_ring_buf = 1\<rparr>"

definition cs_example :: cgrp_state where
  "cs_example = \<lparr>cs_tracking = empty_map,
     cs_heap = Some \<lparr>ct_state = CGROUP_UNTRACKED, ct_hierarchy_id = 0, ct_level = 0, ct_name = replicate KN_NAME_LENGTH 0\<rparr>,
     cs_msg = None, cs_tracker = \<lparr>bm_elems = [100 \<mapsto> 100], bm_admit = (\<lambda>_ _. 0)\<rparr>, cs_errm = empty_lru\<rparr>"

lemma created_example: "created (kc_example, 101) = (101, 100)" "created (kc_example, 102) = (102, 101)"
  by (simp_all add: created_def get_cgroup_id_def get_cgroup_kn_id_def get_cgroup_kn_def cgroup_get_parent_id_def
      kc_example_def)

theorem policy_covers_descendants_witness:
  "policy_filter_check build_v61 kc_example 0 (Some conf_example) [7 \<mapsto> [100 \<mapsto> 1]]
     (track_all [(kc_example, 101), (kc_example, 102)] cs_example) 7"
proof -
  have "tg_get_current_cgroup_id build_v61 kc_example 0 (Some conf_example) = 102"
    by (simp add: tg_get_current_cgroup_id_def kc_example_def conf_example_def CGROUP2_SUPER_MAGIC_def)
  then show ?thesis
    by (subst policy_covers_descendants [where t = 100 and pm = "[100 \<mapsto> 1]"])
      (simp_all add: roomy_def cs_example_def created_example map_lookup_elem_def)
qed

theorem cgroup_tracking_invariant_witness:
  "\<exists>v. map_lookup_elem (cs_tracking (fst (tg_tp_cgrp_mkdir build_v61 kc_example kt_example xs_example 101 0
          (cs_example, busy_out\<lparr>os_conf := Some conf_example\<rparr>)))) 101 = Some v \<and> ct_level v \<le> 2"
proof -
  let ?s0 = "(cs_example, busy_out\<lparr>os_conf := Some conf_example\<rparr>)"
  obtain cs os where s: "tg_tp_cgrp_mkdir build_v61 kc_example kt_example xs_example 101 0 ?s0 = (cs, os)"
    by fastforce
  have "cg_step\<^sup>*\<^sup>* ?s0 (cs, os)" using cg_mkdir [of ?s0] unfolding s [symmetric] by blast
  moreover obtain v where v: "map_lookup_elem (cs_tracking cs) 101 = Some v"
    using s by (auto simp: tg_tp_cgrp_mkdir_def conf_example_def get_cgroup_hierarchy_id_def get_cgroup_level_def
        get_cgroup_id_def get_cgroup_kn_id_def get_cgroup_kn_def init_cgrp_tracking_val_heap_def
        get_cgrp_tracking_val_heap_def get_cgroup_kn_name_def kc_example_def cs_example_def Let_def
        LOG_TRACE_LEVEL_def map_ops_defs)
  ultimately show ?thesis
    using cgroup_tracking_invariant [of cs_example _ cs os conf_example 101 v]
    unfolding s by (auto simp: conf_example_def cs_example_def empty_map_def map_lookup_elem_def fun_eq_iff)
qed

theorem cgroup_removed_forgotten_witness:
  "map_lookup_elem (cs_tracking (fst (tg_tp_cgrp_rmdir (\<lambda>v. v) build_v61 kc_example kt_example xs_example 101 0
      (cs_example, busy_out)))) 101 = None"
proof -
  have "get_cgroup_id kc_example 101 = 101"
    by (simp add: get_cgroup_id_def get_cgroup_kn_id_def get_cgroup_kn_def kc_example_def)
  then show ?thesis
    using cgroup_removed_forgotten [of kc_example 101
        "tg_tp_cgrp_rmdir (\<lambda>v. v) build_v61 kc_example kt_example xs_example 101 0 (cs_example, busy_out)"
        "\<lambda>v. v" build_v61 kt_example xs_example 0 cs_example busy_out] by simp
qed

end
