(* ===== verification/Process_Event.thy ===== *)
theory Process_Event
  imports D_Path Cgroup
begin

text \<open>
  Collecting the data of a process (\<^verbatim>\<open>process/bpf_process_event.h\<close>): login uid, working directory,
  credentials and capabilities, namespaces, cgroup, and the mark of processes that belong to a
  container's init tree. The kernel structures are the parameter \<open>kproc\<close>; reads that fail give 0, and
  the tests for the existence of a field in the running kernel are Booleans.
\<close>

section \<open>Kernel view\<close>

datatype ns_field = F_uts | F_ipc | F_mnt | F_pid_for_children | F_net | F_time | F_time_for_children | F_cgroup

record kproc =
  kp_has_loginuid :: bool
  kp_loginuid :: "ptr \<Rightarrow> u64"
  kp_has_audit :: bool
  kp_audit :: "ptr \<Rightarrow> ptr"
  kp_audit_loginuid :: "ptr \<Rightarrow> u32"
  kp_fs :: "ptr \<Rightarrow> ptr"
  kp_fs_pwd :: "ptr \<Rightarrow> ptr"
  kp_cred :: "ptr \<Rightarrow> ptr"
  kp_cred_uid :: "ptr \<Rightarrow> u32"
  kp_cred_gid :: "ptr \<Rightarrow> u32"
  kp_cred_euid :: "ptr \<Rightarrow> u32"
  kp_cred_egid :: "ptr \<Rightarrow> u32"
  kp_cred_suid :: "ptr \<Rightarrow> u32"
  kp_cred_sgid :: "ptr \<Rightarrow> u32"
  kp_cred_fsuid :: "ptr \<Rightarrow> u32"
  kp_cred_fsgid :: "ptr \<Rightarrow> u32"
  kp_cred_securebits :: "ptr \<Rightarrow> u32"
  kp_cap_effective :: "ptr \<Rightarrow> u64"
  kp_cap_inheritable :: "ptr \<Rightarrow> u64"
  kp_cap_permitted :: "ptr \<Rightarrow> u64"
  kp_nsproxy :: "ptr \<Rightarrow> ptr"
  kp_has_ns :: "ns_field \<Rightarrow> bool"
  kp_nsp :: "ptr \<Rightarrow> ns_field \<Rightarrow> ptr"
  kp_ns_inum :: "ptr \<Rightarrow> u32"
  kp_proc_inum :: "ptr \<Rightarrow> u32"
  kp_upid_ns :: "ptr \<Rightarrow> u32 \<Rightarrow> ptr"
  kp_has_user_ns :: bool
  kp_mm :: "ptr \<Rightarrow> ptr"
  kp_mm_user_ns :: "ptr \<Rightarrow> ptr"

section \<open>Operations\<close>

definition get_auid_of :: "kproc \<Rightarrow> ptr \<Rightarrow> u64" where
  "get_auid_of kp task =
     (if task = 0 then 0
      else if kp_has_loginuid kp then kp_loginuid kp task
      else if kp_has_audit kp
      then (let audit = kp_audit kp task in if audit \<noteq> 0 then ucast (kp_audit_loginuid kp audit) else 0)
      else 0)"

definition get_auid :: "kproc \<Rightarrow> ktask \<Rightarrow> u32" where
  "get_auid kp kt = ucast (get_auid_of kp (kt_current kt))"

text \<open>
  \<^verbatim>\<open>getcwd\<close> writes into the union of the header and the buffer at an offset; the result is the path
  heap, the header, the buffer and the number of bytes written.
\<close>

definition getcwd ::
  "build \<Rightarrow> kvfs \<Rightarrow> ktask \<Rightarrow> kproc \<Rightarrow> byte list option \<Rightarrow> msg_process \<Rightarrow> byte list \<Rightarrow> u32 \<Rightarrow> u32
     \<Rightarrow> byte list option \<times> msg_process \<times> byte list \<times> u32" where
  "getcwd bd vf kt kp heap cur buf offset proc_pid =
     (let task = get_task_from_pid kt proc_pid;
          fs = kp_fs kp task
      in if fs = 0 then (heap, cur\<lparr>mp_flags := mp_flags cur OR EVENT_ERROR_CWD\<rparr>, buf, 0)
         else case d_path_local bd vf (kp_fs_pwd kp fs) heap of
                None \<Rightarrow> (heap, cur, buf, 0)
              | Some (b, flags) \<Rightarrow>
                  let off = offset AND 0x3ff;
                      sz = pb_len b AND 0xfff;
                      buf' = blit (unat off) (slice (unat (pb_ptr b)) (unat sz) (pb_buf b)) buf;
                      f1 = (if sz = 0 then mp_flags cur OR EVENT_ROOT_CWD else mp_flags cur);
                      f2 = (if word_of_int flags AND (word_of_int UNRESOLVED_PATH_COMPONENTS :: u32) \<noteq> 0
                            then f1 OR EVENT_ERROR_PATH_COMPONENTS else f1);
                      f3 = f2 AND NOT (EVENT_NEEDS_CWD OR EVENT_ERROR_CWD)
                  in (Some (pb_buf b), cur\<lparr>mp_flags := f3, mp_size_cwd := ucast sz\<rparr>, buf', sz))"

definition event_set_clone :: "msg_process \<Rightarrow> msg_process" where
  "event_set_clone p = p\<lparr>mp_flags := mp_flags p OR EVENT_CLONE\<rparr>"

definition get_caps :: "kproc \<Rightarrow> ptr \<Rightarrow> msg_capabilities \<Rightarrow> msg_capabilities" where
  "get_caps kp cred msg =
     msg\<lparr>cap_effective := kp_cap_effective kp cred, cap_inheritable := kp_cap_inheritable kp cred,
         cap_permitted := kp_cap_permitted kp cred\<rparr>"

definition get_current_subj_caps :: "kproc \<Rightarrow> ptr \<Rightarrow> msg_capabilities \<Rightarrow> msg_capabilities" where
  "get_current_subj_caps kp task msg = get_caps kp (kp_cred kp task) msg"

definition get_current_subj_creds :: "kproc \<Rightarrow> ptr \<Rightarrow> msg_cred \<Rightarrow> msg_cred" where
  "get_current_subj_creds kp task info =
     (let cred = kp_cred kp task
      in info\<lparr>cr_uid := kp_cred_uid kp cred, cr_gid := kp_cred_gid kp cred,
              cr_euid := kp_cred_euid kp cred, cr_egid := kp_cred_egid kp cred,
              cr_suid := kp_cred_suid kp cred, cr_sgid := kp_cred_sgid kp cred,
              cr_fsuid := kp_cred_fsuid kp cred, cr_fsgid := kp_cred_fsgid kp cred,
              cr_securebits := kp_cred_securebits kp cred, cr_caps := get_caps kp cred (cr_caps info)\<rparr>)"

definition ns_inum_of :: "kproc \<Rightarrow> ptr \<Rightarrow> ns_field \<Rightarrow> u32" where
  "ns_inum_of kp nsproxy fl = kp_ns_inum kp (kp_nsp kp nsproxy fl)"

definition ns_proc_inum_of :: "kproc \<Rightarrow> ptr \<Rightarrow> ns_field \<Rightarrow> u32" where
  "ns_proc_inum_of kp nsproxy fl = kp_proc_inum kp (kp_nsp kp nsproxy fl)"

text \<open>
  The steps are in the order of the code. The third one writes the mount namespace of old kernels to the
  slot of the IPC namespace, as the code does.
\<close>

definition get_namespaces :: "kproc \<Rightarrow> ktask \<Rightarrow> ptr \<Rightarrow> msg_ns \<Rightarrow> msg_ns" where
  "get_namespaces kp kt task msg =
     (let nsp = kp_nsproxy kp task;
          m1 = (if kp_has_ns kp F_uts then msg[ns_uts := ns_inum_of kp nsp F_uts]
                else msg[ns_uts := ns_proc_inum_of kp nsp F_uts]);
          m2 = (if kp_has_ns kp F_ipc then m1[ns_ipc := ns_inum_of kp nsp F_ipc]
                else m1[ns_ipc := ns_proc_inum_of kp nsp F_ipc]);
          m3 = (if kp_has_ns kp F_mnt then m2[ns_mnt := ns_inum_of kp nsp F_mnt]
                else m2[ns_ipc := ns_proc_inum_of kp nsp F_mnt]);
          m4 = (if kt_has_thread_pid kt
                then (let p = kt_thread_pid kt task
                      in if p \<noteq> 0 then m3[ns_pid := kp_ns_inum kp (kp_upid_ns kp p (kt_pid_level kt p))]
                         else m3[ns_pid := 0])
                else m3);
          m5 = (if kp_has_ns kp F_pid_for_children
                then m4[ns_pid_for_children := ns_inum_of kp nsp F_pid_for_children]
                else m4[ns_pid_for_children := 0]);
          m6 = (if kp_has_ns kp F_net then m5[ns_net := ns_inum_of kp nsp F_net]
                else m5[ns_net := ns_proc_inum_of kp nsp F_net]);
          m7 = (if kp_has_ns kp F_time
                then m6[ns_time := ns_inum_of kp nsp F_time,
                        ns_time_for_children := ns_inum_of kp nsp F_time_for_children]
                else m6);
          m8 = (if kp_has_ns kp F_cgroup then m7[ns_cgroup := ns_inum_of kp nsp F_cgroup] else m7[ns_cgroup := 0])
      in if kp_has_user_ns kp
         then m8[ns_user := kp_ns_inum kp (kp_mm_user_ns kp (kp_mm kp task))]
         else m8[ns_user := 0])"

definition event_get_current_cgroup_name :: "kcgrp \<Rightarrow> ptr \<Rightarrow> msg_k8s \<Rightarrow> msg_k8s \<times> u32" where
  "event_get_current_cgroup_name kc cgrp kube =
     (let name = get_cgroup_name kc cgrp
      in if name \<noteq> 0
         then (kube\<lparr>kb_docker_id := blit 0 (fst (probe_read_str (kc_mem kc) KN_NAME_LENGTH name)) (kb_docker_id kube)\<rparr>, 0)
         else (kube, EVENT_ERROR_CGROUP_NAME))"

definition event_get_cgroup_info ::
  "build \<Rightarrow> kcgrp \<Rightarrow> ptr \<Rightarrow> tetragon_conf option \<Rightarrow> cgrp_state \<Rightarrow> msg_k8s \<Rightarrow> msg_k8s \<times> u32" where
  "event_get_cgroup_info bd kc task conf cs kube0 =
     (let kube = zero_k8s;
          cgrpfs_magic = (case conf of None \<Rightarrow> 0 | Some c \<Rightarrow> tc_cgrp_fs_magic c);
          subsys_idx = (case conf of None \<Rightarrow> 0 | Some c \<Rightarrow> tc_tg_cgrpv1_subsys_idx c)
      in case get_task_cgroup bd kc task cgrpfs_magic subsys_idx 0 of
           (cgrp, flags) \<Rightarrow>
             if cgrp = 0 then (kube, 0)
             else let cid = tg_get_current_cgroup_id_of kc cgrp cgrpfs_magic;
                      kube1 = kube\<lparr>kb_cgrpid := cid\<rparr>;
                      kube2 = (if cid \<noteq> 0 then kube1\<lparr>kb_cgrp_tracker_id := cgrp_get_tracker_id cid cs\<rparr> else kube1);
                      flags1 = (if cid \<noteq> 0 then flags else flags OR EVENT_ERROR_CGROUP_ID)
                  in case event_get_current_cgroup_name kc cgrp kube2 of
                       (kube3, fl) \<Rightarrow> (kube3, flags1 OR fl))"

definition set_in_init_tree :: "execve_map_value \<Rightarrow> execve_map_value option \<Rightarrow> execve_map_value" where
  "set_in_init_tree cur parent =
     (if (case parent of None \<Rightarrow> False | Some p \<Rightarrow> ev_flags p AND EVENT_IN_INIT_TREE \<noteq> 0)
      then cur\<lparr>ev_flags := ev_flags cur OR EVENT_IN_INIT_TREE\<rparr>
      else if ev_nspid cur = 1 then cur\<lparr>ev_flags := ev_flags cur OR EVENT_IN_INIT_TREE\<rparr>
      else cur)"

definition event_find_curr_probe ::
  "build \<Rightarrow> kvfs \<Rightarrow> ktask \<Rightarrow> kproc \<Rightarrow> u64 \<Rightarrow> byte list option \<Rightarrow> execve_map_value \<Rightarrow> heap_exe
     \<Rightarrow> byte list option \<times> heap_exe \<times> execve_map_value option" where
  "event_find_curr_probe bd vf kt kp ktime heap cur exe =
     (if bd_large bd
      then (let task = kt_current kt;
                c1 = cur\<lparr>ev_key := \<lparr>ek_pid = kt_tgid kt task, ek_ktime = ktime\<rparr>,
                         ev_nspid := get_task_pid_vnr_by_task kt task\<rparr>;
                c2 = c1\<lparr>ev_caps := get_current_subj_caps kp task (ev_caps c1)\<rparr>;
                c3 = c2\<lparr>ev_ns := get_namespaces kp kt task (ev_ns c2)\<rparr>;
                c4 = set_in_init_tree c3 None
            in case read_exe bd vf heap exe of (heap', exe', n) \<Rightarrow> (heap', exe', Some c4))
      else (heap, exe, None))"

section \<open>Properties\<close>

lemma unat_and_3ff: "unat ((w :: u32) AND 0x3ff) = unat w mod 1024"
  using unat_and_mask [of w 10] by (simp add: mask_eq_exp_minus_1)

lemma unat_and_fff: "unat ((w :: u32) AND 0xfff) = unat w mod 4096"
  using unat_and_mask [of w 12] by (simp add: mask_eq_exp_minus_1)

lemma unat_ucast_32_16: "unat (w :: u32) < 65536 \<Longrightarrow> unat (ucast w :: u16) = unat w"
  by (simp add: unsigned_ucast_eq take_bit_nat_eq_self)

lemma getcwd_in_bounds:
  assumes "getcwd bd vf kt kp heap cur buf offset pid = (heap', cur', buf', n)"
    and "length buf = PADDED_BUFFER"
  shows "length buf' = PADDED_BUFFER \<and> unat n \<le> 4095
         \<and> take (unat offset mod 1024) buf' = take (unat offset mod 1024) buf
         \<and> (n \<noteq> 0 \<longrightarrow> mp_size_cwd cur' = ucast n)
         \<and> (n = 0 \<longrightarrow> buf' = buf \<and> mp_size_cwd cur' \<in> {0, mp_size_cwd cur})"
proof (cases "kp_fs kp (get_task_from_pid kt pid) = 0 \<or> d_path_local bd vf (kp_fs_pwd kp (kp_fs kp (get_task_from_pid kt pid))) heap = None")
  case True
  with assms show ?thesis by (auto simp: getcwd_def Let_def split: if_splits)
next
  case False
  then obtain b fl where d: "d_path_local bd vf (kp_fs_pwd kp (kp_fs kp (get_task_from_pid kt pid))) heap = Some (b, fl)"
    by auto
  let ?off = "unat offset mod 1024" and ?bs = "slice (unat (pb_ptr b)) (unat (pb_len b AND 0xfff)) (pb_buf b)"
  have buf': "buf' = blit ?off ?bs buf" and n: "n = pb_len b AND 0xfff" and c: "mp_size_cwd cur' = ucast n"
    using False assms(1) d by (auto simp: getcwd_def Let_def unat_and_3ff)
  have n4: "unat n \<le> 4095" unfolding n unat_and_fff by simp
  have len: "length ?bs \<le> 4095" using n4 n by simp
  have o: "?off \<le> 1023" by simp
  have "length (blit ?off ?bs buf) = length buf"
    using o len assms(2) by (intro length_blit) (simp add: tg_consts)
  moreover have "take ?off (blit ?off ?bs buf) = take ?off buf"
    using o assms(2) by (intro take_blit_before) (simp_all add: tg_consts)
  moreover have "n = 0 \<Longrightarrow> ?bs = []" using n by (simp add: slice_def)
  ultimately show ?thesis using buf' assms(2) n4 c by auto
qed

text \<open>
  The working directory in the exec event. When the directory's path is shorter than the path
  buffer and the offset is below 1024, \<^verbatim>\<open>getcwd\<close> copies exactly the path to the offset, reports its
  length both in its result and in the size field, leaves everything before the offset as it was, and
  stays inside the event buffer.
\<close>

theorem getcwd_path:
  assumes "names_bounded vf" and "length hb = BUFFER_HEAP_SIZE"
    and "kp_fs kp (get_task_from_pid kt pid) = fs" and "fs \<noteq> 0"
    and "walk_of bd vf (kp_fs_pwd kp fs) = (names, r)" and "names \<noteq> []"
    and "str = path_string names @ deleted_mark vf (kp_fs_pwd kp fs)" and "length str < 4096"
    and "unat offset < 1024" and "length buf = PADDED_BUFFER"
    and "getcwd bd vf kt kp (Some hb) cur buf offset pid = (heap', cur', buf', n)"
  shows "unat n = length str \<and> unat (mp_size_cwd cur') = length str
         \<and> slice (unat offset) (length str) buf' = str
         \<and> take (unat offset) buf' = take (unat offset) buf \<and> length buf' = PADDED_BUFFER"
proof -
  obtain b fl where dp: "d_path_local bd vf (kp_fs_pwd kp fs) (Some hb) = Some (b, fl)"
    and len: "unat (pb_len b) = length str" and sl: "slice (unat (pb_ptr b)) (length str) (pb_buf b) = str"
    using d_path_local_result [OF assms(1,2,5-8)] by blast
  have n: "n = pb_len b AND 0xfff" and c: "mp_size_cwd cur' = ucast n"
    and buf': "buf' = blit (unat offset mod 1024) (slice (unat (pb_ptr b)) (unat n) (pb_buf b)) buf"
    using assms(3,4,11) dp by (auto simp: getcwd_def Let_def unat_and_3ff)
  have un: "unat n = length str" using n len assms(8) by (simp add: unat_and_fff)
  have "slice (unat offset) (length str) (blit (unat offset) str buf) = str"
    using assms(9,10) by (intro slice_blit_same) (simp add: tg_consts)
  moreover have "unat (mp_size_cwd cur') = length str"
    using c un assms(8) unat_ucast_32_16 [of n] by simp
  ultimately show ?thesis
    using getcwd_in_bounds [OF assms(11,10)] buf' un sl assms(9) by simp
qed

text \<open>
  The namespace numbers of an event do not depend on what the message held before: on a kernel that
  has all the fields, each of the ten slots is the inode number of the namespace it stands for.
\<close>

theorem get_namespaces_complete:
  assumes "length msg = ns_max_types" and "\<forall>fl. kp_has_ns kp fl" and "kp_has_user_ns kp"
    and "kt_has_thread_pid kt" and "kt_thread_pid kt task = p" and "p \<noteq> 0" and "kp_nsproxy kp task = nsp"
  shows "get_namespaces kp kt task msg =
     [ns_inum_of kp nsp F_uts, ns_inum_of kp nsp F_ipc, ns_inum_of kp nsp F_mnt,
      kp_ns_inum kp (kp_upid_ns kp p (kt_pid_level kt p)), ns_inum_of kp nsp F_pid_for_children,
      ns_inum_of kp nsp F_net, ns_inum_of kp nsp F_time, ns_inum_of kp nsp F_time_for_children,
      ns_inum_of kp nsp F_cgroup, kp_ns_inum kp (kp_mm_user_ns kp (kp_mm kp task))]"
proof -
  obtain a b c d e f g h i j where m: "msg = [a, b, c, d, e, f, g, h, i, j]"
    using assms(1) by (auto simp: ns_max_types_def numeral_eq_Suc length_Suc_conv)
  show ?thesis using assms(2-) by (simp add: m get_namespaces_def Let_def tg_consts)
qed

text \<open>
  On a kernel without \<^verbatim>\<open>mnt_ns->ns\<close> (RHEL 7) the mount namespace is reported as the IPC namespace:
  the IPC slot gets the mount namespace's number and the mount slot keeps what it held before.
\<close>

theorem get_namespaces_rhel7_mnt:
  assumes "length msg = ns_max_types" and "\<not> kp_has_ns kp F_mnt"
  shows "get_namespaces kp kt task msg ! ns_mnt = msg ! ns_mnt
         \<and> get_namespaces kp kt task msg ! ns_ipc = ns_proc_inum_of kp (kp_nsproxy kp task) F_mnt"
proof -
  have "\<And>n. n < 10 \<Longrightarrow> n < length msg" using assms(1) by (simp add: ns_max_types_def)
  then show ?thesis using assms(2) by (simp add: get_namespaces_def Let_def tg_consts nth_list_update)
qed

text \<open>
  A task whose cgroup cannot be found is reported without any error: \<^verbatim>\<open>get_task_cgroup\<close> always raises
  an error flag in this case, and \<^verbatim>\<open>__event_get_cgroup_info\<close> drops it.
\<close>

theorem cgroup_info_drops_errors:
  assumes "get_task_cgroup bd kc task (tc_cgrp_fs_magic conf) (tc_tg_cgrpv1_subsys_idx conf) 0 = (0, flags)"
  shows "flags \<noteq> 0 \<and> event_get_cgroup_info bd kc task (Some conf) cs kube = (zero_k8s, 0)"
  using assms
  by (auto simp: get_task_cgroup_def event_get_cgroup_info_def Let_def tg_consts split: if_splits)

text \<open>
  When the task's cgroup is found and has an id, the event carries this id and the id of the
  container it is tracked under; no cgroup error is raised if the name can be read too.
\<close>

theorem cgroup_info_complete:
  assumes "get_task_cgroup bd kc task (tc_cgrp_fs_magic conf) (tc_tg_cgrpv1_subsys_idx conf) 0 = (cgrp, 0)"
    and "cgrp \<noteq> 0" and "tg_get_current_cgroup_id_of kc cgrp (tc_cgrp_fs_magic conf) = cid" and "cid \<noteq> 0"
    and "get_cgroup_name kc cgrp \<noteq> 0"
  shows "\<exists>kube'. event_get_cgroup_info bd kc task (Some conf) cs kube = (kube', 0)
           \<and> kb_cgrpid kube' = cid \<and> kb_cgrp_tracker_id kube' = cgrp_get_tracker_id cid cs"
  using assms by (simp add: event_get_cgroup_info_def event_get_current_cgroup_name_def Let_def)

section \<open>Concrete runs\<close>

definition kp_example :: kproc where
  "kp_example = \<lparr>kp_has_loginuid = True, kp_loginuid = (\<lambda>_. 1000), kp_has_audit = False, kp_audit = (\<lambda>_. 0),
     kp_audit_loginuid = (\<lambda>_. 0), kp_fs = (\<lambda>_. 5), kp_fs_pwd = (\<lambda>_. 1), kp_cred = (\<lambda>_. 6),
     kp_cred_uid = (\<lambda>_. 1000), kp_cred_gid = (\<lambda>_. 1000), kp_cred_euid = (\<lambda>_. 0), kp_cred_egid = (\<lambda>_. 0),
     kp_cred_suid = (\<lambda>_. 0), kp_cred_sgid = (\<lambda>_. 0), kp_cred_fsuid = (\<lambda>_. 0), kp_cred_fsgid = (\<lambda>_. 0),
     kp_cred_securebits = (\<lambda>_. 0), kp_cap_effective = (\<lambda>_. 1), kp_cap_inheritable = (\<lambda>_. 2),
     kp_cap_permitted = (\<lambda>_. 3), kp_nsproxy = (\<lambda>_. 8), kp_has_ns = (\<lambda>_. True), kp_nsp = (\<lambda>_ _. 9),
     kp_ns_inum = (\<lambda>_. 4026531840), kp_proc_inum = (\<lambda>_. 7), kp_upid_ns = (\<lambda>_ _. 9), kp_has_user_ns = True,
     kp_mm = (\<lambda>_. 10), kp_mm_user_ns = (\<lambda>_. 9)\<rparr>"

definition zero_process :: msg_process where
  "zero_process = \<lparr>mp_size = 0, mp_pid = 0, mp_tid = 0, mp_nspid = 0, mp_secureexec = 0, mp_uid = 0, mp_auid = 0,
     mp_flags = 0, mp_i_nlink = 0, mp_i_ino = 0, mp_ktime = 0, mp_size_path = 0, mp_size_args = 0,
     mp_size_cwd = 0, mp_size_envs = 0\<rparr>"

theorem getcwd_path_witness:
  "unat (snd (snd (snd (getcwd build_v419 vf_example kt_example kp_example (Some (replicate BUFFER_HEAP_SIZE 0))
      zero_process (replicate PADDED_BUFFER 0) 80 10)))) = 7"
proof -
  obtain h c b n where g: "getcwd build_v419 vf_example kt_example kp_example (Some (replicate BUFFER_HEAP_SIZE 0))
      zero_process (replicate PADDED_BUFFER 0) 80 10 = (h, c, b, n)" by (metis prod.exhaust)
  have p: "kp_fs_pwd kp_example 5 = 1" and fs: "kp_fs kp_example (get_task_from_pid kt_example 10) = 5"
    by (simp_all add: kp_example_def)
  from getcwd_path [OF vf_example_bounded _ fs _ vf_example_walk [folded p] _ refl _ _ _ g]
  show ?thesis unfolding g by (simp add: p vf_example_mark)
qed

theorem get_namespaces_complete_witness:
  "get_namespaces kp_example kt_example 100 (replicate ns_max_types 1) ! ns_mnt = 4026531840"
proof -
  have "kt_thread_pid kt_example 100 = 100" "kt_has_thread_pid kt_example" by (simp_all add: kt_example_def)
  moreover have "kp_nsproxy kp_example 100 = 8" "kp_has_user_ns kp_example" "\<forall>fl. kp_has_ns kp_example fl"
    "ns_inum_of kp_example 8 F_mnt = 4026531840" by (simp_all add: kp_example_def ns_inum_of_def)
  ultimately show ?thesis
    using get_namespaces_complete [of "replicate ns_max_types 1" kp_example kt_example 100 100 8]
    by (simp add: ns_mnt_def)
qed

theorem get_namespaces_rhel7_mnt_witness:
  "get_namespaces (kp_example\<lparr>kp_has_ns := (\<lambda>fl. fl \<noteq> F_mnt)\<rparr>) kt_example 100 (replicate ns_max_types 1) ! ns_mnt = 1"
proof -
  have "replicate ns_max_types (1 :: u32) ! ns_mnt = 1" by (simp add: tg_consts)
  then show ?thesis
    using get_namespaces_rhel7_mnt [of "replicate ns_max_types 1" "kp_example\<lparr>kp_has_ns := (\<lambda>fl. fl \<noteq> F_mnt)\<rparr>" kt_example 100]
    by simp
qed

theorem cgroup_info_drops_errors_witness:
  "event_get_cgroup_info build_v61 (kc_example\<lparr>kc_task_cgroups := (\<lambda>_. 0)\<rparr>) 100 (Some conf_example) cs_example zero_k8s
     = (zero_k8s, 0)"
  using cgroup_info_drops_errors [of build_v61 "kc_example\<lparr>kc_task_cgroups := (\<lambda>_. 0)\<rparr>" 100 conf_example
      EVENT_ERROR_CGROUPS cs_example zero_k8s]
  by (simp add: get_task_cgroup_def)

theorem cgroup_info_complete_witness:
  "\<exists>kube. event_get_cgroup_info build_v61 (kc_example\<lparr>kc_kn_name := (\<lambda>_. 77)\<rparr>) 100 (Some conf_example) cs_example zero_k8s
      = (kube, 0) \<and> kb_cgrpid kube = 102"
  using cgroup_info_complete [of build_v61 "kc_example\<lparr>kc_kn_name := (\<lambda>_. 77)\<rparr>" 100 conf_example 102 102 cs_example zero_k8s]
  by (auto simp: get_task_cgroup_def kc_example_def conf_example_def build_v61_def tg_get_current_cgroup_id_of_def
      get_cgroup_name_def CGROUP2_SUPER_MAGIC_def)

end
