(* ===== verification/Data_Event.thy ===== *)
theory Data_Event
  imports Kernel_Mem Execve_Map
begin

text \<open>
  Data events (\<^verbatim>\<open>process/data_event.h\<close>): an argument that does not fit in an event is sent beforehand in
  messages of up to 32736 bytes, and the event only carries a descriptor with the id shared by these
  messages, the number of bytes sent and the number left over.
\<close>

section \<open>Model\<close>

text \<open>The per-CPU message buffer is threaded through the calls next to the output state.\<close>

type_synonym data_state = "msg_data \<times> out_state"

definition do_bytes1 :: "build \<Rightarrow> memory \<Rightarrow> u64 \<Rightarrow> u64 \<Rightarrow> data_state \<Rightarrow> data_state \<times> int" where
  "do_bytes1 bd mem uptr bytes0 = (\<lambda>(msg, os).
     let bytes1 = (if bytes0 < of_nat MSG_DATA_ARG_LEN then bytes0 else of_nat MSG_DATA_ARG_LEN);
         bytes = (if bd_large bd then bytes1 else bytes1 AND 0x3fff)
     in case probe_read mem (unat bytes) uptr of
          (bs, err) \<Rightarrow>
            let msg1 = msg\<lparr>md_arg := blit 0 bs (md_arg msg)\<rparr>
            in if err < 0 then ((msg1, os), err)
               else let msz = of_nat OFFSETOF_MSG_DATA_ARG + ucast bytes;
                        msg2 = msg1\<lparr>md_common := (md_common msg1)\<lparr>mc_size := msz\<rparr>\<rparr>
                    in case event_output bd (Ev_data msg2) (ucast msz) os of
                         (os', err') \<Rightarrow> ((msg2, os'), if err' < 0 then err' else int (unat bytes)))"

fun do_bytes_loop :: "build \<Rightarrow> memory \<Rightarrow> u64 \<Rightarrow> u64 \<Rightarrow> nat \<Rightarrow> u64 \<Rightarrow> data_state \<Rightarrow> data_state \<times> int" where
  "do_bytes_loop bd mem arg bytes 0 rd_bytes st = (st, int (unat rd_bytes))"
| "do_bytes_loop bd mem arg bytes (Suc n) rd_bytes st =
     (case do_bytes1 bd mem (arg + rd_bytes) (bytes - rd_bytes) st of
        ((msg, os), err) \<Rightarrow>
          if err < 0 then ((msg, event_output_update_error_metric MSG_OP_DATA err os), err)
          else let rd' = rd_bytes + word_of_int err
               in if rd' = bytes then ((msg, os), int (unat rd'))
                  else do_bytes_loop bd mem arg bytes n rd' (msg, os))"

definition do_bytes :: "build \<Rightarrow> memory \<Rightarrow> u64 \<Rightarrow> u64 \<Rightarrow> data_state \<Rightarrow> data_state \<times> int" where
  "do_bytes bd mem arg bytes st = do_bytes_loop bd mem arg bytes 10 0 st"

text \<open>The result carries the \<^verbatim>\<open>done\<close> flag, whose value before the call is passed in.\<close>

definition do_str1 :: "build \<Rightarrow> memory \<Rightarrow> u64 \<Rightarrow> bool \<Rightarrow> data_state \<Rightarrow> data_state \<times> int \<times> bool" where
  "do_str1 bd mem arg done0 = (\<lambda>(msg, os).
     let max0 = (of_nat MSG_DATA_ARG_LEN - 1) AND 0x7fff :: u64;
         mx = (if max0 < 32736 then max0 else 32736)
     in case probe_read_str mem (unat mx) arg of
          (bs, ret) \<Rightarrow>
            let msg1 = msg\<lparr>md_arg := blit 0 bs (md_arg msg)\<rparr>
            in if ret < 0 then ((msg1, os), ret, done0)
               else let fin = (ret \<noteq> int (unat mx))
                    in if ret = 0 then ((msg1, os), 0, fin)
                       else let ret' = ret - 1;
                                sz = (word_of_int ret' + of_nat OFFSETOF_MSG_DATA_ARG) AND 0x7fff :: u64;
                                msg2 = msg1\<lparr>md_common := (md_common msg1)\<lparr>mc_size := ucast sz\<rparr>\<rparr>
                            in ((msg2, event_output_metric bd MSG_OP_DATA (Ev_data msg2) sz os), ret', fin))"

fun do_str_loop :: "build \<Rightarrow> memory \<Rightarrow> u64 \<Rightarrow> nat \<Rightarrow> u64 \<Rightarrow> bool \<Rightarrow> data_state \<Rightarrow> data_state \<times> int" where
  "do_str_loop bd mem arg 0 rd_bytes fin st = (st, int (unat rd_bytes))"
| "do_str_loop bd mem arg (Suc n) rd_bytes fin st =
     (case do_str1 bd mem (arg + rd_bytes) fin st of
        (st', ret, fin') \<Rightarrow>
          if ret < 0 then (st', ret)
          else let rd' = rd_bytes + word_of_int ret
               in if fin' then (st', int (unat rd')) else do_str_loop bd mem arg n rd' fin' st')"

definition do_str :: "build \<Rightarrow> memory \<Rightarrow> u64 \<Rightarrow> u64 \<Rightarrow> data_state \<Rightarrow> data_state \<times> int" where
  "do_str bd mem arg bytes st = do_str_loop bd mem arg 2 0 False st"

text \<open>
  \<open>pid_tgid\<close>, \<open>fp\<close> and \<open>ktime\<close> are what the helpers answer: the current thread, the frame pointer of the
  context and the time. The result is the buffer, the output state, the descriptor and the size
  the caller has to add (0 when there is no buffer; the descriptor is then not written).
\<close>

definition data_event ::
  "(u64 \<Rightarrow> u64 \<Rightarrow> data_state \<Rightarrow> data_state \<times> int) \<Rightarrow> u64 \<Rightarrow> u64 \<Rightarrow> u64 \<Rightarrow> u64 \<Rightarrow> u64
     \<Rightarrow> data_event_desc \<Rightarrow> msg_data option \<Rightarrow> out_state
     \<Rightarrow> msg_data option \<times> out_state \<times> data_event_desc \<times> u64" where
  "data_event do_data_event pid_tgid fp ktime uptr sz desc heap os =
     (case heap of
        None \<Rightarrow> (None, os, desc, 0)
      | Some msg \<Rightarrow>
          let eid = \<lparr>di_pid = (if pid_tgid = - 22 then fp else pid_tgid), di_time = ktime\<rparr>;
              msg1 = msg\<lparr>md_common := (md_common msg)\<lparr>mc_op := MSG_OP_DATA, mc_flags := 0\<rparr>, md_id := eid\<rparr>
          in case do_data_event uptr sz (msg1, os) of
               ((msg', os'), err) \<Rightarrow>
                 let desc' = (if err < 0
                              then \<lparr>dd_error = word_of_int err, dd_pad = 0, dd_leftover = 0, dd_size = 0, dd_id = eid\<rparr>
                              else \<lparr>dd_error = 0, dd_pad = 0,
                                    dd_leftover = (if sz = - 1 then 0 else ucast (sz - word_of_int err)),
                                    dd_size = word_of_int err, dd_id = eid\<rparr>)
                 in (Some msg', os', desc', of_nat SIZEOF_DATA_EVENT_DESC))"

definition data_event_bytes where
  "data_event_bytes bd mem = data_event (do_bytes bd mem)"

definition data_event_str where
  "data_event_str bd mem pid_tgid fp ktime uptr desc heap os =
     data_event (do_str bd mem) pid_tgid fp ktime uptr (- 1) desc heap os"

section \<open>What is sent\<close>

text \<open>The payload of a delivered data message: the bytes of \<^verbatim>\<open>arg\<close> that its size covers.\<close>

definition payload :: "tg_event \<times> u64 \<Rightarrow> byte list" where
  "payload = (\<lambda>(ev, sz). case ev of Ev_data m \<Rightarrow> take (unat sz - OFFSETOF_MSG_DATA_ARG) (md_arg m) | _ \<Rightarrow> [])"

definition data_msg_of :: "data_event_id \<Rightarrow> tg_event \<times> u64 \<Rightarrow> bool" where
  "data_msg_of i = (\<lambda>(ev, sz). case ev of Ev_data m \<Rightarrow> md_id m = i \<and> mc_op (md_common m) = MSG_OP_DATA
       \<and> unat (mc_size (md_common m)) = unat sz | _ \<Rightarrow> False)"

definition msg_ok :: "data_event_id \<Rightarrow> msg_data \<Rightarrow> bool" where
  "msg_ok i m \<longleftrightarrow> length (md_arg m) = MSG_DATA_ARG_LEN \<and> md_id m = i \<and> mc_op (md_common m) = MSG_OP_DATA"

text \<open>The number of bytes one step copies of the \<open>n\<close> that remain.\<close>

definition chunk :: "build \<Rightarrow> nat \<Rightarrow> nat" where
  "chunk bd n = (if bd_large bd then min n 32736 else min n 32736 mod 16384)"

lemma chunk_le: "chunk bd n \<le> n" "chunk bd n \<le> 32736"
proof -
  show "chunk bd n \<le> n"
    using mod_less_eq_dividend [of "min n 32736" 16384] by (auto simp: chunk_def min_def split: if_splits)
  show "chunk bd n \<le> 32736"
    using mod_less_eq_dividend [of "min n 32736" 16384] by (auto simp: chunk_def min_def split: if_splits)
qed

lemma unat_and_3fff: "unat ((w :: u64) AND 0x3fff) = unat w mod 16384"
  using unat_and_mask [of w 14] by (simp add: mask_eq_exp_minus_1)

lemma do_bytes1_chunk:
  "unat (let b1 = (if bytes0 < of_nat MSG_DATA_ARG_LEN then bytes0 else of_nat MSG_DATA_ARG_LEN)
         in if bd_large bd then b1 else b1 AND 0x3fff :: u64) = chunk bd (unat bytes0)"
  by (simp add: chunk_def Let_def unat_and_3fff word_less_nat_alt tg_consts min_def)

lemma event_output_cases:
  assumes "event_output bd ev sz os = (os', err)"
  shows "if err < 0 then os' = os else os_sent os' = os_sent os @ [(ev, sz)]"
  using assms by (auto simp: event_output_def ring_output_def Let_def split: if_splits)

text \<open>A transfer fails for one of two causes: memory that cannot be read, or a ring that refuses a message.\<close>

lemma probe_read_fails: "snd (probe_read mem n a) < 0 \<Longrightarrow> \<exists>i < n. mem (a + of_nat i) = None"
  by (auto simp: probe_read_def Let_def split: if_splits)

lemma event_output_answer:
  assumes "event_output bd ev sz os = (os', err)"
  shows "os_answer os' = os_answer os" and "err < 0 \<Longrightarrow> \<exists>ring sent sz. os_answer os ring sent sz < 0"
  using assms by (auto simp: event_output_def ring_output_def Let_def split: if_splits)

lemma do_bytes1_step:
  assumes "do_bytes1 bd mem a n (msg, os) = ((msg', os'), r)" and "msg_ok i msg"
  shows "msg_ok i msg'"
    and "r < 0 \<Longrightarrow> os' = os"
    and "0 \<le> r \<Longrightarrow> r = int (chunk bd (unat n)) \<and> snd (probe_read mem (chunk bd (unat n)) a) = 0"
    and "0 \<le> r \<Longrightarrow> \<exists>m. os_sent os' = os_sent os @ [m] \<and> data_msg_of i m
           \<and> payload m = fst (probe_read mem (chunk bd (unat n)) a)"
    and "os_answer os' = os_answer os"
    and "r < 0 \<Longrightarrow> (\<exists>j < unat n. mem (a + of_nat j) = None) \<or> (\<exists>ring sent sz. os_answer os ring sent sz < 0)"
proof -
  let ?c = "chunk bd (unat n)"
  define bytes where "bytes = (let b1 = (if n < of_nat MSG_DATA_ARG_LEN then n else of_nat MSG_DATA_ARG_LEN)
                               in if bd_large bd then b1 else b1 AND 0x3fff)"
  have c: "unat bytes = ?c" unfolding bytes_def by (rule do_bytes1_chunk)
  obtain bs err where pr: "probe_read mem ?c a = (bs, err)" by fastforce
  have len: "length bs = ?c" "?c \<le> 32736" using length_probe_read [of mem ?c a] pr chunk_le(2) by auto
  have err: "err = 0 \<or> err < 0" using probe_read_sign [of mem ?c a] pr by (auto simp: EFAULT_def)
  define msg1 where "msg1 = msg\<lparr>md_arg := blit 0 bs (md_arg msg)\<rparr>"
  define msz :: u32 where "msz = of_nat OFFSETOF_MSG_DATA_ARG + ucast bytes"
  define msg2 where "msg2 = msg1\<lparr>md_common := (md_common msg1)\<lparr>mc_size := msz\<rparr>\<rparr>"
  obtain os1 err1 where eo: "event_output bd (Ev_data msg2) (ucast msz) os = (os1, err1)" by fastforce
  have eq: "do_bytes1 bd mem a n (msg, os) =
      (if err < 0 then ((msg1, os), err) else ((msg2, os1), if err1 < 0 then err1 else int ?c))"
    using pr eo c unfolding do_bytes1_def
    by (simp add: Let_def bytes_def [unfolded Let_def, symmetric] msg1_def [symmetric] msz_def [symmetric]
        msg2_def [symmetric])
  have ok1: "msg_ok i msg1" using assms(2) len by (simp add: msg_ok_def msg1_def MSG_DATA_ARG_LEN_def)
  then have ok2: "msg_ok i msg2" by (simp add: msg_ok_def msg2_def)
  have "unat (ucast bytes :: u32) = ?c"
    using c len by (simp add: unsigned_ucast_eq take_bit_nat_eq_self)
  then have sz: "unat msz = 32 + ?c" using len by (simp add: msz_def tg_consts unat_word_ariths)
  have pay: "payload (Ev_data msg2, ucast msz) = bs"
    using len sz by (simp add: payload_def msg2_def msg1_def tg_consts blit_def)
  have dm: "data_msg_of i (Ev_data msg2, ucast msz)"
    using ok2 by (simp add: data_msg_of_def msg_ok_def msg2_def)
  show "msg_ok i msg'" "r < 0 \<Longrightarrow> os' = os"
    "0 \<le> r \<Longrightarrow> r = int ?c \<and> snd (probe_read mem ?c a) = 0"
    "0 \<le> r \<Longrightarrow> \<exists>m. os_sent os' = os_sent os @ [m] \<and> data_msg_of i m \<and> payload m = fst (probe_read mem ?c a)"
    using assms(1) eq ok1 ok2 pr err pay dm event_output_cases [OF eo] by (auto split: if_splits)
  show "os_answer os' = os_answer os" using assms(1) eq event_output_answer(1) [OF eo] by (auto split: if_splits)
  show "r < 0 \<Longrightarrow> (\<exists>j < unat n. mem (a + of_nat j) = None) \<or> (\<exists>ring sent sz. os_answer os ring sent sz < 0)"
    using assms(1) eq event_output_answer(2) [OF eo] probe_read_fails [of mem ?c a] pr less_le_trans [OF _ chunk_le(1)]
    by (fastforce split: if_splits)
qed

lemma probe_read_append:
  assumes "snd (probe_read mem n a) = 0" and "snd (probe_read mem m (a + of_nat n)) = 0"
  shows "probe_read mem (n + m) a = (fst (probe_read mem n a) @ fst (probe_read mem m (a + of_nat n)), 0)"
proof -
  let ?f = "\<lambda>i. mem (a + of_nat i)" and ?g = "\<lambda>i. mem (a + of_nat n + of_nat i)"
  have split: "map ?f [0..<n + m] = map ?f [0..<n] @ map ?g [0..<m]"
    by (rule nth_equalityI) (auto simp: nth_append ac_simps of_nat_diff)
  have "None \<notin> set (map ?f [0..<n])" and "None \<notin> set (map ?g [0..<m])"
    using assms by (auto simp: probe_read_def Let_def EFAULT_def split: if_splits)
  then have "fst (probe_read mem n a) = map the (map ?f [0..<n])"
    and "fst (probe_read mem m (a + of_nat n)) = map the (map ?g [0..<m])"
    and "probe_read mem (n + m) a = (map the (map ?f [0..<n + m]), 0)"
    unfolding probe_read_def Let_def split by (simp_all del: map_map)
  then show ?thesis by (simp only: split map_append)
qed

text \<open>
  The loop sends a prefix of what remains, in order: the payloads of the messages it delivered are
  together the memory from where it started, as many bytes as it reports beyond its start.
\<close>

lemma do_bytes_loop_prefix:
  assumes "do_bytes_loop bd mem arg bytes k rd (msg, os) = ((msg', os'), r)"
    and "msg_ok i msg" and "unat rd \<le> unat bytes" and "0 \<le> r"
  shows "\<exists>n ms. r = int (unat rd + n) \<and> unat rd + n \<le> unat bytes
      \<and> os_sent os' = os_sent os @ ms \<and> (\<forall>m \<in> set ms. data_msg_of i m)
      \<and> probe_read mem n (arg + rd) = (concat (map payload ms), 0)"
  using assms
proof (induction k arbitrary: rd msg os)
  case 0
  then show ?case by (intro exI [of _ 0] exI [of _ "[]"]) simp
next
  case (Suc k)
  obtain msg1 os1 e where st: "do_bytes1 bd mem (arg + rd) (bytes - rd) (msg, os) = ((msg1, os1), e)"
    by (metis prod.exhaust)
  let ?c = "chunk bd (unat (bytes - rd))"
  note step = do_bytes1_step [OF st Suc.prems(2)]
  have e0: "0 \<le> e" using Suc.prems(1,4) st by (auto split: if_splits)
  then have e: "e = int ?c" and pc: "snd (probe_read mem ?c (arg + rd)) = 0" using step(3) by auto
  obtain m where m: "os_sent os1 = os_sent os @ [m]" "data_msg_of i m" "payload m = fst (probe_read mem ?c (arg + rd))"
    using step(4) e0 by auto
  have rem: "unat (bytes - rd) = unat bytes - unat rd" using Suc.prems(3) by (rule unat_sub_u64)
  have cle: "unat rd + ?c \<le> unat bytes" using chunk_le(1) [of bd "unat (bytes - rd)"] rem Suc.prems(3) by linarith
  define rd' where "rd' = rd + word_of_int e"
  have rd': "unat rd' = unat rd + ?c" "rd' = rd + of_nat ?c"
  proof -
    show "rd' = rd + of_nat ?c" by (simp add: rd'_def e)
    then show "unat rd' = unat rd + ?c"
      using cle unat_u64_less [of bytes] chunk_le(2) [of bd "unat (bytes - rd)"]
      by (simp add: unat_word_ariths unsigned_of_nat take_bit_nat_eq_self)
  qed
  have one: "probe_read mem ?c (arg + rd) = (payload m, 0)" using m(3) pc by (metis prod.collapse)
  show ?case
  proof (cases "rd' = bytes")
    case True
    with Suc.prems(1) st e0 have "r = int (unat rd')" "os' = os1" by (auto simp: rd'_def)
    then show ?thesis using rd'(1) cle m(1,2) one by (intro exI [of _ ?c] exI [of _ "[m]"]) simp
  next
    case False
    then have "do_bytes_loop bd mem arg bytes k rd' (msg1, os1) = ((msg', os'), r)"
      using Suc.prems(1) st e0 by (auto simp: rd'_def Let_def)
    from Suc.IH [OF this step(1) _ Suc.prems(4)] rd'(1) cle obtain n ms where
      n: "r = int (unat rd' + n)" "unat rd' + n \<le> unat bytes" "os_sent os' = os_sent os1 @ ms"
        "\<forall>m \<in> set ms. data_msg_of i m" "probe_read mem n (arg + rd') = (concat (map payload ms), 0)" by auto
    have "probe_read mem (?c + n) (arg + rd) = (payload m @ concat (map payload ms), 0)"
      using probe_read_append [of mem ?c "arg + rd" n] one n(5) by (simp add: rd'(2) add.assoc)
    then show ?thesis using n m(1,2) rd'(1) by (intro exI [of _ "?c + n"] exI [of _ "m # ms"]) simp
  qed
qed

lemma do_bytes_loop_complete:
  assumes "do_bytes_loop bd mem arg bytes k rd (msg, os) = ((msg', os'), r)"
    and "bd_large bd" and "msg_ok i msg" and "unat rd \<le> unat bytes" and "0 \<le> r"
  shows "r = int (min (unat bytes) (unat rd + k * 32736))"
  using assms
proof (induction k arbitrary: rd msg os)
  case 0
  then show ?case by simp
next
  case (Suc k)
  obtain msg1 os1 e where st: "do_bytes1 bd mem (arg + rd) (bytes - rd) (msg, os) = ((msg1, os1), e)"
    by (metis prod.exhaust)
  note step = do_bytes1_step [OF st Suc.prems(3)]
  have e0: "0 \<le> e" using Suc.prems(1,5) st by (auto split: if_splits)
  have rem: "unat (bytes - rd) = unat bytes - unat rd" using Suc.prems(4) by (rule unat_sub_u64)
  define c where "c = min (unat bytes - unat rd) 32736"
  have e: "e = int c" using step(3) [OF e0] rem Suc.prems(2) by (simp add: chunk_def c_def)
  define rd' where "rd' = rd + word_of_int e"
  have rd': "unat rd' = unat rd + c"
    using Suc.prems(4) unat_u64_less [of bytes]
    by (simp add: rd'_def e unat_word_ariths unsigned_of_nat take_bit_nat_eq_self c_def)
  show ?case
  proof (cases "rd' = bytes")
    case True
    with Suc.prems(1) st e0 have "r = int (unat rd')" by (auto simp: rd'_def)
    with True rd' show ?thesis by (auto simp: c_def min_def split: if_splits)
  next
    case False
    then have "do_bytes_loop bd mem arg bytes k rd' (msg1, os1) = ((msg', os'), r)"
      using Suc.prems(1) st e0 by (auto simp: rd'_def Let_def)
    from Suc.IH [OF this Suc.prems(2) step(1) _ Suc.prems(5)] rd' Suc.prems(4) show ?thesis
      by (auto simp: c_def min_def split: if_splits)
  qed
qed

lemma do_bytes_loop_stuck:
  assumes "do_bytes_loop bd mem arg 16384 k 0 (msg, os) = ((msg', os'), r)"
    and "\<not> bd_large bd" and "msg_ok i msg" and "0 \<le> r"
  shows "r = 0"
  using assms
proof (induction k arbitrary: msg os)
  case 0
  then show ?case by simp
next
  case (Suc k)
  obtain msg1 os1 e where st: "do_bytes1 bd mem arg 16384 (msg, os) = ((msg1, os1), e)"
    by (metis prod.exhaust)
  note step = do_bytes1_step [OF st Suc.prems(3)]
  have e0: "0 \<le> e" using Suc.prems(1,4) st by (auto split: if_splits)
  then have "e = 0" using step(3) Suc.prems(2) by (simp add: chunk_def)
  with Suc.prems(1) st have "do_bytes_loop bd mem arg 16384 k 0 (msg1, os1) = ((msg', os'), r)" by simp
  from Suc.IH [OF this Suc.prems(2) step(1) Suc.prems(4)] show ?case .
qed

lemma do_bytes_loop_fails:
  assumes "do_bytes_loop bd mem arg bytes k rd (msg, os) = ((msg', os'), r)" and "msg_ok i msg" and "unat rd \<le> unat bytes" and "r < 0"
  shows "(\<exists>i < unat bytes. mem (arg + of_nat i) = None) \<or> (\<exists>ring sent sz. os_answer os ring sent sz < 0)"
  using assms
proof (induction k arbitrary: rd msg os)
  case (Suc k)
  obtain msg1 os1 e where st: "do_bytes1 bd mem (arg + rd) (bytes - rd) (msg, os) = ((msg1, os1), e)"
    by (metis prod.exhaust)
  let ?c = "chunk bd (unat (bytes - rd))"
  note step = do_bytes1_step [OF st Suc.prems(2)]
  have rem: "unat (bytes - rd) = unat bytes - unat rd" using Suc.prems(3) by (rule unat_sub_u64)
  show ?case
  proof (cases "e < 0")
    case True
    have "\<exists>j < unat bytes. mem (arg + of_nat j) = None" if "i < unat (bytes - rd)" "mem (arg + rd + of_nat i) = None" for i
      using that rem by (intro exI [of _ "unat rd + i"]) (simp add: add.assoc)
    with step(6) [OF True] show ?thesis by blast
  next
    case False
    then have e: "e = int ?c" using step(3) by simp
    have cle: "unat rd + ?c \<le> unat bytes" using chunk_le(1) [of bd "unat (bytes - rd)"] rem Suc.prems(3) by linarith
    have "unat (rd + word_of_int e) = unat rd + ?c"
      using cle unat_u64_less [of bytes] chunk_le(2) [of bd "unat (bytes - rd)"]
      by (simp add: e unat_word_ariths unsigned_of_nat take_bit_nat_eq_self)
    moreover have "do_bytes_loop bd mem arg bytes k (rd + word_of_int e) (msg1, os1) = ((msg', os'), r)"
      using Suc.prems(1,4) st False by (auto simp: Let_def split: if_splits)
    ultimately show ?thesis
      using Suc.IH [of "rd + word_of_int e" msg1 os1, OF _ step(1) _ Suc.prems(4)] cle unfolding step(5) by simp
  qed
qed auto

section \<open>Properties\<close>

text \<open>
  C36. What a data event delivers, for a request below 4 GiB. In the programs for newer kernels (the large variant), when the requested memory can be read
  and the ring takes every message, the call succeeds and the messages sent during it, put together in order, are the
  requested memory up to its first 327360 bytes (ten full messages); the descriptor has their id, counts their bytes and says how many bytes are left. In general,
  in both variants, a call that succeeds has sent a prefix of the request that is as long as the descriptor says, and one that fails, which the descriptor
  says with an error and zero sizes, has met memory that cannot be read or a ring that refuses a message.
\<close>

theorem data_event_bytes_transfer:
  assumes "data_event_bytes bd mem pid_tgid fp ktime uptr sz desc (Some msg) os = (heap', os', desc', n)"
    and "length (md_arg msg) = MSG_DATA_ARG_LEN" and "unat sz < 4294967296"
  shows "(\<exists>err. err < 0 \<and> dd_error desc' = word_of_int err \<and> dd_size desc' = 0 \<and> dd_leftover desc' = 0)
            \<and> ((\<exists>i < unat sz. mem (uptr + of_nat i) = None) \<or> (\<exists>ring sent n. os_answer os ring sent n < 0))
       \<or> (dd_error desc' = 0
          \<and> (\<exists>ms. os_sent os' = os_sent os @ ms \<and> list_all (data_msg_of (dd_id desc')) ms
                \<and> probe_read mem (unat (dd_size desc')) uptr = (concat (map payload ms), 0))
          \<and> unat (dd_size desc') + unat (dd_leftover desc') = unat sz
          \<and> unat (dd_size desc') \<le> unat sz
          \<and> (if bd_large bd then unat (dd_size desc') = min (unat sz) 327360 else True))"
proof -
  define eid where "eid = \<lparr>di_pid = (if pid_tgid = - 22 then fp else pid_tgid), di_time = ktime\<rparr>"
  define msg1 where "msg1 = msg\<lparr>md_common := (md_common msg)\<lparr>mc_op := MSG_OP_DATA, mc_flags := 0\<rparr>, md_id := eid\<rparr>"
  have ok: "msg_ok eid msg1" using assms(2) by (simp add: msg_ok_def msg1_def)
  obtain msg2 os2 r where db: "do_bytes bd mem uptr sz (msg1, os) = ((msg2, os2), r)"
    by (metis prod.exhaust)
  have big: "sz \<noteq> - 1"
  proof
    assume "sz = - 1"
    then have "unat sz = 18446744073709551615"
      by (simp add: unsigned_minus_1_eq_mask mask_eq_exp_minus_1)
    with assms(3) show False by simp
  qed
  have res: "os' = os2" "dd_id desc' = eid" "dd_error desc' = (if r < 0 then word_of_int r else 0)"
    "dd_size desc' = (if r < 0 then 0 else word_of_int r)"
    "dd_leftover desc' = (if r < 0 then 0 else ucast (sz - word_of_int r))"
    using assms(1) db big
    by (auto simp: data_event_bytes_def data_event_def Let_def eid_def [symmetric] msg1_def [symmetric])
  show ?thesis
  proof (cases "r < 0")
    case True
    with do_bytes_loop_fails [OF db [unfolded do_bytes_def] ok] show ?thesis using res by auto
  next
    case False
    note loop = db [unfolded do_bytes_def]
    from do_bytes_loop_prefix [OF loop ok] False obtain k ms where
      k: "r = int k" "k \<le> unat sz" "os_sent os2 = os_sent os @ ms" "\<forall>m \<in> set ms. data_msg_of eid m"
      "probe_read mem k uptr = (concat (map payload ms), 0)" by auto
    have size: "unat (dd_size desc') = k"
      using res(4) k(1,2) assms(3) by (simp add: unsigned_of_nat take_bit_nat_eq_self)
    have "unat (sz - of_nat k) = unat sz - k"
      using k(2) assms(3) unat_sub_u64 [of "of_nat k" sz] by (simp add: unsigned_of_nat take_bit_nat_eq_self)
    then have left: "unat (dd_leftover desc') = unat sz - k"
      using res(5) k(1) assms(3) by (simp add: unsigned_ucast_eq take_bit_nat_eq_self)
    have all: "bd_large bd \<Longrightarrow> k = min (unat sz) 327360"
      using do_bytes_loop_complete [OF loop _ ok] False k(1) by simp
    show ?thesis using False res k size left all by (auto simp: list_all_iff)
  qed
qed

text \<open>
  In the small program variants a request of exactly 16384 bytes makes no progress: the mask that
  bounds one copy maps 16384 to 0, so all ten rounds copy nothing, and the call reports size 0 and the
  whole request as leftover (or an error of the ring) although every byte could be read.
\<close>

theorem data_event_bytes_stuck:
  assumes "data_event_bytes bd mem pid_tgid fp ktime uptr 16384 desc (Some msg) os = (heap', os', desc', n)"
    and "length (md_arg msg) = MSG_DATA_ARG_LEN" and "\<not> bd_large bd"
  shows "dd_size desc' = 0"
proof -
  define eid where "eid = \<lparr>di_pid = (if pid_tgid = - 22 then fp else pid_tgid), di_time = ktime\<rparr>"
  define msg1 where "msg1 = msg\<lparr>md_common := (md_common msg)\<lparr>mc_op := MSG_OP_DATA, mc_flags := 0\<rparr>, md_id := eid\<rparr>"
  have ok: "msg_ok eid msg1" using assms(2) by (simp add: msg_ok_def msg1_def)
  obtain msg2 os2 r where db: "do_bytes bd mem uptr 16384 (msg1, os) = ((msg2, os2), r)"
    by (metis prod.exhaust)
  have "dd_size desc' = (if r < 0 then 0 else word_of_int r)"
    using assms(1) db
    by (auto simp: data_event_bytes_def data_event_def Let_def eid_def [symmetric] msg1_def [symmetric])
  with do_bytes_loop_stuck [OF db [unfolded do_bytes_def] assms(3) ok] show ?thesis by auto
qed

section \<open>Concrete runs\<close>

definition zero_data :: msg_data where
  "zero_data = \<lparr>md_common = zero_common, md_id = \<lparr>di_pid = 0, di_time = 0\<rparr>, md_arg = replicate MSG_DATA_ARG_LEN 0\<rparr>"

definition zero_desc :: data_event_desc where
  "zero_desc = \<lparr>dd_error = 0, dd_pad = 0, dd_leftover = 0, dd_size = 0, dd_id = \<lparr>di_pid = 0, di_time = 0\<rparr>\<rparr>"

definition all_memory :: memory where "all_memory a = Some (ucast a)"

theorem data_event_bytes_transfer_witness:
  "\<exists>heap' os' desc' n ms.
     data_event_bytes build_v61 all_memory 7 0 9 1000 3 zero_desc (Some zero_data) busy_out = (heap', os', desc', n)
     \<and> unat (dd_size desc') = 3 \<and> dd_leftover desc' = 0
     \<and> os_sent os' = ms \<and> concat (map payload ms) = [0xe8, 0xe9, 0xea]"
proof -
  obtain heap' os' desc' n where r:
    "data_event_bytes build_v61 all_memory 7 0 9 1000 3 zero_desc (Some zero_data) busy_out = (heap', os', desc', n)"
    by (metis prod.exhaust)
  have large: "bd_large build_v61" by (simp add: build_v61_def)
  have pr: "probe_read all_memory 3 1000 = ([0xe8, 0xe9, 0xea], 0)"
    by (simp add: probe_read_def all_memory_def Let_def upt_rec)
  have "dd_size desc' \<noteq> 0"
    using r by (auto simp: data_event_bytes_def data_event_def do_bytes_def zero_data_def Let_def
        do_bytes_loop.simps(2) [of _ _ _ _ "pred_numeral v" for v, folded numeral_eq_Suc]
        do_bytes1_def MSG_DATA_ARG_LEN_def large pr event_output_def uses_perf_ring_def ring_output_def
        busy_out_def OFFSETOF_MSG_DATA_ARG_def)
  moreover have "length (md_arg zero_data) = MSG_DATA_ARG_LEN" by (simp add: zero_data_def)
  ultimately obtain ms where ms: "os_sent os' = ms" "probe_read all_memory (unat (dd_size desc')) 1000 = (concat (map payload ms), 0)"
    and sz: "unat (dd_size desc') = 3" "unat (dd_size desc') + unat (dd_leftover desc') = 3"
    using data_event_bytes_transfer [OF r] large by (auto simp: busy_out_def)
  have "concat (map payload ms) = [0xe8, 0xe9, 0xea]" using ms(2) pr unfolding sz(1) by simp
  with r ms sz show ?thesis by (auto simp: unat_eq_zero)
qed

theorem data_event_bytes_stuck_witness:
  "dd_size (fst (snd (snd (data_event_bytes build_v419 all_memory 7 0 9 1000 16384 zero_desc (Some zero_data) busy_out)))) = 0"
proof -
  obtain heap' os' desc' n where r:
    "data_event_bytes build_v419 all_memory 7 0 9 1000 16384 zero_desc (Some zero_data) busy_out = (heap', os', desc', n)"
    by (metis prod.exhaust)
  from data_event_bytes_stuck [OF r] show ?thesis
    unfolding r by (simp add: zero_data_def build_v419_def)
qed

end
