(* ===== verification/Mbset.thy ===== *)
theory Mbset
  imports Task
begin

text \<open>
  Binary match sets (\<^verbatim>\<open>process/bpf_mbset.h\<close>, \<^verbatim>\<open>process/bpf_execve_map_update.c\<close>): every process entry has
  a set of at most 64 policy ids whose binaries it or an ancestor runs. User space owns the map from
  binary paths to ids and its generation number, here the parameter \<open>mbset\<close>.
\<close>

section \<open>Model\<close>

record mbset =
  mbs_map :: "byte list \<rightharpoonup> u64"
  mbs_gen :: "u64 option"

definition update_mb_bitset :: "mbset \<Rightarrow> ktask \<Rightarrow> exec_state \<Rightarrow> binary \<Rightarrow> binary" where
  "update_mb_bitset mbs kt s bin =
     (let b1 = (case event_find_parent kt s of
                  None \<Rightarrow> bin
                | Some (pid, parent) \<Rightarrow> bin\<lparr>bin_mb_bitset := bin_mb_bitset bin OR bin_mb_bitset (ev_bin parent)\<rparr>)
      in case mbs_map mbs (bin_path b1) of
           None \<Rightarrow> b1
         | Some bitset \<Rightarrow> b1\<lparr>bin_mb_bitset := bin_mb_bitset b1 OR bitset\<rparr>)"

definition MB_LOOPS :: "build \<Rightarrow> nat" where
  "MB_LOOPS bd = (if bd_v612 bd then 100000 else 1024)"

text \<open>\<open>last\<close> is the entry of the round before, named by its key.\<close>

fun mb_task_loop :: "mbset \<Rightarrow> exec_state \<Rightarrow> nat \<Rightarrow> u32 option \<Rightarrow> u32 \<Rightarrow> u64 \<Rightarrow> u64" where
  "mb_task_loop mbs s 0 last_pid pid bits = bits"
| "mb_task_loop mbs s (Suc n) last_pid pid bits =
     (case execve_map_get_noinit pid s of
        None \<Rightarrow> bits
      | Some parent \<Rightarrow>
          if last_pid = Some pid then bits
          else let bits' = (case mbs_map mbs (bin_path (ev_bin parent)) of
                              None \<Rightarrow> bits
                            | Some b \<Rightarrow> if b \<noteq> 0 then bits OR b else bits)
               in mb_task_loop mbs s n (Some pid) (ek_pid (ev_pkey parent)) bits')"

definition update_mb_task :: "build \<Rightarrow> mbset \<Rightarrow> exec_state \<Rightarrow> execve_map_value \<Rightarrow> execve_map_value" where
  "update_mb_task bd mbs s task =
     (if bd_v511 bd
      then (case mbs_gen mbs of
              None \<Rightarrow> task
            | Some gen \<Rightarrow>
                if gen = bin_mb_gen (ev_bin task) then task
                else task\<lparr>ev_bin := (ev_bin task)
                       \<lparr>bin_mb_bitset := mb_task_loop mbs s (MB_LOOPS bd) None (ek_pid (ev_pkey task)) (bin_mb_bitset (ev_bin task)),
                        bin_mb_gen := gen\<rparr>\<rparr>)
      else task)"

definition MAX_PIDS :: nat where [tg_consts]: "MAX_PIDS = 32768"

record update_data =
  ud_bit :: u32
  ud_cnt :: u32
  ud_pids :: "u32 list"

definition UPDATE_LOOPS :: "build \<Rightarrow> nat" where
  "UPDATE_LOOPS bd = (if bd_v612 bd then MAX_PIDS else 1024)"

text \<open>
  The operand of \<^verbatim>\<open>lock_and\<close> is \<^verbatim>\<open>~(1 << data->bit)\<close>, an \<^verbatim>\<open>int\<close> that is sign-extended to 64 bits. A shift by
  32 or more has no defined value in C; \<open>undef_shift\<close> stands for what the compiled code computes.
\<close>

definition clear_mask :: "(u32 \<Rightarrow> u32) \<Rightarrow> u32 \<Rightarrow> u64" where
  "clear_mask undef_shift b =
     scast (NOT (if b < 32 then push_bit (unat b) 1 else undef_shift b) :: u32)"

fun execve_map_update_loop :: "(u32 \<Rightarrow> u32) \<Rightarrow> update_data \<Rightarrow> nat \<Rightarrow> nat \<Rightarrow> exec_state \<Rightarrow> exec_state" where
  "execve_map_update_loop us d 0 idx s = s"
| "execve_map_update_loop us d (Suc n) idx s =
     (let i = idx mod 32768
      in if unat (ud_cnt d) = i then s
         else let pid = ud_pids d ! i;
                  s' = (case execve_map_get_noinit pid s of
                          None \<Rightarrow> s
                        | Some _ \<Rightarrow> execve_map_write pid (\<lambda>v. v\<lparr>ev_bin := (ev_bin v)
                             \<lparr>bin_mb_bitset := bin_mb_bitset (ev_bin v) AND clear_mask us (ud_bit d)\<rparr>\<rparr>) s)
              in execve_map_update_loop us d n (Suc idx) s')"

definition execve_map_update :: "build \<Rightarrow> (u32 \<Rightarrow> u32) \<Rightarrow> update_data option \<Rightarrow> exec_state \<Rightarrow> exec_state \<times> int" where
  "execve_map_update bd us data s =
     (case data of
        None \<Rightarrow> (s, - 1)
      | Some d \<Rightarrow> (if bd_large bd then execve_map_update_loop us d (UPDATE_LOOPS bd) 0 s else s, 0))"

section \<open>Inheritance of matches\<close>

text \<open>The entries met by following parent keys, until a missing entry or one that is its own parent.\<close>

fun lineage :: "exec_state \<Rightarrow> nat \<Rightarrow> u32 \<Rightarrow> execve_map_value list" where
  "lineage s 0 pid = []"
| "lineage s (Suc n) pid =
     (case table s pid of
        None \<Rightarrow> []
      | Some v \<Rightarrow> v # (if ek_pid (ev_pkey v) = pid then [] else lineage s n (ek_pid (ev_pkey v))))"

definition path_matches :: "mbset \<Rightarrow> byte list \<Rightarrow> nat \<Rightarrow> bool" where
  "path_matches mbs path i = (case mbs_map mbs path of None \<Rightarrow> False | Some b \<Rightarrow> bit b i)"

lemma mb_task_loop_bits:
  "last_pid \<noteq> Some pid \<Longrightarrow>
   bit (mb_task_loop mbs s n last_pid pid bits) i \<longleftrightarrow>
     bit bits i \<or> (\<exists>v \<in> set (lineage s n pid). path_matches mbs (bin_path (ev_bin v)) i)"
proof (induction n arbitrary: last_pid pid bits)
  case 0
  then show ?case by simp
next
  case (Suc n)
  show ?case
  proof (cases "table s pid")
    case None
    then show ?thesis by (simp add: execve_map_get_noinit_def)
  next
    case (Some v)
    define bits' where "bits' = (case mbs_map mbs (bin_path (ev_bin v)) of None \<Rightarrow> bits | Some b \<Rightarrow> if b \<noteq> 0 then bits OR b else bits)"
    have b': "bit bits' i \<longleftrightarrow> bit bits i \<or> path_matches mbs (bin_path (ev_bin v)) i"
      by (auto simp: bits'_def path_matches_def bit_simps split: option.split)
    have step: "mb_task_loop mbs s (Suc n) last_pid pid bits = mb_task_loop mbs s n (Some pid) (ek_pid (ev_pkey v)) bits'"
      using Some Suc.prems by (simp add: execve_map_get_noinit_def bits'_def)
    show ?thesis
    proof (cases "ek_pid (ev_pkey v) = pid")
      case True
      then have "mb_task_loop mbs s n (Some pid) pid bits' = bits'"
        by (cases n) (auto split: option.split)
      with True step Some b' show ?thesis by simp
    next
      case False
      with Suc.IH [of "Some pid" "ek_pid (ev_pkey v)" bits'] step Some b' show ?thesis by auto
    qed
  qed
qed

text \<open>
  Matches are inherited from all ancestors. When the generation has moved, refreshing an entry sets
  exactly the bits it already had and those of the binaries of its ancestors: bit \<open>i\<close> is in the new set
  iff it was in the old one or the path of some entry on the parent chain (up to the loop bound) is in
  the map with this bit; the entry records the generation, and a second refresh changes nothing.
\<close>

theorem update_mb_task_ancestors:
  assumes "bd_v511 bd" and "mbs_gen mbs = Some gen" and "gen \<noteq> bin_mb_gen (ev_bin task)"
    and "task' = update_mb_task bd mbs s task"
  shows "(bit (bin_mb_bitset (ev_bin task')) i \<longleftrightarrow>
           bit (bin_mb_bitset (ev_bin task)) i
           \<or> (\<exists>v \<in> set (lineage s (MB_LOOPS bd) (ek_pid (ev_pkey task))). path_matches mbs (bin_path (ev_bin v)) i))
         \<and> bin_mb_gen (ev_bin task') = gen \<and> update_mb_task bd mbs s task' = task'"
  using assms by (simp add: update_mb_task_def mb_task_loop_bits)

text \<open>
  At exec the match set of the new binary is what the process had, what its nearest tracked ancestor
  has, and what the binary's own path matches, and nothing else; the binary is otherwise unchanged.
\<close>

theorem update_mb_bitset_bits:
  "(bit (bin_mb_bitset (update_mb_bitset mbs kt s bin)) i \<longleftrightarrow>
      bit (bin_mb_bitset bin) i
      \<or> (case event_find_parent kt s of None \<Rightarrow> False | Some (pid, parent) \<Rightarrow> bit (bin_mb_bitset (ev_bin parent)) i)
      \<or> path_matches mbs (bin_path bin) i)
   \<and> update_mb_bitset mbs kt s bin = bin\<lparr>bin_mb_bitset := bin_mb_bitset (update_mb_bitset mbs kt s bin)\<rparr>"
  by (auto simp: update_mb_bitset_def path_matches_def bit_simps Let_def split: option.split)

section \<open>Removing an id\<close>

lemma clear_mask_bit:
  assumes "b < 31" and "i < 64"
  shows "bit (clear_mask us b) i \<longleftrightarrow> i \<noteq> unat b"
proof -
  have b: "unat b < 31" using assms(1) by (simp add: word_less_nat_alt)
  then have "b < 32" by (simp add: word_less_nat_alt)
  with b assms(2) show ?thesis
    by (auto simp: clear_mask_def bit_simps)
qed

definition cleared :: "(u32 \<Rightarrow> u32) \<Rightarrow> u32 \<Rightarrow> execve_map_value \<Rightarrow> execve_map_value" where
  "cleared us b v = v\<lparr>ev_bin := (ev_bin v)\<lparr>bin_mb_bitset := bin_mb_bitset (ev_bin v) AND clear_mask us b\<rparr>\<rparr>"

lemma cleared_idem: "cleared us b (cleared us b v) = cleared us b v"
  by (simp add: cleared_def and.assoc)

lemma execve_map_update_loop_table:
  assumes "idx \<le> unat (ud_cnt d)" and "idx + n \<le> 32768"
  shows "table (execve_map_update_loop us d n idx s) pid =
     (if pid \<in> (!) (ud_pids d) ` {idx..<min (unat (ud_cnt d)) (idx + n)}
      then map_option (cleared us (ud_bit d)) (table s pid) else table s pid)"
  using assms
proof (induction n arbitrary: idx s)
  case 0
  then show ?case by simp
next
  case (Suc n)
  have i: "idx mod 32768 = idx" using Suc.prems(2) by simp
  show ?case
  proof (cases "unat (ud_cnt d) = idx")
    case True
    then show ?thesis by (simp add: i Let_def)
  next
    case False
    define q where "q = ud_pids d ! idx"
    define s' where "s' = (case execve_map_get_noinit q s of None \<Rightarrow> s
       | Some _ \<Rightarrow> execve_map_write q (cleared us (ud_bit d)) s)"
    have t': "table s' p = (if p = q then map_option (cleared us (ud_bit d)) (table s p) else table s p)" for p
      by (auto simp: s'_def execve_map_get_noinit_def split: option.split)
    have step: "execve_map_update_loop us d (Suc n) idx s = execve_map_update_loop us d n (Suc idx) s'"
      using False by (simp add: i Let_def q_def s'_def cleared_def [abs_def] cong: option.case_cong)
    have rng: "{idx..<min (unat (ud_cnt d)) (idx + Suc n)} = insert idx {Suc idx..<min (unat (ud_cnt d)) (Suc idx + n)}"
      using False Suc.prems(1) by auto
    have "table (execve_map_update_loop us d n (Suc idx) s') pid =
       (if pid \<in> (!) (ud_pids d) ` {Suc idx..<min (unat (ud_cnt d)) (Suc idx + n)}
        then map_option (cleared us (ud_bit d)) (table s' pid) else table s' pid)"
      using Suc.IH [of "Suc idx" s'] False Suc.prems by simp
    then show ?thesis
      unfolding step rng by (auto simp: t' q_def option.map_comp comp_def cleared_idem)
  qed
qed

text \<open>
  Removing a policy id below 31 removes exactly this id: after the update, every listed process (of
  the first 1024, or 32768 in the newest variant) lacks the bit and keeps every other bit, and all other
  entries and all other fields are unchanged.
\<close>

theorem execve_map_update_exact:
  assumes "bd_large bd" and "ud_bit d < 31"
    and "fst (execve_map_update bd us (Some d) s) = s'"
    and "table s pid = Some v" and "table s' pid = Some v'"
    and "listed \<longleftrightarrow> pid \<in> (!) (ud_pids d) ` {0..<min (unat (ud_cnt d)) (UPDATE_LOOPS bd)}" and "i < 64"
  shows "v' = v\<lparr>ev_bin := (ev_bin v)\<lparr>bin_mb_bitset := bin_mb_bitset (ev_bin v')\<rparr>\<rparr>
         \<and> (bit (bin_mb_bitset (ev_bin v')) i \<longleftrightarrow> bit (bin_mb_bitset (ev_bin v)) i \<and> \<not> (listed \<and> i = unat (ud_bit d)))"
proof -
  have "UPDATE_LOOPS bd \<le> 32768" by (simp add: UPDATE_LOOPS_def MAX_PIDS_def)
  then have "table s' pid = (if listed then map_option (cleared us (ud_bit d)) (table s pid) else table s pid)"
    using assms(1,3,6) execve_map_update_loop_table [of 0 d "UPDATE_LOOPS bd" us s pid]
    by (auto simp: execve_map_update_def)
  with assms(4,5) have "v' = (if listed then cleared us (ud_bit d) v else v)" by (auto split: if_splits)
  then show ?thesis
    using clear_mask_bit [OF assms(2,7), of us] by (auto simp: cleared_def bit_and_iff)
qed

text \<open>
  Removing id 31 removes the ids 32 to 63 as well: \<^verbatim>\<open>1 << 31\<close> is an \<^verbatim>\<open>int\<close>, its complement is positive
  and is extended with zeroes, although user space hands out ids up to 63.
\<close>

theorem execve_map_update_bit31:
  "bin_mb_bitset (ev_bin (cleared us 31 v)) = bin_mb_bitset (ev_bin v) AND 0x7fffffff"
  by (simp add: cleared_def clear_mask_def)

section \<open>Concrete runs\<close>

definition ud_example :: update_data where
  "ud_example = \<lparr>ud_bit = 2, ud_cnt = 1, ud_pids = [8]\<rparr>"

theorem execve_map_update_exact_witness:
  "\<exists>v'. table (fst (execve_map_update build_v61 (\<lambda>_. 0) (Some ud_example) xs_example)) 8 = Some v'
     \<and> \<not> bit (bin_mb_bitset (ev_bin v')) 2"
proof -
  let ?s' = "fst (execve_map_update build_v61 (\<lambda>_. 0) (Some ud_example) xs_example)"
  have l: "bd_large build_v61" and lo: "UPDATE_LOOPS build_v61 = 1024"
    by (simp_all add: build_v61_def UPDATE_LOOPS_def)
  have "table ?s' 8 = Some (cleared (\<lambda>_. 0) 2 (tracked_value 8 5))"
    using execve_map_update_loop_table [of 0 ud_example 1024 "\<lambda>_. 0" xs_example 8]
    by (simp add: execve_map_update_def l lo ud_example_def xs_example_table)
  moreover from execve_map_update_exact [OF l _ refl xs_example_table this refl, of 2]
  have "\<not> bit (bin_mb_bitset (ev_bin (cleared (\<lambda>_. 0) 2 (tracked_value 8 5)))) 2"
    by (simp add: ud_example_def lo)
  ultimately show ?thesis by blast
qed

definition mbs_example :: mbset where
  "mbs_example = \<lparr>mbs_map = (\<lambda>p. if p = replicate BINARY_PATH_MAX_LEN 0 then Some 4 else None), mbs_gen = Some 3\<rparr>"

theorem update_mb_task_ancestors_witness:
  "bit (bin_mb_bitset (ev_bin (update_mb_task build_v61 mbs_example xs_example
     ((tracked_value 9 6)\<lparr>ev_pkey := \<lparr>ek_pid = 8, ek_ktime = 5\<rparr>\<rparr>)))) 2"
proof -
  let ?t = "(tracked_value 9 6)\<lparr>ev_pkey := \<lparr>ek_pid = 8, ek_ktime = 5\<rparr>\<rparr>"
  have "MB_LOOPS build_v61 = Suc 1023" by (simp add: MB_LOOPS_def build_v61_def)
  then have "tracked_value 8 5 \<in> set (lineage xs_example (MB_LOOPS build_v61) 8)"
    by (simp only: lineage.simps) (simp add: xs_example_table)
  moreover have "path_matches mbs_example (bin_path (ev_bin (tracked_value 8 5))) 2"
    by (simp add: path_matches_def mbs_example_def tracked_value_def zero_execve_map_value_def zero_binary_def
        bit_numeral_rec)
  moreover have "bd_v511 build_v61" "mbs_gen mbs_example = Some 3" "3 \<noteq> bin_mb_gen (ev_bin ?t)"
    by (simp_all add: build_v61_def mbs_example_def tracked_value_def zero_execve_map_value_def zero_binary_def)
  ultimately show ?thesis
    using update_mb_task_ancestors [of build_v61 mbs_example 3 ?t _ xs_example 2] by auto
qed

end
