(* ===== verification/Rate.thy ===== *)
theory Rate
  imports Event_Output
begin

text \<open>
  Per-cgroup rate limiting of the base sensor's events (\<^verbatim>\<open>process/bpf_rate.h\<close>): a sliding window over
  two intervals, a throttled mark that only user space removes, and one throttle message per mark.
\<close>

section \<open>Model\<close>

record cgroup_rate_value =
  rv_curr :: u64
  rv_prev :: u64
  rv_time :: u64
  rv_rate :: u64
  rv_throttled :: u64

record cgroup_rate_options =
  ro_events :: u64
  ro_interval :: u64

record rate_state =
  rs_map :: "(u64, cgroup_rate_value) bpf_map"
  rs_options :: "cgroup_rate_options option"
  rs_heap :: "msg_throttle option"

definition send_throttle ::
  "build \<Rightarrow> msg_k8s \<Rightarrow> u64 \<Rightarrow> rate_state \<Rightarrow> out_state \<Rightarrow> rate_state \<times> out_state" where
  "send_throttle bd kube time rs os =
     (case rs_heap rs of
        None \<Rightarrow> (rs, os)
      | Some _ \<Rightarrow>
          let msg = \<lparr>mt_common = \<lparr>mc_op = MSG_OP_THROTTLE, mc_flags = 0,
                                  mc_size = of_nat SIZEOF_MSG_THROTTLE, mc_ktime = time\<rparr>,
                     mt_kube = kube\<rparr>
          in (rs\<lparr>rs_heap := Some msg\<rparr>,
              event_output_metric bd MSG_OP_THROTTLE (Ev_throttle msg) (of_nat SIZEOF_MSG_THROTTLE) os))"

text \<open>The part of \<^verbatim>\<open>cgroup_rate\<close> that moves the window and counts the event.\<close>

definition rate_slide :: "u64 \<Rightarrow> u64 \<Rightarrow> cgroup_rate_value \<Rightarrow> cgroup_rate_value" where
  "rate_slide interval time val =
     (let delta = time - rv_time val;
          val1 = (if delta > interval
                  then (if delta > 2 * interval
                        then val\<lparr>rv_prev := 0, rv_time := (time div interval) * interval\<rparr>
                        else val\<lparr>rv_prev := rv_curr val, rv_time := rv_time val + interval\<rparr>)\<lparr>rv_curr := 0\<rparr>
                  else val)
      in val1\<lparr>rv_curr := rv_curr val1 + 1\<rparr>)"

definition rate_update :: "u64 \<Rightarrow> u64 \<Rightarrow> cgroup_rate_value \<Rightarrow> cgroup_rate_value" where
  "rate_update interval time val =
     (let val1 = rate_slide interval time val;
          slide = interval - (time - rv_time val1)
      in val1\<lparr>rv_rate := (slide * rv_prev val1) div interval + rv_curr val1\<rparr>)"

definition rate_new :: "u64 \<Rightarrow> u64 \<Rightarrow> cgroup_rate_value" where
  "rate_new interval time =
     \<lparr>rv_curr = 1, rv_prev = 0, rv_time = (time div interval) * interval, rv_rate = 0, rv_throttled = 0\<rparr>"

lemma rate_new_throttled [simp]: "rv_throttled (rate_new interval time) = 0"
  by (simp add: rate_new_def)

definition cgroup_rate ::
  "build \<Rightarrow> msg_k8s \<Rightarrow> u64 \<Rightarrow> rate_state \<Rightarrow> out_state \<Rightarrow> (rate_state \<times> out_state) \<times> bool" where
  "cgroup_rate bd kube time rs os =
     (let key = kb_cgrpid kube
      in case rs_options rs of
           None \<Rightarrow> ((rs, os), True)
         | Some opt \<Rightarrow>
             let interval = ro_interval opt
             in if interval = 0 then ((rs, os), True)
                else case map_lookup_elem (rs_map rs) key of
                       None \<Rightarrow>
                         ((rs\<lparr>rs_map := fst (map_update_elem (rs_map rs) key (rate_new interval time) BPF_ANY)\<rparr>, os), True)
                     | Some val \<Rightarrow>
                         let val1 = rate_update interval time val;
                             hit = (rv_throttled val1 = 0 \<and> rv_rate val1 \<ge> ro_events opt);
                             val2 = (if hit then val1\<lparr>rv_throttled := time\<rparr> else val1);
                             rs1 = rs\<lparr>rs_map := map_modify (rs_map rs) key (\<lambda>_. val2)\<rparr>
                         in (if hit then send_throttle bd kube time rs1 os else (rs1, os),
                             rv_throttled val2 = 0))"

definition cgroup_rate_del :: "u64 \<Rightarrow> rate_state \<Rightarrow> rate_state" where
  "cgroup_rate_del cgroupid rs = rs\<lparr>rs_map := fst (map_delete_elem (rs_map rs) cgroupid)\<rparr>"

section \<open>The window\<close>

lemma unat_minus_word: "(b :: 'a::len word) \<le> a \<Longrightarrow> unat (a - b) = unat a - unat b"
  by (simp add: unat_sub)

lemma word_div_mult_mod: "(a :: 'a::len word) - (a div b) * b = a mod b"
  by (metis add_diff_cancel_left' word_mod_div_equality add.commute)

lemma rate_slide_elapsed:
  assumes pos: "interval \<noteq> 0" and small: "unat interval < 9223372036854775808"
  shows "time - rv_time (rate_slide interval time val) \<le> interval"
proof -
  define delta where "delta = time - rv_time val"
  have two: "unat (2 * interval) = 2 * unat interval"
    using small by (simp add: unat_word_ariths)
  consider (same) "delta \<le> interval" | (next_w) "interval < delta" "delta \<le> 2 * interval"
    | (far) "2 * interval < delta" "interval < delta"
    using two unfolding word_less_nat_alt word_le_nat_alt by linarith
  then show ?thesis
  proof cases
    case same
    then have "\<not> interval < time - rv_time val" by (simp add: delta_def)
    with same show ?thesis by (simp add: rate_slide_def Let_def delta_def)
  next
    case next_w
    then have "time - rv_time (rate_slide interval time val) = delta - interval"
      by (auto simp: rate_slide_def Let_def delta_def not_less algebra_simps)
    moreover have "unat (delta - interval) \<le> unat interval"
      using next_w two unat_minus_word [OF less_imp_le [OF next_w(1)]] by (simp add: word_le_nat_alt)
    ultimately show ?thesis by (simp add: word_le_nat_alt)
  next
    case far
    then have "time - rv_time (rate_slide interval time val) = time mod interval"
      by (simp add: rate_slide_def Let_def delta_def word_div_mult_mod)
    moreover have "time mod interval < interval"
      using pos by (simp add: word_mod_less_divisor word_gt_0)
    ultimately show ?thesis by simp
  qed
qed

text \<open>The same window computed with unbounded numbers: what the comment of the code draws.\<close>

definition rate_spec :: "nat \<Rightarrow> nat \<Rightarrow> nat \<Rightarrow> nat \<Rightarrow> nat" where
  "rate_spec interval elapsed prev cur = ((interval - elapsed) * prev) div interval + cur"

lemma rate_update_fields [simp]:
  "rv_time (rate_update i t v) = rv_time (rate_slide i t v)"
  "rv_prev (rate_update i t v) = rv_prev (rate_slide i t v)"
  "rv_curr (rate_update i t v) = rv_curr (rate_slide i t v)"
  "rv_throttled (rate_update i t v) = rv_throttled v"
  by (simp_all add: rate_update_def rate_slide_def Let_def)

lemma rate_update_exact:
  assumes "interval \<noteq> 0" "unat interval < 9223372036854775808" and "v' = rate_update interval time v"
    and "unat interval * unat (rv_prev v') + unat (rv_curr v') < 18446744073709551616"
  shows "unat (rv_rate v') =
     rate_spec (unat interval) (unat (time - rv_time v')) (unat (rv_prev v')) (unat (rv_curr v'))"
proof -
  define slide where "slide = interval - (time - rv_time v')"
  have "time - rv_time v' \<le> interval"
    using rate_slide_elapsed [OF assms(1,2)] assms(3) by simp
  then have slide: "unat slide = unat interval - unat (time - rv_time v')"
    by (simp add: slide_def unat_minus_word)
  have "unat slide * unat (rv_prev v') \<le> unat interval * unat (rv_prev v')"
    by (intro mult_right_mono) (simp_all add: slide)
  then have prod: "unat slide * unat (rv_prev v') + unat (rv_curr v') < 18446744073709551616"
    using assms(4) by linarith
  have rate: "rv_rate v' = (slide * rv_prev v') div interval + rv_curr v'"
    using assms(3) by (simp add: rate_update_def Let_def slide_def)
  define q where "q = unat slide * unat (rv_prev v') div unat interval"
  have q: "q \<le> unat slide * unat (rv_prev v')" by (simp add: q_def)
  have "unat (slide * rv_prev v') = unat slide * unat (rv_prev v')"
    using prod by (simp add: unat_word_ariths)
  then have "unat ((slide * rv_prev v') div interval) = q"
    by (simp add: unat_div q_def)
  then have "unat (rv_rate v') = q + unat (rv_curr v')"
    using prod q by (simp add: rate unat_word_ariths)
  then show ?thesis by (simp add: rate_spec_def slide q_def)
qed

section \<open>Specification: events in windows\<close>

text \<open>
  The specification knows the times of all events of a cgroup and nothing of the code's counters. Window \<open>w\<close> of length \<open>I\<close> begins at \<open>w * I\<close>. An event
  falls into the window of the event before it as long as it is not behind the end of that window, else into the next one, or, when it is behind the
  end of the next one too, into the window its time says. The rate at an event weighs the number of events in the window before by the
  part of it that the sliding interval still covers, and adds the number of events in the current window.
\<close>

definition next_window :: "nat \<Rightarrow> nat \<Rightarrow> nat \<Rightarrow> nat" where
  "next_window I w t = (if t \<le> (w + 1) * I then w else if t \<le> (w + 2) * I then w + 1 else t div I)"

fun windows_from :: "nat \<Rightarrow> nat \<Rightarrow> nat list \<Rightarrow> nat list" where
  "windows_from I w [] = []"
| "windows_from I w (t # ts) = next_window I w t # windows_from I (next_window I w t) ts"

fun windows :: "nat \<Rightarrow> nat list \<Rightarrow> nat list" where
  "windows I [] = []"
| "windows I (t # ts) = (t div I) # windows_from I (t div I) ts"

definition events_in :: "nat \<Rightarrow> nat list \<Rightarrow> nat \<Rightarrow> nat" where
  "events_in I ts w = length (filter (\<lambda>v. v = w) (windows I ts))"

definition events_before :: "nat \<Rightarrow> nat list \<Rightarrow> nat \<Rightarrow> nat" where
  "events_before I ts w = (if w = 0 then 0 else events_in I ts (w - 1))"

definition window_rate :: "nat \<Rightarrow> nat list \<Rightarrow> nat" where
  "window_rate I ts =
     (let w = last (windows I ts)
      in rate_spec I (last ts - w * I) (events_before I ts w) (events_in I ts w))"

text \<open>The events that pass: those before the first one, from the second on, whose rate reaches the limit.\<close>

definition rate_verdicts :: "nat \<Rightarrow> nat \<Rightarrow> nat list \<Rightarrow> bool list" where
  "rate_verdicts I limit ts = map (\<lambda>k. \<forall>i \<in> {1..k}. window_rate I (take (Suc i) ts) < limit) [0..<length ts]"

lemma windows_from_snoc: "windows_from I w (ts @ [t]) = windows_from I w ts @ [next_window I (last (w # windows_from I w ts)) t]"
  by (induction ts arbitrary: w) simp_all

lemma windows_snoc: "ts \<noteq> [] \<Longrightarrow> windows I (ts @ [t]) = windows I ts @ [next_window I (last (windows I ts)) t]"
  by (cases ts) (simp_all add: windows_from_snoc)

lemma length_windows [simp]: "length (windows I ts) = length ts"
proof -
  have "length (windows_from I w us) = length us" for w us by (induction us arbitrary: w) simp_all
  then show ?thesis by (cases ts) simp_all
qed

lemma next_window_ge: "0 < I \<Longrightarrow> w \<le> next_window I w t"
proof -
  assume "0 < I"
  then have "(w + 2) * I \<le> t \<Longrightarrow> w \<le> t div I" by (simp add: less_eq_div_iff_mult_less_eq)
  then show ?thesis by (auto simp: next_window_def not_le)
qed

lemma windows_le_last: "0 < I \<Longrightarrow> w \<in> set (windows I ts) \<Longrightarrow> w \<le> last (windows I ts)"
proof (induction ts rule: rev_induct)
  case (snoc t ts)
  show ?case
  proof (cases "ts = []")
    case False
    with snoc next_window_ge [OF snoc.prems(1), of "last (windows I ts)" t] show ?thesis by (auto simp: windows_snoc)
  qed (use snoc in simp)
qed simp

text \<open>A window contains the times of its events.\<close>

lemma last_window_contains:
  "0 < I \<Longrightarrow> sorted ts \<Longrightarrow> ts \<noteq> [] \<Longrightarrow> last (windows I ts) * I \<le> last ts \<and> last ts \<le> (last (windows I ts) + 1) * I"
proof (induction ts rule: rev_induct)
  case (snoc t ts)
  have div: "t div I * I \<le> t" "t \<le> (t div I + 1) * I"
    using snoc.prems(1) dividend_less_div_times [of I t] by (simp_all add: algebra_simps)
  show ?case
  proof (cases "ts = []")
    case False
    then have le: "last ts \<le> t" and st: "sorted ts" using snoc.prems(2) by (auto simp: sorted_append)
    from snoc.IH [OF snoc.prems(1) st False] have "last (windows I ts) * I \<le> t" using le by simp
    with False div show ?thesis by (auto simp: windows_snoc next_window_def)
  qed (use div in simp)
qed simp

lemma events_in_snoc:
  "ts \<noteq> [] \<Longrightarrow> events_in I (ts @ [t]) w = events_in I ts w + (if next_window I (last (windows I ts)) t = w then 1 else 0)"
  by (simp add: events_in_def windows_snoc)

lemma events_in_later: "0 < I \<Longrightarrow> last (windows I ts) < w \<Longrightarrow> events_in I ts w = 0"
  using windows_le_last [of I _ ts] by (fastforce simp: events_in_def filter_empty_conv)

lemma events_in_le: "events_in I ts w \<le> length ts"
  unfolding events_in_def using length_filter_le [of _ "windows I ts"] by simp

section \<open>The code against the specification\<close>

text \<open>The value in the map after the events at the times \<open>ts\<close>: it holds the start and the count of the last window and the count of the one before.\<close>

definition counts :: "nat \<Rightarrow> nat list \<Rightarrow> cgroup_rate_value \<Rightarrow> bool" where
  "counts I ts v \<longleftrightarrow>
     (let w = last (windows I ts)
      in unat (rv_time v) = w * I \<and> unat (rv_curr v) = events_in I ts w \<and> unat (rv_prev v) = events_before I ts w)"

text \<open>Times and counters stay below the width of their types.\<close>

definition rate_fits :: "nat \<Rightarrow> nat list \<Rightarrow> bool" where
  "rate_fits I ts \<longleftrightarrow> sorted ts \<and> last ts + 2 * I < 2 ^ 64 \<and> I * length ts + length ts < 2 ^ 64"

lemma unat_div_times: "unat ((time div interval) * interval :: u64) = unat time div unat interval * unat interval"
proof -
  have "unat (time div interval) * unat interval < 2 ^ LENGTH(64)"
    using le_less_trans [OF div_times_less_eq_dividend [of "unat time" "unat interval"] unat_u64_less [of time]] by (simp add: unat_div)
  then show ?thesis unfolding unat_mult_lem by (simp add: unat_div)
qed

lemma counts_new:
  assumes "unat interval = I" and "0 < I" and "unat time = t"
  shows "counts I [t] (rate_new interval time)"
  using assms unat_div_times [of time interval] by (auto simp: counts_def rate_new_def events_in_def events_before_def Let_def)

lemma counts_update:
  assumes I: "unat interval = I" "0 < I" and t: "unat time = t" and c: "counts I ts v" and ts: "ts \<noteq> []" "rate_fits I (ts @ [t])"
  shows "counts I (ts @ [t]) (rate_slide interval time v)"
proof -
  define w where "w = last (windows I ts)"
  have st: "sorted ts" "last ts \<le> t" using ts by (auto simp: rate_fits_def sorted_append)
  have big: "t + 2 * I < 18446744073709551616" "I * length ts + length ts < 18446744073709551615"
    using ts by (auto simp: rate_fits_def)
  have v: "unat (rv_time v) = w * I" "unat (rv_curr v) = events_in I ts w" "unat (rv_prev v) = events_before I ts w"
    using c by (simp_all add: counts_def Let_def w_def)
  have wt: "w * I \<le> t" using last_window_contains [OF I(2) st(1) ts(1)] st(2) by (simp add: w_def)
  have d: "unat (time - rv_time v) = t - w * I" using v(1) t wt by (simp add: unat_minus_word word_le_nat_alt)
  have two: "unat (2 * interval) = 2 * I" using big(1) I by (simp add: unat_word_ariths)
  have inc: "unat (c + 1) = unat c + 1" if "unat c \<le> length ts" for c :: u64
    using that big(2) I(2) by (simp add: unat_word_ariths)
  have now: "events_in I (ts @ [t]) (next_window I w t) = Suc (events_in I ts (next_window I w t))"
    using ts(1) by (simp add: events_in_snoc w_def)
  have old: "u \<noteq> next_window I w t \<Longrightarrow> events_in I (ts @ [t]) u = events_in I ts u" for u
    using ts(1) by (simp add: events_in_snoc w_def)
  have lst: "last (windows I (ts @ [t])) = next_window I w t" using ts(1) by (simp add: windows_snoc w_def)
  consider (same) "t \<le> (w + 1) * I" | (nxt) "(w + 1) * I < t" "t \<le> (w + 2) * I" | (far) "(w + 2) * I < t" by linarith
  then show ?thesis
  proof cases
    case same
    then have nw: "next_window I w t = w" and "\<not> interval < time - rv_time v"
      using d I by (simp_all add: next_window_def word_less_nat_alt algebra_simps)
    then have "rate_slide interval time v = v\<lparr>rv_curr := rv_curr v + 1\<rparr>" by (simp add: rate_slide_def Let_def)
    with v now old nw inc [of "rv_curr v"] events_in_le [of I ts w] show ?thesis
      by (auto simp: counts_def lst Let_def events_before_def)
  next
    case nxt
    then have nw: "next_window I w t = Suc w" and "interval < time - rv_time v" "\<not> 2 * interval < time - rv_time v"
      using d I two by (auto simp: next_window_def word_less_nat_alt algebra_simps)
    then have "rate_slide interval time v = v\<lparr>rv_prev := rv_curr v, rv_time := rv_time v + interval, rv_curr := 1\<rparr>"
      by (simp add: rate_slide_def Let_def)
    moreover have "unat (rv_time v) + unat interval < 2 ^ LENGTH(64)" using v(1) I wt big(1) by simp
    then have "unat (rv_time v + interval) = Suc w * I" unfolding unat_add_lem using v(1) I by simp
    moreover have "events_in I ts (Suc w) = 0" using events_in_later [OF I(2), of ts "Suc w"] by (simp add: w_def)
    ultimately show ?thesis using v now old nw by (auto simp: counts_def lst Let_def events_before_def)
  next
    case far
    then have nw: "next_window I w t = t div I" and "interval < time - rv_time v" "2 * interval < time - rv_time v"
      using d I two by (auto simp: next_window_def word_less_nat_alt algebra_simps)
    then have "rate_slide interval time v = v\<lparr>rv_prev := 0, rv_time := (time div interval) * interval, rv_curr := 1\<rparr>"
      by (simp add: rate_slide_def Let_def)
    moreover have "unat ((time div interval) * interval) = t div I * I"
      using I t unat_div_times [of time interval] by simp
    moreover have "Suc (Suc w) \<le> t div I" using far I(2) by (simp add: less_eq_div_iff_mult_less_eq)
    then have "events_in I ts (t div I) = 0" "events_in I ts (t div I - 1) = 0" "t div I \<noteq> 0"
      using events_in_later [OF I(2), of ts] by (auto simp: w_def)
    ultimately show ?thesis using v now old nw by (auto simp: counts_def lst Let_def events_before_def)
  qed
qed

lemma counts_rate:
  assumes "unat interval = I" "0 < I" and "unat time = t" and "counts I ts v" and "ts \<noteq> []" "rate_fits I (ts @ [t])"
  shows "counts I (ts @ [t]) (rate_update interval time v)" and "unat (rv_rate (rate_update interval time v)) = window_rate I (ts @ [t])"
proof -
  let ?v = "rate_update interval time v" and ?w = "last (windows I (ts @ [t]))"
  show c: "counts I (ts @ [t]) ?v" using counts_update [OF assms] by (simp add: counts_def)
  have v: "unat (rv_time ?v) = ?w * I" "unat (rv_curr ?v) = events_in I (ts @ [t]) ?w" "unat (rv_prev ?v) = events_before I (ts @ [t]) ?w"
    using c by (simp_all only: counts_def Let_def)
  have fits: "sorted (ts @ [t])" "t + 2 * I < 18446744073709551616" "I * length (ts @ [t]) + length (ts @ [t]) < 18446744073709551616"
    using assms(6) by (simp_all add: rate_fits_def)
  have "?w * I \<le> t" using last_window_contains [OF assms(2) fits(1)] by simp
  then have el: "unat (time - rv_time ?v) = t - ?w * I" using v(1) assms(3) by (simp add: unat_minus_word word_le_nat_alt)
  have "events_before I (ts @ [t]) ?w \<le> length (ts @ [t])" by (simp add: events_before_def events_in_le del: length_append)
  then have "I * events_before I (ts @ [t]) ?w + events_in I (ts @ [t]) ?w \<le> I * length (ts @ [t]) + length (ts @ [t])"
    using events_in_le [of I "ts @ [t]" ?w] by (intro add_mono mult_le_mono2)
  then have "unat interval * unat (rv_prev ?v) + unat (rv_curr ?v) < 18446744073709551616" using v(2,3) assms(1) fits(3) by simp
  moreover have "interval \<noteq> 0" "unat interval < 9223372036854775808" using assms(1,2) fits(2) by auto
  ultimately show "unat (rv_rate ?v) = window_rate I (ts @ [t])"
    using rate_update_exact [OF _ _ refl, of interval time v] el v assms(1) by (simp add: window_rate_def Let_def)
qed

section \<open>Throttling\<close>

definition throttle_mark :: "rate_state \<Rightarrow> u64 \<Rightarrow> u64" where
  "throttle_mark rs cg = (case map_lookup_elem (rs_map rs) cg of None \<Rightarrow> 0 | Some v \<Rightarrow> rv_throttled v)"

fun is_throttle :: "tg_event \<times> u64 \<Rightarrow> bool" where
  "is_throttle (Ev_throttle _, _) = True"
| "is_throttle _ = False"

definition throttles :: "out_state \<Rightarrow> nat" where
  "throttles os = length (filter is_throttle (os_sent os))"

fun rate_calls ::
  "build \<Rightarrow> (msg_k8s \<times> u64) list \<Rightarrow> rate_state \<Rightarrow> out_state \<Rightarrow> (rate_state \<times> out_state) \<times> bool list" where
  "rate_calls bd [] rs os = ((rs, os), [])"
| "rate_calls bd ((kube, time) # cs) rs os =
     (case cgroup_rate bd kube time rs os of
        ((rs1, os1), b) \<Rightarrow> (case rate_calls bd cs rs1 os1 of (st, bs) \<Rightarrow> (st, b # bs)))"

lemma send_throttle_map [simp]: "rs_map (fst (send_throttle bd kube t rs os)) = rs_map rs"
  by (simp add: send_throttle_def Let_def split: option.split)

lemma send_throttle_once: "throttles (snd (send_throttle bd kube t rs os)) \<le> Suc (throttles os)"
proof (cases "rs_heap rs")
  case None
  then show ?thesis by (simp add: send_throttle_def)
next
  case (Some h)
  define ev where "ev = Ev_throttle \<lparr>mt_common = \<lparr>mc_op = MSG_OP_THROTTLE, mc_flags = 0,
      mc_size = of_nat SIZEOF_MSG_THROTTLE, mc_ktime = t\<rparr>, mt_kube = kube\<rparr>"
  have "snd (send_throttle bd kube t rs os) =
      event_output_metric bd MSG_OP_THROTTLE ev (of_nat SIZEOF_MSG_THROTTLE) os"
    by (simp add: send_throttle_def Some Let_def ev_def)
  then show ?thesis
    by (cases rule: event_output_metric_cases
          [of os ev "of_nat SIZEOF_MSG_THROTTLE" bd MSG_OP_THROTTLE])
      (auto simp: throttles_def policy_stats_update_def event_output_update_error_metric_def)
qed

lemma send_throttle_D:
  assumes "send_throttle bd kube t rs os = (rs', os')"
  shows "rs_map rs' = rs_map rs \<and> rs_options rs' = rs_options rs \<and> throttles os' \<le> Suc (throttles os)"
  using assms send_throttle_once [of bd kube t rs os] send_throttle_map [of bd kube t rs os]
  by (auto simp: send_throttle_def Let_def split: option.splits)

text \<open>One call, seen from the cgroup it is made for.\<close>

lemma cgroup_rate_step:
  assumes call: "cgroup_rate bd kube t rs os = ((rs', os'), b)" and t: "t \<noteq> 0"
  shows "throttle_mark rs (kb_cgrpid kube) \<noteq> 0 \<Longrightarrow> rs_options rs = Some opt \<Longrightarrow> ro_interval opt \<noteq> 0 \<Longrightarrow>
           \<not> b \<and> os' = os \<and> throttle_mark rs' (kb_cgrpid kube) = throttle_mark rs (kb_cgrpid kube)"
    and "throttle_mark rs (kb_cgrpid kube) = 0 \<Longrightarrow> b \<Longrightarrow>
           os' = os \<and> throttle_mark rs' (kb_cgrpid kube) = 0"
    and "throttle_mark rs (kb_cgrpid kube) = 0 \<Longrightarrow> \<not> b \<Longrightarrow>
           throttles os' \<le> Suc (throttles os) \<and> throttle_mark rs' (kb_cgrpid kube) = t"
    and "rs_options rs' = rs_options rs"
  using call t
  by (auto simp: cgroup_rate_def Let_def throttle_mark_def
      split: option.splits if_splits dest!: send_throttle_D)

text \<open>
  Throttling is final and announced once: for any sequence of events of one cgroup (with nonzero
  timestamps), the events let through are an initial segment of the sequence, every later event is
  refused, and at most one throttle message is sent.
\<close>

theorem throttle_once:
  assumes "rs_options rs = Some opt" "ro_interval opt \<noteq> 0"
    and "\<forall>(kube, t) \<in> set cs. kb_cgrpid kube = cg \<and> t \<noteq> 0"
    and "rate_calls bd cs rs os = ((rs', os'), bs)"
  shows "\<exists>n m. bs = replicate n True @ replicate m False
            \<and> (throttle_mark rs cg = 0 \<or> n = 0)
            \<and> throttles os' \<le> throttles os + (if throttle_mark rs cg = 0 then 1 else 0)"
  using assms
proof (induction cs arbitrary: rs os bs)
  case Nil
  then show ?case by (auto intro: exI [of _ 0])
next
  case (Cons c cs)
  obtain kube t where c: "c = (kube, t)" by (cases c)
  obtain rs1 os1 b where call: "cgroup_rate bd kube t rs os = ((rs1, os1), b)"
    by (metis prod.exhaust)
  obtain bs1 where rest: "rate_calls bd cs rs1 os1 = ((rs', os'), bs1)" and bs: "bs = b # bs1"
    using Cons.prems(4) call by (auto simp: c split: prod.splits)
  have t: "t \<noteq> 0" and cg: "kb_cgrpid kube = cg" using Cons.prems(3) by (auto simp: c)
  note step = cgroup_rate_step [OF call t, unfolded cg]
  have "rs_options rs1 = Some opt" using step(4) Cons.prems(1) by simp
  from Cons.IH [OF this Cons.prems(2) _ rest] Cons.prems(3)
  obtain n m where nm: "bs1 = replicate n True @ replicate m False"
      "throttle_mark rs1 cg = 0 \<or> n = 0"
      "throttles os' \<le> throttles os1 + (if throttle_mark rs1 cg = 0 then 1 else 0)"
    by (auto simp: c)
  show ?case
  proof (cases "throttle_mark rs cg = 0 \<and> b")
    case True
    with step(2) nm bs show ?thesis
      by (intro exI [of _ "Suc n"] exI [of _ m]) auto
  next
    case False
    then have "\<not> b \<and> throttle_mark rs1 cg \<noteq> 0
        \<and> throttles os1 \<le> throttles os + (if throttle_mark rs cg = 0 then 1 else 0)"
      using step(1,3) t Cons.prems(1,2) by (cases "throttle_mark rs cg = 0") auto
    with nm bs show ?thesis
      by (intro exI [of _ 0] exI [of _ "Suc m"]) auto
  qed
qed

definition rate_example :: rate_state where
  "rate_example = \<lparr>rs_map = empty_map, rs_options = Some \<lparr>ro_events = 2, ro_interval = 1000\<rparr>,
     rs_heap = Some \<lparr>mt_common = zero_common, mt_kube = zero_k8s\<rparr>\<rparr>"

definition rate_example_calls :: "(msg_k8s \<times> u64) list" where
  "rate_example_calls = [(zero_k8s, 10), (zero_k8s, 20), (zero_k8s, 30)]"

theorem throttle_once_witness:
  "snd (rate_calls build_v61 rate_example_calls rate_example busy_out) = [True, False, False]
   \<and> (\<exists>n m. [True, False, False] = replicate n True @ replicate m False)"
proof -
  have run: "snd (rate_calls build_v61 rate_example_calls rate_example busy_out) = [True, False, False]"
    by (simp add: rate_example_calls_def rate_example_def zero_k8s_def cgroup_rate_def map_ops_defs Let_def
        rate_update_def rate_slide_def rate_new_def send_throttle_def)
  obtain rs' os' where "fst (rate_calls build_v61 rate_example_calls rate_example busy_out) = (rs', os')"
    by (metis prod.exhaust)
  with run have "rate_calls build_v61 rate_example_calls rate_example busy_out
      = ((rs', os'), [True, False, False])"
    by (metis prod.collapse)
  from throttle_once [OF _ _ _ this, of "\<lparr>ro_events = 2, ro_interval = 1000\<rparr>" 0]
  have "\<exists>n m. [True, False, False] = replicate n True @ replicate m False"
    by (auto simp: rate_example_def rate_example_calls_def zero_k8s_def)
  with run show ?thesis by simp
qed

section \<open>The rate limit against the specification\<close>

lemma send_throttle_options [simp]: "rs_options (fst (send_throttle bd kube t rs os)) = rs_options rs"
  by (simp add: send_throttle_def Let_def split: option.split)

text \<open>One more event of a cgroup of which the map has the value for the events so far.\<close>

lemma cgroup_rate_next:
  assumes "rs_options rs = Some opt" "unat (ro_interval opt) = I" "0 < I" and "map_lookup_elem (rs_map rs) (kb_cgrpid kube) = Some v"
    and "counts I ts v" "ts \<noteq> []" "rate_fits I (ts @ [unat t])" and "t \<noteq> 0"
  shows "\<exists>rs' os' v'. cgroup_rate bd kube t rs os = ((rs', os'), rv_throttled v = 0 \<and> window_rate I (ts @ [unat t]) < unat (ro_events opt))
     \<and> rs_options rs' = Some opt \<and> map_lookup_elem (rs_map rs') (kb_cgrpid kube) = Some v' \<and> counts I (ts @ [unat t]) v'
     \<and> (rv_throttled v' = 0 \<longleftrightarrow> rv_throttled v = 0 \<and> window_rate I (ts @ [unat t]) < unat (ro_events opt))"
proof -
  let ?v = "rate_update (ro_interval opt) t v"
  define v2 where "v2 = (if rv_throttled ?v = 0 \<and> rv_rate ?v \<ge> ro_events opt then ?v\<lparr>rv_throttled := t\<rparr> else ?v)"
  note R = counts_rate [OF assms(2,3) refl assms(5-7)]
  have "counts I (ts @ [unat t]) v2" using R(1) by (simp add: v2_def counts_def)
  moreover have th: "rv_throttled v2 = 0 \<longleftrightarrow> rv_throttled v = 0 \<and> window_rate I (ts @ [unat t]) < unat (ro_events opt)"
    using R(2) assms(8) by (auto simp: v2_def word_le_nat_alt not_le)
  moreover define rs1 where "rs1 = rs\<lparr>rs_map := map_modify (rs_map rs) (kb_cgrpid kube) (\<lambda>_. v2)\<rparr>"
  moreover have nz: "ro_interval opt \<noteq> 0" using assms(2,3) by auto
  have "cgroup_rate bd kube t rs os =
      (if rv_throttled ?v = 0 \<and> rv_rate ?v \<ge> ro_events opt then send_throttle bd kube t rs1 os else (rs1, os), rv_throttled v2 = 0)"
    by (simp add: cgroup_rate_def Let_def assms(1,4) nz v2_def rs1_def)
  moreover have "map_lookup_elem (rs_map rs1) (kb_cgrpid kube) = Some v2" "rs_options rs1 = Some opt"
    using assms(1,4) by (simp_all add: rs1_def)
  ultimately show ?thesis
    using th by (cases "send_throttle bd kube t rs1 os") (auto simp: send_throttle_D dest: send_throttle_D)
qed

lemma rate_calls_counts:
  assumes "rs_options rs = Some opt" "unat (ro_interval opt) = I" "0 < I" and "map_lookup_elem (rs_map rs) cg = Some v"
    and "counts I ts v" "ts \<noteq> []" "rate_fits I (ts @ map (\<lambda>c. unat (snd c)) cs)" and "\<forall>(kube, t) \<in> set cs. kb_cgrpid kube = cg \<and> t \<noteq> 0"
  shows "snd (rate_calls bd cs rs os) =
     map (\<lambda>k. rv_throttled v = 0 \<and> (\<forall>i \<le> k. window_rate I (ts @ map (\<lambda>c. unat (snd c)) (take (Suc i) cs)) < unat (ro_events opt))) [0..<length cs]"
  using assms
proof (induction cs arbitrary: rs os v ts)
  case (Cons c cs)
  obtain kube t where c: "c = (kube, t)" by (cases c)
  have k: "kb_cgrpid kube = cg" "t \<noteq> 0" using Cons.prems(8) by (auto simp: c)
  have fit: "rate_fits I ((ts @ [unat t]) @ map (\<lambda>c. unat (snd c)) cs)" using Cons.prems(7) by (simp add: c)
  then have "rate_fits I (ts @ [unat t])"
    by (cases cs rule: rev_cases) (auto simp: rate_fits_def sorted_append algebra_simps)
  from cgroup_rate_next [OF Cons.prems(1-3) Cons.prems(4) [folded k(1)] Cons.prems(5,6) this k(2), of bd os] obtain rs' os' v' where
    n: "cgroup_rate bd kube t rs os = ((rs', os'), rv_throttled v = 0 \<and> window_rate I (ts @ [unat t]) < unat (ro_events opt))"
      "rs_options rs' = Some opt" "map_lookup_elem (rs_map rs') cg = Some v'" "counts I (ts @ [unat t]) v'"
      "rv_throttled v' = 0 \<longleftrightarrow> rv_throttled v = 0 \<and> window_rate I (ts @ [unat t]) < unat (ro_events opt)"
    unfolding k(1) by blast
  let ?P = "\<lambda>i. window_rate I (ts @ map (\<lambda>c. unat (snd c)) (take (Suc i) (c # cs))) < unat (ro_events opt)"
  have "snd (rate_calls bd cs rs' os') = map (\<lambda>k. rv_throttled v' = 0 \<and> (\<forall>i \<le> k. ?P (Suc i))) [0..<length cs]"
    using Cons.IH [OF n(2) Cons.prems(2,3) n(3,4) _ fit] Cons.prems(8) by (simp add: c)
  moreover have "(rv_throttled v' = 0 \<and> (\<forall>i \<le> k. ?P (Suc i))) = (rv_throttled v = 0 \<and> (\<forall>i \<le> Suc k. ?P i))" for k
    using n(5) by (simp add: c All_less_Suc2 flip: less_Suc_eq_le)
  moreover have "map f [0..<Suc m] = f 0 # map (\<lambda>k. f (Suc k)) [0..<m]" for f :: "nat \<Rightarrow> bool" and m
    by (simp add: upt_conv_Cons map_Suc_upt [symmetric] del: upt_Suc)
  ultimately show ?case by (simp add: c n(1) split_beta del: upt_Suc)
qed simp



end
