(* ===== verification/Cred.thy ===== *)
theory Cred
  imports Task
begin

text \<open>
  Detection of privileged executions (\<^verbatim>\<open>lib/bpf_cred.h\<close>, \<^verbatim>\<open>process/bpf_execve_bprm_commit_creds.c\<close>): the
  hook on \<^verbatim>\<open>security_bprm_committing_creds\<close> compares the credentials being installed with the current
  ones and caches the verdict for the exec tracepoint. The kernel structures it reads are the record
  \<open>bprm_view\<close>; a read whose error the code checks is an option.
\<close>

section \<open>Model\<close>

definition EXEC_SETUID :: u32 where [tg_consts]: "EXEC_SETUID = 0x01"
definition EXEC_SETGID :: u32 where [tg_consts]: "EXEC_SETGID = 0x02"
definition EXEC_FILE_CAPS :: u32 where [tg_consts]: "EXEC_FILE_CAPS = 0x04"
definition EXEC_SETUID_ROOT :: u32 where [tg_consts]: "EXEC_SETUID_ROOT = 0x08"
definition EXEC_SETGID_ROOT :: u32 where [tg_consts]: "EXEC_SETGID_ROOT = 0x10"

definition cap_issubset :: "u64 \<Rightarrow> u64 \<Rightarrow> bool" where
  "cap_issubset a st \<longleftrightarrow> a AND NOT st = 0"

definition cap_gained :: "u64 \<Rightarrow> u64 \<Rightarrow> bool" where
  "cap_gained target source \<longleftrightarrow> \<not> cap_issubset target source"

definition is_uid_global_root :: "u32 \<Rightarrow> bool" where
  "is_uid_global_root uid \<longleftrightarrow> uid = 0"

record bprm_view =
  bv_file :: "unit option"
  bv_i_nlink :: "u32 option"
  bv_i_ino :: "u64 option"
  bv_per_clear :: "u32 option"
  bv_euid :: u32
  bv_egid :: u32
  bv_ruid :: u32
  bv_rgid :: u32
  bv_cap_ambient :: u64
  bv_cap_permitted :: u64
  bv_task_uid :: u32
  bv_task_gid :: u32
  bv_task_cap_permitted :: u64

text \<open>The flags the hook computes once \<^verbatim>\<open>per_clear\<close> says that the execution is privileged.\<close>

definition secureexec_flags :: "bprm_view \<Rightarrow> u32" where
  "secureexec_flags bv =
     (let euid = bv_euid bv; egid = bv_egid bv; uid = bv_task_uid bv; gid = bv_task_gid bv;
          s1 = (if euid \<noteq> uid
                then (let s = 0 OR EXEC_SETUID
                      in if \<not> is_uid_global_root (bv_ruid bv) \<and> is_uid_global_root euid
                         then s OR EXEC_SETUID_ROOT else s)
                else 0);
          s2 = (if egid \<noteq> gid
                then (let s = s1 OR EXEC_SETGID
                      in if \<not> is_uid_global_root (bv_rgid bv) \<and> is_uid_global_root egid
                         then s OR EXEC_SETGID_ROOT else s)
                else s1)
      in if bv_cap_ambient bv \<noteq> 0 then s2
         else if cap_gained (bv_cap_permitted bv) (bv_task_cap_permitted bv) \<and> euid = uid
              then s2 OR EXEC_FILE_CAPS else s2)"

definition committing_creds_info :: "bprm_view \<Rightarrow> execve_info option" where
  "committing_creds_info bv =
     (case bv_file bv of None \<Rightarrow> None
      | Some _ \<Rightarrow> (case bv_i_nlink bv of None \<Rightarrow> None
        | Some nlink \<Rightarrow> (case bv_i_ino bv of None \<Rightarrow> None
          | Some ino \<Rightarrow>
              let sec = (case bv_per_clear bv of None \<Rightarrow> 0 | Some x \<Rightarrow> if x = 0 then 0 else secureexec_flags bv)
              in Some \<lparr>ei_secureexec = sec, ei_i_nlink = nlink, ei_i_ino = ino\<rparr>)))"

text \<open>\<open>heap_ok\<close>: the lookup of the per-CPU heap succeeds.\<close>

definition tg_kp_bprm_committing_creds :: "ktask \<Rightarrow> bool \<Rightarrow> bprm_view \<Rightarrow> exec_state \<Rightarrow> exec_state" where
  "tg_kp_bprm_committing_creds kt heap_ok bv s =
     (let tid = kt_pid_tgid kt; pid = current_tgid kt
      in case execve_map_get_noinit pid s of
           None \<Rightarrow> s
         | Some curr_v \<Rightarrow>
             if \<not> heap_ok then s
             else case committing_creds_info bv of
                    None \<Rightarrow> s
                  | Some info \<Rightarrow>
                      if ei_secureexec info \<noteq> 0 \<or> (ei_i_nlink info = 0 \<and> ei_i_ino info \<noteq> 0)
                      then execve_joined_info_map_set tid info s
                      else s)"

section \<open>Properties\<close>

lemma cap_issubset_bits: "cap_issubset a st \<longleftrightarrow> (\<forall>n. bit a n \<longrightarrow> bit st n)"
proof
  assume "cap_issubset a st"
  then have z: "a AND NOT st = 0" by (simp add: cap_issubset_def)
  show "\<forall>n. bit a n \<longrightarrow> bit st n"
  proof (intro allI impI)
    fix n assume "bit a n"
    moreover have "\<not> bit (a AND NOT st) n" by (simp add: z)
    ultimately show "bit st n"
      using bit_imp_le_length [of a n] by (simp add: bit_simps)
  qed
next
  assume "\<forall>n. bit a n \<longrightarrow> bit st n"
  then show "cap_issubset a st"
    unfolding cap_issubset_def by (intro bit_word_eqI) (auto simp: bit_simps)
qed

text \<open>
  The verdict on a privileged execution is exact, flag by flag. With a personality flag to clear,
  the set-user-id flag is reported iff the new effective uid differs from the task's uid, the
  to-root flag iff in addition the real uid is not root and the effective one is, likewise for the
  group, and the file-capabilities flag iff no ambient capability is set, some capability is in the
  new permitted set and not in the old one, and the uid does not change; no other flag is ever set.
\<close>

theorem secureexec_flags_exact:
  "secureexec_flags bv =
     (if bv_euid bv \<noteq> bv_task_uid bv then 0x01 else 0)
     OR (if bv_euid bv \<noteq> bv_task_uid bv \<and> bv_ruid bv \<noteq> 0 \<and> bv_euid bv = 0 then 0x08 else 0)
     OR (if bv_egid bv \<noteq> bv_task_gid bv then 0x02 else 0)
     OR (if bv_egid bv \<noteq> bv_task_gid bv \<and> bv_rgid bv \<noteq> 0 \<and> bv_egid bv = 0 then 0x10 else 0)
     OR (if bv_cap_ambient bv = 0 \<and> bv_euid bv = bv_task_uid bv
            \<and> (\<exists>n. bit (bv_cap_permitted bv) n \<and> \<not> bit (bv_task_cap_permitted bv) n) then 0x04 else 0)"
proof -
  define gained where "gained \<longleftrightarrow> (\<exists>n. bit (bv_cap_permitted bv) n \<and> \<not> bit (bv_task_cap_permitted bv) n)"
  have g: "cap_gained (bv_cap_permitted bv) (bv_task_cap_permitted bv) \<longleftrightarrow> gained"
    by (auto simp: cap_gained_def cap_issubset_bits gained_def)
  show ?thesis
    unfolding secureexec_flags_def g gained_def [symmetric] is_uid_global_root_def Let_def
    by (cases gained; cases "bv_cap_ambient bv = 0"; cases "bv_euid bv = bv_task_uid bv";
        cases "bv_egid bv = bv_task_gid bv"; cases "bv_euid bv = 0"; cases "bv_egid bv = 0";
        cases "bv_ruid bv = 0"; cases "bv_rgid bv = 0"; simp add: tg_consts)
qed

text \<open>
  A known process's exec is handed to the exec tracepoint exactly when it matters: if the binary's
  file data could be read, the kernel accepts the store, and the execution is privileged or runs a
  deleted file, then the lookup by thread afterwards gives the computed information; otherwise the
  cache is left as it was. The process table is never touched.
\<close>

theorem committing_creds_caches:
  assumes "table s (current_tgid kt) \<noteq> None"
    and "committing_creds_info bv = Some info"
    and "bm_admit (xs_joined s) (bm_elems (xs_joined s)) (kt_pid_tgid kt) = 0"
    and "s' = tg_kp_bprm_committing_creds kt True bv s"
  shows "table s' = table s
         \<and> (if ei_secureexec info \<noteq> 0 \<or> (ei_i_nlink info = 0 \<and> ei_i_ino info \<noteq> 0)
            then execve_joined_info_map_get (kt_pid_tgid kt) s' = Some info
            else s' = s)"
proof -
  have "snd (lru_update_elem (xs_joined s) (kt_pid_tgid kt) info) = 0"
    using assms(3) by (simp add: lru_update_elem_def)
  from lru_lookup_same [OF this] show ?thesis
    using assms
    by (auto simp: tg_kp_bprm_committing_creds_def execve_map_get_noinit_def Let_def
        execve_joined_info_map_set_def execve_joined_info_map_get_def split_beta)
qed

lemma committing_creds_table [simp]: "xs_map (tg_kp_bprm_committing_creds kt h bv s) = xs_map s"
  by (simp add: tg_kp_bprm_committing_creds_def execve_joined_info_map_set_def Let_def split_beta
      split: option.split)

lemma committing_creds_stats [simp]: "xs_stats (tg_kp_bprm_committing_creds kt h bv s) = xs_stats s"
  by (simp add: tg_kp_bprm_committing_creds_def execve_joined_info_map_set_def Let_def split_beta
      split: option.split)

definition bv_sudo :: bprm_view where
  "bv_sudo = \<lparr>bv_file = Some (), bv_i_nlink = Some 1, bv_i_ino = Some 77, bv_per_clear = Some 0x400000,
     bv_euid = 0, bv_egid = 1000, bv_ruid = 1000, bv_rgid = 1000, bv_cap_ambient = 0,
     bv_cap_permitted = 0xff, bv_task_uid = 1000, bv_task_gid = 1000, bv_task_cap_permitted = 0\<rparr>"

theorem committing_creds_caches_witness:
  "execve_joined_info_map_get (kt_pid_tgid kt_example)
     (tg_kp_bprm_committing_creds kt_example True bv_sudo xs_example)
   = Some \<lparr>ei_secureexec = 9, ei_i_nlink = 1, ei_i_ino = 77\<rparr>"
proof -
  have "secureexec_flags bv_sudo = 9"
    by (simp add: secureexec_flags_def bv_sudo_def Let_def is_uid_global_root_def tg_consts)
  then have i: "committing_creds_info bv_sudo = Some \<lparr>ei_secureexec = 9, ei_i_nlink = 1, ei_i_ino = 77\<rparr>"
    by (simp add: committing_creds_info_def) (simp add: bv_sudo_def)
  have "table xs_example (current_tgid kt_example) \<noteq> None"
    by (simp add: current_tgid_def kt_example_def xs_example_def map_lookup_elem_def)
  from committing_creds_caches [OF this i _ refl] show ?thesis
    by (simp add: xs_example_def empty_lru_def)
qed

end
