(* ===== verification/Exec_Collect.thy ===== *)
theory Exec_Collect
  imports Process_Event Data_Event Mbset Rate Cred
begin

text \<open>
  The exec tracepoint, first part (\<^verbatim>\<open>process/bpf_execve_event.c\<close>): \<^verbatim>\<open>event_execve\<close> fills the per-CPU exec
  message with the path, the arguments, the working directory and the environment, one after the other
  behind the header, either inline or as the descriptor of a data event.
\<close>

section \<open>State\<close>

text \<open>
  All maps of the base sensor. Per-CPU heaps are optional values (\<open>None\<close>: the lookup answers NULL);
  \<open>se_heap\<close> says that the scratch heap \<^verbatim>\<open>execve_heap\<close> is available, whose contents nothing depends on.
\<close>

record sensor =
  se_x :: exec_state
  se_os :: out_state
  se_rate :: rate_state
  se_cg :: cgrp_state
  se_errm :: errmetrics_map
  se_event :: "msg_execve_event option"
  se_data :: "msg_data option"
  se_path :: "byte list option"
  se_exit :: "msg_exit option"
  se_heap :: bool

text \<open>
  What the hook reads of the kernel. A field read through \<^verbatim>\<open>with_errmetrics\<close> is paired with the error the
  helper answers.
\<close>

record kexec =
  ke_kt :: ktask
  ke_vf :: kvfs
  ke_kp :: kproc
  ke_kc :: kcgrp
  ke_mbs :: mbset
  ke_mem :: memory
  ke_filename :: ptr
  ke_mm :: "ptr \<times> int"
  ke_arg_start :: "u64 \<times> int"
  ke_arg_end :: "u64 \<times> int"
  ke_env_start :: "u64 \<times> int"
  ke_env_end :: "u64 \<times> int"
  ke_ktime :: u64
  ke_fp :: u64
  ke_env_vars :: bool

definition em_exec :: "u16 \<Rightarrow> int \<Rightarrow> sensor \<Rightarrow> sensor" where
  "em_exec line err se =
     se\<lparr>se_errm := with_errmetrics (get_fileid ''bpf_execve_event.c'') line fn_probe_read err (se_errm se)\<rparr>"

section \<open>Operations\<close>

definition add_flags :: "u32 \<Rightarrow> msg_execve_event \<Rightarrow> msg_execve_event" where
  "add_flags fl ev = ev\<lparr>ee_process := (ee_process ev)\<lparr>mp_flags := mp_flags (ee_process ev) OR fl\<rparr>\<rparr>"

text \<open>
  The call of \<^verbatim>\<open>data_event_bytes\<close> or \<^verbatim>\<open>data_event_str\<close> with the descriptor laid over the event buffer at \<open>off\<close>.
\<close>

definition data_event_at ::
  "(data_event_desc \<Rightarrow> msg_data option \<Rightarrow> out_state \<Rightarrow> msg_data option \<times> out_state \<times> data_event_desc \<times> u64)
     \<Rightarrow> nat \<Rightarrow> msg_execve_event \<times> sensor \<Rightarrow> (msg_execve_event \<times> sensor) \<times> u32" where
  "data_event_at call off = (\<lambda>(ev, se).
     case call (desc_of_bytes (slice off SIZEOF_DATA_EVENT_DESC (ee_buffer ev))) (se_data se) (se_os se) of
       (dh, os, desc, n) \<Rightarrow>
         ((if n = 0 then ev else ev\<lparr>ee_buffer := blit off (desc_bytes desc) (ee_buffer ev)\<rparr>,
           se\<lparr>se_data := dh, se_os := os\<rparr>), ucast n))"

definition read_path :: "build \<Rightarrow> kexec \<Rightarrow> msg_execve_event \<times> sensor \<Rightarrow> (msg_execve_event \<times> sensor) \<times> u32" where
  "read_path bd ke = (\<lambda>(ev, se).
     case probe_read_str (ke_mem ke) (MAXARGLENGTH - 1) (ke_filename ke) of
       (bs, r) \<Rightarrow>
         let ev1 = ev\<lparr>ee_buffer := blit SIZEOF_MSG_PROCESS bs (ee_buffer ev)\<rparr>;
             res = (if r < 0 then ((ev1, se), 0, EVENT_ERROR_FILENAME)
                    else if r = int (MAXARGLENGTH - 1)
                    then (case data_event_at (data_event_str bd (ke_mem ke) (kt_pid_tgid (ke_kt ke)) (ke_fp ke)
                                 (ke_ktime ke) (ke_filename ke)) SIZEOF_MSG_PROCESS (ev1, se) of
                            (st, n) \<Rightarrow> (st, n, if n = 0 then EVENT_ERROR_FILENAME else EVENT_DATA_FILENAME))
                    else if r > 0 then ((ev1, se), word_of_int (r - 1), 0)
                    else ((ev1, se), 0, 0))
         in case res of
              ((ev2, se2), sz, flags) \<Rightarrow>
                ((add_flags flags (ev2\<lparr>ee_process := (ee_process ev2)\<lparr>mp_size_path := ucast sz\<rparr>\<rparr>), se2), sz))"

text \<open>\<open>set_arg_start\<close> and \<open>set_arg_len\<close> exist in the large variant only.\<close>

definition set_arg_start :: "build \<Rightarrow> u32 \<Rightarrow> msg_execve_event \<Rightarrow> msg_execve_event" where
  "set_arg_start bd n ev = (if bd_large bd then ev\<lparr>ee_exe := (ee_exe ev)\<lparr>hx_arg_start := n\<rparr>\<rparr> else ev)"

definition set_arg_len :: "build \<Rightarrow> u32 \<Rightarrow> msg_execve_event \<Rightarrow> msg_execve_event" where
  "set_arg_len bd n ev = (if bd_large bd then ev\<lparr>ee_exe := (ee_exe ev)\<lparr>hx_arg_len := n\<rparr>\<rparr> else ev)"

text \<open>
  The copy of the argument area to the end of the message (offset \<open>off\<close>), or its data event, and the
  bookkeeping after it.
\<close>

definition copy_args ::
  "build \<Rightarrow> kexec \<Rightarrow> u64 \<Rightarrow> u64 \<Rightarrow> u32 \<Rightarrow> msg_execve_event \<times> sensor \<Rightarrow> (msg_execve_event \<times> sensor) \<times> u32" where
  "copy_args bd ke start_stack args_size off = (\<lambda>(ev, se).
     let free_size = of_nat BUFFER - ucast off :: u64
     in if args_size < of_nat BUFFER \<and> args_size < free_size
        then (let n = (if args_size \<noteq> 0 then args_size - 1 else args_size);
                  sz = ucast n AND 0x3ff :: u32
              in case probe_read (ke_mem ke) (unat sz) start_stack of
                   (bs, err) \<Rightarrow>
                     let ev2 = ev\<lparr>ee_buffer := blit (unat off) bs (ee_buffer ev)\<rparr>;
                         se2 = em_exec 110 err se
                     in if err < 0 then ((add_flags EVENT_ERROR_ARGS ev2, se2), 0)
                        else ((ev2, se2), sz))
        else (case data_event_at (data_event_bytes bd (ke_mem ke) (kt_pid_tgid (ke_kt ke)) (ke_fp ke) (ke_ktime ke)
                       start_stack args_size) (unat off) (ev, se) of
                ((ev2, se2), n) \<Rightarrow> ((if n > 0 then add_flags EVENT_DATA_ARGS ev2 else ev2, se2), n)))"

definition end_args :: "build \<Rightarrow> (msg_execve_event \<times> sensor) \<times> u32 \<Rightarrow> (msg_execve_event \<times> sensor) \<times> u32" where
  "end_args bd = (\<lambda>((ev, se), sz).
     let ev1 = set_arg_len bd sz ev
     in ((ev1\<lparr>ee_process := (ee_process ev1)\<lparr>mp_size_args := ucast sz\<rparr>\<rparr>, se), sz))"

definition read_args :: "build \<Rightarrow> kexec \<Rightarrow> msg_execve_event \<times> sensor \<Rightarrow> (msg_execve_event \<times> sensor) \<times> u32" where
  "read_args bd ke = (\<lambda>(ev, se).
     let se1 = em_exec 68 (snd (ke_mm ke)) se
     in if fst (ke_mm ke) = 0 then ((ev, se1), 0)
        else let se2 = em_exec 74 (snd (ke_arg_end ke)) (em_exec 73 (snd (ke_arg_start ke)) se1);
                 start0 = fst (ke_arg_start ke); end_stack = fst (ke_arg_end ke)
             in if start0 = 0 \<or> end_stack = 0 then ((ev, se2), 0)
                else if \<not> se_heap se2 then ((ev, se2), 0)
                else let off = snd (probe_read_str (ke_mem ke) 4096 start0)
                     in if off < 0 then ((ev, se2), 0)
                        else let start_stack = start0 + word_of_int off;
                                 sz0 = mp_size (ee_process ev) AND 0x1ff;
                                 ev1 = set_arg_start bd sz0 ev
                             in if unat sz0 \<ge> BUFFER then ((ev1, se2), 0)
                                else end_args bd (copy_args bd ke start_stack (end_stack - start_stack) sz0 (ev1, se2)))"

definition copy_envs ::
  "build \<Rightarrow> kexec \<Rightarrow> u64 \<Rightarrow> u64 \<Rightarrow> u32 \<Rightarrow> msg_execve_event \<times> sensor \<Rightarrow> (msg_execve_event \<times> sensor) \<times> u32 \<times> u32" where
  "copy_envs bd ke env_start envs_size off = (\<lambda>(ev, se).
     let free_size = of_nat BUFFER - ucast off :: u64
     in if envs_size < of_nat BUFFER \<and> envs_size < free_size
        then (let n = (if envs_size \<noteq> 0 then envs_size - 1 else envs_size);
                  sz = ucast n AND 0x3ff :: u32
              in case probe_read (ke_mem ke) (unat sz) env_start of
                   (bs, err) \<Rightarrow>
                     let ev2 = ev\<lparr>ee_buffer := blit (unat off) bs (ee_buffer ev)\<rparr>
                     in if err < 0 then ((ev2, se), 0, EVENT_ENVS_ERROR) else ((ev2, se), sz, 0))
        else (case data_event_at (data_event_bytes bd (ke_mem ke) (kt_pid_tgid (ke_kt ke)) (ke_fp ke) (ke_ktime ke)
                       env_start envs_size) (unat off) (ev, se) of
                (st, n) \<Rightarrow> (st, n, if n > 0 then EVENT_ENVS_DATA else 0)))"

definition read_envs :: "build \<Rightarrow> kexec \<Rightarrow> msg_execve_event \<times> sensor \<Rightarrow> (msg_execve_event \<times> sensor) \<times> u32" where
  "read_envs bd ke = (\<lambda>(ev, se).
     if \<not> bd_large bd \<or> \<not> ke_env_vars ke then ((ev, se), 0)
     else let off = mp_size (ee_process ev)
          in if unat off \<ge> BUFFER then ((ev, se), 0)
             else if fst (ke_mm ke) = 0 then ((ev, se), 0)
             else let se1 = em_exec 157 (snd (ke_env_end ke)) (em_exec 156 (snd (ke_env_start ke)) se);
                      env_start = fst (ke_env_start ke); env_end = fst (ke_env_end ke)
                  in if env_start = 0 \<or> env_end = 0 then ((ev, se1), 0)
                     else case copy_envs bd ke env_start (env_end - env_start) off (ev, se1) of
                            ((ev3, se3), sz, flags) \<Rightarrow>
                              ((add_flags flags (ev3\<lparr>ee_process := (ee_process ev3)\<lparr>mp_size_envs := ucast sz\<rparr>\<rparr>), se3), sz))"

definition read_cwd :: "build \<Rightarrow> kexec \<Rightarrow> msg_execve_event \<times> sensor \<Rightarrow> (msg_execve_event \<times> sensor) \<times> u32" where
  "read_cwd bd ke = (\<lambda>(ev, se).
     if mp_flags (ee_process ev) AND EVENT_ERROR_CWD \<noteq> 0 then ((ev, se), 0)
     else case getcwd bd (ke_vf ke) (ke_kt ke) (ke_kp ke) (se_path se) (ee_process ev) (ee_buffer ev)
                 (mp_size (ee_process ev)) (mp_pid (ee_process ev)) of
            (heap, p, buf, n) \<Rightarrow> ((ev\<lparr>ee_process := p, ee_buffer := buf\<rparr>, se\<lparr>se_path := heap\<rparr>), n))"

definition read_execve_shared_info :: "u64 \<Rightarrow> msg_process \<times> exec_state \<Rightarrow> msg_process \<times> exec_state" where
  "read_execve_shared_info pid = (\<lambda>(p, x).
     case execve_joined_info_map_get pid x of
       None \<Rightarrow> (p\<lparr>mp_secureexec := 0, mp_i_ino := 0, mp_i_nlink := 0\<rparr>, x)
     | Some info \<Rightarrow> (p\<lparr>mp_secureexec := ei_secureexec info, mp_i_ino := ei_i_ino info, mp_i_nlink := ei_i_nlink info\<rparr>,
                    execve_joined_info_map_clear pid x))"

definition grow :: "(msg_execve_event \<times> sensor) \<times> u32 \<Rightarrow> msg_execve_event \<times> sensor" where
  "grow = (\<lambda>((ev, se), n).
     (ev\<lparr>ee_process := (ee_process ev)\<lparr>mp_size := mp_size (ee_process ev) + n\<rparr>\<rparr>, se))"

text \<open>
  \<open>event_execve\<close> without its tail call: the collected message and the state. The table entry of the
  nearest tracked ancestor is refreshed on the way.
\<close>

definition event_execve_parent :: "build \<Rightarrow> kexec \<Rightarrow> msg_execve_event \<times> exec_state \<Rightarrow> msg_execve_event \<times> exec_state" where
  "event_execve_parent bd ke = (\<lambda>(ev, x).
     case event_find_parent (ke_kt ke) x of
       Some (ppid, parent) \<Rightarrow>
         (ev\<lparr>ee_parent := ev_key parent, ee_parent_flags := 0\<rparr>,
          execve_map_write ppid (update_mb_task bd (ke_mbs ke) x) x)
     | None \<Rightarrow> (event_minimal_parent (ke_kt ke) (kt_current (ke_kt ke)) ev, x))"

definition event_execve_header :: "kexec \<Rightarrow> msg_process \<times> exec_state \<Rightarrow> msg_process \<times> exec_state" where
  "event_execve_header ke = (\<lambda>(p, x).
     let kt = ke_kt ke; pid = kt_pid_tgid kt
     in read_execve_shared_info pid
          (p\<lparr>mp_flags := EVENT_EXECVE, mp_size_path := 0, mp_size_args := 0, mp_size_cwd := 0, mp_size_envs := 0,
             mp_pid := ucast (drop_bit 32 pid), mp_tid := ucast pid, mp_nspid := get_task_pid_vnr_curr kt,
             mp_ktime := ke_ktime ke, mp_size := of_nat SIZEOF_MSG_PROCESS, mp_auid := get_auid (ke_kp ke) kt\<rparr>, x))"

definition event_execve_sections :: "build \<Rightarrow> kexec \<Rightarrow> msg_execve_event \<times> sensor \<Rightarrow> msg_execve_event \<times> sensor" where
  "event_execve_sections bd ke st =
     grow (read_envs bd ke (grow (read_cwd bd ke (grow (read_args bd ke (grow (read_path bd ke st)))))))"

definition event_execve_finish :: "build \<Rightarrow> kexec \<Rightarrow> msg_execve_event \<times> sensor \<Rightarrow> msg_execve_event" where
  "event_execve_finish bd ke = (\<lambda>(ev, se).
     let p = ee_process ev;
         task = kt_current (ke_kt ke);
         ev1 = ev\<lparr>ee_common := (ee_common ev)\<lparr>mc_op := MSG_OP_EXECVE, mc_flags := 0, mc_ktime := mp_ktime p,
                                           mc_size := of_nat OFFSETOF_EXECVE_BUFFER + mp_size p\<rparr>\<rparr>;
         creds = get_current_subj_creds (ke_kp ke) task (ee_creds ev1);
         ev2 = ev1\<lparr>ee_creds := creds, ee_process := p\<lparr>mp_uid := cr_euid creds\<rparr>,
                   ee_ns := get_namespaces (ke_kp ke) (ke_kt ke) task (ee_ns ev1)\<rparr>;
         ev3 = (if bd_rhel7 bd then ev2
                else (case event_get_cgroup_info bd (ke_kc ke) task (os_conf (se_os se)) (se_cg se) (ee_kube ev2) of
                        (kube, fl) \<Rightarrow> add_flags fl (ev2\<lparr>ee_kube := kube\<rparr>)))
     in ev3\<lparr>ee_cleanup_key := zero_key\<rparr>)"

definition event_execve :: "build \<Rightarrow> kexec \<Rightarrow> sensor \<Rightarrow> sensor" where
  "event_execve bd ke se =
     (case se_event se of
        None \<Rightarrow> se
      | Some ev0 \<Rightarrow>
          (case event_execve_parent bd ke (ev0, se_x se) of
             (ev1, x1) \<Rightarrow>
               (case event_execve_header ke (ee_process ev1, x1) of
                  (p2, x2) \<Rightarrow>
                    (case event_execve_sections bd ke (ev1\<lparr>ee_process := p2\<rparr>, se\<lparr>se_x := x2\<rparr>) of
                       (ev3, se3) \<Rightarrow> se3\<lparr>se_event := Some (event_execve_finish bd ke (ev3, se3))\<rparr>))))"

section \<open>The contract of a section reader\<close>

definition sizes :: "msg_process \<Rightarrow> u16 list" where
  "sizes p = [mp_size_path p, mp_size_args p, mp_size_cwd p, mp_size_envs p]"

lemma nth_sizes [simp]:
  "sizes p ! 0 = mp_size_path p" "sizes p ! Suc 0 = mp_size_args p" "sizes p ! 2 = mp_size_cwd p" "sizes p ! 3 = mp_size_envs p"
  by (simp_all add: sizes_def numeral_eq_Suc)

lemma length_sizes [simp]: "length (sizes p) = 4"
  by (simp add: sizes_def)

text \<open>
  A section reader appends a section to the message: called at a size in its range, it writes only behind
  the current end, stays inside the buffer, leaves the total size to its caller, reports at most
  \<open>room\<close> bytes, and records what it reports in its own size field only.
\<close>

locale section_reader =
  fixes rd :: "msg_execve_event \<times> sensor \<Rightarrow> (msg_execve_event \<times> sensor) \<times> u32"
    and k lo hi :: nat
    and room :: "nat \<Rightarrow> nat"
  assumes k: "k < 4" and room_small: "room s \<le> 4095"
    and rd_law: "rd (ev, se) = ((ev', se'), n) \<Longrightarrow> length (ee_buffer ev) = PADDED_BUFFER \<Longrightarrow>
        s = unat (mp_size (ee_process ev)) \<Longrightarrow> lo \<le> s \<Longrightarrow> s < hi \<Longrightarrow> sizes (ee_process ev) ! k = 0 \<Longrightarrow>
        length (ee_buffer ev') = PADDED_BUFFER \<and> take s (ee_buffer ev') = take s (ee_buffer ev)
        \<and> mp_size (ee_process ev') = mp_size (ee_process ev) \<and> unat n \<le> room s
        \<and> sizes (ee_process ev') = (sizes (ee_process ev))[k := ucast n]"
begin

text \<open>What the caller gets after adding the reported bytes to the total size.\<close>

lemma grown:
  assumes "grow (rd (ev, se)) = (ev', se')" "length (ee_buffer ev) = PADDED_BUFFER"
    and "s = unat (mp_size (ee_process ev))" "lo \<le> s" "s < hi" "hi \<le> 65536" "sizes (ee_process ev) ! k = 0"
  obtains n where "n \<le> room s" "unat (mp_size (ee_process ev')) = s + n"
    and "length (ee_buffer ev') = PADDED_BUFFER" "take s (ee_buffer ev') = take s (ee_buffer ev)"
    and "sizes (ee_process ev') = (sizes (ee_process ev))[k := of_nat n]"
    and "sum_list (map unat (sizes (ee_process ev'))) = sum_list (map unat (sizes (ee_process ev))) + n"
proof -
  obtain ev1 se1 w where r: "rd (ev, se) = ((ev1, se1), w)" by (metis prod.exhaust)
  note L = rd_law [OF r assms(2-5,7)]
  let ?n = "unat w"
  have n: "?n \<le> room s" "?n \<le> 4095" using L room_small [of s] by auto
  have ev': "ev' = ev1\<lparr>ee_process := (ee_process ev1)\<lparr>mp_size := mp_size (ee_process ev1) + w\<rparr>\<rparr>"
    using assms(1) r by (auto simp: grow_def)
  have "unat (mp_size (ee_process ev) + w) = s + ?n"
    using assms(3,5,6) n(2) by (simp add: unat_word_ariths)
  then have sz: "unat (mp_size (ee_process ev')) = s + ?n" using L ev' by simp
  have u16: "unat (ucast w :: u16) = ?n" using n(2) by (intro unat_ucast_32_16) simp
  have ss: "sizes (ee_process ev') = (sizes (ee_process ev))[k := ucast w]" using L ev' by (simp add: sizes_def)
  have "(ucast w :: u16) = of_nat ?n" using u16 by (simp add: word_unat_eq_iff unsigned_of_nat take_bit_nat_eq_self n(2))
  moreover have "sum_list (map unat (sizes (ee_process ev'))) = sum_list (map unat (sizes (ee_process ev))) + ?n"
    unfolding ss map_update using k assms(7) u16 by (simp add: sum_list_update)
  ultimately show ?thesis using that [of ?n] n(1) sz L ev' ss by simp
qed

end

section \<open>The four readers\<close>

lemma data_event_size:
  assumes "data_event f a b c d e desc h os0 = (dh, os', desc', n)"
  shows "n = 0 \<or> n = 32"
  using assms by (auto simp: data_event_def Let_def tg_consts split: option.splits prod.splits)

lemma data_event_at_buffer:
  assumes "data_event_at call off (ev, se) = ((ev', se'), n)"
    and "off + 32 \<le> length (ee_buffer ev)"
    and "\<And>d h os0 dh os' d' m. call d h os0 = (dh, os', d', m) \<Longrightarrow> m = 0 \<or> m = 32"
  shows "length (ee_buffer ev') = length (ee_buffer ev)" and "t \<le> off \<Longrightarrow> take t (ee_buffer ev') = take t (ee_buffer ev)"
    and "ee_process ev' = ee_process ev" and "n = 0 \<or> n = 32" and "ee_exe ev' = ee_exe ev"
proof -
  obtain dh os' d' m where c: "call (desc_of_bytes (slice off SIZEOF_DATA_EVENT_DESC (ee_buffer ev))) (se_data se) (se_os se)
      = (dh, os', d', m)" by (metis prod.exhaust)
  have m: "m = 0 \<or> m = 32" using assms(3) [OF c] .
  have ev': "ev' = (if m = 0 then ev else ev\<lparr>ee_buffer := blit off (desc_bytes d') (ee_buffer ev)\<rparr>)" and n: "n = ucast m"
    using assms(1) c by (auto simp: data_event_at_def)
  have len: "length (desc_bytes d') = 32" by (simp add: tg_consts)
  show "n = 0 \<or> n = 32" using m n by auto
  show "length (ee_buffer ev') = length (ee_buffer ev)" "ee_process ev' = ee_process ev" "ee_exe ev' = ee_exe ev"
    using ev' assms(2) len by auto
  show "take t (ee_buffer ev') = take t (ee_buffer ev)" if "t \<le> off"
    using that ev' assms(2) take_blit_before [OF that, of "ee_buffer ev" "desc_bytes d'"] by auto
qed

lemmas data_bytes_size = data_event_size [where f = "do_bytes bd mem" for bd mem, folded data_event_bytes_def]
lemmas data_str_size = data_event_size [where f = "do_str bd mem" and e = "- 1" for bd mem, folded data_event_str_def]

lemma add_flags_frame [simp]:
  "ee_buffer (add_flags fl ev) = ee_buffer ev" "mp_size (ee_process (add_flags fl ev)) = mp_size (ee_process ev)"
  "sizes (ee_process (add_flags fl ev)) = sizes (ee_process ev)" "ee_exe (add_flags fl ev) = ee_exe ev"
  "mp_pid (ee_process (add_flags fl ev)) = mp_pid (ee_process ev)"
  by (simp_all add: add_flags_def sizes_def)

lemma set_arg_frame [simp]:
  "ee_buffer (set_arg_start bd m ev) = ee_buffer ev" "ee_process (set_arg_start bd m ev) = ee_process ev"
  "ee_buffer (set_arg_len bd m ev) = ee_buffer ev" "ee_process (set_arg_len bd m ev) = ee_process ev"
  by (simp_all add: set_arg_start_def set_arg_len_def)

lemma sizes_update [simp]:
  "sizes (p\<lparr>mp_size_path := a\<rparr>) = (sizes p)[0 := a]" "sizes (p\<lparr>mp_size_args := a\<rparr>) = (sizes p)[1 := a]"
  "sizes (p\<lparr>mp_size_cwd := a\<rparr>) = (sizes p)[2 := a]" "sizes (p\<lparr>mp_size_envs := a\<rparr>) = (sizes p)[3 := a]"
  "sizes (p\<lparr>mp_flags := fl\<rparr>) = sizes p" "sizes (p\<lparr>mp_size := w\<rparr>) = sizes p"
  by (simp_all add: sizes_def numeral_eq_Suc)

lemma sizes_update_0: "sizes p ! j = 0 \<Longrightarrow> sizes p = (sizes p)[j := 0]"
  by (metis list_update_id)

text \<open>The inline copy of a section: at most the free space minus one byte.\<close>

lemma inline_size:
  fixes asz :: u64 and s :: nat
  assumes "asz < 1024" and "asz < 1024 - of_nat s" and "s < 1024"
  shows "unat (ucast (if asz \<noteq> 0 then asz - 1 else asz) AND 0x3ff :: u32) = unat asz - 1"
    and "unat asz - 1 \<le> 1023 - s" and "s + (unat asz - 1) \<le> 1023"
proof -
  let ?n = "if asz \<noteq> 0 then asz - 1 else asz"
  have a: "unat asz < 1024" using assms(1) by (simp add: word_less_nat_alt)
  have n: "unat ?n = unat asz - 1"
    using unat_sub_u64 [of 1 asz] by (auto simp: unat_gt_0 Suc_leI)
  then have "unat (ucast ?n :: u32) = unat asz - 1"
    using a by (simp add: unsigned_ucast_eq take_bit_nat_eq_self)
  then show "unat (ucast ?n AND 0x3ff :: u32) = unat asz - 1" using a by (simp add: unat_and_3ff)
  have "unat (1024 - of_nat s :: u64) = 1024 - s"
    using assms(3) by (subst unat_sub_u64) (simp_all add: unsigned_of_nat take_bit_nat_eq_self)
  then have "unat asz < 1024 - s" using assms(2) by (simp add: word_less_nat_alt)
  then show "unat asz - 1 \<le> 1023 - s" "s + (unat asz - 1) \<le> 1023" using assms(3) by auto
qed

lemma unat_word_of_int_u32: "0 \<le> i \<Longrightarrow> i < 4294967296 \<Longrightarrow> unat (word_of_int i :: u32) = nat i"
  by (simp add: unsigned_of_int take_bit_int_eq_self)

lemma ucast_of_nat_u64:
  assumes "unat (w :: u32) = n" shows "(ucast w :: u64) = of_nat n"
proof -
  have "n < 4294967296" using assms unat_u32_less [of w] by simp
  then show ?thesis
    using assms by (simp add: word_unat_eq_iff unsigned_of_nat take_bit_nat_eq_self)
qed

interpretation path_section: section_reader "read_path bd ke" 0 64 65 "\<lambda>_. 254" for bd ke
proof unfold_locales
  fix ev se ev' se' n and s :: nat
  assume r: "read_path bd ke (ev, se) = ((ev', se'), n)" and len: "length (ee_buffer ev) = PADDED_BUFFER"
    and s: "s = unat (mp_size (ee_process ev))" "64 \<le> s" "s < 65" and z: "sizes (ee_process ev) ! 0 = 0"
  obtain bs q where pr: "probe_read_str (ke_mem ke) 255 (ke_filename ke) = (bs, q)" by fastforce
  note P = probe_read_str_bounds [OF pr]
  define ev1 where "ev1 = ev\<lparr>ee_buffer := blit 64 bs (ee_buffer ev)\<rparr>"
  have len1: "length (ee_buffer ev1) = PADDED_BUFFER"
    using P(1) len by (simp add: ev1_def tg_consts)
  have take1: "take s (ee_buffer ev1) = take s (ee_buffer ev)"
    using s(3) len by (simp add: ev1_def take_blit_before tg_consts)
  obtain ev2 se2 m where da: "data_event_at (data_event_str bd (ke_mem ke) (kt_pid_tgid (ke_kt ke)) (ke_fp ke)
      (ke_ktime ke) (ke_filename ke)) 64 (ev1, se) = ((ev2, se2), m)" by (metis prod.exhaust)
  have D: "length (ee_buffer ev2) = PADDED_BUFFER" "take s (ee_buffer ev2) = take s (ee_buffer ev)"
    "ee_process ev2 = ee_process ev" "m = 0 \<or> m = 32"
    using data_event_at_buffer [OF da] data_str_size len1 take1 s(3) by (auto simp: tg_consts ev1_def)
  have w: "0 < q \<Longrightarrow> q \<noteq> 255 \<Longrightarrow> unat (word_of_int (q - 1) :: u32) \<le> 254"
    using P(2) unat_word_of_int_u32 [of "q - 1"] by linarith
  show "length (ee_buffer ev') = PADDED_BUFFER \<and> take s (ee_buffer ev') = take s (ee_buffer ev)
      \<and> mp_size (ee_process ev') = mp_size (ee_process ev) \<and> unat n \<le> 254
      \<and> sizes (ee_process ev') = (sizes (ee_process ev))[0 := ucast n]"
    using r len1 take1 D w
    by (auto simp: read_path_def pr da MAXARGLENGTH_def SIZEOF_MSG_PROCESS_def ev1_def [symmetric] Let_def split: if_splits)
      (auto simp: ev1_def)
qed auto

text \<open>One step for both areas: the inline copy, or the descriptor of the data event.\<close>

lemma copy_area:
  fixes asz :: u64 and off :: u32
  assumes "unat off = s" "s < 1024" "length (ee_buffer ev) = PADDED_BUFFER"
    and "sz = (ucast (if asz \<noteq> 0 then asz - 1 else asz) AND 0x3ff :: u32)"
    and "asz < of_nat BUFFER \<and> asz < of_nat BUFFER - ucast off"
  shows "unat sz \<le> 1023 - s" "length (blit s (fst (probe_read mem (unat sz) a)) (ee_buffer ev)) = PADDED_BUFFER"
    and "take s (blit s (fst (probe_read mem (unat sz) a)) (ee_buffer ev)) = take s (ee_buffer ev)"
proof -
  have "asz < 1024" "asz < 1024 - of_nat s"
    using assms(5) ucast_of_nat_u64 [OF assms(1)] by (simp_all add: BUFFER_def)
  from inline_size [OF this assms(2)] assms(4) show u: "unat sz \<le> 1023 - s" by simp
  then show "length (blit s (fst (probe_read mem (unat sz) a)) (ee_buffer ev)) = PADDED_BUFFER"
    using assms(2,3) by (simp add: tg_consts)
  show "take s (blit s (fst (probe_read mem (unat sz) a)) (ee_buffer ev)) = take s (ee_buffer ev)"
    using assms(2,3) by (intro take_blit_before) (simp_all add: tg_consts)
qed

lemma copy_args_law:
  assumes "copy_args bd ke a asz off (ev, se) = ((ev', se'), n)"
    and "unat off = s" "s < 1024" "length (ee_buffer ev) = PADDED_BUFFER"
  shows "length (ee_buffer ev') = PADDED_BUFFER \<and> take s (ee_buffer ev') = take s (ee_buffer ev)
      \<and> mp_size (ee_process ev') = mp_size (ee_process ev) \<and> unat n \<le> max 32 (1023 - s)
      \<and> sizes (ee_process ev') = sizes (ee_process ev)"
proof (cases "asz < of_nat BUFFER \<and> asz < of_nat BUFFER - ucast off")
  case True
  note A = copy_area [OF assms(2-4) refl True]
  show ?thesis
    using assms(1) A unfolding copy_args_def
    by (simp add: True Let_def split_beta assms(2) split: if_splits) auto
next
  case False
  obtain ev2 se3 m where da: "data_event_at (data_event_bytes bd (ke_mem ke) (kt_pid_tgid (ke_kt ke)) (ke_fp ke)
      (ke_ktime ke) a asz) s (ev, se) = ((ev2, se3), m)" by (metis prod.exhaust)
  have D: "length (ee_buffer ev2) = PADDED_BUFFER" "take s (ee_buffer ev2) = take s (ee_buffer ev)"
    "ee_process ev2 = ee_process ev" "m = 0 \<or> m = 32"
    using data_event_at_buffer [OF da] data_bytes_size assms(3,4) by (auto simp: tg_consts)
  show ?thesis
    using assms(1) False D unfolding copy_args_def by (auto simp: Let_def assms(2) da split: if_splits)
qed

interpretation args_section: section_reader "read_args bd ke" 1 64 512 "\<lambda>s. max 32 (1023 - s)" for bd ke
proof unfold_locales
  fix ev se ev' se' n and s :: nat
  assume r: "read_args bd ke (ev, se) = ((ev', se'), n)" and len: "length (ee_buffer ev) = PADDED_BUFFER"
    and s: "s = unat (mp_size (ee_process ev))" "64 \<le> s" "s < 512" and z: "sizes (ee_process ev) ! 1 = 0"
  define sz0 where "sz0 = mp_size (ee_process ev) AND 0x1ff"
  have sz0: "unat sz0 = s"
    using unat_and_mask [of "mp_size (ee_process ev)" 9] s by (simp add: sz0_def mask_eq_exp_minus_1)
  define se2 where "se2 = em_exec 74 (snd (ke_arg_end ke)) (em_exec 73 (snd (ke_arg_start ke)) (em_exec 68 (snd (ke_mm ke)) se))"
  define start where "start = fst (ke_arg_start ke) + word_of_int (snd (probe_read_str (ke_mem ke) 4096 (fst (ke_arg_start ke))))"
  obtain ev4 se4 m where c: "copy_args bd ke start (fst (ke_arg_end ke) - start) sz0 (set_arg_start bd sz0 ev, se2) = ((ev4, se4), m)"
    by (metis prod.exhaust)
  have C: "length (ee_buffer ev4) = PADDED_BUFFER \<and> take s (ee_buffer ev4) = take s (ee_buffer ev)
      \<and> mp_size (ee_process ev4) = mp_size (ee_process ev) \<and> unat m \<le> max 32 (1023 - s)
      \<and> sizes (ee_process ev4) = sizes (ee_process ev)"
    using copy_args_law [OF c sz0] s len by simp
  have "(ev' = ev \<and> n = 0) \<or> ((ev', se'), n) = end_args bd ((ev4, se4), m)"
    using r s(3) unfolding read_args_def
    by (simp add: Let_def sz0_def [symmetric] sz0 se2_def [symmetric] start_def [symmetric] c BUFFER_def split: if_splits)
  then show "length (ee_buffer ev') = PADDED_BUFFER \<and> take s (ee_buffer ev') = take s (ee_buffer ev)
      \<and> mp_size (ee_process ev') = mp_size (ee_process ev) \<and> unat n \<le> max 32 (1023 - s)
      \<and> sizes (ee_process ev') = (sizes (ee_process ev))[1 := ucast n]"
    using C len z sizes_update_0 [OF z] by (auto simp: end_args_def Let_def)
qed auto

lemma copy_envs_law:
  assumes "copy_envs bd ke a asz off (ev, se) = ((ev', se'), n, fl)"
    and "unat off = s" "s < 1024" "length (ee_buffer ev) = PADDED_BUFFER"
  shows "length (ee_buffer ev') = PADDED_BUFFER \<and> take s (ee_buffer ev') = take s (ee_buffer ev)
      \<and> ee_process ev' = ee_process ev \<and> unat n \<le> max 32 (1023 - s)"
proof (cases "asz < of_nat BUFFER \<and> asz < of_nat BUFFER - ucast off")
  case True
  note A = copy_area [OF assms(2-4) refl True]
  show ?thesis
    using assms(1) A unfolding copy_envs_def
    by (simp add: True Let_def split_beta assms(2) split: if_splits) auto
next
  case False
  obtain ev2 se3 m where da: "data_event_at (data_event_bytes bd (ke_mem ke) (kt_pid_tgid (ke_kt ke)) (ke_fp ke)
      (ke_ktime ke) a asz) s (ev, se) = ((ev2, se3), m)" by (metis prod.exhaust)
  have D: "length (ee_buffer ev2) = PADDED_BUFFER" "take s (ee_buffer ev2) = take s (ee_buffer ev)"
    "ee_process ev2 = ee_process ev" "m = 0 \<or> m = 32"
    using data_event_at_buffer [OF da] data_bytes_size assms(3,4) by (auto simp: tg_consts)
  show ?thesis
    using assms(1) False D unfolding copy_envs_def by (auto simp: Let_def assms(2) da split: if_splits)
qed

interpretation envs_section: section_reader "read_envs bd ke" 3 64 65536 "\<lambda>s. if s < 1024 then max 32 (1023 - s) else 0"
  for bd ke
proof unfold_locales
  fix ev se ev' se' n and s :: nat
  assume r: "read_envs bd ke (ev, se) = ((ev', se'), n)" and len: "length (ee_buffer ev) = PADDED_BUFFER"
    and s: "s = unat (mp_size (ee_process ev))" "64 \<le> s" "s < 65536" and z: "sizes (ee_process ev) ! 3 = 0"
  show "length (ee_buffer ev') = PADDED_BUFFER \<and> take s (ee_buffer ev') = take s (ee_buffer ev)
      \<and> mp_size (ee_process ev') = mp_size (ee_process ev) \<and> unat n \<le> (if s < 1024 then max 32 (1023 - s) else 0)
      \<and> sizes (ee_process ev') = (sizes (ee_process ev))[3 := ucast n]"
  proof (cases "s < 1024")
    case False
    then have "ev' = ev \<and> n = 0" using r s(1) by (auto simp: read_envs_def Let_def BUFFER_def split: if_splits)
    with len z sizes_update_0 [OF z] show ?thesis by simp
  next
    case True
    define se1 where "se1 = em_exec 157 (snd (ke_env_end ke)) (em_exec 156 (snd (ke_env_start ke)) se)"
    obtain ev3 se3 m fl where c: "copy_envs bd ke (fst (ke_env_start ke)) (fst (ke_env_end ke) - fst (ke_env_start ke))
        (mp_size (ee_process ev)) (ev, se1) = ((ev3, se3), m, fl)" by (metis prod.exhaust)
    note C = copy_envs_law [OF c s(1) [symmetric] True len]
    have "(ev' = ev \<and> n = 0) \<or>
        (ev' = add_flags fl (ev3\<lparr>ee_process := (ee_process ev3)\<lparr>mp_size_envs := ucast m\<rparr>\<rparr>) \<and> n = m)"
      using r True s(1) unfolding read_envs_def
      by (auto simp: Let_def se1_def [symmetric] c BUFFER_def split: if_splits)
    then show ?thesis using C len z sizes_update_0 [OF z] True by auto
  qed
qed auto

interpretation cwd_section: section_reader "read_cwd bd ke" 2 64 1024 "\<lambda>_. 4095" for bd ke
proof unfold_locales
  fix ev se ev' se' n and s :: nat
  assume r: "read_cwd bd ke (ev, se) = ((ev', se'), n)" and len: "length (ee_buffer ev) = PADDED_BUFFER"
    and s: "s = unat (mp_size (ee_process ev))" "64 \<le> s" "s < 1024" and z: "sizes (ee_process ev) ! 2 = 0"
  obtain h p b m where g: "getcwd bd (ke_vf ke) (ke_kt ke) (ke_kp ke) (se_path se) (ee_process ev) (ee_buffer ev)
      (mp_size (ee_process ev)) (mp_pid (ee_process ev)) = (h, p, b, m)" by (metis prod.exhaust)
  note G = getcwd_in_bounds [OF g len]
  have z': "mp_size_cwd (ee_process ev) = 0" using z by simp
  have p: "sizes p = (sizes (ee_process ev))[2 := mp_size_cwd p] \<and> mp_size p = mp_size (ee_process ev)"
    using g by (auto simp: getcwd_def Let_def sizes_def split: if_splits option.splits)
  have "(ev' = ev \<and> n = 0) \<or> (ev' = ev\<lparr>ee_process := p, ee_buffer := b\<rparr> \<and> n = m)"
    using r by (auto simp: read_cwd_def g split: if_splits)
  moreover have "mp_size_cwd p = ucast m" using G z' by (cases "m = 0") auto
  ultimately show "length (ee_buffer ev') = PADDED_BUFFER \<and> take s (ee_buffer ev') = take s (ee_buffer ev)
      \<and> mp_size (ee_process ev') = mp_size (ee_process ev) \<and> unat n \<le> 4095
      \<and> sizes (ee_process ev') = (sizes (ee_process ev))[2 := ucast n]"
    using G len s p sizes_update_0 [OF z] by auto
qed auto

section \<open>The texts of the sections\<close>

text \<open>
  What may stand in a section: the name or the area of memory itself when it fits, else the descriptor of the data event that carries it. For the working
  directory it is the resolved path.
\<close>

definition path_text :: "kexec \<Rightarrow> byte list set" where
  "path_text ke =
     (let bs = fst (probe_read_str (ke_mem ke) 255 (ke_filename ke)) in if length bs = 255 then range desc_bytes else {butlast bs})"

definition area_text :: "kexec \<Rightarrow> u64 \<Rightarrow> u64 \<Rightarrow> nat \<Rightarrow> byte list set" where
  "area_text ke start stop off =
     (let n = unat (stop - start)
      in if n < BUFFER - off then {fst (probe_read (ke_mem ke) (n - 1) start)} else range desc_bytes)"

definition args_text :: "kexec \<Rightarrow> nat \<Rightarrow> byte list set" where
  "args_text ke =
     (let start = fst (ke_arg_start ke)
      in area_text ke (start + word_of_int (snd (probe_read_str (ke_mem ke) 4096 start))) (fst (ke_arg_end ke)))"

definition envs_text :: "kexec \<Rightarrow> nat \<Rightarrow> byte list set" where
  "envs_text ke = area_text ke (fst (ke_env_start ke)) (fst (ke_env_end ke))"

definition cwd_text :: "build \<Rightarrow> kexec \<Rightarrow> u32 \<Rightarrow> byte list set" where
  "cwd_text bd ke pid =
     {t. \<exists>b fl heap.
        d_path_local bd (ke_vf ke) (kp_fs_pwd (ke_kp ke) (kp_fs (ke_kp ke) (get_task_from_pid (ke_kt ke) pid))) heap = Some (b, fl)
        \<and> length t = unat (pb_len b AND 0xfff)
        \<and> (let p = slice (unat (pb_ptr b)) (length t) (pb_buf b) in take (length p) t = p)}"

text \<open>A section writer is a section reader that puts one of its texts at the current end of the message.\<close>

locale section_writer = section_reader +
  fixes texts :: "nat \<Rightarrow> u32 \<Rightarrow> byte list set"
  assumes texts_law: "rd (ev, se) = ((ev', se'), n) \<Longrightarrow> length (ee_buffer ev) = PADDED_BUFFER \<Longrightarrow>
        s = unat (mp_size (ee_process ev)) \<Longrightarrow> lo \<le> s \<Longrightarrow> s < hi \<Longrightarrow>
        mp_pid (ee_process ev') = mp_pid (ee_process ev)
        \<and> (n \<noteq> 0 \<longrightarrow> slice s (unat n) (ee_buffer ev') \<in> texts s (mp_pid (ee_process ev)))"
begin

lemma written:
  assumes "grow (rd (ev, se)) = (ev', se')" "length (ee_buffer ev) = PADDED_BUFFER"
    and "s = unat (mp_size (ee_process ev))" "lo \<le> s" "s < hi" "sizes (ee_process ev) ! k = 0" "hi \<le> 65536"
    and "unat (mp_size (ee_process ev')) = s + n"
  shows "mp_pid (ee_process ev') = mp_pid (ee_process ev)" and "n \<noteq> 0 \<Longrightarrow> slice s n (ee_buffer ev') \<in> texts s (mp_pid (ee_process ev))"
proof -
  obtain ev1 se1 w where r: "rd (ev, se) = ((ev1, se1), w)" by (metis prod.exhaust)
  note T = texts_law [OF r assms(2-5)] and L = rd_law [OF r assms(2-6)]
  have ev': "ev' = ev1\<lparr>ee_process := (ee_process ev1)\<lparr>mp_size := mp_size (ee_process ev1) + w\<rparr>\<rparr>"
    using assms(1) r by (auto simp: grow_def)
  have "unat w \<le> 4095" using L room_small [of s] by simp
  then have "unat (mp_size (ee_process ev) + w) = s + unat w" using assms(3,5,7) by (simp add: unat_word_ariths)
  then have "n = unat w" using ev' L assms(8) by simp
  with T ev' show "mp_pid (ee_process ev') = mp_pid (ee_process ev)" "n \<noteq> 0 \<Longrightarrow> slice s n (ee_buffer ev') \<in> texts s (mp_pid (ee_process ev))"
    by auto
qed

end

lemma data_event_at_text:
  assumes "data_event_at call off (ev, se) = ((ev', se'), n)" and "off \<le> length (ee_buffer ev)"
    and "\<And>d h os0 dh os' d' m. call d h os0 = (dh, os', d', m) \<Longrightarrow> m = 0 \<or> m = 32" and "n \<noteq> 0"
  shows "slice off (unat n) (ee_buffer ev') \<in> range desc_bytes"
proof -
  obtain dh os' d' m where c: "call (desc_of_bytes (slice off SIZEOF_DATA_EVENT_DESC (ee_buffer ev))) (se_data se) (se_os se)
      = (dh, os', d', m)" by (metis prod.exhaust)
  have n: "n = ucast m" "m = 32" using assms(1,4) assms(3) [OF c] c by (auto simp: data_event_at_def)
  then have ev': "ee_buffer ev' = blit off (desc_bytes d') (ee_buffer ev)" using assms(1) c by (auto simp: data_event_at_def)
  have "length (desc_bytes d') = 32" by (simp add: tg_consts)
  then have "slice off 32 (ee_buffer ev') = desc_bytes d'" using slice_blit_same [OF assms(2), of "desc_bytes d'"] ev' by simp
  then show ?thesis using n by auto
qed

interpretation path_writer: section_writer "read_path bd ke" 0 64 65 "\<lambda>_. 254" "\<lambda>_ _. path_text ke" for bd ke
proof unfold_locales
  fix ev se ev' se' n and s :: nat
  assume r: "read_path bd ke (ev, se) = ((ev', se'), n)" and len: "length (ee_buffer ev) = PADDED_BUFFER"
    and "s = unat (mp_size (ee_process ev))" "64 \<le> s" "s < 65"
  then have s: "s = 64" by simp
  obtain bs q where pr: "probe_read_str (ke_mem ke) 255 (ke_filename ke) = (bs, q)" by fastforce
  note P = probe_read_str_bounds [OF pr]
  define ev1 where "ev1 = ev\<lparr>ee_buffer := blit 64 bs (ee_buffer ev)\<rparr>"
  have len1: "64 \<le> length (ee_buffer ev1)" using P(1) len by (simp add: ev1_def tg_consts)
  obtain ev2 se2 m where da: "data_event_at (data_event_str bd (ke_mem ke) (kt_pid_tgid (ke_kt ke)) (ke_fp ke)
      (ke_ktime ke) (ke_filename ke)) 64 (ev1, se) = ((ev2, se2), m)" by (metis prod.exhaust)
  have D: "m \<noteq> 0 \<Longrightarrow> slice 64 (unat m) (ee_buffer ev2) \<in> range desc_bytes" "ee_process ev2 = ee_process ev1"
    using data_event_at_text [OF da len1] data_str_size da by (auto simp: data_event_at_def split: prod.splits)
  have short: "slice 64 (unat (word_of_int (q - 1) :: u32)) (ee_buffer ev1) = butlast bs" if "0 < q" "q \<noteq> 255"
  proof -
    have "unat (word_of_int (q - 1) :: u32) = length bs - 1" using P(2,4) that unat_word_of_int_u32 [of "q - 1"] by simp
    then show ?thesis using len by (simp add: ev1_def slice_def blit_def butlast_conv_take tg_consts)
  qed
  have full: "length bs = 255 \<longleftrightarrow> q = 255" if "0 < q" using P(4) that by auto
  show "mp_pid (ee_process ev') = mp_pid (ee_process ev)
      \<and> (n \<noteq> 0 \<longrightarrow> slice s (unat n) (ee_buffer ev') \<in> path_text ke)"
    using r D short full
    by (auto simp: read_path_def pr da MAXARGLENGTH_def SIZEOF_MSG_PROCESS_def ev1_def [symmetric] Let_def path_text_def s split: if_splits)
      (auto simp: ev1_def)
qed

text \<open>The two areas, whose copy is the same.\<close>

lemma area_fits: "unat off = s \<Longrightarrow> s < 1024 \<Longrightarrow> (asz < of_nat BUFFER \<and> asz < of_nat BUFFER - ucast (off :: u32)) = (unat (asz :: u64) < BUFFER - s)"
proof -
  assume "unat off = s" "s < 1024"
  then have "unat (1024 - ucast off :: u64) = 1024 - s"
    using ucast_of_nat_u64 [of off s] by (simp add: unat_sub_u64 unsigned_of_nat take_bit_nat_eq_self)
  then show ?thesis by (auto simp: BUFFER_def word_less_nat_alt)
qed

lemma copy_args_text:
  assumes "copy_args bd ke a (z - a) off (ev, se) = ((ev', se'), n)"
    and "unat off = s" "s < 1024" "length (ee_buffer ev) = PADDED_BUFFER"
  shows "mp_pid (ee_process ev') = mp_pid (ee_process ev)" and "n \<noteq> 0 \<Longrightarrow> slice s (unat n) (ee_buffer ev') \<in> area_text ke a z s"
proof -
  have len: "s \<le> length (ee_buffer ev)" using assms(3,4) by (simp add: tg_consts)
  have "mp_pid (ee_process ev') = mp_pid (ee_process ev) \<and> (n \<noteq> 0 \<longrightarrow> slice s (unat n) (ee_buffer ev') \<in> area_text ke a z s)"
  proof (cases "z - a < of_nat BUFFER \<and> z - a < of_nat BUFFER - ucast off")
    case True
    then have f: "unat (z - a) < BUFFER - s" using area_fits [OF assms(2,3)] by simp
    have sz: "unat (ucast (if z - a \<noteq> 0 then z - a - 1 else z - a) AND 0x3ff :: u32) = unat (z - a) - 1"
      using True inline_size(1) [of "z - a" s] ucast_of_nat_u64 [OF assms(2)] assms(3) by (simp add: BUFFER_def)
    show ?thesis
      using assms(1) f sz slice_blit_same [OF len, of "fst (probe_read (ke_mem ke) (unat (z - a) - 1) a)"] unfolding copy_args_def
      by (auto simp: True Let_def split_beta assms(2) area_text_def add_flags_def split: if_splits)
  next
    case False
    then have f: "\<not> unat (z - a) < BUFFER - s" using area_fits [OF assms(2,3)] by simp
    obtain ev2 se3 m where da: "data_event_at (data_event_bytes bd (ke_mem ke) (kt_pid_tgid (ke_kt ke)) (ke_fp ke)
        (ke_ktime ke) a (z - a)) s (ev, se) = ((ev2, se3), m)" by (metis prod.exhaust)
    have "m \<noteq> 0 \<Longrightarrow> slice s (unat m) (ee_buffer ev2) \<in> range desc_bytes" "ee_process ev2 = ee_process ev"
      using data_event_at_text [OF da len] data_bytes_size da by (auto simp: data_event_at_def split: prod.splits)
    then show ?thesis
      using assms(1) False f unfolding copy_args_def by (auto simp: Let_def assms(2) da area_text_def split: if_splits)
  qed
  then show "mp_pid (ee_process ev') = mp_pid (ee_process ev)" "n \<noteq> 0 \<Longrightarrow> slice s (unat n) (ee_buffer ev') \<in> area_text ke a z s" by auto
qed

interpretation args_writer: section_writer "read_args bd ke" 1 64 512 "\<lambda>s. max 32 (1023 - s)" "\<lambda>s _. args_text ke s" for bd ke
proof unfold_locales
  fix ev se ev' se' n and s :: nat
  assume r: "read_args bd ke (ev, se) = ((ev', se'), n)" and len: "length (ee_buffer ev) = PADDED_BUFFER"
    and s: "s = unat (mp_size (ee_process ev))" "64 \<le> s" "s < 512"
  define sz0 where "sz0 = mp_size (ee_process ev) AND 0x1ff"
  have sz0: "unat sz0 = s"
    using unat_and_mask [of "mp_size (ee_process ev)" 9] s by (simp add: sz0_def mask_eq_exp_minus_1)
  define se2 where "se2 = em_exec 74 (snd (ke_arg_end ke)) (em_exec 73 (snd (ke_arg_start ke)) (em_exec 68 (snd (ke_mm ke)) se))"
  define start where "start = fst (ke_arg_start ke) + word_of_int (snd (probe_read_str (ke_mem ke) 4096 (fst (ke_arg_start ke))))"
  obtain ev4 se4 m where c: "copy_args bd ke start (fst (ke_arg_end ke) - start) sz0 (set_arg_start bd sz0 ev, se2) = ((ev4, se4), m)"
    by (metis prod.exhaust)
  have C: "mp_pid (ee_process ev4) = mp_pid (ee_process ev)" "m \<noteq> 0 \<Longrightarrow> slice s (unat m) (ee_buffer ev4) \<in> args_text ke s"
    using copy_args_text [OF c sz0] s(3) len by (simp_all add: args_text_def start_def Let_def set_arg_start_def)
  have "((ev' = ev \<or> ev' = set_arg_start bd sz0 ev) \<and> n = 0) \<or> ((ev', se'), n) = end_args bd ((ev4, se4), m)"
    using r s(3) unfolding read_args_def
    by (simp add: Let_def sz0_def [symmetric] sz0 se2_def [symmetric] start_def [symmetric] c BUFFER_def split: if_splits)
  then show "mp_pid (ee_process ev') = mp_pid (ee_process ev)
      \<and> (n \<noteq> 0 \<longrightarrow> slice s (unat n) (ee_buffer ev') \<in> args_text ke s)"
    using C by (auto simp: end_args_def set_arg_len_def set_arg_start_def Let_def)
qed

lemma copy_envs_text:
  assumes "copy_envs bd ke a (z - a) off (ev, se) = ((ev', se'), n, fl)"
    and "unat off = s" "s < 1024" "length (ee_buffer ev) = PADDED_BUFFER" and "n \<noteq> 0"
  shows "slice s (unat n) (ee_buffer ev') \<in> area_text ke a z s"
proof -
  have len: "s \<le> length (ee_buffer ev)" using assms(3,4) by (simp add: tg_consts)
  show ?thesis
  proof (cases "z - a < of_nat BUFFER \<and> z - a < of_nat BUFFER - ucast off")
    case True
    then have f: "unat (z - a) < BUFFER - s" using area_fits [OF assms(2,3)] by simp
    have sz: "unat (ucast (if z - a \<noteq> 0 then z - a - 1 else z - a) AND 0x3ff :: u32) = unat (z - a) - 1"
      using True inline_size(1) [of "z - a" s] ucast_of_nat_u64 [OF assms(2)] assms(3) by (simp add: BUFFER_def)
    show ?thesis
      using assms(1,5) f sz slice_blit_same [OF len, of "fst (probe_read (ke_mem ke) (unat (z - a) - 1) a)"] unfolding copy_envs_def
      by (auto simp: True Let_def split_beta assms(2) area_text_def split: if_splits)
  next
    case False
    then have f: "\<not> unat (z - a) < BUFFER - s" using area_fits [OF assms(2,3)] by simp
    obtain ev2 se3 m where da: "data_event_at (data_event_bytes bd (ke_mem ke) (kt_pid_tgid (ke_kt ke)) (ke_fp ke)
        (ke_ktime ke) a (z - a)) s (ev, se) = ((ev2, se3), m)" by (metis prod.exhaust)
    have "m \<noteq> 0 \<Longrightarrow> slice s (unat m) (ee_buffer ev2) \<in> range desc_bytes"
      using data_event_at_text [OF da len] data_bytes_size by blast
    then show ?thesis
      using assms(1,5) False f unfolding copy_envs_def by (auto simp: Let_def assms(2) da area_text_def split: if_splits)
  qed
qed

interpretation envs_writer: section_writer "read_envs bd ke" 3 64 65536 "\<lambda>s. if s < 1024 then max 32 (1023 - s) else 0" "\<lambda>s _. envs_text ke s"
  for bd ke
proof unfold_locales
  fix ev se ev' se' n and s :: nat
  assume r: "read_envs bd ke (ev, se) = ((ev', se'), n)" and len: "length (ee_buffer ev) = PADDED_BUFFER"
    and s: "s = unat (mp_size (ee_process ev))" "64 \<le> s" "s < 65536"
  show "mp_pid (ee_process ev') = mp_pid (ee_process ev) \<and> (n \<noteq> 0 \<longrightarrow> slice s (unat n) (ee_buffer ev') \<in> envs_text ke s)"
  proof (cases "s < 1024")
    case False
    then have "ev' = ev \<and> n = 0" using r s(1) by (auto simp: read_envs_def Let_def BUFFER_def split: if_splits)
    then show ?thesis by simp
  next
    case True
    define se1 where "se1 = em_exec 157 (snd (ke_env_end ke)) (em_exec 156 (snd (ke_env_start ke)) se)"
    obtain ev3 se3 m fl where c: "copy_envs bd ke (fst (ke_env_start ke)) (fst (ke_env_end ke) - fst (ke_env_start ke))
        (mp_size (ee_process ev)) (ev, se1) = ((ev3, se3), m, fl)" by (metis prod.exhaust)
    note C = copy_envs_law [OF c s(1) [symmetric] True len] copy_envs_text [OF c s(1) [symmetric] True len]
    have "(ev' = ev \<and> n = 0) \<or>
        (ev' = add_flags fl (ev3\<lparr>ee_process := (ee_process ev3)\<lparr>mp_size_envs := ucast m\<rparr>\<rparr>) \<and> n = m)"
      using r True s(1) unfolding read_envs_def
      by (auto simp: Let_def se1_def [symmetric] c BUFFER_def split: if_splits)
    then show ?thesis using C by (auto simp: envs_text_def)
  qed
qed

interpretation cwd_writer: section_writer "read_cwd bd ke" 2 64 1024 "\<lambda>_. 4095" "\<lambda>_ pid. cwd_text bd ke pid" for bd ke
proof unfold_locales
  fix ev se ev' se' n and s :: nat
  assume r: "read_cwd bd ke (ev, se) = ((ev', se'), n)" and len: "length (ee_buffer ev) = PADDED_BUFFER"
    and s: "s = unat (mp_size (ee_process ev))" "64 \<le> s" "s < 1024"
  let ?pid = "mp_pid (ee_process ev)"
  let ?d = "d_path_local bd (ke_vf ke) (kp_fs_pwd (ke_kp ke) (kp_fs (ke_kp ke) (get_task_from_pid (ke_kt ke) ?pid))) (se_path se)"
  have s': "unat (mp_size (ee_process ev) AND 0x3ff) = s" "s \<le> length (ee_buffer ev)"
    using s(1,3) len by (simp_all add: unat_and_3ff tg_consts)
  have d: "slice s (unat (pb_len b AND 0xfff)) (blit s (slice (unat (pb_ptr b)) (unat (pb_len b AND 0xfff)) (pb_buf b)) (ee_buffer ev)) \<in> cwd_text bd ke ?pid"
    if "?d = Some (b, fl)" for b fl
  proof -
    let ?n = "unat (pb_len b AND 0xfff)" and ?p = "slice (unat (pb_ptr b)) (unat (pb_len b AND 0xfff)) (pb_buf b)"
    have "length ?p \<le> ?n" "?n \<le> 4095" using unat_and_fff [of "pb_len b"] by (simp_all add: slice_def)
    then have "length (slice s ?n (blit s ?p (ee_buffer ev))) = ?n" "take (length ?p) (slice s ?n (blit s ?p (ee_buffer ev))) = ?p"
      using s(3) len by (auto simp: slice_def blit_def tg_consts min_def)
    then show ?thesis using that unfolding cwd_text_def Let_def by auto
  qed
  show "mp_pid (ee_process ev') = ?pid \<and> (n \<noteq> 0 \<longrightarrow> slice s (unat n) (ee_buffer ev') \<in> cwd_text bd ke ?pid)"
    using r s' d by (auto simp: read_cwd_def getcwd_def Let_def split: if_splits option.splits prod.splits)
qed

section \<open>The layout of the exec message\<close>

lemma take_prefix_trans: "take n xs = take n ys \<Longrightarrow> m \<le> n \<Longrightarrow> take m xs = take m ys"
  by (metis min.absorb1 take_take)

lemma slice_of_take: "off + n \<le> m \<Longrightarrow> take m xs = take m ys \<Longrightarrow> slice off n xs = slice off n ys"
  by (metis slice_def take_drop take_prefix_trans add.commute)

lemma slices_of_take:
  assumes "take n xs = take k xs @ ys @ zs @ us" and "k + length ys + length zs \<le> n" and "n \<le> length xs"
  shows "slice k (length ys) xs = ys" "slice (k + length ys) (length zs) xs = zs"
proof -
  have xs: "xs = take k xs @ ys @ zs @ us @ drop n xs" using assms(1) append_take_drop_id [of n xs] by (metis append_assoc)
  have k: "length (take k xs) = k" using assms(2,3) by simp
  show "slice k (length ys) xs = ys" by (subst xs) (simp add: slice_def k del: length_take)
  show "slice (k + length ys) (length zs) xs = zs" by (subst xs) (simp add: slice_def k del: length_take)
qed

lemma update4:
  "[a, b, c, d][0 := x] = [x, b, c, d]" "[a, b, c, d][1 := x] = [a, x, c, d]"
  "[a, b, c, d][2 := x] = [a, b, x, d]" "[a, b, c, d][3 := x] = [a, b, c, x]" "[a, b, c, d] ! 3 = d" "[a, b, c, d] ! 2 = c"
  by (simp_all add: numeral_eq_Suc)

definition fresh :: "msg_execve_event \<Rightarrow> bool" where
  "fresh ev \<longleftrightarrow> length (ee_buffer ev) = PADDED_BUFFER \<and> mp_size (ee_process ev) = of_nat SIZEOF_MSG_PROCESS
     \<and> sizes (ee_process ev) = [0, 0, 0, 0]"

text \<open>The four stages of the collection: after each, the size field, the section sizes and the bytes collected so far.\<close>

lemma sections_stages:
  assumes "event_execve_sections bd ke (ev, se) = (ev4, se4)" and "fresh ev"
  obtains ev1 se1 ev2 se2 ev3 se3 n1 n2 n3 n4
  where "grow (read_path bd ke (ev, se)) = (ev1, se1)" "grow (read_args bd ke (ev1, se1)) = (ev2, se2)"
      "grow (read_cwd bd ke (ev2, se2)) = (ev3, se3)" "grow (read_envs bd ke (ev3, se3)) = (ev4, se4)"
    and "length (ee_buffer ev1) = PADDED_BUFFER" "length (ee_buffer ev2) = PADDED_BUFFER" "length (ee_buffer ev3) = PADDED_BUFFER"
      "length (ee_buffer ev4) = PADDED_BUFFER"
    and "unat (mp_size (ee_process ev1)) = 64 + n1" "unat (mp_size (ee_process ev2)) = 64 + n1 + n2"
      "unat (mp_size (ee_process ev3)) = 64 + n1 + n2 + n3" "unat (mp_size (ee_process ev4)) = 64 + n1 + n2 + n3 + n4"
    and "sizes (ee_process ev1) = [of_nat n1, 0, 0, 0]" "sizes (ee_process ev2) = [of_nat n1, of_nat n2, 0, 0]"
      "sizes (ee_process ev3) = [of_nat n1, of_nat n2, of_nat n3, 0]"
      "sizes (ee_process ev4) = [of_nat n1, of_nat n2, of_nat n3, of_nat n4]"
    and "take (64 + n1) (ee_buffer ev4) = take (64 + n1) (ee_buffer ev1)"
      "take (64 + n1 + n2) (ee_buffer ev4) = take (64 + n1 + n2) (ee_buffer ev2)"
      "take (64 + n1 + n2 + n3) (ee_buffer ev4) = take (64 + n1 + n2 + n3) (ee_buffer ev3)"
    and "n1 \<le> 254" "64 + n1 + n2 \<le> 1023" "64 + n1 + n2 + n3 + n4 \<le> 5118"
proof -
  obtain ev1 se1 where g1: "grow (read_path bd ke (ev, se)) = (ev1, se1)" by fastforce
  obtain ev2 se2 where g2: "grow (read_args bd ke (ev1, se1)) = (ev2, se2)" by fastforce
  obtain ev3 se3 where g3: "grow (read_cwd bd ke (ev2, se2)) = (ev3, se3)" by fastforce
  have g4: "grow (read_envs bd ke (ev3, se3)) = (ev4, se4)"
    using assms(1) by (simp add: event_execve_sections_def g1 g2 g3)
  have f: "length (ee_buffer ev) = PADDED_BUFFER" "64 = unat (mp_size (ee_process ev))" "sizes (ee_process ev) = [0, 0, 0, 0]"
    using assms(2) by (simp_all add: fresh_def tg_consts)
  obtain n1 where s1: "n1 \<le> 254" "unat (mp_size (ee_process ev1)) = 64 + n1" "length (ee_buffer ev1) = PADDED_BUFFER"
      "sizes (ee_process ev1) = (sizes (ee_process ev))[0 := of_nat n1]"
    by (rule path_section.grown [OF g1 f(1,2)]) (auto simp: f(3))
  obtain n2 where s2: "n2 \<le> max 32 (1023 - (64 + n1))" "unat (mp_size (ee_process ev2)) = 64 + n1 + n2"
      "length (ee_buffer ev2) = PADDED_BUFFER" "take (64 + n1) (ee_buffer ev2) = take (64 + n1) (ee_buffer ev1)"
      "sizes (ee_process ev2) = (sizes (ee_process ev1))[1 := of_nat n2]"
    by (rule args_section.grown [OF g2 s1(3) s1(2) [symmetric]]) (use s1 f(3) in auto)
  have b2: "64 + n1 + n2 \<le> 1023" using s1(1) s2(1) by auto
  obtain n3 where s3: "n3 \<le> 4095" "unat (mp_size (ee_process ev3)) = 64 + n1 + n2 + n3"
      "length (ee_buffer ev3) = PADDED_BUFFER" "take (64 + n1 + n2) (ee_buffer ev3) = take (64 + n1 + n2) (ee_buffer ev2)"
      "sizes (ee_process ev3) = (sizes (ee_process ev2))[2 := of_nat n3]"
    by (rule cwd_section.grown [OF g3 s2(3) s2(2) [symmetric]]) (use s1 s2 b2 f(3) in auto)
  obtain n4 where s4: "n4 \<le> (if 64 + n1 + n2 + n3 < 1024 then max 32 (1023 - (64 + n1 + n2 + n3)) else 0)"
      "unat (mp_size (ee_process ev4)) = 64 + n1 + n2 + n3 + n4" "length (ee_buffer ev4) = PADDED_BUFFER"
      "take (64 + n1 + n2 + n3) (ee_buffer ev4) = take (64 + n1 + n2 + n3) (ee_buffer ev3)"
      "sizes (ee_process ev4) = (sizes (ee_process ev3))[3 := of_nat n4]"
  proof (rule envs_section.grown [OF g4 s3(3) s3(2) [symmetric]])
    show "sizes (ee_process ev3) ! 3 = 0" unfolding s3(5) s2(5) s1(4) f(3) update4 ..
  qed (use s3(1) b2 in auto)
  have t2: "take (64 + n1 + n2) (ee_buffer ev4) = take (64 + n1 + n2) (ee_buffer ev2)"
    using take_prefix_trans [OF s4(4), of "64 + n1 + n2"] s3(4) by simp
  have t1: "take (64 + n1) (ee_buffer ev4) = take (64 + n1) (ee_buffer ev1)"
    using take_prefix_trans [OF t2, of "64 + n1"] s2(4) by simp
  have z: "sizes (ee_process ev1) = [of_nat n1, 0, 0, 0]" "sizes (ee_process ev2) = [of_nat n1, of_nat n2, 0, 0]"
      "sizes (ee_process ev3) = [of_nat n1, of_nat n2, of_nat n3, 0]"
      "sizes (ee_process ev4) = [of_nat n1, of_nat n2, of_nat n3, of_nat n4]"
    unfolding s4(5) s3(5) s2(5) s1(4) f(3) update4 by (rule refl)+
  have "64 + n1 + n2 + n3 + n4 \<le> 5118" using s4(1) s3(1) b2 by (auto split: if_splits)
  then show ?thesis
    by (rule that [OF g1 g2 g3 g4 s1(3) s2(3) s3(3) s4(3) s1(2) s2(2) s3(2) s4(2) z t1 t2 s4(4) s1(1) b2])
qed

text \<open>The sections of the finished message: where they lie and what stands in them.\<close>

lemma sections_layout:
  assumes "event_execve_sections bd ke (ev, se) = (ev4, se4)" and "fresh ev" and "pid = mp_pid (ee_process ev)"
  obtains p a c v
  where "take (unat (mp_size (ee_process ev4))) (ee_buffer ev4) = take 64 (ee_buffer ev4) @ p @ a @ c @ v"
    and "sizes (ee_process ev4) = map (of_nat \<circ> length) [p, a, c, v]"
    and "unat (mp_size (ee_process ev4)) = 64 + length p + length a + length c + length v"
    and "p \<noteq> [] \<longrightarrow> p \<in> path_text ke" "a \<noteq> [] \<longrightarrow> a \<in> args_text ke (64 + length p)"
    and "c \<noteq> [] \<longrightarrow> c \<in> cwd_text bd ke pid" "v \<noteq> [] \<longrightarrow> v \<in> envs_text ke (64 + length p + length a + length c)"
    and "length (ee_buffer ev4) = PADDED_BUFFER" "unat (mp_size (ee_process ev4)) \<le> 5118"
proof -
  obtain ev1 se1 ev2 se2 ev3 se3 n1 n2 n3 n4
    where g: "grow (read_path bd ke (ev, se)) = (ev1, se1)" "grow (read_args bd ke (ev1, se1)) = (ev2, se2)"
      "grow (read_cwd bd ke (ev2, se2)) = (ev3, se3)" "grow (read_envs bd ke (ev3, se3)) = (ev4, se4)"
    and len: "length (ee_buffer ev1) = PADDED_BUFFER" "length (ee_buffer ev2) = PADDED_BUFFER" "length (ee_buffer ev3) = PADDED_BUFFER"
      "length (ee_buffer ev4) = PADDED_BUFFER"
    and sz: "unat (mp_size (ee_process ev1)) = 64 + n1" "unat (mp_size (ee_process ev2)) = 64 + n1 + n2"
      "unat (mp_size (ee_process ev3)) = 64 + n1 + n2 + n3" "unat (mp_size (ee_process ev4)) = 64 + n1 + n2 + n3 + n4"
    and z: "sizes (ee_process ev1) = [of_nat n1, 0, 0, 0]" "sizes (ee_process ev2) = [of_nat n1, of_nat n2, 0, 0]"
      "sizes (ee_process ev3) = [of_nat n1, of_nat n2, of_nat n3, 0]"
      "sizes (ee_process ev4) = [of_nat n1, of_nat n2, of_nat n3, of_nat n4]"
    and t: "take (64 + n1) (ee_buffer ev4) = take (64 + n1) (ee_buffer ev1)"
      "take (64 + n1 + n2) (ee_buffer ev4) = take (64 + n1 + n2) (ee_buffer ev2)"
      "take (64 + n1 + n2 + n3) (ee_buffer ev4) = take (64 + n1 + n2 + n3) (ee_buffer ev3)"
    and b: "n1 \<le> 254" "64 + n1 + n2 \<le> 1023" "64 + n1 + n2 + n3 + n4 \<le> 5118"
    by (rule sections_stages [OF assms(1,2)])
  have f: "length (ee_buffer ev) = PADDED_BUFFER" "64 = unat (mp_size (ee_process ev))" "sizes (ee_process ev) ! 0 = 0"
    using assms(2) by (simp_all add: fresh_def tg_consts)
  have "sizes (ee_process ev1) ! 1 = 0" "sizes (ee_process ev2) ! 2 = 0" "sizes (ee_process ev3) ! 3 = 0"
    unfolding z by (simp_all add: numeral_eq_Suc)
  note W1 = path_writer.written [OF g(1) f(1,2) _ _ f(3) _ sz(1)]
    and W2 = args_writer.written [OF g(2) len(1) sz(1) [symmetric] _ _ this(1) _ sz(2)]
    and W3 = cwd_writer.written [OF g(3) len(2) sz(2) [symmetric] _ _ this(2) _ sz(3)]
    and W4 = envs_writer.written [OF g(4) len(3) sz(3) [symmetric] _ _ this(3) _ sz(4)]
  have pid: "mp_pid (ee_process ev2) = pid" using W1(1) W2(1) b assms(3) by simp
  define p a c v where "p = slice 64 n1 (ee_buffer ev4)" and "a = slice (64 + n1) n2 (ee_buffer ev4)"
    and "c = slice (64 + n1 + n2) n3 (ee_buffer ev4)" and "v = slice (64 + n1 + n2 + n3) n4 (ee_buffer ev4)"
  note defs = p_def a_def c_def v_def
  have l: "length p = n1" "length a = n2" "length c = n3" "length v = n4" using len(4) b(3) by (simp_all add: defs tg_consts)
  have p: "p = slice 64 n1 (ee_buffer ev1)" and a: "a = slice (64 + n1) n2 (ee_buffer ev2)"
    and c: "c = slice (64 + n1 + n2) n3 (ee_buffer ev3)"
    unfolding defs by (rule slice_of_take [OF _ t(1)] slice_of_take [OF _ t(2)] slice_of_take [OF _ t(3)], simp)+
  show ?thesis
  proof (rule that [of p a c v])
    show "take (unat (mp_size (ee_process ev4))) (ee_buffer ev4) = take 64 (ee_buffer ev4) @ p @ a @ c @ v"
      unfolding sz(4) by (simp only: take_add defs slice_def append_assoc)
    show "p \<noteq> [] \<longrightarrow> p \<in> path_text ke" using W1(2) l(1) unfolding p [symmetric] by auto
    show "a \<noteq> [] \<longrightarrow> a \<in> args_text ke (64 + length p)" using W2(2) l(1,2) b(1) unfolding a [symmetric] by auto
    show "c \<noteq> [] \<longrightarrow> c \<in> cwd_text bd ke pid" using W3(2) l(3) b(2) pid unfolding c [symmetric] by auto
    show "v \<noteq> [] \<longrightarrow> v \<in> envs_text ke (64 + length p + length a + length c)" using W4(2) l b(3) unfolding v_def [symmetric] by auto
  qed (use z(4) sz(4) l len(4) b(3) in simp_all)
qed

lemma header_fresh:
  assumes "event_execve_header ke (p, x) = (p', x')"
  shows "mp_size p' = 64 \<and> sizes p' = [0, 0, 0, 0] \<and> mp_flags p' = EVENT_EXECVE \<and> mp_pid p' = ucast (drop_bit 32 (kt_pid_tgid (ke_kt ke)))"
  using assms
  by (auto simp: event_execve_header_def read_execve_shared_info_def Let_def sizes_def SIZEOF_MSG_PROCESS_def
      split: option.splits)

lemma parent_buffer [simp]: "ee_buffer (fst (event_execve_parent bd ke (ev, x))) = ee_buffer ev"
  by (auto simp: event_execve_parent_def event_minimal_parent_def split: option.split)

lemma finish_frame:
  "ee_buffer (event_execve_finish bd ke (ev, se)) = ee_buffer ev"
  "sizes (ee_process (event_execve_finish bd ke (ev, se))) = sizes (ee_process ev)"
  "mp_size (ee_process (event_execve_finish bd ke (ev, se))) = mp_size (ee_process ev)"
  "mc_size (ee_common (event_execve_finish bd ke (ev, se))) = of_nat OFFSETOF_EXECVE_BUFFER + mp_size (ee_process ev)"
  by (simp_all add: event_execve_finish_def Let_def split_beta add_flags_def sizes_def)

text \<open>The run of \<open>event_execve\<close>, cut where the sections are collected.\<close>

lemma event_execve_run:
  assumes "se_event se = Some ev0" and "length (ee_buffer ev0) = PADDED_BUFFER"
  obtains ev se1 ev4 se4 where "fresh ev" "event_execve_sections bd ke (ev, se1) = (ev4, se4)"
    and "event_execve bd ke se = se4\<lparr>se_event := Some (event_execve_finish bd ke (ev4, se4))\<rparr>"
    and "se_heap se1 = se_heap se" "mp_pid (ee_process ev) = ucast (drop_bit 32 (kt_pid_tgid (ke_kt ke)))"
proof -
  obtain ev1 x1 where 1: "event_execve_parent bd ke (ev0, se_x se) = (ev1, x1)" by fastforce
  obtain p2 x2 where 2: "event_execve_header ke (ee_process ev1, x1) = (p2, x2)" by fastforce
  obtain ev4 se4 where 3: "event_execve_sections bd ke (ev1\<lparr>ee_process := p2\<rparr>, se\<lparr>se_x := x2\<rparr>) = (ev4, se4)" by fastforce
  have "ee_buffer ev1 = ee_buffer ev0" using 1 parent_buffer by (metis fst_conv)
  then have "fresh (ev1\<lparr>ee_process := p2\<rparr>)"
    using header_fresh [OF 2] assms(2) by (simp add: fresh_def SIZEOF_MSG_PROCESS_def)
  moreover have "event_execve bd ke se = se4\<lparr>se_event := Some (event_execve_finish bd ke (ev4, se4))\<rparr>"
    by (simp add: event_execve_def assms(1) 1 2 3)
  ultimately show ?thesis using that 3 header_fresh [OF 2] by simp
qed

lemma exec_sections:
  assumes "se_event se = Some ev0" and "length (ee_buffer ev0) = PADDED_BUFFER"
  obtains ev p a c v where "se_event (event_execve bd ke se) = Some ev" "length (ee_buffer ev) = PADDED_BUFFER"
    and "take (unat (mp_size (ee_process ev))) (ee_buffer ev) = take 64 (ee_buffer ev) @ p @ a @ c @ v"
    and "map unat (sizes (ee_process ev)) = map length [p, a, c, v]"
    and "unat (mp_size (ee_process ev)) = 64 + length p + length a + length c + length v" "unat (mp_size (ee_process ev)) \<le> 5118"
    and "p \<noteq> [] \<longrightarrow> p \<in> path_text ke" "a \<noteq> [] \<longrightarrow> a \<in> args_text ke (64 + length p)"
    and "c \<noteq> [] \<longrightarrow> c \<in> cwd_text bd ke (ucast (drop_bit 32 (kt_pid_tgid (ke_kt ke))))"
    and "v \<noteq> [] \<longrightarrow> v \<in> envs_text ke (64 + length p + length a + length c)"
    and "unat (mc_size (ee_common ev)) = 320 + unat (mp_size (ee_process ev))"
proof -
  obtain ev se1 ev4 se4 where r: "fresh ev" "event_execve_sections bd ke (ev, se1) = (ev4, se4)"
    "event_execve bd ke se = se4\<lparr>se_event := Some (event_execve_finish bd ke (ev4, se4))\<rparr>"
    "mp_pid (ee_process ev) = ucast (drop_bit 32 (kt_pid_tgid (ke_kt ke)))"
    by (rule event_execve_run [OF assms])
  obtain p a c v where n: "take (unat (mp_size (ee_process ev4))) (ee_buffer ev4) = take 64 (ee_buffer ev4) @ p @ a @ c @ v"
      "sizes (ee_process ev4) = map (of_nat \<circ> length) [p, a, c, v]"
      "unat (mp_size (ee_process ev4)) = 64 + length p + length a + length c + length v"
      "p \<noteq> [] \<longrightarrow> p \<in> path_text ke" "a \<noteq> [] \<longrightarrow> a \<in> args_text ke (64 + length p)"
      "c \<noteq> [] \<longrightarrow> c \<in> cwd_text bd ke (ucast (drop_bit 32 (kt_pid_tgid (ke_kt ke))))"
      "v \<noteq> [] \<longrightarrow> v \<in> envs_text ke (64 + length p + length a + length c)"
      "length (ee_buffer ev4) = PADDED_BUFFER" "unat (mp_size (ee_process ev4)) \<le> 5118"
    by (rule sections_layout [OF r(2,1) r(4) [symmetric]])
  define evf where "evf = event_execve_finish bd ke (ev4, se4)"
  note F = finish_frame [of bd ke ev4 se4, folded evf_def]
  have small: "length p < 65536" "length a < 65536" "length c < 65536" "length v < 65536" using n(3,9) by simp_all
  have "unat (mc_size (ee_common evf)) = 320 + unat (mp_size (ee_process evf))"
    using n(9) F(3,4) by (simp add: tg_consts unat_word_ariths)
  moreover have "map unat (sizes (ee_process evf)) = map length [p, a, c, v]"
    using n(2) small by (simp add: F(2) unsigned_of_nat take_bit_nat_eq_self)
  ultimately show ?thesis
    using r(3) n unfolding evf_def [symmetric] F(1,3) [symmetric] by (intro that [of evf p a c v]) simp_all
qed

lemma exec_layout:
  assumes "se_event se = Some ev0" and "length (ee_buffer ev0) = PADDED_BUFFER"
  shows "\<exists>ev. se_event (event_execve bd ke se) = Some ev \<and> length (ee_buffer ev) = PADDED_BUFFER
     \<and> unat (mp_size (ee_process ev)) = SIZEOF_MSG_PROCESS + unat (mp_size_path (ee_process ev))
          + unat (mp_size_args (ee_process ev)) + unat (mp_size_cwd (ee_process ev)) + unat (mp_size_envs (ee_process ev))
     \<and> unat (mp_size (ee_process ev)) \<le> PADDED_BUFFER
     \<and> unat (mc_size (ee_common ev)) = OFFSETOF_EXECVE_BUFFER + unat (mp_size (ee_process ev))
     \<and> unat (mc_size (ee_common ev)) \<le> SIZEOF_MSG_EXECVE_EVENT bd
     \<and> validate_msg_execve_size bd (ucast (mc_size (ee_common ev))) = ucast (mc_size (ee_common ev))"
proof -
  obtain ev p a c v where n: "se_event (event_execve bd ke se) = Some ev" "length (ee_buffer ev) = PADDED_BUFFER"
      "take (unat (mp_size (ee_process ev))) (ee_buffer ev) = take 64 (ee_buffer ev) @ p @ a @ c @ v"
      "map unat (sizes (ee_process ev)) = map length [p, a, c, v]"
      "unat (mp_size (ee_process ev)) = 64 + length p + length a + length c + length v" "unat (mp_size (ee_process ev)) \<le> 5118"
      "p \<noteq> [] \<longrightarrow> p \<in> path_text ke" "a \<noteq> [] \<longrightarrow> a \<in> args_text ke (64 + length p)"
      "c \<noteq> [] \<longrightarrow> c \<in> cwd_text bd ke (ucast (drop_bit 32 (kt_pid_tgid (ke_kt ke))))"
      "v \<noteq> [] \<longrightarrow> v \<in> envs_text ke (64 + length p + length a + length c)"
      "unat (mc_size (ee_common ev)) = 320 + unat (mp_size (ee_process ev))"
    by (rule exec_sections [OF assms, of bd ke])
  have "validate_msg_execve_size bd (ucast (mc_size (ee_common ev))) = ucast (mc_size (ee_common ev))"
    using validate_in_range [of "ucast (mc_size (ee_common ev))" bd] n(6,11) by (simp add: tg_consts)
  then show ?thesis using n(1,2,4-6,11) by (intro exI [of _ ev]) (simp add: sizes_def tg_consts)
qed

section \<open>What the collection leaves alone\<close>

lemma em_exec_frame [simp]:
  "se_x (em_exec l e se) = se_x se" "se_rate (em_exec l e se) = se_rate se" "se_cg (em_exec l e se) = se_cg se"
  by (simp_all add: em_exec_def)

definition same_tables :: "sensor \<Rightarrow> sensor \<Rightarrow> bool" where
  "same_tables a b \<longleftrightarrow> se_x a = se_x b \<and> se_rate a = se_rate b \<and> se_cg a = se_cg b"

lemma data_event_at_tables: "data_event_at call off (ev, se) = ((ev', se'), n) \<Longrightarrow> same_tables se' se"
  by (auto simp: data_event_at_def same_tables_def split: prod.splits)

lemma read_path_tables: "read_path bd ke (ev, se) = ((ev', se'), n) \<Longrightarrow> same_tables se' se"
  by (auto simp: read_path_def Let_def same_tables_def split: prod.splits if_splits dest!: data_event_at_tables)

lemma copy_args_tables: "copy_args bd ke a z off (ev, se) = ((ev', se'), n) \<Longrightarrow> same_tables se' se"
  by (auto simp: copy_args_def Let_def same_tables_def split: prod.splits if_splits dest!: data_event_at_tables)

lemma read_args_tables: "read_args bd ke (ev, se) = ((ev', se'), n) \<Longrightarrow> same_tables se' se"
  by (auto simp: read_args_def end_args_def Let_def same_tables_def split: prod.splits if_splits
      dest!: copy_args_tables)

lemma read_cwd_tables: "read_cwd bd ke (ev, se) = ((ev', se'), n) \<Longrightarrow> same_tables se' se"
  by (auto simp: read_cwd_def same_tables_def split: prod.splits if_splits)

lemma copy_envs_tables: "copy_envs bd ke a z off (ev, se) = ((ev', se'), n, fl) \<Longrightarrow> same_tables se' se"
  by (auto simp: copy_envs_def Let_def same_tables_def split: prod.splits if_splits dest!: data_event_at_tables)

lemma read_envs_tables: "read_envs bd ke (ev, se) = ((ev', se'), n) \<Longrightarrow> same_tables se' se"
  by (auto simp: read_envs_def Let_def same_tables_def split: prod.splits if_splits dest!: copy_envs_tables)

lemma grow_tables:
  assumes "grow r = (ev', se')" and "\<And>x y n. r = ((x, y), n) \<Longrightarrow> same_tables y se"
  shows "same_tables se' se"
  using assms by (auto simp: grow_def split: prod.splits)

lemma sections_tables:
  assumes "event_execve_sections bd ke (ev, se) = (ev', se')" shows "same_tables se' se"
proof -
  obtain ev1 se1 where g1: "grow (read_path bd ke (ev, se)) = (ev1, se1)" by fastforce
  obtain ev2 se2 where g2: "grow (read_args bd ke (ev1, se1)) = (ev2, se2)" by fastforce
  obtain ev3 se3 where g3: "grow (read_cwd bd ke (ev2, se2)) = (ev3, se3)" by fastforce
  have g4: "grow (read_envs bd ke (ev3, se3)) = (ev', se')"
    using assms by (simp add: event_execve_sections_def g1 g2 g3)
  show ?thesis
    using grow_tables [OF g1 read_path_tables] grow_tables [OF g2 read_args_tables]
      grow_tables [OF g3 read_cwd_tables] grow_tables [OF g4 read_envs_tables]
    by (simp add: same_tables_def)
qed

text \<open>
  Of the maps, the collection changes the ancestor's match set and removes the joined information of the
  thread.
\<close>

lemma event_execve_state:
  assumes "se_event se = Some ev0"
  shows "se_x (event_execve bd ke se) =
      snd (event_execve_header ke (ee_process (fst (event_execve_parent bd ke (ev0, se_x se))),
                                   snd (event_execve_parent bd ke (ev0, se_x se))))"
    and event_execve_cg: "se_cg (event_execve bd ke se) = se_cg se"
    and event_execve_rate': "se_rate (event_execve bd ke se) = se_rate se"
proof -
  obtain ev1 x1 where 1: "event_execve_parent bd ke (ev0, se_x se) = (ev1, x1)" by fastforce
  obtain p2 x2 where 2: "event_execve_header ke (ee_process ev1, x1) = (p2, x2)" by fastforce
  obtain ev4 se4 where 3: "event_execve_sections bd ke (ev1\<lparr>ee_process := p2\<rparr>, se\<lparr>se_x := x2\<rparr>) = (ev4, se4)" by fastforce
  have "event_execve bd ke se = se4\<lparr>se_event := Some (event_execve_finish bd ke (ev4, se4))\<rparr>"
    by (simp add: event_execve_def assms 1 2 3)
  with sections_tables [OF 3] show "se_x (event_execve bd ke se) =
      snd (event_execve_header ke (ee_process (fst (event_execve_parent bd ke (ev0, se_x se))),
                                   snd (event_execve_parent bd ke (ev0, se_x se))))"
    "se_cg (event_execve bd ke se) = se_cg se" "se_rate (event_execve bd ke se) = se_rate se"
    by (simp_all add: same_tables_def 1 2)
qed

lemma event_execve_rate: "se_rate (event_execve bd ke se) = se_rate se"
  by (cases "se_event se") (simp add: event_execve_def, rule event_execve_rate')

section \<open>The contents of the exec message\<close>

lemma read_path_short:
  assumes "probe_read_str (ke_mem ke) 255 (ke_filename ke) = (str @ [0], r)" "0 < r" "length str < 254"
    and "read_path bd ke (ev, se) = ((ev', se'), n)" and "length (ee_buffer ev) = PADDED_BUFFER"
  shows "unat n = length str" "slice 64 (length str) (ee_buffer ev') = str"
proof -
  have q: "r = int (length str + 1)" using probe_read_str_bounds(4) [OF assms(1)] assms(2) by simp
  have n: "n = word_of_int (int (length str))" and b: "ee_buffer ev' = blit 64 (str @ [0]) (ee_buffer ev)"
    using assms(1-4) q by (auto simp: read_path_def MAXARGLENGTH_def SIZEOF_MSG_PROCESS_def Let_def split: if_splits)
  show "unat n = length str" using n assms(3) by (subst n, subst unat_word_of_int_u32) auto
  show "slice 64 (length str) (ee_buffer ev') = str"
    using assms(5) by (simp add: b slice_def blit_def tg_consts)
qed

lemma exec_path:
  assumes "se_event se = Some ev0" and "length (ee_buffer ev0) = PADDED_BUFFER"
    and "probe_read_str (ke_mem ke) 255 (ke_filename ke) = (str @ [0], r)" and "0 < r" and "length str < 254"
    and "se_event (event_execve bd ke se) = Some ev"
  shows "unat (mp_size_path (ee_process ev)) = length str \<and> slice SIZEOF_MSG_PROCESS (length str) (ee_buffer ev) = str"
proof -
  obtain e0 se1 ev4 se4 where run: "fresh e0" "event_execve_sections bd ke (e0, se1) = (ev4, se4)"
    "event_execve bd ke se = se4\<lparr>se_event := Some (event_execve_finish bd ke (ev4, se4))\<rparr>"
    by (rule event_execve_run [OF assms(1,2)])
  obtain ev1 s1 n1 n2 n3 n4 where n: "grow (read_path bd ke (e0, se1)) = (ev1, s1)"
    "unat (mp_size (ee_process ev1)) = 64 + n1" "take (64 + n1) (ee_buffer ev4) = take (64 + n1) (ee_buffer ev1)"
    "sizes (ee_process ev4) = [of_nat n1, of_nat n2, of_nat n3, of_nat n4]" "n1 \<le> 254"
    by (rule sections_stages [OF run(2,1)])
  obtain ev' se' w where rp: "read_path bd ke (e0, se1) = ((ev', se'), w)" by (metis prod.exhaust)
  have f: "length (ee_buffer e0) = PADDED_BUFFER" "unat (mp_size (ee_process e0)) = 64" "sizes (ee_process e0) ! 0 = 0"
    using run(1) by (simp_all add: fresh_def tg_consts)
  note R = read_path_short [OF assms(3-5) rp f(1)]
  have "mp_size (ee_process ev') = mp_size (ee_process e0)"
    using path_section.rd_law [OF rp f(1) f(2) [symmetric]] f by simp
  then have "n1 = length str" using n(1,2) rp R(1) f(2) assms(5) by (auto simp: grow_def unat_word_ariths)
  moreover have "ee_buffer ev1 = ee_buffer ev'" using n(1) rp by (auto simp: grow_def)
  ultimately have sl: "slice 64 (length str) (ee_buffer ev4) = str"
    using slice_of_take [OF _ n(3), of 64 "length str"] R(2) by simp
  have ev: "ev = event_execve_finish bd ke (ev4, se4)" using run(3) assms(6) by simp
  have "sizes (ee_process ev) = [of_nat n1, of_nat n2, of_nat n3, of_nat n4]" using ev finish_frame(2) n(4) by simp
  then have "mp_size_path (ee_process ev) = of_nat n1" by (simp add: sizes_def)
  with \<open>n1 = length str\<close> n(5) sl show ?thesis
    by (simp add: ev finish_frame SIZEOF_MSG_PROCESS_def unsigned_of_nat take_bit_nat_eq_self)
qed

text \<open>
  The exec message carries the file name: if the name the kernel passes is a readable string of fewer
  than 254 bytes, the bytes behind the header are this string and the path size is its length, whatever
  the later sections hold.
\<close>

theorem exec_message_path:
  assumes "se_event se = Some ev0" and "length (ee_buffer ev0) = PADDED_BUFFER"
    and "probe_read_str (ke_mem ke) 255 (ke_filename ke) = (str @ [0], r)" and "0 < r" and "length str < 254"
    and "se_event (event_execve bd ke se) = Some ev"
  shows "unat (mp_size_path (ee_process ev)) = length str \<and> slice SIZEOF_MSG_PROCESS (length str) (ee_buffer ev) = str"
  using assms by (rule exec_path)

lemma read_args_inline:
  assumes "fst (ke_mm ke) \<noteq> 0" "fst (ke_arg_start ke) \<noteq> 0" "fst (ke_arg_end ke) \<noteq> 0" "se_heap se"
    and "snd (probe_read_str (ke_mem ke) 4096 (fst (ke_arg_start ke))) = off" "0 \<le> off"
    and "start = fst (ke_arg_start ke) + word_of_int off" and "asz = fst (ke_arg_end ke) - start"
    and "s = unat (mp_size (ee_process ev))" "s < 512" and "0 < unat asz" "unat asz < 1024 - s"
    and "probe_read (ke_mem ke) (unat asz - 1) start = (bs, 0)" and "length (ee_buffer ev) = PADDED_BUFFER"
    and "read_args bd ke (ev, se) = ((ev', se'), n)"
  shows "unat n = unat asz - 1" "slice s (unat asz - 1) (ee_buffer ev') = bs"
proof -
  define sz0 where "sz0 = mp_size (ee_process ev) AND 0x1ff"
  have sz0: "unat sz0 = s"
    using unat_and_mask [of "mp_size (ee_process ev)" 9] assms(9,10) by (simp add: sz0_def mask_eq_exp_minus_1)
  define sz where "sz = (ucast (if asz \<noteq> 0 then asz - 1 else asz) AND 0x3ff :: u32)"
  have f64: "unat (1024 - of_nat s :: u64) = 1024 - s"
    using assms(10) by (subst unat_sub_u64) (simp_all add: unsigned_of_nat take_bit_nat_eq_self)
  have fits: "asz < of_nat BUFFER \<and> asz < of_nat BUFFER - ucast sz0"
    using assms(12) f64 ucast_of_nat_u64 [OF sz0] by (simp add: BUFFER_def word_less_nat_alt)
  have sz: "unat sz = unat asz - 1"
    using inline_size(1) [of asz s] fits ucast_of_nat_u64 [OF sz0] assms(10) by (simp add: sz_def BUFFER_def)
  have heap: "se_heap (em_exec a b (em_exec c d (em_exec e f se)))" for a b c d e f
    using assms(4) by (simp add: em_exec_def)
  have cp: "copy_args bd ke start asz sz0 (e, t) = ((e\<lparr>ee_buffer := blit s bs (ee_buffer e)\<rparr>, em_exec 110 0 t), sz)" for e t
    unfolding copy_args_def Let_def sz_def [symmetric] using fits assms(13) sz sz0 by simp
  have "\<not> off < 0" "\<not> 1024 \<le> s" using assms(6,10) by auto
  then have "n = sz \<and> ee_buffer ev' = blit s bs (ee_buffer ev)"
    using assms(15) unfolding read_args_def
    by (auto simp: assms(1-3,5) heap Let_def sz0_def [symmetric] sz0 BUFFER_def
        assms(7) [symmetric] assms(8) [symmetric] cp end_args_def)
  moreover have "length bs = unat asz - 1"
    using length_probe_read [of "ke_mem ke" "unat asz - 1" start] unfolding assms(13) by simp
  ultimately show "unat n = unat asz - 1" "slice s (unat asz - 1) (ee_buffer ev') = bs"
    using sz assms(14,10) slice_blit_same [of s "ee_buffer ev" bs] by (simp_all add: tg_consts)
qed

lemma read_path_heap: "read_path bd ke (ev, se) = ((ev', se'), n) \<Longrightarrow> se_heap se' = se_heap se"
  by (auto simp: read_path_def data_event_at_def Let_def split: prod.splits if_splits)

text \<open>
  The exec message carries the arguments: if the argument area behind the program name is readable
  and shorter than the space left in the first 1024 bytes, the bytes behind the path are the area
  without its last zero byte, and the argument size is its length.
\<close>

theorem exec_message_args:
  assumes "se_event se = Some ev0" and "length (ee_buffer ev0) = PADDED_BUFFER"
    and "fst (ke_mm ke) \<noteq> 0" "fst (ke_arg_start ke) \<noteq> 0" "fst (ke_arg_end ke) \<noteq> 0" "se_heap se"
    and "snd (probe_read_str (ke_mem ke) 4096 (fst (ke_arg_start ke))) = off" "0 \<le> off"
    and "start = fst (ke_arg_start ke) + word_of_int off" and "asz = fst (ke_arg_end ke) - start"
    and "se_event (event_execve bd ke se) = Some ev"
    and "s = SIZEOF_MSG_PROCESS + unat (mp_size_path (ee_process ev))"
    and "0 < unat asz" "unat asz < BUFFER - s"
    and "probe_read (ke_mem ke) (unat asz - 1) start = (bs, 0)"
  shows "unat (mp_size_args (ee_process ev)) = unat asz - 1 \<and> slice s (unat asz - 1) (ee_buffer ev) = bs"
proof -
  obtain e0 se1 ev4 se4 where run: "fresh e0" "event_execve_sections bd ke (e0, se1) = (ev4, se4)"
    "event_execve bd ke se = se4\<lparr>se_event := Some (event_execve_finish bd ke (ev4, se4))\<rparr>" "se_heap se1 = se_heap se"
    by (rule event_execve_run [OF assms(1,2)])
  obtain ev1 s1 ev2 s2 n1 n2 n3 n4 where n: "grow (read_path bd ke (e0, se1)) = (ev1, s1)"
    "grow (read_args bd ke (ev1, s1)) = (ev2, s2)" "length (ee_buffer ev1) = PADDED_BUFFER"
    "unat (mp_size (ee_process ev1)) = 64 + n1" "unat (mp_size (ee_process ev2)) = 64 + n1 + n2"
    "take (64 + n1 + n2) (ee_buffer ev4) = take (64 + n1 + n2) (ee_buffer ev2)"
    "sizes (ee_process ev4) = [of_nat n1, of_nat n2, of_nat n3, of_nat n4]" "n1 \<le> 254" "64 + n1 + n2 \<le> 1023"
    by (rule sections_stages [OF run(2,1)])
  have ev: "ev = event_execve_finish bd ke (ev4, se4)" using run(3) assms(11) by simp
  have "sizes (ee_process ev) = [of_nat n1, of_nat n2, of_nat n3, of_nat n4]" using ev finish_frame(2) n(7) by simp
  then have p: "unat (mp_size_path (ee_process ev)) = n1" "unat (mp_size_args (ee_process ev)) = n2"
    using n(8,9) by (simp_all add: sizes_def unsigned_of_nat take_bit_nat_eq_self)
  have s: "s = 64 + n1" using assms(12) p(1) by (simp add: SIZEOF_MSG_PROCESS_def)
  have heap: "se_heap s1" using n(1) run(4) assms(6) read_path_heap by (fastforce simp: grow_def split: prod.splits)
  obtain ev' se' w where ra: "read_args bd ke (ev1, s1) = ((ev', se'), w)" by (metis prod.exhaust)
  have s512: "s < 512" and asz: "unat asz < 1024 - s" using s n(8) assms(14) by (simp_all add: BUFFER_def)
  note R = read_args_inline [OF assms(3-5) heap assms(7-10) _ s512 assms(13) asz assms(15) n(3) ra]
  have R: "unat w = unat asz - 1" "slice s (unat asz - 1) (ee_buffer ev') = bs" using R s n(4) by simp_all
  have e2: "ee_buffer ev2 = ee_buffer ev'" "mp_size (ee_process ev2) = mp_size (ee_process ev') + w"
    using n(2) ra by (auto simp: grow_def)
  have z: "sizes (ee_process ev1) ! 1 = 0"
  proof -
    have f: "length (ee_buffer e0) = PADDED_BUFFER" "64 = unat (mp_size (ee_process e0))" "sizes (ee_process e0) = [0, 0, 0, 0]"
      using run(1) by (simp_all add: fresh_def tg_consts)
    obtain m where "sizes (ee_process ev1) = (sizes (ee_process e0))[0 := of_nat m]"
      by (rule path_section.grown [OF n(1) f(1,2)]) (auto simp: f(3))
    then show ?thesis using f(3) by simp
  qed
  have "mp_size (ee_process ev') = mp_size (ee_process ev1)"
    using args_section.rd_law [OF ra n(3) refl _ _ z] n(4) n(8) by simp
  then have "n2 = unat asz - 1" using e2(2) n(4,5) R(1) n(9) asz s by (simp add: unat_word_ariths)
  moreover have "slice s (unat asz - 1) (ee_buffer ev4) = bs"
    using slice_of_take [OF _ n(6), of s "unat asz - 1"] s \<open>n2 = unat asz - 1\<close> e2(1) R(2) by simp
  ultimately show ?thesis using p(2) ev finish_frame(1) by simp
qed

text \<open>
  The arguments can be shown in place: there is an argument area of \<open>bs\<close>, readable and short enough for what is left of the first
  1024 bytes behind the first \<open>s\<close> bytes.
\<close>

definition args_in_place :: "kexec \<Rightarrow> nat \<Rightarrow> byte list \<Rightarrow> bool" where
  "args_in_place ke s bs \<longleftrightarrow>
     (let off = snd (probe_read_str (ke_mem ke) 4096 (fst (ke_arg_start ke)));
          start = fst (ke_arg_start ke) + word_of_int off; n = unat (fst (ke_arg_end ke) - start)
      in fst (ke_mm ke) \<noteq> 0 \<and> fst (ke_arg_start ke) \<noteq> 0 \<and> fst (ke_arg_end ke) \<noteq> 0 \<and> 0 \<le> off \<and> 0 < n \<and> n < BUFFER - s
         \<and> probe_read (ke_mem ke) (n - 1) start = (bs, 0))"

text \<open>
  C17. The exec message is well formed for every process, path, argument list, directory and environment:
  behind the fixed header lie, directly behind each other and in this order, the path, the arguments, the working directory and the
  environment, and nothing else. The four size fields are the lengths of these byte strings. A section that is not empty is the file name, the
  argument or environment area itself when it is short, else a data event descriptor; the directory is the resolved path of the working directory.
  A readable name of fewer than 254 bytes is always shown in place, and so are readable arguments that fit in what is left of 1024 bytes.
  The size in the common header covers exactly the message and never exceeds the message structure, so the size check before the send does not cut
  anything off.
\<close>

theorem exec_message_layout:
  assumes "se_event se = Some ev0" and "length (ee_buffer ev0) = PADDED_BUFFER"
  shows "\<exists>ev p a c v. se_event (event_execve bd ke se) = Some ev \<and> length (ee_buffer ev) = PADDED_BUFFER
     \<and> take (unat (mp_size (ee_process ev))) (ee_buffer ev) = take SIZEOF_MSG_PROCESS (ee_buffer ev) @ p @ a @ c @ v
     \<and> length p = unat (mp_size_path (ee_process ev)) \<and> length a = unat (mp_size_args (ee_process ev))
     \<and> length c = unat (mp_size_cwd (ee_process ev)) \<and> length v = unat (mp_size_envs (ee_process ev))
     \<and> unat (mp_size (ee_process ev)) = SIZEOF_MSG_PROCESS + length p + length a + length c + length v
     \<and> (p \<noteq> [] \<longrightarrow> p \<in> path_text ke)
     \<and> (a \<noteq> [] \<longrightarrow> a \<in> args_text ke (SIZEOF_MSG_PROCESS + length p))
     \<and> (c \<noteq> [] \<longrightarrow> c \<in> cwd_text bd ke (ucast (drop_bit 32 (kt_pid_tgid (ke_kt ke)))))
     \<and> (v \<noteq> [] \<longrightarrow> v \<in> envs_text ke (SIZEOF_MSG_PROCESS + length p + length a + length c))
     \<and> (\<forall>str r. probe_read_str (ke_mem ke) 255 (ke_filename ke) = (str @ [0], r) \<and> 0 < r \<and> length str < 254 \<longrightarrow> p = str)
     \<and> (\<forall>bs. se_heap se \<and> args_in_place ke (SIZEOF_MSG_PROCESS + length p) bs \<longrightarrow> a = bs)
     \<and> unat (mp_size (ee_process ev)) \<le> PADDED_BUFFER
     \<and> unat (mc_size (ee_common ev)) = OFFSETOF_EXECVE_BUFFER + unat (mp_size (ee_process ev))
     \<and> unat (mc_size (ee_common ev)) \<le> SIZEOF_MSG_EXECVE_EVENT bd
     \<and> validate_msg_execve_size bd (ucast (mc_size (ee_common ev))) = ucast (mc_size (ee_common ev))"
proof -
  obtain ev p a c v where e: "se_event (event_execve bd ke se) = Some ev" "length (ee_buffer ev) = PADDED_BUFFER"
      "take (unat (mp_size (ee_process ev))) (ee_buffer ev) = take 64 (ee_buffer ev) @ p @ a @ c @ v"
      "map unat (sizes (ee_process ev)) = map length [p, a, c, v]"
      "unat (mp_size (ee_process ev)) = 64 + length p + length a + length c + length v" "unat (mp_size (ee_process ev)) \<le> 5118"
      "p \<noteq> [] \<longrightarrow> p \<in> path_text ke" "a \<noteq> [] \<longrightarrow> a \<in> args_text ke (64 + length p)"
      "c \<noteq> [] \<longrightarrow> c \<in> cwd_text bd ke (ucast (drop_bit 32 (kt_pid_tgid (ke_kt ke))))"
      "v \<noteq> [] \<longrightarrow> v \<in> envs_text ke (64 + length p + length a + length c)"
      "unat (mc_size (ee_common ev)) = 320 + unat (mp_size (ee_process ev))"
    by (rule exec_sections [OF assms, of bd ke])
  have l: "length p = unat (mp_size_path (ee_process ev))" "length a = unat (mp_size_args (ee_process ev))"
      "length c = unat (mp_size_cwd (ee_process ev))" "length v = unat (mp_size_envs (ee_process ev))"
    using e(4) by (simp_all add: sizes_def)
  have sl: "slice 64 (length p) (ee_buffer ev) = p" "slice (64 + length p) (length a) (ee_buffer ev) = a"
    using slices_of_take [OF e(3)] e(2,5,6) by (simp_all add: tg_consts)
  have p: "p = str" if "probe_read_str (ke_mem ke) 255 (ke_filename ke) = (str @ [0], r)" "0 < r" "length str < 254" for str r
  proof -
    have "length p = length str" "slice 64 (length str) (ee_buffer ev) = str"
      using exec_path [OF assms that e(1)] l(1) by (simp_all add: SIZEOF_MSG_PROCESS_def)
    then show ?thesis using sl(1) by metis
  qed
  have a: "a = bs" if "se_heap se" "args_in_place ke (64 + length p) bs" for bs
  proof -
    note A = that(2) [unfolded args_in_place_def Let_def]
    have s: "64 + length p = SIZEOF_MSG_PROCESS + unat (mp_size_path (ee_process ev))" using l(1) by (simp add: SIZEOF_MSG_PROCESS_def)
    have "length a = length bs \<and> slice (64 + length p) (length bs) (ee_buffer ev) = bs"
      using exec_message_args [OF assms _ _ _ that(1) refl _ refl refl e(1) s, of bs] A l(2) length_probe_read by (metis fst_conv)
    then show ?thesis using sl(2) by metis
  qed
  have "validate_msg_execve_size bd (ucast (mc_size (ee_common ev))) = ucast (mc_size (ee_common ev))"
    using validate_in_range [of "ucast (mc_size (ee_common ev))" bd] e(6,11) by (simp add: tg_consts)
  with e l p a show ?thesis by (intro exI [of _ ev] exI [of _ p] exI [of _ a] exI [of _ c] exI [of _ v]) (simp add: tg_consts)
qed

section \<open>A sample exec\<close>

definition zero_event :: msg_execve_event where
  "zero_event = \<lparr>ee_common = zero_common, ee_kube = zero_k8s, ee_parent = zero_key, ee_parent_flags = 0,
     ee_creds = \<lparr>cr_uid = 0, cr_gid = 0, cr_suid = 0, cr_sgid = 0, cr_euid = 0, cr_egid = 0, cr_fsuid = 0, cr_fsgid = 0,
       cr_securebits = 0, cr_caps = \<lparr>cap_permitted = 0, cap_effective = 0, cap_inheritable = 0\<rparr>,
       cr_user_ns = \<lparr>un_level = 0, un_uid = 0, un_gid = 0, un_ns_inum = 0\<rparr>\<rparr>,
     ee_ns = replicate ns_max_types 0, ee_cleanup_key = zero_key, ee_process = zero_process,
     ee_buffer = replicate PADDED_BUFFER 0, ee_exe = zero_exe\<rparr>"

definition se_example :: sensor where
  "se_example = \<lparr>se_x = xs_example, se_os = busy_out,
     se_rate = \<lparr>rs_map = empty_map, rs_options = None, rs_heap = None\<rparr>, se_cg = cs_example, se_errm = empty_lru,
     se_event = Some zero_event, se_data = Some zero_data, se_path = Some (replicate BUFFER_HEAP_SIZE 0),
     se_exit = Some zero_exit, se_heap = True\<rparr>"

text \<open>The file name is at 510, the program name and the arguments are at 509; every byte is the low byte of its address.\<close>

definition ke_example :: kexec where
  "ke_example = \<lparr>ke_kt = kt_example, ke_vf = vf_example, ke_kp = kp_example, ke_kc = kc_example, ke_mbs = mbs_example,
     ke_mem = all_memory, ke_filename = 510, ke_mm = (1, 0), ke_arg_start = (509, 0), ke_arg_end = (516, 0),
     ke_env_start = (0, 0), ke_env_end = (0, 0), ke_ktime = 1000, ke_fp = 0, ke_env_vars = False\<rparr>"

lemma se_example_event: "se_event se_example = Some zero_event" "length (ee_buffer zero_event) = PADDED_BUFFER"
  by (simp_all add: se_example_def zero_event_def)

lemma ke_example_name: "probe_read_str (ke_mem ke_example) 255 (ke_filename ke_example) = ([0xfe, 0xff] @ [0], 3)"
  by (simp add: probe_read_str_def ke_example_def all_memory_def
      str_scan.simps(2) [of _ "pred_numeral v" for v, folded numeral_eq_Suc])

theorem exec_message_layout_witness:
  "\<exists>ev a c v. se_event (event_execve build_v61 ke_example se_example) = Some ev
     \<and> take (unat (mp_size (ee_process ev))) (ee_buffer ev) = take SIZEOF_MSG_PROCESS (ee_buffer ev) @ [0xfe, 0xff] @ a @ c @ v
     \<and> unat (mc_size (ee_common ev)) \<le> SIZEOF_MSG_EXECVE_EVENT build_v61"
  using exec_message_layout [OF se_example_event, of build_v61 ke_example] ke_example_name by fastforce

theorem exec_message_path_witness:
  "\<exists>ev. se_event (event_execve build_v61 ke_example se_example) = Some ev
     \<and> slice SIZEOF_MSG_PROCESS 2 (ee_buffer ev) = [0xfe, 0xff]"
proof -
  obtain ev where ev: "se_event (event_execve build_v61 ke_example se_example) = Some ev"
    using exec_layout [OF se_example_event, of build_v61 ke_example] by blast
  from exec_message_path [OF se_example_event ke_example_name _ _ ev] ev show ?thesis
    by (simp add: numeral_2_eq_2)
qed

theorem exec_message_args_witness:
  "\<exists>ev. se_event (event_execve build_v61 ke_example se_example) = Some ev
     \<and> unat (mp_size_args (ee_process ev)) = 2 \<and> slice 66 2 (ee_buffer ev) = [1, 2]"
proof -
  obtain ev where ev: "se_event (event_execve build_v61 ke_example se_example) = Some ev"
    using exec_layout [OF se_example_event, of build_v61 ke_example] by blast
  have path: "unat (mp_size_path (ee_process ev)) = 2"
    using exec_path [OF se_example_event ke_example_name _ _ ev] by simp
  have off: "snd (probe_read_str (ke_mem ke_example) 4096 (fst (ke_arg_start ke_example))) = 4"
    by (simp add: probe_read_str_def ke_example_def all_memory_def
        str_scan.simps(2) [of _ "pred_numeral v" for v, folded numeral_eq_Suc])
  have area: "fst (ke_arg_start ke_example) + word_of_int 4 = 513" "fst (ke_arg_end ke_example) - 513 = 3"
    "fst (ke_mm ke_example) \<noteq> 0" "fst (ke_arg_start ke_example) \<noteq> 0" "fst (ke_arg_end ke_example) \<noteq> 0"
    by (simp_all add: ke_example_def)
  have read: "probe_read (ke_mem ke_example) (unat (3 :: u64) - 1) 513 = ([1, 2], 0)"
    by (simp add: ke_example_def probe_read_def all_memory_def Let_def upt_rec)
  have "se_heap se_example" by (simp add: se_example_def)
  from exec_message_args [OF se_example_event area(3-5) this off _ area(1) [symmetric] area(2) [symmetric] ev refl _ _ read]
  show ?thesis using ev path by (simp add: SIZEOF_MSG_PROCESS_def BUFFER_def)
qed

end
