(* ===== verification/Exec_Send.thy ===== *)
theory Exec_Send
  imports Exec_Collect
begin

text \<open>
  The exec tracepoint, second part (\<^verbatim>\<open>process/bpf_execve_event.c\<close>): the rate limit and \<^verbatim>\<open>execve_send\<close>, which
  updates the process entry with the new binary and sends the collected message. Copies between map
  elements cannot fault, so the \<^verbatim>\<open>probe_read\<close> calls on them always succeed.
\<close>

section \<open>Model\<close>

definition send_bin_large :: "msg_execve_event \<Rightarrow> binary \<Rightarrow> binary" where
  "send_bin_large ev bin =
     (let exe = ee_exe ev;
          b1 = (if unat (hx_len exe) \<le> BINARY_PATH_MAX_LEN
                then (let revlen = (if unat (hx_len exe) > STRING_POSTFIX_MAX_LENGTH - 1 then STRING_POSTFIX_MAX_LENGTH - 1
                                    else unat (hx_len exe))
                      in bin\<lparr>bin_path := blit 0 (slice 0 (unat (hx_len exe)) (hx_buf exe)) (bin_path bin),
                             bin_path_length := int (unat (hx_len exe)),
                             bin_end := blit 0 (slice 0 revlen (hx_end exe)) (bin_end bin)\<rparr>)
                else bin);
          off = unat (hx_arg_start exe);
          len = (if unat (hx_arg_len exe) > MAXARGLENGTH - 2 then MAXARGLENGTH - 2 else unat (hx_arg_len exe));
          args1 = blit 0 (slice off len (ee_buffer ev)) (bin_args b1)
      in b1\<lparr>bin_args := args1[len := 0, len + 1 := 0]\<rparr>)"

definition send_bin_small :: "memory \<Rightarrow> ptr \<Rightarrow> binary \<Rightarrow> binary" where
  "send_bin_small mem filename bin =
     (case probe_read_str mem BINARY_PATH_MAX_LEN filename of
        (bs, r) \<Rightarrow> bin\<lparr>bin_path := blit 0 bs (bin_path bin), bin_path_length := (if r > 1 then r - 1 else r)\<rparr>)"

text \<open>The entry and the message, from the entry before and the collected message.\<close>

definition send_curr ::
  "build \<Rightarrow> kexec \<Rightarrow> msg_execve_event \<Rightarrow> execve_map_value \<Rightarrow> msg_execve_event \<times> execve_map_value" where
  "send_curr bd ke ev cur =
     (let p = ee_process ev;
          init_curr = (bd_large bd \<and> ev_flags cur = EVENT_COMMON_FLAG_CLONE);
          c1 = cur\<lparr>ev_key := \<lparr>ek_pid = mp_pid p, ek_ktime = mp_ktime p\<rparr>, ev_nspid := mp_nspid p, ev_pkey := ee_parent ev\<rparr>;
          p1 = (if ev_flags c1 AND EVENT_COMMON_FLAG_CLONE \<noteq> 0 then event_set_clone p else p);
          c2 = c1\<lparr>ev_flags := ev_flags c1 AND NOT EVENT_COMMON_FLAG_CLONE\<rparr>;
          c3 = set_in_init_tree c2 None;
          p2 = (if ev_flags c3 AND EVENT_IN_INIT_TREE \<noteq> 0 then p1\<lparr>mp_flags := mp_flags p1 OR EVENT_IN_INIT_TREE\<rparr> else p1);
          c4 = (if init_curr then c3\<lparr>ev_ns := ee_ns ev, ev_caps := cr_caps (ee_creds ev)\<rparr> else c3);
          b1 = binary_reset (ev_bin c4);
          b2 = (if bd_large bd then send_bin_large ev b1 else send_bin_small (ke_mem ke) (ke_filename ke) b1)
      in (ev\<lparr>ee_cleanup_key := ev_key cur, ee_process := p2\<rparr>, c4\<lparr>ev_bin := b2\<rparr>))"

definition execve_send :: "build \<Rightarrow> kexec \<Rightarrow> sensor \<Rightarrow> sensor" where
  "execve_send bd ke se =
     (case se_event se of
        None \<Rightarrow> se
      | Some ev0 \<Rightarrow>
          let exe = read_exe bd (ke_vf ke) (se_path se) (ee_exe ev0);
              path1 = (if bd_large bd then fst exe else se_path se);
              ev1 = (if bd_large bd then ev0\<lparr>ee_exe := fst (snd exe)\<rparr> else ev0);
              pid = current_tgid (ke_kt ke);
              res = (case execve_map_get_noinit pid (se_x se) of
                       None \<Rightarrow> (ev1, se_x se)
                     | Some cur \<Rightarrow>
                         (case send_curr bd ke ev1 cur of
                            (ev2, cur2) \<Rightarrow>
                              let x1 = execve_map_write pid (\<lambda>_. cur2) (se_x se);
                                  bin = update_mb_bitset (ke_mbs ke) (ke_kt ke) x1 (ev_bin cur2)
                              in (ev2, execve_map_write pid (\<lambda>_. cur2\<lparr>ev_bin := bin\<rparr>) x1)))
          in case res of
               (ev3, x3) \<Rightarrow>
                 let ev4 = ev3\<lparr>ee_common := (ee_common ev3)\<lparr>mc_flags := 0\<rparr>\<rparr>;
                     sz = validate_msg_execve_size bd (of_nat OFFSETOF_EXECVE_BUFFER + ucast (mp_size (ee_process ev4)))
                 in se\<lparr>se_x := x3, se_path := path1, se_event := Some ev4,
                       se_os := event_output_metric bd MSG_OP_EXECVE (Ev_execve ev4) sz (se_os se)\<rparr>)"

definition execve_rate :: "build \<Rightarrow> kexec \<Rightarrow> sensor \<Rightarrow> sensor" where
  "execve_rate bd ke se =
     (case se_event se of
        None \<Rightarrow> se
      | Some msg \<Rightarrow>
          (case cgroup_rate bd (ee_kube msg) (mc_ktime (ee_common msg)) (se_rate se) (se_os se) of
             ((rs, os), go) \<Rightarrow>
               let se1 = se\<lparr>se_rate := rs, se_os := os\<rparr>
               in if go then execve_send bd ke se1 else se1))"

text \<open>The whole hook: \<^verbatim>\<open>event_execve\<close> with its tail call.\<close>

definition tracepoint_execve :: "build \<Rightarrow> kexec \<Rightarrow> sensor \<Rightarrow> sensor" where
  "tracepoint_execve bd ke se =
     (case se_event se of None \<Rightarrow> se | Some _ \<Rightarrow> execve_rate bd ke (event_execve bd ke se))"

section \<open>Properties\<close>

lemma write_write: "table (execve_map_write pid (\<lambda>_. a) (execve_map_write pid (\<lambda>_. b) x)) = table (execve_map_write pid (\<lambda>_. a) x)"
  by (rule ext) (simp add: option.map_comp comp_def)

lemma flag_facts:
  "(f OR EVENT_IN_INIT_TREE) AND EVENT_CLONE = f AND EVENT_CLONE"
  "(f OR EVENT_CLONE) AND EVENT_CLONE = EVENT_CLONE" "EVENT_CLONE \<noteq> 0"
  "(f AND NOT EVENT_COMMON_FLAG_CLONE) AND EVENT_COMMON_FLAG_CLONE = 0"
  "(f OR EVENT_IN_INIT_TREE) AND EVENT_COMMON_FLAG_CLONE = f AND EVENT_COMMON_FLAG_CLONE"
  "EVENT_IN_INIT_TREE AND EVENT_COMMON_FLAG_CLONE = 0"
  by (simp_all add: tg_consts bit.conj_disj_distrib2 and.assoc)

lemma send_curr_facts:
  assumes "send_curr bd ke ev0 cur = (ev, v)"
  shows "ee_cleanup_key ev = ev_key cur"
    and "(mp_flags (ee_process ev) AND EVENT_CLONE \<noteq> 0) =
           (ev_flags cur AND EVENT_COMMON_FLAG_CLONE \<noteq> 0 \<or> mp_flags (ee_process ev0) AND EVENT_CLONE \<noteq> 0)"
    and "ev_key v = \<lparr>ek_pid = mp_pid (ee_process ev0), ek_ktime = mp_ktime (ee_process ev0)\<rparr>"
    and "ev_pkey v = ee_parent ev0" "ev_flags v AND EVENT_COMMON_FLAG_CLONE = 0"
    and "mp_size (ee_process ev) = mp_size (ee_process ev0)" "ee_common ev = ee_common ev0" "ee_buffer ev = ee_buffer ev0"
    and "ee_parent ev = ee_parent ev0"
  using assms
  by (auto simp: send_curr_def Let_def set_in_init_tree_def event_set_clone_def flag_facts split: if_splits)

text \<open>The effect of the send in terms of \<open>send_curr\<close>, with or without an entry.\<close>

lemma execve_send_cases:
  assumes "se_event se = Some ev0" and "pid = current_tgid (ke_kt ke)"
  obtains ev1 where "ee_process ev1 = ee_process ev0" "ee_parent ev1 = ee_parent ev0" "ee_common ev1 = ee_common ev0"
      "ee_buffer ev1 = ee_buffer ev0"
      "table (se_x se) pid = None" "se_x (execve_send bd ke se) = se_x se"
      "se_event (execve_send bd ke se) = Some (ev1\<lparr>ee_common := (ee_common ev1)\<lparr>mc_flags := 0\<rparr>\<rparr>)"
  | ev1 cur ev2 v bin where "ee_process ev1 = ee_process ev0" "ee_parent ev1 = ee_parent ev0" "ee_common ev1 = ee_common ev0"
      "ee_buffer ev1 = ee_buffer ev0"
      "table (se_x se) pid = Some cur" "send_curr bd ke ev1 cur = (ev2, v)"
      "table (se_x (execve_send bd ke se)) = (table (se_x se))(pid \<mapsto> v\<lparr>ev_bin := bin\<rparr>)"
      "se_event (execve_send bd ke se) = Some (ev2\<lparr>ee_common := (ee_common ev2)\<lparr>mc_flags := 0\<rparr>\<rparr>)"
proof -
  define ev1 where "ev1 = (if bd_large bd then ev0\<lparr>ee_exe := fst (snd (read_exe bd (ke_vf ke) (se_path se) (ee_exe ev0)))\<rparr> else ev0)"
  have e1: "ee_process ev1 = ee_process ev0" "ee_parent ev1 = ee_parent ev0" "ee_common ev1 = ee_common ev0"
    "ee_buffer ev1 = ee_buffer ev0" by (simp_all add: ev1_def)
  show ?thesis
  proof (cases "table (se_x se) pid")
    case None
    then show ?thesis
      by (intro that(1) [OF e1]) (simp_all add: execve_send_def assms Let_def execve_map_get_noinit_def ev1_def [symmetric])
  next
    case (Some cur)
    obtain ev2 v where sc: "send_curr bd ke ev1 cur = (ev2, v)" by fastforce
    define bin where "bin = update_mb_bitset (ke_mbs ke) (ke_kt ke) (execve_map_write pid (\<lambda>_. v) (se_x se)) (ev_bin v)"
    have "table (se_x (execve_send bd ke se)) = (table (se_x se))(pid \<mapsto> v\<lparr>ev_bin := bin\<rparr>)"
      using Some by (auto simp: execve_send_def assms Let_def execve_map_get_noinit_def ev1_def [symmetric] sc bin_def fun_eq_iff)
    then show ?thesis
      using Some by (intro that(2) [OF e1 Some sc])
        (simp_all add: execve_send_def assms Let_def execve_map_get_noinit_def ev1_def [symmetric] sc)
  qed
qed

text \<open>
  Sending an exec event updates exactly the entry of the executing process: if it has one, its key
  becomes the pid and time of the message, its parent key the message's parent, the clone mark is gone,
  and the message carries the previous key for cleanup and says whether this is the first exec after a
  clone; all other entries are as before, and without an entry the table is not changed at all.
\<close>

theorem execve_send_entry:
  assumes "se_event se = Some ev0" and "pid = current_tgid (ke_kt ke)"
    and "se' = execve_send bd ke se" and "se_event se' = Some ev"
  shows "(\<forall>j. j = pid \<or> table (se_x se') j = table (se_x se) j)
     \<and> (case table (se_x se) pid of
          None \<Rightarrow> table (se_x se') pid = None
        | Some cur \<Rightarrow>
            ee_cleanup_key ev = ev_key cur
            \<and> (mp_flags (ee_process ev) AND EVENT_CLONE \<noteq> 0) =
                (ev_flags cur AND EVENT_COMMON_FLAG_CLONE \<noteq> 0 \<or> mp_flags (ee_process ev0) AND EVENT_CLONE \<noteq> 0)
            \<and> (\<exists>v. table (se_x se') pid = Some v
                 \<and> ev_key v = \<lparr>ek_pid = mp_pid (ee_process ev0), ek_ktime = mp_ktime (ee_process ev0)\<rparr>
                 \<and> ev_pkey v = ee_parent ev0 \<and> ev_flags v AND EVENT_COMMON_FLAG_CLONE = 0))"
proof (rule execve_send_cases [OF assms(1,2), of bd])
  fix ev1 assume "table (se_x se) pid = None" "se_x (execve_send bd ke se) = se_x se"
  then show ?thesis using assms(3) by simp
next
  fix ev1 cur ev2 v bin
  assume e: "ee_process ev1 = ee_process ev0" "ee_parent ev1 = ee_parent ev0"
    and a: "table (se_x se) pid = Some cur" "send_curr bd ke ev1 cur = (ev2, v)"
      "table (se_x (execve_send bd ke se)) = (table (se_x se))(pid \<mapsto> v\<lparr>ev_bin := bin\<rparr>)"
      "se_event (execve_send bd ke se) = Some (ev2\<lparr>ee_common := (ee_common ev2)\<lparr>mc_flags := 0\<rparr>\<rparr>)"
  note S = send_curr_facts [OF a(2)]
  have "ev = ev2\<lparr>ee_common := (ee_common ev2)\<lparr>mc_flags := 0\<rparr>\<rparr>" using assms(3,4) a(4) by simp
  then show ?thesis using a(1,3) S(1-5) e assms(3) by auto
qed

lemma execve_send_output:
  assumes "se_event se = Some ev0" and "se_event (execve_send bd ke se) = Some ev"
  shows "mp_size (ee_process ev) = mp_size (ee_process ev0)" and "mc_size (ee_common ev) = mc_size (ee_common ev0)"
    and "ee_buffer ev = ee_buffer ev0"
    and "se_os (execve_send bd ke se) = event_output_metric bd MSG_OP_EXECVE (Ev_execve ev)
           (validate_msg_execve_size bd (of_nat OFFSETOF_EXECVE_BUFFER + ucast (mp_size (ee_process ev)))) (se_os se)"
proof -
  have "mp_size (ee_process ev) = mp_size (ee_process ev0) \<and> mc_size (ee_common ev) = mc_size (ee_common ev0)
      \<and> ee_buffer ev = ee_buffer ev0"
    by (rule execve_send_cases [OF assms(1) refl, of ke bd]) (use assms(2) in \<open>auto dest: send_curr_facts(6-8)\<close>)
  then show "mp_size (ee_process ev) = mp_size (ee_process ev0)" "mc_size (ee_common ev) = mc_size (ee_common ev0)"
    "ee_buffer ev = ee_buffer ev0" by auto
  show "se_os (execve_send bd ke se) = event_output_metric bd MSG_OP_EXECVE (Ev_execve ev)
         (validate_msg_execve_size bd (of_nat OFFSETOF_EXECVE_BUFFER + ucast (mp_size (ee_process ev)))) (se_os se)"
    using assms by (auto simp: execve_send_def Let_def split: prod.splits option.splits)
qed

text \<open>
  C16. An exec is reported in full or, if its cgroup is throttled, not at all. When the rate limit lets the
  event pass, one message is handed to the ring, with exactly the size of its own header field, which is
  the size of all collected data; when it does not, nothing is sent for the exec and the process table
  stays as the collection left it.
\<close>

theorem execve_reported_in_full:
  assumes "se_event se = Some ev0" and "length (ee_buffer ev0) = PADDED_BUFFER"
    and "se1 = event_execve bd ke se" and "se_event se1 = Some ev1"
    and "cgroup_rate bd (ee_kube ev1) (mc_ktime (ee_common ev1)) (se_rate se1) (se_os se1) = ((rs, os), go)"
    and "se' = tracepoint_execve bd ke se"
  shows "if go then (\<exists>ev. se_event se' = Some ev \<and> ee_buffer ev = ee_buffer ev1
              \<and> unat (mc_size (ee_common ev)) = OFFSETOF_EXECVE_BUFFER + unat (mp_size (ee_process ev))
              \<and> se_os se' = event_output_metric bd MSG_OP_EXECVE (Ev_execve ev) (ucast (mc_size (ee_common ev))) os)
         else se_os se' = os \<and> se_x se' = se_x se1"
proof -
  define se2 where "se2 = se1\<lparr>se_rate := rs, se_os := os\<rparr>"
  have run: "se' = (if go then execve_send bd ke se2 else se2)"
    using assms(1,3-6) by (simp add: tracepoint_execve_def execve_rate_def se2_def)
  have lay: "unat (mp_size (ee_process ev1)) \<le> PADDED_BUFFER"
    "unat (mc_size (ee_common ev1)) = OFFSETOF_EXECVE_BUFFER + unat (mp_size (ee_process ev1))"
    "validate_msg_execve_size bd (ucast (mc_size (ee_common ev1))) = ucast (mc_size (ee_common ev1))"
    using exec_layout [OF assms(1,2), of bd ke] assms(3,4) by auto
  show ?thesis
  proof (cases go)
    case False
    then show ?thesis using run by (simp add: se2_def)
  next
    case True
    have e2: "se_event se2 = Some ev1" by (simp add: se2_def assms(4))
    obtain ev where ev: "se_event (execve_send bd ke se2) = Some ev"
      by (rule execve_send_cases [OF e2 refl, of ke bd]) auto
    note O = execve_send_output [OF e2 ev]
    have "unat (of_nat OFFSETOF_EXECVE_BUFFER + ucast (mp_size (ee_process ev1)) :: u64) = unat (mc_size (ee_common ev1))"
      using lay(1,2) by (simp add: tg_consts unat_word_ariths)
    then have "of_nat OFFSETOF_EXECVE_BUFFER + ucast (mp_size (ee_process ev1)) = (ucast (mc_size (ee_common ev1)) :: u64)"
      by (simp add: word_unat_eq_iff)
    then show ?thesis using True run ev O lay by (auto simp: se2_def)
  qed
qed

section \<open>The binary of the entry\<close>

lemma send_curr_bin:
  assumes "send_curr bd ke ev cur = (ev', v)" "bd_large bd"
  shows "ev_bin v = send_bin_large ev (binary_reset (ev_bin cur))"
  using assms by (auto simp: send_curr_def Let_def set_in_init_tree_def split: if_splits)

lemma update_mb_bitset_path [simp]: "bin_path (update_mb_bitset mbs kt x b) = bin_path b"
  "bin_path_length (update_mb_bitset mbs kt x b) = bin_path_length b"
  by (auto simp: update_mb_bitset_def Let_def split: option.split)

text \<open>
  After an exec the entry names the binary that runs: with an executable path shorter than the path
  buffer, the entry's path field is this path, cut at 255 bytes and padded with zeroes (the form under
  which binaries are looked up), and the path length is the length of the stored part; nothing of the
  previous binary's path is left.
\<close>

theorem execve_send_binary:
  assumes "bd_large bd" and "se_event se = Some ev0" and "pid = current_tgid (ke_kt ke)"
    and "table (se_x se) pid = Some cur"
    and "names_bounded (ke_vf ke)" and "se_path se = Some hb" and "length hb = BUFFER_HEAP_SIZE"
    and "walk_of bd (ke_vf ke) (vf_exe_path (ke_vf ke)) = (names, r)" and "names \<noteq> []"
    and "str = path_string names @ deleted_mark (ke_vf ke) (vf_exe_path (ke_vf ke))" and "length str < 4096"
    and "length (hx_buf (ee_exe ev0)) = BINARY_PATH_MAX_LEN" and "length (hx_end (ee_exe ev0)) = STRING_POSTFIX_MAX_LENGTH"
    and "table (se_x (execve_send bd ke se)) pid = Some v"
  shows "bin_path (ev_bin v) = take 255 str @ replicate (256 - min 255 (length str)) 0
         \<and> bin_path_length (ev_bin v) = int (min 255 (length str))"
proof -
  obtain h exe n where re: "read_exe bd (ke_vf ke) (Some hb) (ee_exe ev0) = (h, exe, n)" by (metis prod.exhaust)
  note E = read_exe_result [OF assms(5,7-13) re]
  define ev1 where "ev1 = ev0\<lparr>ee_exe := exe\<rparr>"
  obtain ev2 c2 where sc: "send_curr bd ke ev1 cur = (ev2, c2)" by fastforce
  define bin where "bin = update_mb_bitset (ke_mbs ke) (ke_kt ke) (execve_map_write pid (\<lambda>_. c2) (se_x se)) (ev_bin c2)"
  have "table (se_x (execve_send bd ke se)) pid = Some (c2\<lparr>ev_bin := bin\<rparr>)"
    using assms(1,4) re sc
    by (simp add: execve_send_def assms(2,6) assms(3) [symmetric] Let_def execve_map_get_noinit_def ev1_def bin_def)
  with assms(14) have v: "ev_bin v = bin" by auto
  let ?b = "send_bin_large ev1 (binary_reset (ev_bin cur))"
  have "bin_path (ev_bin v) = bin_path ?b" "bin_path_length (ev_bin v) = bin_path_length ?b"
    using v send_curr_bin [OF sc assms(1)] by (simp_all add: bin_def)
  moreover have "slice 0 (unat n) (hx_buf exe) = take 255 str"
    using E by (auto simp: slice_def min_def split: if_splits)
  then have "bin_path ?b = blit 0 (take 255 str) (replicate BINARY_PATH_MAX_LEN 0)"
    and "bin_path_length ?b = int (min 255 (length str))"
    using E min.coboundedI1 [of 255 256 "length str"] by (simp_all add: send_bin_large_def Let_def ev1_def binary_reset_def zero_binary_def BINARY_PATH_MAX_LEN_def)
  moreover have "blit 0 (take 255 str) (replicate BINARY_PATH_MAX_LEN 0) = take 255 str @ replicate (256 - min 255 (length str)) 0"
    by (simp add: blit_def BINARY_PATH_MAX_LEN_def min.commute)
  ultimately show ?thesis by simp
qed

text \<open>
  The first exec of a process cloned inside a container's init tree keeps the namespaces and
  capabilities recorded at the clone: they are refreshed only when the flags are exactly the clone mark,
  and such a process also has the init-tree mark. Outside of an init tree they are refreshed.
\<close>

theorem execve_first_exec_in_init_tree:
  assumes "bd_large bd" and "send_curr bd ke ev cur = (ev', v)"
  shows "(ev_flags cur = EVENT_COMMON_FLAG_CLONE OR EVENT_IN_INIT_TREE \<longrightarrow> ev_ns v = ev_ns cur \<and> ev_caps v = ev_caps cur)
       \<and> (ev_flags cur = EVENT_COMMON_FLAG_CLONE \<longrightarrow> ev_ns v = ee_ns ev \<and> ev_caps v = cr_caps (ee_creds ev))"
proof -
  have "EVENT_COMMON_FLAG_CLONE OR EVENT_IN_INIT_TREE \<noteq> EVENT_COMMON_FLAG_CLONE" by (simp add: tg_consts)
  then show ?thesis
    using assms by (auto simp: send_curr_def Let_def set_in_init_tree_def split: if_splits)
qed

section \<open>Concrete runs\<close>

definition ke_tracked :: kexec where
  "ke_tracked = ke_example\<lparr>ke_kt := kt_example\<lparr>kt_pid_tgid := push_bit 32 8 OR 8\<rparr>\<rparr>"

lemma ke_tracked_tgid: "current_tgid (ke_kt ke_tracked) = 8"
  by (simp add: ke_tracked_def current_tgid_def)

lemma se_example_table: "table (se_x se_example) 8 = Some (tracked_value 8 5)"
  by (simp add: se_example_def xs_example_table)

theorem execve_send_entry_witness:
  "\<exists>v. table (se_x (execve_send build_v61 ke_tracked se_example)) 8 = Some v \<and> ev_flags v AND EVENT_COMMON_FLAG_CLONE = 0"
proof -
  obtain ev where ev: "se_event (execve_send build_v61 ke_tracked se_example) = Some ev"
    by (rule execve_send_cases [OF se_example_event(1) refl, of ke_tracked build_v61]) auto
  from execve_send_entry [OF se_example_event(1) ke_tracked_tgid [symmetric] refl ev]
  show ?thesis by (auto simp: se_example_table)
qed

theorem execve_reported_in_full_witness:
  "\<exists>ev os. se_os (tracepoint_execve build_v61 ke_tracked se_example) =
     event_output_metric build_v61 MSG_OP_EXECVE (Ev_execve ev) (ucast (mc_size (ee_common ev))) os"
proof -
  obtain ev1 where ev1: "se_event (event_execve build_v61 ke_tracked se_example) = Some ev1"
    using exec_layout [OF se_example_event, of build_v61 ke_tracked] by blast
  define se1 where "se1 = event_execve build_v61 ke_tracked se_example"
  have "se_rate se1 = se_rate se_example" unfolding se1_def by (rule event_execve_rate)
  then have go: "cgroup_rate build_v61 (ee_kube ev1) (mc_ktime (ee_common ev1)) (se_rate se1) (se_os se1) = ((se_rate se1, se_os se1), True)"
    by (simp add: cgroup_rate_def se_example_def)
  from execve_reported_in_full [OF se_example_event se1_def _ go refl] ev1 show ?thesis by (auto simp: se1_def)
qed

theorem execve_send_binary_witness:
  "\<exists>v. table (se_x (execve_send build_v61 ke_tracked se_example)) 8 = Some v
     \<and> bin_path_length (ev_bin v) = 7"
proof -
  have large: "bd_large build_v61" by (simp add: build_v61_def)
  obtain v where v: "table (se_x (execve_send build_v61 ke_tracked se_example)) 8 = Some v"
    by (rule execve_send_cases [OF se_example_event(1) ke_tracked_tgid [symmetric], of build_v61]) (auto simp: se_example_table)
  have vf: "ke_vf ke_tracked = vf_example" "vf_exe_path vf_example = 1"
    by (simp_all add: ke_tracked_def ke_example_def vf_example_def)
  have walk: "walk_of build_v61 (ke_vf ke_tracked) (vf_exe_path (ke_vf ke_tracked)) = ([[0x6c, 0x6d], [0x62, 0x63, 0x64]], True)"
    unfolding vf
    by (simp add: walk_of_def PROBE_CWD_READ_ITERATIONS_def build_v61_def path_walk_numeral IS_ROOT_def
        dentry_name_def probe_read_def vf_example_def upt_rec Let_def)
  have heap: "se_path se_example = Some (replicate BUFFER_HEAP_SIZE 0)" by (simp add: se_example_def)
  from execve_send_binary [OF large se_example_event(1) ke_tracked_tgid [symmetric] se_example_table _ heap _ walk _ refl _ _ _ v]
  show ?thesis using v by (simp add: vf vf_example_mark vf_example_bounded zero_event_def zero_exe_def)
qed

theorem execve_first_exec_in_init_tree_witness:
  "ev_caps (snd (send_curr build_v61 ke_tracked zero_event
     ((tracked_value 8 5)\<lparr>ev_flags := EVENT_COMMON_FLAG_CLONE OR EVENT_IN_INIT_TREE\<rparr>))) = ev_caps (tracked_value 8 5)"
proof -
  let ?cur = "(tracked_value 8 5)\<lparr>ev_flags := EVENT_COMMON_FLAG_CLONE OR EVENT_IN_INIT_TREE\<rparr>"
  obtain ev v where s: "send_curr build_v61 ke_tracked zero_event ?cur = (ev, v)" by fastforce
  have "bd_large build_v61" by (simp add: build_v61_def)
  from execve_first_exec_in_init_tree [OF this s] show ?thesis unfolding s by simp
qed

end
