(* ===== verification/Fork_Exit.thy ===== *)
theory Fork_Exit
  imports Exec_Send
begin

text \<open>
  Process creation and exit (\<^verbatim>\<open>process/bpf_fork.c\<close>, \<^verbatim>\<open>process/bpf_exit.h\<close>, \<^verbatim>\<open>process/bpf_exit.c\<close>): the hook on
  \<^verbatim>\<open>wake_up_new_task\<close> gives a new process an entry derived from its nearest tracked ancestor, the hooks on
  the exit path report the exit and remove the entry.
\<close>

section \<open>Fork\<close>

text \<open>
  The views a fork reads: the new task, its thread id, and the time of the hook. \<open>kf_common_flags\<close> is the
  flags byte of the message on the stack, which the code does not initialise.
\<close>

record kfork =
  kf_kt :: ktask
  kf_kp :: kproc
  kf_kc :: kcgrp
  kf_task :: ptr
  kf_ktime :: u64
  kf_common_flags :: u8

definition clone_entry :: "kfork \<Rightarrow> u32 \<Rightarrow> execve_map_value \<Rightarrow> execve_map_value \<Rightarrow> execve_map_value" where
  "clone_entry kf tgid parent cur =
     (let task = kf_task kf;
          c1 = cur\<lparr>ev_flags := EVENT_COMMON_FLAG_CLONE, ev_key := \<lparr>ek_pid = tgid, ek_ktime = kf_ktime kf\<rparr>,
                   ev_nspid := get_task_pid_vnr_by_task (kf_kt kf) task, ev_bin := ev_bin parent, ev_pkey := ev_key parent\<rparr>;
          c2 = c1\<lparr>ev_caps := get_current_subj_caps (kf_kp kf) task (ev_caps c1)\<rparr>;
          c3 = c2\<lparr>ev_ns := get_namespaces (kf_kp kf) (kf_kt kf) task (ev_ns c2)\<rparr>
      in set_in_init_tree c3 (Some parent))"

definition clone_message :: "kfork \<Rightarrow> execve_map_value \<Rightarrow> msg_clone_event" where
  "clone_message kf cur =
     \<lparr>ce_common = \<lparr>mc_op = MSG_OP_CLONE, mc_flags = kf_common_flags kf, mc_size = of_nat SIZEOF_MSG_CLONE_EVENT,
                   mc_ktime = ek_ktime (ev_key cur)\<rparr>,
      ce_parent = ev_pkey cur, ce_tgid = ek_pid (ev_key cur), ce_tid = kt_pid (kf_kt kf) (kf_task kf),
      ce_nspid = ev_nspid cur, ce_flags = ev_flags cur, ce_ktime = ek_ktime (ev_key cur)\<rparr>"

definition event_wake_up_new_task :: "build \<Rightarrow> kfork \<Rightarrow> sensor \<Rightarrow> sensor" where
  "event_wake_up_new_task bd kf se =
     (let task = kf_task kf
      in if task = 0 then se
         else let tgid = kt_tgid (kf_kt kf) task
              in case event_find_parent_of (kf_kt kf) (se_x se) task of
                   None \<Rightarrow> se
                 | Some (ppid, parent) \<Rightarrow>
                     (case execve_map_get tgid (se_x se) of
                        (x1, None) \<Rightarrow> se\<lparr>se_x := x1\<rparr>
                      | (x1, Some cur) \<Rightarrow>
                          if ek_ktime (ev_key cur) \<noteq> 0 then se\<lparr>se_x := x1\<rparr>
                          else let cur' = clone_entry kf tgid parent cur;
                                   x2 = execve_map_write tgid (\<lambda>_. cur') x1;
                                   msg = clone_message kf cur';
                                   se2 = se\<lparr>se_x := x2\<rparr>
                               in if bd_rhel7 bd
                                  then se2\<lparr>se_os := event_output_metric bd MSG_OP_CLONE (Ev_clone msg)
                                                    (of_nat SIZEOF_MSG_CLONE_EVENT) (se_os se2)\<rparr>
                                  else let kube = fst (event_get_cgroup_info bd (kf_kc kf) task (os_conf (se_os se2)) (se_cg se2) zero_k8s)
                                       in case cgroup_rate bd kube (ce_ktime msg) (se_rate se2) (se_os se2) of
                                            ((rs, os), go) \<Rightarrow>
                                              se2\<lparr>se_rate := rs,
                                                  se_os := (if go then event_output_metric bd MSG_OP_CLONE (Ev_clone msg)
                                                                         (of_nat SIZEOF_MSG_CLONE_EVENT) os else os)\<rparr>))"

section \<open>Exit\<close>

definition event_exit_send :: "build \<Rightarrow> u32 \<Rightarrow> u64 \<Rightarrow> u32 \<Rightarrow> sensor \<Rightarrow> sensor" where
  "event_exit_send bd tgid ktime exit_code se =
     (case execve_map_get_noinit tgid (se_x se) of
        None \<Rightarrow> se
      | Some enter \<Rightarrow>
          if ek_ktime (ev_key enter) \<noteq> 0
          then (case se_exit se of
                  None \<Rightarrow> se
                | Some _ \<Rightarrow>
                    let msg = \<lparr>me_common = \<lparr>mc_op = MSG_OP_EXIT, mc_flags = 0, mc_size = of_nat SIZEOF_MSG_EXIT, mc_ktime = ktime\<rparr>,
                               me_current = \<lparr>ek_pid = tgid, ek_ktime = ek_ktime (ev_key enter)\<rparr>,
                               me_info = \<lparr>xi_code = exit_code, xi_tid = tgid\<rparr>\<rparr>
                    in se\<lparr>se_exit := Some msg,
                          se_os := event_output_metric bd MSG_OP_EXIT (Ev_exit msg) (of_nat SIZEOF_MSG_EXIT) (se_os se),
                          se_x := execve_map_delete tgid (se_x se)\<rparr>)
          else se\<lparr>se_x := execve_map_delete tgid (se_x se)\<rparr>)"

definition event_exit_acct_process :: "build \<Rightarrow> ktask \<Rightarrow> u64 \<Rightarrow> u32 \<Rightarrow> sensor \<Rightarrow> sensor" where
  "event_exit_acct_process bd kt ktime exit_code se = event_exit_send bd (current_tgid kt) ktime exit_code se"

definition event_exit_disassociate_ctty :: "build \<Rightarrow> ktask \<Rightarrow> u32 \<Rightarrow> u64 \<Rightarrow> u32 \<Rightarrow> sensor \<Rightarrow> sensor" where
  "event_exit_disassociate_ctty bd kt on_exit ktime exit_code se =
     (if on_exit \<noteq> 0 then event_exit_send bd (current_tgid kt) ktime exit_code se else se)"

section \<open>Properties\<close>

text \<open>The table after a fork that creates an entry.\<close>

lemma fork_creates:
  assumes "kf_task kf \<noteq> 0" and "tgid = kt_tgid (kf_kt kf) (kf_task kf)"
    and "event_find_parent_of (kf_kt kf) (se_x se) (kf_task kf) = Some (ppid, parent)"
    and "execve_map_get tgid (se_x se) = (x1, Some cur)" and "ek_ktime (ev_key cur) = 0"
  shows "table (se_x (event_wake_up_new_task bd kf se)) =
           (table (se_x se))(tgid \<mapsto> clone_entry kf tgid parent cur)"
proof -
  note G = execve_map_get_table [OF assms(4)]
  have "table (execve_map_write tgid (\<lambda>_. clone_entry kf tgid parent cur) x1) =
      (table (se_x se))(tgid \<mapsto> clone_entry kf tgid parent cur)"
    using G(1) [symmetric] G(2) by (auto simp: fun_eq_iff)
  then show ?thesis
    using assms by (simp add: event_wake_up_new_task_def Let_def split_beta)
qed

text \<open>
  C19. A new process gets its identity from its nearest tracked ancestor: if one of the four nearest
  ancestors is tracked and the process has no entry yet, then (when the kernel accepts the store) its
  entry has its own pid and the time of the hook as key, the ancestor's key as parent key, the
  ancestor's binary and match set, the clone mark, and the init-tree mark exactly when the ancestor has
  it or the process is the first one of a pid namespace; no other entry changes.
\<close>

theorem fork_inherits:
  assumes "kf_task kf \<noteq> 0" and "tgid = kt_tgid (kf_kt kf) (kf_task kf)"
    and "List.find (tracked (kf_kt kf) (se_x se)) (ancestors (kf_kt kf) 4 (kf_task kf)) = Some u"
    and "table (se_x se) tgid = None" and "xs_val (se_x se) \<noteq> None"
    and "bm_admit (xs_map (se_x se)) (bm_elems (xs_map (se_x se))) tgid = 0"
    and "table (se_x se) (kt_tgid (kf_kt kf) u) = Some parent"
    and "se' = event_wake_up_new_task bd kf se"
  shows "\<exists>v. table (se_x se') = (table (se_x se))(tgid \<mapsto> v)
           \<and> ev_key v = \<lparr>ek_pid = tgid, ek_ktime = kf_ktime kf\<rparr> \<and> ev_pkey v = ev_key parent
           \<and> ev_bin v = ev_bin parent \<and> ev_flags v AND EVENT_COMMON_FLAG_CLONE \<noteq> 0
           \<and> (ev_flags v AND EVENT_IN_INIT_TREE \<noteq> 0) =
               (ev_flags parent AND EVENT_IN_INIT_TREE \<noteq> 0 \<or> get_task_pid_vnr_by_task (kf_kt kf) (kf_task kf) = 1)"
proof -
  have par: "event_find_parent_of (kf_kt kf) (se_x se) (kf_task kf) = Some (kt_tgid (kf_kt kf) u, parent)"
    using assms(3,7) by (simp add: event_find_parent_of_def find_parent_loop_find entry_of_def)
  obtain x1 r where g: "execve_map_get tgid (se_x se) = (x1, r)" by fastforce
  have "r = Some zero_execve_map_value" using execve_map_get_accepts [OF assms(4-6)] g by simp
  with g have g': "execve_map_get tgid (se_x se) = (x1, Some zero_execve_map_value)" by simp
  let ?v = "clone_entry kf tgid parent zero_execve_map_value"
  have k0: "ek_ktime (ev_key zero_execve_map_value) = 0" by (simp add: zero_execve_map_value_def zero_key_def)
  note T = fork_creates [OF assms(1,2) par g' k0, of bd, folded assms(8)]
  have "ev_flags ?v AND EVENT_COMMON_FLAG_CLONE \<noteq> 0"
    "(ev_flags ?v AND EVENT_IN_INIT_TREE \<noteq> 0) =
       (ev_flags parent AND EVENT_IN_INIT_TREE \<noteq> 0 \<or> get_task_pid_vnr_by_task (kf_kt kf) (kf_task kf) = 1)"
    "ev_key ?v = \<lparr>ek_pid = tgid, ek_ktime = kf_ktime kf\<rparr>" "ev_pkey ?v = ev_key parent" "ev_bin ?v = ev_bin parent"
    by (simp_all add: clone_entry_def Let_def set_in_init_tree_def tg_consts)
  with T show ?thesis by blast
qed

text \<open>
  The start of a further thread of a known process, or of a process with no tracked ancestor among
  the nearest four, changes nothing at all: no entry, no message, no counter.
\<close>

theorem fork_ignored:
  assumes "event_find_parent_of (kf_kt kf) (se_x se) (kf_task kf) = None
         \<or> (\<exists>v. table (se_x se) (kt_tgid (kf_kt kf) (kf_task kf)) = Some v \<and> ek_ktime (ev_key v) \<noteq> 0)"
  shows "event_wake_up_new_task bd kf se = se"
  using assms
  by (auto simp: event_wake_up_new_task_def Let_def execve_map_get_present split: option.split)

definition exit_message :: "u32 \<Rightarrow> u64 \<Rightarrow> u32 \<Rightarrow> execve_map_value \<Rightarrow> msg_exit" where
  "exit_message tgid ktime code enter =
     \<lparr>me_common = \<lparr>mc_op = MSG_OP_EXIT, mc_flags = 0, mc_size = of_nat SIZEOF_MSG_EXIT, mc_ktime = ktime\<rparr>,
      me_current = \<lparr>ek_pid = tgid, ek_ktime = ek_ktime (ev_key enter)\<rparr>, me_info = \<lparr>xi_code = code, xi_tid = tgid\<rparr>\<rparr>"

lemma exit_cases:
  assumes "table (se_x se) tgid = Some v" and "ek_ktime (ev_key v) \<noteq> 0" and "se_exit se \<noteq> None"
  shows "event_exit_send bd tgid ktime code se =
     se\<lparr>se_exit := Some (exit_message tgid ktime code v),
        se_os := event_output_metric bd MSG_OP_EXIT (Ev_exit (exit_message tgid ktime code v)) (of_nat SIZEOF_MSG_EXIT) (se_os se),
        se_x := execve_map_delete tgid (se_x se)\<rparr>"
  using assms by (auto simp: event_exit_send_def execve_map_get_noinit_def Let_def exit_message_def)

lemma exit_none: "table (se_x se) tgid = None \<Longrightarrow> event_exit_send bd tgid ktime code se = se"
  by (simp add: event_exit_send_def execve_map_get_noinit_def)

text \<open>
  C18. An exit is reported once and the entry is gone. With an entry of nonzero time and the exit message
  buffer available, the exit hook hands the ring one message with the key of the entry, removes the
  entry and only it, and a second exit hook for the same process has no effect at all (both exit hooks
  may be attached).
\<close>

theorem exit_reported_once:
  assumes "table (se_x se) tgid = Some v" and "ek_ktime (ev_key v) \<noteq> 0" and "se_exit se \<noteq> None"
    and "se' = event_exit_send bd tgid ktime code se"
  shows "(\<exists>msg. me_current msg = \<lparr>ek_pid = tgid, ek_ktime = ek_ktime (ev_key v)\<rparr>
            \<and> se_os se' = event_output_metric bd MSG_OP_EXIT (Ev_exit msg) (of_nat SIZEOF_MSG_EXIT) (se_os se))
         \<and> table (se_x se') = (table (se_x se))(tgid := None)
         \<and> event_exit_send bd tgid ktime' code' se' = se'"
proof -
  have "me_current (exit_message tgid ktime code v) = \<lparr>ek_pid = tgid, ek_ktime = ek_ktime (ev_key v)\<rparr>"
    by (simp add: exit_message_def)
  moreover note E = exit_cases [OF assms(1-3), of bd ktime code, folded assms(4)]
  moreover have "table (se_x se') = (table (se_x se))(tgid := None)" using E by (auto simp: fun_eq_iff)
  moreover from this have "event_exit_send bd tgid ktime' code' se' = se'" by (intro exit_none) simp
  ultimately show ?thesis by auto
qed

section \<open>Concrete runs\<close>

text \<open>Task 99 (process 9) of the sample tree starts; its parent 98 (process 8) is tracked.\<close>

definition kf_example :: kfork where
  "kf_example = \<lparr>kf_kt = kt_example, kf_kp = kp_example, kf_kc = kc_example, kf_task = 99, kf_ktime = 77, kf_common_flags = 0\<rparr>"

theorem fork_inherits_witness:
  "\<exists>v. table (se_x (event_wake_up_new_task build_v61 kf_example se_example)) 9 = Some v
     \<and> ev_pkey v = \<lparr>ek_pid = 8, ek_ktime = 5\<rparr>"
proof -
  have "ancestors kt_example 4 99 = [98, 97]" by (simp add: walk_numeral)
  then have "List.find (tracked (kf_kt kf_example) (se_x se_example)) (ancestors (kf_kt kf_example) 4 (kf_task kf_example)) = Some 98"
    by (simp add: kf_example_def se_example_def kt_example_search)
  moreover have "9 = kt_tgid (kf_kt kf_example) (kf_task kf_example)" "kf_task kf_example \<noteq> 0"
    "kt_tgid (kf_kt kf_example) 98 = 8" by (simp_all add: kf_example_def)
  moreover have "table (se_x se_example) 9 = None" "xs_val (se_x se_example) \<noteq> None"
    "bm_admit (xs_map (se_x se_example)) (bm_elems (xs_map (se_x se_example))) 9 = 0"
    by (simp_all add: se_example_def xs_example_def map_lookup_elem_def)
  ultimately obtain v where "table (se_x (event_wake_up_new_task build_v61 kf_example se_example)) = (table (se_x se_example))(9 \<mapsto> v)"
    and "ev_pkey v = ev_key (tracked_value 8 5)"
    using fork_inherits [of kf_example 9 se_example 98 "tracked_value 8 5" _ build_v61] se_example_table by auto
  then show ?thesis by (auto simp: tracked_value_def)
qed

theorem fork_ignored_witness:
  "event_wake_up_new_task build_v61 (kf_example\<lparr>kf_task := 98\<rparr>) se_example = se_example"
proof -
  have "table (se_x se_example) (kt_tgid (kf_kt (kf_example\<lparr>kf_task := 98\<rparr>)) (kf_task (kf_example\<lparr>kf_task := 98\<rparr>))) = Some (tracked_value 8 5)"
    by (simp add: kf_example_def se_example_table)
  then show ?thesis
    using fork_ignored [of "kf_example\<lparr>kf_task := 98\<rparr>" se_example build_v61] by (auto simp: tracked_value_def)
qed

theorem exit_reported_once_witness:
  "table (se_x (event_exit_send build_v61 8 90 0 se_example)) 8 = None"
proof -
  have "ek_ktime (ev_key (tracked_value 8 5)) \<noteq> 0" "se_exit se_example \<noteq> None"
    by (simp_all add: tracked_value_def se_example_def)
  from exit_reported_once [OF se_example_table this refl, of build_v61 90 0 90 0] show ?thesis by simp
qed

end
