(* ===== verification/Binaries.thy ===== *)
theory Binaries
  imports Mbset
begin

text \<open>
  Matching of binaries (\<^verbatim>\<open>match_binaries\<close> and the reverse copy in \<^verbatim>\<open>process/types/basic.h\<close>). The selector
  options, path sets and longest-prefix tries are filled by user space: the parameter \<open>mb_maps\<close>. A lookup in
  a trie succeeds when a stored string of at most the key's length is a prefix of the key's data.
\<close>

section \<open>Model\<close>

definition op_filter_none :: u32 where [tg_consts]: "op_filter_none = 0"
definition op_filter_neq :: u32 where [tg_consts]: "op_filter_neq = 4"
definition op_filter_in :: u32 where [tg_consts]: "op_filter_in = 5"
definition op_filter_notin :: u32 where [tg_consts]: "op_filter_notin = 6"
definition op_filter_str_prefix :: u32 where [tg_consts]: "op_filter_str_prefix = 8"
definition op_filter_str_postfix :: u32 where [tg_consts]: "op_filter_str_postfix = 9"
definition op_filter_str_notprefix :: u32 where [tg_consts]: "op_filter_str_notprefix = 26"
definition op_filter_str_notpostfix :: u32 where [tg_consts]: "op_filter_str_notpostfix = 27"
definition MBSET_INVALID_ID :: u32 where [tg_consts]: "MBSET_INVALID_ID = 0xffffffff"

definition STRING_POSTFIX_MAX_MATCH_LENGTH :: "build \<Rightarrow> nat" where
  "STRING_POSTFIX_MAX_MATCH_LENGTH bd = (if bd_large bd then 128 else 95)"

definition is_not_operator :: "u32 \<Rightarrow> bool" where
  "is_not_operator op \<longleftrightarrow>
     op = op_filter_neq \<or> op = op_filter_str_notprefix \<or> op = op_filter_str_notpostfix \<or> op = op_filter_notin"

record match_binaries_sel_opts =
  mo_op :: u32
  mo_map_id :: u32
  mo_mbset_id :: u32

record mb_maps =
  mm_sel_opts :: "u32 \<rightharpoonup> match_binaries_sel_opts"
  mm_paths :: "u32 \<rightharpoonup> byte list list"
  mm_prefix :: "u32 \<rightharpoonup> byte list list"
  mm_postfix :: "u32 \<rightharpoonup> byte list list"
  mm_postfix_heap :: "byte list option"

definition lpm_lookup :: "byte list list \<Rightarrow> nat \<Rightarrow> byte list \<Rightarrow> bool" where
  "lpm_lookup trie n data \<longleftrightarrow> (\<exists>p \<in> set trie. length p \<le> n \<and> take (length p) data = p)"

text \<open>
  \<^verbatim>\<open>__copy_reverse\<close>: the index arithmetic is on 32-bit unsigned numbers and masked. The loop is over \<open>i\<close>
  from 0, with \<open>k\<close> rounds left.
\<close>

fun copy_reverse_loop :: "nat \<Rightarrow> u32 \<Rightarrow> byte list \<Rightarrow> u32 \<Rightarrow> u32 \<Rightarrow> u32 \<Rightarrow> byte list \<Rightarrow> byte list" where
  "copy_reverse_loop 0 len src offset msk i dest = dest"
| "copy_reverse_loop (Suc k) len src offset msk i dest =
     (let dest' = dest[unat (i AND 127) := src ! unat ((len + offset - 1 - i) AND msk)]
      in if len + offset = i + 1 then dest' else copy_reverse_loop k len src offset msk (i + 1) dest')"

definition copy_reverse_masked :: "build \<Rightarrow> byte list \<Rightarrow> u32 \<Rightarrow> byte list \<Rightarrow> u32 \<Rightarrow> u32 \<Rightarrow> byte list" where
  "copy_reverse_masked bd dest len src offset msk =
     copy_reverse_loop (STRING_POSTFIX_MAX_MATCH_LENGTH bd - 1) (len AND 127) src offset msk 0 dest"

definition file_copy_reverse :: "build \<Rightarrow> byte list \<Rightarrow> u32 \<Rightarrow> byte list \<Rightarrow> u32 \<Rightarrow> byte list" where
  "file_copy_reverse bd dest len src offset = copy_reverse_masked bd dest len src offset (of_nat (STRING_POSTFIX_MAX_LENGTH - 1))"

text \<open>
  The answer is \<open>found_key\<close> (\<open>None\<close>: an early return of 0), with the process value, which the call may update.
\<close>

definition mb_postfix :: "build \<Rightarrow> mb_maps \<Rightarrow> u32 \<Rightarrow> execve_map_value \<Rightarrow> execve_map_value \<times> bool option" where
  "mb_postfix bd mm map_id cur =
     (case mm_postfix mm map_id of
        None \<Rightarrow> (cur, None)
      | Some trie \<Rightarrow>
          let mx = STRING_POSTFIX_MAX_MATCH_LENGTH bd;
              bin = ev_bin cur;
              postfix_len = (if bin_path_length bin < int mx then nat (bin_path_length bin) else mx - 1)
          in case mm_postfix_heap mm of
               None \<Rightarrow> (cur, None)
             | Some _ \<Rightarrow>
                 let bin' = (if bin_reversed bin = 0
                             then bin\<lparr>bin_end_r := file_copy_reverse bd (bin_end_r bin) (of_nat postfix_len) (bin_end bin)
                                                     (word_of_int (bin_path_length bin - int postfix_len)),
                                      bin_reversed := 1\<rparr>
                             else bin);
                     data = take postfix_len (bin_end_r bin')
                 in (cur\<lparr>ev_bin := bin'\<rparr>, Some (lpm_lookup trie postfix_len data)))"

definition mb_prefix :: "mb_maps \<Rightarrow> u32 \<Rightarrow> execve_map_value \<Rightarrow> bool option" where
  "mb_prefix mm map_id cur =
     (case mm_prefix mm map_id of
        None \<Rightarrow> None
      | Some trie \<Rightarrow>
          let n = nat (bin_path_length (ev_bin cur));
              data = take (n mod 256) (bin_path (ev_bin cur)) @ replicate (256 - n mod 256) 0
          in Some (lpm_lookup trie n data))"

definition mb_in :: "build \<Rightarrow> mbset \<Rightarrow> mb_maps \<Rightarrow> exec_state \<Rightarrow> u32 \<Rightarrow> u32 \<Rightarrow> execve_map_value \<Rightarrow> execve_map_value \<times> bool option" where
  "mb_in bd mbs mm s selidx mbset_id cur0 =
     (let cur = update_mb_task bd mbs s cur0
      in if mbset_id \<noteq> MBSET_INVALID_ID \<and> bin_mb_bitset (ev_bin cur) AND push_bit (unat mbset_id) 1 \<noteq> 0
         then (cur, Some True)
         else case mm_paths mm selidx of
                None \<Rightarrow> (cur, None)
              | Some paths \<Rightarrow> (cur, Some (bin_path (ev_bin cur) \<in> set paths)))"

definition match_binaries ::
  "build \<Rightarrow> mbset \<Rightarrow> mb_maps \<Rightarrow> exec_state \<Rightarrow> u32 \<Rightarrow> execve_map_value \<Rightarrow> execve_map_value \<times> bool" where
  "match_binaries bd mbs mm s selidx cur =
     (case mm_sel_opts mm selidx of
        None \<Rightarrow> (cur, True)
      | Some opts \<Rightarrow>
          let op = mo_op opts
          in if op = op_filter_none then (cur, True)
             else if bin_path_length (ev_bin cur) < 0 then (cur, False)
             else let res = (if op = op_filter_in \<or> op = op_filter_notin then mb_in bd mbs mm s selidx (mo_mbset_id opts) cur
                             else if bd_large bd \<and> (op = op_filter_str_prefix \<or> op = op_filter_str_notprefix)
                             then (cur, mb_prefix mm (mo_map_id opts) cur)
                             else if bd_large bd \<and> (op = op_filter_str_postfix \<or> op = op_filter_str_notpostfix)
                             then mb_postfix bd mm (mo_map_id opts) cur
                             else (cur, None))
                  in case res of
                       (cur', None) \<Rightarrow> (cur', False)
                     | (cur', Some found) \<Rightarrow> (cur', if is_not_operator op then \<not> found else found))"

section \<open>The reverse copy\<close>

lemma unat_and_127: "unat ((w :: u32) AND 127) = unat w mod 128"
  using unat_and_mask [of w 7] by (simp add: mask_eq_exp_minus_1)

lemma copy_reverse_loop_nth:
  assumes "unat (len + offset) = n" "\<And>w. unat ((w :: u32) AND msk) = unat w mod M"
    and "unat i + k \<le> 127" "length dest = 128" "unat i < n"
  shows "length (copy_reverse_loop k len src offset msk i dest) = 128
      \<and> (\<forall>j. j < unat i \<longrightarrow> copy_reverse_loop k len src offset msk i dest ! j = dest ! j)
      \<and> (\<forall>j. unat i \<le> j \<and> j < min (unat i + k) n \<longrightarrow>
            copy_reverse_loop k len src offset msk i dest ! j = src ! ((n - 1 - j) mod M))"
  using assms(3-)
proof (induction k arbitrary: i dest)
  case 0
  then show ?case by auto
next
  case (Suc k)
  define dest' where "dest' = dest[unat i := src ! ((n - 1 - unat i) mod M)]"
  have i: "unat (i AND 127) = unat i" using Suc.prems(1) by (simp add: unat_and_127)
  have "unat (len + offset - 1 - i) = n - 1 - unat i"
    using Suc.prems(3) assms(1) by (subst unat_sub_u32; simp add: unat_sub_u32)
  then have src: "unat ((len + offset - 1 - i) AND msk) = (n - 1 - unat i) mod M" by (simp add: assms(2))
  have i1: "unat (i + 1) = unat i + 1" using Suc.prems(1) by (intro unat_u32_plus1) simp
  have stop: "(len + offset = i + 1) \<longleftrightarrow> n = unat i + 1"
    using assms(1) i1 by (metis word_unat_eq_iff)
  have step: "copy_reverse_loop (Suc k) len src offset msk i dest =
      (if n = unat i + 1 then dest' else copy_reverse_loop k len src offset msk (i + 1) dest')"
    by (simp add: Let_def i src stop dest'_def)
  have len': "length dest' = 128" using Suc.prems(2) by (simp add: dest'_def)
  have d': "dest' ! unat i = src ! ((n - 1 - unat i) mod M)" "j \<noteq> unat i \<Longrightarrow> dest' ! j = dest ! j" for j
    using Suc.prems(1,2) by (simp_all add: dest'_def)
  show ?case
  proof (cases "n = unat i + 1")
    case True
    then show ?thesis unfolding step using len' d' by (auto simp: le_less_Suc_eq)
  next
    case False
    have "unat (i + 1) < n" using False Suc.prems(3) i1 by simp
    with Suc.IH [of "i + 1" dest'] Suc.prems(1) len' i1
    have IH: "length (copy_reverse_loop k len src offset msk (i + 1) dest') = 128
      \<and> (\<forall>j. j < unat i + 1 \<longrightarrow> copy_reverse_loop k len src offset msk (i + 1) dest' ! j = dest' ! j)
      \<and> (\<forall>j. unat i + 1 \<le> j \<and> j < min (unat i + 1 + k) n \<longrightarrow>
            copy_reverse_loop k len src offset msk (i + 1) dest' ! j = src ! ((n - 1 - j) mod M))" by simp
    have "copy_reverse_loop k len src offset msk (i + 1) dest' ! j = src ! ((n - 1 - j) mod M)"
      if "unat i \<le> j" "j < min (unat i + Suc k) n" for j
      using IH d'(1) that by (cases "j = unat i") auto
    with IH d'(2) False show ?thesis unfolding step by auto
  qed
qed

lemma file_copy_reverse_nth:
  assumes "bd_large bd" "length dest = 128" "m \<le> 127" "0 < n" "n < 256" "m \<le> n" "0 < m"
    and "j < min 127 n"
  shows "length (file_copy_reverse bd dest (of_nat m) src (of_nat (n - m))) = 128"
    and "file_copy_reverse bd dest (of_nat m) src (of_nat (n - m)) ! j = src ! ((n - 1 - j) mod 128)"
proof -
  have "(of_nat m :: u32) AND 127 = of_nat m"
    using assms(3) by (simp add: word_unat_eq_iff unat_and_127 unsigned_of_nat take_bit_nat_eq_self)
  moreover have "unat (of_nat m + of_nat (n - m) :: u32) = n"
    using assms(5,6) by (simp flip: of_nat_add add: unsigned_of_nat take_bit_nat_eq_self)
  ultimately show "length (file_copy_reverse bd dest (of_nat m) src (of_nat (n - m))) = 128"
    "file_copy_reverse bd dest (of_nat m) src (of_nat (n - m)) ! j = src ! ((n - 1 - j) mod 128)"
    using copy_reverse_loop_nth [of "of_nat m" "of_nat (n - m)" n 127 128 0 127 dest src] assms unat_and_127
    by (simp_all add: file_copy_reverse_def copy_reverse_masked_def STRING_POSTFIX_MAX_MATCH_LENGTH_def
        STRING_POSTFIX_MAX_LENGTH_def)
qed

lemma take_rev_suffix:
  "length p \<le> length str \<and> take (length p) (rev str) = p \<longleftrightarrow> (\<exists>q. str = q @ rev p)"
  by (metis append_take_drop_id length_rev length_append le_add2 rev_append rev_rev_ident take_rev append_eq_conv_conj)

section \<open>Properties\<close>

text \<open>
  Suffix matching is right for short binary paths: for a path of 1 to 127 bytes held in the entry's
  suffix field, the reversed key is the reversed path, so a binary matches exactly when some configured
  suffix (stored reversed) is a suffix of its path.
\<close>

theorem mb_postfix_short:
  assumes "bd_large bd" and "mm_postfix mm map_id = Some trie" and "mm_postfix_heap mm \<noteq> None"
    and "bin_reversed (ev_bin cur) = 0" and "bin_path_length (ev_bin cur) = int (length str)"
    and "0 < length str" and "length str \<le> 127"
    and "length (bin_end_r (ev_bin cur)) = 128" and "take (length str) (bin_end (ev_bin cur)) = str"
  shows "snd (mb_postfix bd mm map_id cur) = Some (\<exists>p \<in> set trie. \<exists>q. str = q @ rev p)"
proof -
  let ?n = "length str" and ?dest = "bin_end_r (ev_bin cur)" and ?src = "bin_end (ev_bin cur)"
  define r where "r = file_copy_reverse bd ?dest (of_nat ?n) ?src 0"
  have N: "length r = 128" "\<And>j. j < ?n \<Longrightarrow> r ! j = ?src ! (?n - 1 - j)"
  proof -
    note F = file_copy_reverse_nth [OF assms(1,8,7,6) _ order_refl assms(6), where src = ?src]
    show "length r = 128" using F(1) [of 0] assms(6,7) by (simp add: r_def)
    fix j assume "j < ?n"
    then have "(?n - 1 - j) mod 128 = ?n - 1 - j" using assms(7) by simp
    then show "r ! j = ?src ! (?n - 1 - j)" using F(2) [of j] \<open>j < ?n\<close> assms(7) by (simp add: r_def)
  qed
  have s: "str ! j = ?src ! j" if "j < ?n" for j using assms(9) that by (metis nth_take)
  have rev: "take ?n r = rev str"
    using N assms(7) by (intro nth_equalityI) (auto simp: rev_nth s)
  have "snd (mb_postfix bd mm map_id cur) = Some (lpm_lookup trie ?n (take ?n r))"
    using assms(1-5,7) by (auto simp: mb_postfix_def Let_def STRING_POSTFIX_MAX_MATCH_LENGTH_def r_def)
  then show ?thesis by (simp add: rev lpm_lookup_def take_rev_suffix)
qed


text \<open>The bytes the reversed key is made of, for a path that does not fit the suffix field.\<close>

lemma mb_postfix_long_key:
  assumes "bd_large bd" and "mm_postfix mm map_id = Some trie" and "mm_postfix_heap mm \<noteq> None"
    and "bin_reversed (ev_bin cur) = 0" and "bin_path_length (ev_bin cur) = int n"
    and "128 \<le> n" and "n < 256" and "length (bin_end_r (ev_bin cur)) = 128"
  shows "snd (mb_postfix bd mm map_id cur)
         = Some (lpm_lookup trie 127 (map (\<lambda>j. bin_end (ev_bin cur) ! ((n - 1 - j) mod 128)) [0..<127]))"
proof -
  let ?dest = "bin_end_r (ev_bin cur)" and ?src = "bin_end (ev_bin cur)"
  define r where "r = file_copy_reverse bd ?dest (of_nat 127) ?src (of_nat (n - 127))"
  note F = file_copy_reverse_nth [OF assms(1,8), of 127 n _ ?src]
  have "length r = 128" using F(1) [of 0] assms(6,7) by (simp add: r_def)
  moreover have "r ! j = ?src ! ((n - 1 - j) mod 128)" if "j < 127" for j
    using F(2) [of j] assms(6,7) that by (simp add: r_def)
  ultimately have "take 127 r = map (\<lambda>j. ?src ! ((n - 1 - j) mod 128)) [0..<127]"
    by (intro nth_equalityI) auto
  moreover have "word_of_int (int n - 127) = (of_nat (n - 127) :: u32)"
    using assms(6) by (simp add: of_nat_diff)
  moreover have "\<not> int n < 128" using assms(6) by simp
  ultimately show ?thesis
    using assms(1-5) by (auto simp: mb_postfix_def Let_def STRING_POSTFIX_MAX_MATCH_LENGTH_def r_def)
qed

text \<open>
  Suffix matching looks at the wrong bytes for longer paths. For a path of 128 to 254 bytes, whose last
  127 bytes are what the entry's suffix field holds, a one-byte suffix is compared with the byte at
  \<open>(n - 1) mod 128\<close> of the field, byte \<open>n - 127 + (n - 1) mod 128\<close> of the path, and not with the last byte
  of the path, which is at 126; the two agree only for a path of 255 bytes. The offset passed to the reverse
  copy counts from the start of the path and the field starts later.
\<close>

theorem mb_postfix_long:
  assumes "bd_large bd" and "mm_postfix mm map_id = Some [[b]]" and "mm_postfix_heap mm \<noteq> None"
    and "bin_reversed (ev_bin cur) = 0" and "bin_path_length (ev_bin cur) = int (length str)"
    and "128 \<le> length str" and "length str < 255" and "length (bin_end_r (ev_bin cur)) = 128"
    and "bin_end (ev_bin cur) = drop (length str - 127) str @ [c]"
    and "i = (length str - 1) mod 128"
  shows "i \<noteq> 126 \<and> snd (mb_postfix bd mm map_id cur) = Some ((bin_end (ev_bin cur)) ! i = b)
         \<and> bin_end (ev_bin cur) ! 126 = last str"
proof -
  have i: "i = length str - 129 \<or> length str = 128 \<and> i = 127"
    using assms(6,7,10) by (cases "length str = 128") (auto simp: mod_if)
  have "last str = str ! (length str - 1)" using assms(6) by (intro last_conv_nth) auto
  then have "bin_end (ev_bin cur) ! 126 = last str" using assms(6,9) by (simp add: nth_append)
  moreover have "snd (mb_postfix bd mm map_id cur) = Some ((bin_end (ev_bin cur)) ! i = b)"
    using mb_postfix_long_key [OF assms(1-6) _ assms(8)] assms(7,10)
    by (simp add: lpm_lookup_def upt_rec [of 0])
  moreover have "i \<noteq> 126" using i assms(6,7) by auto
  ultimately show ?thesis by blast
qed

text \<open>
  Prefix matching is right for every path the entry can hold: a binary whose path of at most 255 bytes
  was copied matches exactly when one of the configured strings is a prefix of the path.
\<close>

theorem mb_prefix_exact:
  assumes "mm_prefix mm map_id = Some trie" and "bin_path_length (ev_bin cur) = int (length str)"
    and "length str < 256" and "take (length str) (bin_path (ev_bin cur)) = str"
  shows "mb_prefix mm map_id cur = Some (\<exists>p \<in> set trie. \<exists>q. str = p @ q)"
proof -
  have "(length p \<le> length str \<and> take (length p) (str @ xs) = p) \<longleftrightarrow> (\<exists>q. str = p @ q)" for p xs
    by (auto simp: append_eq_conv_conj) (metis append_take_drop_id)
  moreover have "take (length str mod 256) (bin_path (ev_bin cur)) = str" using assms(3,4) by simp
  ultimately show ?thesis
    using assms(1,2) by (simp add: mb_prefix_def Let_def lpm_lookup_def del: take_append)
qed

lemma update_mb_task_path [simp]: "bin_path (ev_bin (update_mb_task bd mbs s task)) = bin_path (ev_bin task)"
  by (simp add: update_mb_task_def split: option.split)

text \<open>Whether the marks of a process are out of date: on kernels from 5.11, when the generation of the match sets changed since they were made.\<close>

definition marks_outdated :: "build \<Rightarrow> mbset \<Rightarrow> execve_map_value \<Rightarrow> bool" where
  "marks_outdated bd mbs task = (bd_v511 bd \<and> (case mbs_gen mbs of None \<Rightarrow> False | Some gen \<Rightarrow> gen \<noteq> bin_mb_gen (ev_bin task)))"

lemma update_mb_task_bits:
  "bit (bin_mb_bitset (ev_bin (update_mb_task bd mbs s task))) i \<longleftrightarrow>
     bit (bin_mb_bitset (ev_bin task)) i
     \<or> marks_outdated bd mbs task \<and> (\<exists>v \<in> set (lineage s (MB_LOOPS bd) (ek_pid (ev_pkey task))). path_matches mbs (bin_path (ev_bin v)) i)"
  by (simp add: update_mb_task_def marks_outdated_def mb_task_loop_bits split: option.split)

lemma update_mb_task_frame:
  "bin_path (ev_bin (update_mb_task bd mbs s task)) = bin_path (ev_bin task)"
  "bin_path_length (ev_bin (update_mb_task bd mbs s task)) = bin_path_length (ev_bin task)"
  "\<not> marks_outdated bd mbs (update_mb_task bd mbs s task)"
  by (simp_all add: update_mb_task_def marks_outdated_def split: option.split)

lemma and_bit_mask: "(w :: u64) AND 2 ^ n = 0 \<longleftrightarrow> \<not> bit w n"
proof -
  have "w AND push_bit n 1 = push_bit n (of_bool (bit w n))"
    by (rule bit_word_eqI) (auto simp: bit_simps)
  then show ?thesis by (auto simp: push_bit_eq_mult dest: bit_imp_le_length)
qed

lemma match_binaries_in:
  assumes "mm_sel_opts mm selidx = Some opts" and "mo_op opts = op_filter_in \<or> mo_op opts = op_filter_notin"
    and "0 \<le> bin_path_length (ev_bin cur)" and "mm_paths mm selidx = Some paths"
    and "mo_mbset_id opts < 64 \<or> mo_mbset_id opts = MBSET_INVALID_ID" and "i = unat (mo_mbset_id opts)"
  shows "fst (match_binaries bd mbs mm s selidx cur) = update_mb_task bd mbs s cur"
    and "snd (match_binaries bd mbs mm s selidx cur) \<longleftrightarrow>
         (mo_op opts = op_filter_in) =
           (bin_path (ev_bin cur) \<in> set paths
            \<or> mo_mbset_id opts < 64 \<and> bit (bin_mb_bitset (ev_bin (update_mb_task bd mbs s cur))) i)"
  using assms
  by (auto simp: match_binaries_def mb_in_def Let_def and_bit_mask is_not_operator_def update_mb_task_frame tg_consts)

text \<open>
  C38. The In and NotIn operators of \<^verbatim>\<open>matchBinaries\<close>, on every build and whether or not the marks of the process are up to date. For a process with a known
  path and a selector with a set of paths, In accepts exactly when the process's own path is one of the set, or, if the selector has a match-set id (below
  64, else the id is the invalid one), the process is marked with the id, or its marks are out of date and an ancestor within the loop bound runs a
  binary with the id; NotIn is the negation. The answer is cached: asked again with the entry that the call returns and the same match sets, whatever the
  process table then holds, the selector answers the same.
\<close>

theorem match_binaries_in_exact:
  assumes "mm_sel_opts mm selidx = Some opts" and "mo_op opts = op_filter_in \<or> mo_op opts = op_filter_notin"
    and "0 \<le> bin_path_length (ev_bin cur)" and "mm_paths mm selidx = Some paths"
    and "mo_mbset_id opts < 64 \<or> mo_mbset_id opts = MBSET_INVALID_ID" and "i = unat (mo_mbset_id opts)"
    and "match_binaries bd mbs mm s selidx cur = (cur', r)"
  shows "(r \<longleftrightarrow> (mo_op opts = op_filter_in) =
           (bin_path (ev_bin cur) \<in> set paths
            \<or> mo_mbset_id opts < 64
              \<and> (bit (bin_mb_bitset (ev_bin cur)) i
                 \<or> marks_outdated bd mbs cur
                   \<and> (\<exists>v \<in> set (lineage s (MB_LOOPS bd) (ek_pid (ev_pkey cur))). path_matches mbs (bin_path (ev_bin v)) i))))
     \<and> snd (match_binaries bd mbs mm s' selidx cur') = r"
proof -
  have cur': "cur' = update_mb_task bd mbs s cur" using match_binaries_in(1) [OF assms(1-6), of bd mbs s] assms(7) by simp
  have len: "0 \<le> bin_path_length (ev_bin cur')" using assms(3) by (simp add: cur' update_mb_task_frame)
  note first = match_binaries_in(2) [OF assms(1-6), of bd mbs s] and again = match_binaries_in(2) [OF assms(1,2) len assms(4-6), of bd mbs s']
  have "bit (bin_mb_bitset (ev_bin (update_mb_task bd mbs s' cur'))) i = bit (bin_mb_bitset (ev_bin cur')) i"
    unfolding update_mb_task_bits [of bd mbs s' cur'] by (simp add: cur' update_mb_task_frame)
  with again first assms(7) have "snd (match_binaries bd mbs mm s' selidx cur') = r" by (simp add: cur' update_mb_task_frame)
  with first show ?thesis using assms(7) by (simp add: update_mb_task_bits)
qed

section \<open>Concrete runs\<close>

text \<open>A process that runs a binary with the given path, and a configuration for each operator.\<close>

definition running :: "byte list \<Rightarrow> execve_map_value" where
  "running str = (tracked_value 9 6)\<lparr>ev_pkey := \<lparr>ek_pid = 8, ek_ktime = 5\<rparr>,
     ev_bin := zero_binary\<lparr>bin_path_length := int (length str),
       bin_path := str @ replicate (256 - length str) 0,
       bin_end := drop (length str - 127) str @ replicate (128 - min 127 (length str)) 0\<rparr>\<rparr>"

definition mm_example :: mb_maps where
  "mm_example = \<lparr>mm_sel_opts = [0 \<mapsto> \<lparr>mo_op = op_filter_in, mo_map_id = 0, mo_mbset_id = 2\<rparr>], mm_paths = [0 \<mapsto> []],
     mm_prefix = [0 \<mapsto> [[47]]], mm_postfix = [0 \<mapsto> [[99]]], mm_postfix_heap = Some []\<rparr>"

lemmas running_simps = running_def mm_example_def tracked_value_def zero_execve_map_value_def zero_binary_def
  build_v61_def STRING_POSTFIX_MAX_LENGTH_def

theorem mb_postfix_short_witness:
  "snd (mb_postfix build_v61 mm_example 0 (running [47, 98, 99])) = Some True"
proof -
  have "\<exists>q. [47, 98, 99] = q @ rev [99 :: byte]" by (rule exI [of _ "[47, 98]"]) simp
  then show ?thesis
    using mb_postfix_short [of build_v61 mm_example 0 "[[99]]" "running [47, 98, 99]" "[47, 98, 99]"]
    by (simp add: running_simps)
qed

theorem mb_postfix_long_witness:
  "snd (mb_postfix build_v61 mm_example 0 (running (replicate 199 47 @ [99]))) = Some False
   \<and> last (replicate 199 47 @ [99 :: byte]) = 99"
  using mb_postfix_long [of build_v61 mm_example 0 99 "running (replicate 199 47 @ [99])" "replicate 199 47 @ [99]" 0 71]
  by (simp add: running_simps nth_append)

theorem mb_prefix_exact_witness: "mb_prefix mm_example 0 (running [47, 98, 99]) = Some True"
  using mb_prefix_exact [of mm_example 0 "[[47]]" "running [47, 98, 99]" "[47, 98, 99]"] by (simp add: running_simps)

theorem match_binaries_in_exact_witness:
  "snd (match_binaries build_v61 mbs_example mm_example xs_example 0 (running [47]))"
proof -
  have "MB_LOOPS build_v61 = Suc 1023" by (simp add: MB_LOOPS_def build_v61_def)
  then have "tracked_value 8 5 \<in> set (lineage xs_example (MB_LOOPS build_v61) 8)"
    by (simp only: lineage.simps) (simp add: xs_example_table)
  moreover have "path_matches mbs_example (bin_path (ev_bin (tracked_value 8 5))) 2"
    by (simp add: path_matches_def mbs_example_def tracked_value_def zero_execve_map_value_def zero_binary_def
        bit_numeral_rec)
  ultimately have "\<exists>v \<in> set (lineage xs_example (MB_LOOPS build_v61) 8). path_matches mbs_example (bin_path (ev_bin v)) 2"
    by blast
  moreover have "ek_pid (ev_pkey (running [47])) = 8" "bd_v511 build_v61" "mbs_gen mbs_example = Some 3"
    "3 \<noteq> bin_mb_gen (ev_bin (running [47]))" "0 \<le> bin_path_length (ev_bin (running [47]))"
    by (simp_all add: running_simps mbs_example_def)
  ultimately show ?thesis
    using match_binaries_in_exact [of mm_example 0 _ "running [47]" "[]" 2 build_v61 mbs_example xs_example
        "fst (match_binaries build_v61 mbs_example mm_example xs_example 0 (running [47]))" "snd (match_binaries build_v61 mbs_example mm_example xs_example 0 (running [47]))"]
    by (auto simp: mm_example_def marks_outdated_def)
qed

end
