(* ===== verification/Pfilter.thy ===== *)
theory Pfilter
  imports Binaries Process_Event
begin

text \<open>
  Process selectors (\<^verbatim>\<open>process/pfilter.h\<close> and \<^verbatim>\<open>generic_process_filter\<close> of \<^verbatim>\<open>process/generic_calls.h\<close>): the
  first stage of every generic sensor. The compiled policy is the 4096-byte value of \<^verbatim>\<open>filter_map\<close>, written
  by user space and read at byte offsets: the parameter \<open>f\<close>. One selector is checked per tail call.
\<close>

section \<open>Model: single filters\<close>

definition PFILTER_ERROR :: int where [tg_consts]: "PFILTER_ERROR = 3"
definition PFILTER_CONTINUE :: int where [tg_consts]: "PFILTER_CONTINUE = 2"
definition PFILTER_ACCEPT :: int where [tg_consts]: "PFILTER_ACCEPT = 1"
definition PFILTER_REJECT :: int where [tg_consts]: "PFILTER_REJECT = 0"
definition PFILTER_CURR_NOT_FOUND :: int where [tg_consts]: "PFILTER_CURR_NOT_FOUND = 0"
definition PID_SELECTOR_FLAG_NSPID :: u64 where [tg_consts]: "PID_SELECTOR_FLAG_NSPID = 1"
definition PID_SELECTOR_FLAG_FOLLOW :: u64 where [tg_consts]: "PID_SELECTOR_FLAG_FOLLOW = 2"
definition MAX_SELECTOR_VALUES :: nat where [tg_consts]: "MAX_SELECTOR_VALUES = 4"
definition INDEX_MASK :: u32 where [tg_consts]: "INDEX_MASK = 0x3ff"
definition VALUES_MASK :: u32 where [tg_consts]: "VALUES_MASK = 0x1f"
definition NUM_NS_FILTERS_SMALL :: nat where [tg_consts]: "NUM_NS_FILTERS_SMALL = 4"
definition MAX_SELECTORS :: u64 where [tg_consts]: "MAX_SELECTORS = 5"
definition SELECTORS_ACTIVE :: nat where [tg_consts]: "SELECTORS_ACTIVE = 31"
definition MSG_COMMON_FLAG_PROCESS_NOT_FOUND :: byte where [tg_consts]: "MSG_COMMON_FLAG_PROCESS_NOT_FOUND = 16"

definition rd32 :: "byte list \<Rightarrow> nat \<Rightarrow> u32" where
  "rd32 f off = le_word (slice off 4 f)"

definition rd64 :: "byte list \<Rightarrow> nat \<Rightarrow> u64" where
  "rd64 f off = le_word (slice off 8 f)"

definition type_in :: u64 where [tg_consts]: "type_in = 5"
definition type_notin :: u64 where [tg_consts]: "type_notin = 6"

text \<open>The expansions of \<^verbatim>\<open>FIND_PIDSET\<close>: \<open>n\<close> of them are left; \<open>None\<close> is the null pointer.\<close>

fun find_pidset :: "exec_state \<Rightarrow> nat \<Rightarrow> u64 \<Rightarrow> bool \<Rightarrow> execve_map_value option \<Rightarrow> bool" where
  "find_pidset s 0 val isns flt = False"
| "find_pidset s (Suc n) val isns flt =
     (case flt of
        None \<Rightarrow> False
      | Some v \<Rightarrow>
          let pid = (if isns then ev_nspid v else ek_pid (ev_key v));
              ppid = (if isns then 0 else ek_pid (ev_pkey v))
          in if ucast pid = val \<or> ucast ppid = val then True
             else find_pidset s n val isns (map_lookup_elem (xs_map s) (ek_pid (ev_pkey v))))"

definition filter_pidset :: "exec_state \<Rightarrow> u64 \<Rightarrow> u64 \<Rightarrow> execve_map_value \<Rightarrow> bool" where
  "filter_pidset s sel isns enter = find_pidset s 9 sel (isns \<noteq> 0) (Some enter)"

definition filter_pidsets :: "exec_state \<Rightarrow> u64 \<Rightarrow> u64 \<Rightarrow> u64 \<Rightarrow> execve_map_value \<Rightarrow> bool" where
  "filter_pidsets s ty flags sel enter =
     (let isns = flags AND PID_SELECTOR_FLAG_NSPID
      in if isns \<noteq> 0 \<and> ev_nspid enter = 0 then False
         else let found = filter_pidset s sel isns enter
              in if ty = type_in \<and> \<not> found then False
                 else if ty = type_notin \<and> found then False
                 else True)"

definition process_filter_pid1 :: "exec_state \<Rightarrow> u64 \<Rightarrow> u64 \<Rightarrow> u64 \<Rightarrow> u64 \<Rightarrow> execve_map_value \<Rightarrow> int" where
  "process_filter_pid1 s ty flags sel pid enter =
     (if flags AND PID_SELECTOR_FLAG_FOLLOW \<noteq> 0
      then (if \<not> filter_pidsets s ty flags sel enter then PFILTER_REJECT else PFILTER_ACCEPT)
      else if ty = type_in \<and> sel \<noteq> pid then PFILTER_REJECT
      else if ty = type_notin \<and> sel = pid then PFILTER_REJECT
      else PFILTER_ACCEPT)"

definition next_pid_value :: "u32 \<Rightarrow> u32" where
  "next_pid_value off = off + 4"

record selector_filter =
  sf_ty :: u64
  sf_flags :: u64
  sf_len :: u64
  sf_index :: u32

definition filter_value :: "selector_filter \<Rightarrow> byte list \<Rightarrow> u32" where
  "filter_value sf f = (if sf_index sf > 1000 then 0 else rd32 f (4 * (unat (sf_index sf) div 4 mod 1024)))"

definition process_filter_pid :: "exec_state \<Rightarrow> byte list \<Rightarrow> execve_map_value \<Rightarrow> selector_filter \<Rightarrow> int" where
  "process_filter_pid s f enter sf =
     (let pid = (if sf_flags sf AND PID_SELECTOR_FLAG_NSPID \<noteq> 0 then ev_nspid enter else ek_pid (ev_key enter))
      in process_filter_pid1 s (sf_ty sf) (sf_flags sf) (ucast (filter_value sf f)) (ucast pid) enter)"

text \<open>The read of \<^verbatim>\<open>inum[nsid]\<close> comes before the check of \<open>nsid\<close>; its value is dropped when the check fails.\<close>

definition process_filter_namespace :: "byte list \<Rightarrow> msg_ns \<Rightarrow> selector_filter \<Rightarrow> int" where
  "process_filter_namespace f n sf =
     (let nsid = unat (sf_flags sf AND 0xf);
          sel = filter_value sf f
      in if nsid \<ge> ns_max_types then PFILTER_REJECT
         else if sf_ty sf = type_in \<and> sel \<noteq> n ! nsid then PFILTER_REJECT
         else if sf_ty sf = type_notin \<and> sel = n ! nsid then PFILTER_REJECT
         else PFILTER_ACCEPT)"

text \<open>
  The loop over the namespaces: \<open>pick\<close> is the set of bits to look at; the result is whether
  \<^verbatim>\<open>match_ns\<close> was set and whether a change was found.
\<close>

fun ns_change_loop :: "(nat \<Rightarrow> bool) \<Rightarrow> msg_ns \<Rightarrow> msg_ns \<Rightarrow> nat \<Rightarrow> nat \<Rightarrow> bool \<Rightarrow> bool \<times> bool" where
  "ns_change_loop pick init n 0 i m = (m, False)"
| "ns_change_loop pick init n (Suc k) i m =
     (if pick i
      then (if init ! i = 0 then ns_change_loop pick init n k (Suc i) True
            else if init ! i \<noteq> n ! i then (True, True)
            else ns_change_loop pick init n k (Suc i) m)
      else ns_change_loop pick init n k (Suc i) m)"

definition process_filter_namespace_change ::
  "ktask \<Rightarrow> exec_state \<Rightarrow> u64 \<Rightarrow> u64 \<Rightarrow> msg_ns \<Rightarrow> msg_selector_data \<Rightarrow> msg_selector_data \<times> int" where
  "process_filter_namespace_change kt s ty val n sel =
     (case execve_map_get_noinit (current_tgid kt) s of
        None \<Rightarrow> (sel, PFILTER_REJECT)
      | Some init \<Rightarrow>
          if ty = type_in \<or> ty = type_notin
          then (case ns_change_loop (\<lambda>i. (ty = type_in) = bit val i) (ev_ns init) n ns_max_types 0 False of
                  (m, found) \<Rightarrow> (if m then sel\<lparr>sd_match_ns := 1\<rparr> else sel,
                                 if found then PFILTER_ACCEPT else PFILTER_REJECT))
          else (sel, PFILTER_REJECT))"

definition cap_of :: "msg_capabilities \<Rightarrow> u32 \<Rightarrow> u64" where
  "cap_of c ty = (if ty = 0 then cap_permitted c else if ty = 1 then cap_effective c else cap_inheritable c)"

definition process_filter_capabilities :: "u32 \<Rightarrow> u32 \<Rightarrow> u32 \<Rightarrow> u64 \<Rightarrow> msg_ns \<Rightarrow> msg_capabilities \<Rightarrow> int" where
  "process_filter_capabilities ty op ns val n c =
     (if ns \<noteq> 0 \<and> n ! ns_user = ns then PFILTER_REJECT
      else if ty > 2 then PFILTER_REJECT
      else let caps = cap_of c ty
           in if op = op_filter_in then (if caps AND val \<noteq> 0 then PFILTER_ACCEPT else PFILTER_REJECT)
              else (if caps AND val \<noteq> 0 then PFILTER_REJECT else PFILTER_ACCEPT))"

definition process_filter_capability_change ::
  "ktask \<Rightarrow> exec_state \<Rightarrow> u32 \<Rightarrow> u32 \<Rightarrow> u32 \<Rightarrow> u64 \<Rightarrow> msg_ns \<Rightarrow> msg_capabilities \<Rightarrow> msg_selector_data
     \<Rightarrow> msg_selector_data \<times> int" where
  "process_filter_capability_change kt s ty op ns val n c sel =
     (case execve_map_get_noinit (current_tgid kt) s of
        None \<Rightarrow> (sel, PFILTER_REJECT)
      | Some init \<Rightarrow>
          if ns \<noteq> 0 \<and> n ! ns_user = ns then (sel, PFILTER_REJECT)
          else if ty > 2 then (sel, PFILTER_REJECT)
          else let icaps = cap_of (ev_caps init) ty;
                   ccaps = cap_of c ty;
                   mtch = (if icaps AND val \<noteq> ccaps AND val then op = op_filter_in
                           else if icaps \<noteq> ccaps then op = op_filter_notin
                           else False)
               in (if mtch then sel\<lparr>sd_match_cap := 1\<rparr> else sel, if mtch then PFILTER_ACCEPT else PFILTER_REJECT))"

section \<open>Model: a selector\<close>

text \<open>
  The results of up to four values. In the large programs a loop stores result \<open>i\<close> in slot \<open>i\<close>; in the
  small ones the code jumps into an unrolled sequence that fills the slots downwards.
\<close>

fun match_loop :: "(selector_filter \<Rightarrow> int) \<Rightarrow> nat \<Rightarrow> nat \<Rightarrow> selector_filter \<Rightarrow> int list \<Rightarrow> int list" where
  "match_loop pf 0 i sel res = res"
| "match_loop pf (Suc n) i sel res =
     match_loop pf n (Suc i) (sel\<lparr>sf_index := next_pid_value (sf_index sel)\<rparr>) (res[i := pf sel])"

fun match_unrolled :: "(selector_filter \<Rightarrow> int) \<Rightarrow> nat \<Rightarrow> selector_filter \<Rightarrow> int list \<Rightarrow> int list" where
  "match_unrolled pf 0 sel res = res"
| "match_unrolled pf (Suc n) sel res =
     match_unrolled pf n (sel\<lparr>sf_index := next_pid_value (sf_index sel)\<rparr>) (res[n := pf sel])"

definition selector_match :: "build \<Rightarrow> (selector_filter \<Rightarrow> int) \<Rightarrow> selector_filter \<Rightarrow> int" where
  "selector_match bd pf sel =
     (let len = min (unat (sf_len sel)) MAX_SELECTOR_VALUES;
          res0 = replicate MAX_SELECTOR_VALUES (if sf_ty sel = type_notin then 1 else 0);
          res = (if bd_large bd then match_loop pf len 0 sel res0
                 else match_unrolled pf (if len = 0 then 4 else len) sel res0)
      in if sf_ty sel = type_notin then res ! 0 AND res ! 1 AND res ! 2 AND res ! 3
         else res ! 0 OR res ! 1 OR res ! 2 OR res ! 3)"

definition match_pid ::
  "build \<Rightarrow> exec_state \<Rightarrow> byte list \<Rightarrow> execve_map_value \<Rightarrow> u32 \<Rightarrow> u32 \<times> int" where
  "match_pid bd s f enter index0 =
     (let len = rd32 f (unat (index0 AND INDEX_MASK));
          index1 = index0 + 4
      in if len > 4
         then (let off = unat index1;
                   plen = rd32 f (off + 8);
                   sel = \<lparr>sf_ty = ucast (rd32 f off), sf_flags = ucast (rd32 f (off + 4)), sf_len = ucast plen,
                          sf_index = index1 + 12\<rparr>
               in (index1 + 12 + ((plen * 4) AND VALUES_MASK), selector_match bd (process_filter_pid s f enter) sel))
         else (index1, PFILTER_ACCEPT))"

text \<open>The loop over the namespace filters; a rejected one ends the check, which the index \<open>None\<close> stands for.\<close>

fun match_namespaces :: "build \<Rightarrow> byte list \<Rightarrow> msg_ns \<Rightarrow> nat \<Rightarrow> u32 \<Rightarrow> u32 \<Rightarrow> u32 option" where
  "match_namespaces bd f n 0 len index = Some index"
| "match_namespaces bd f n (Suc k) len index =
     (if len > 0
      then (let off = unat (index AND INDEX_MASK);
                nlen = rd32 f (off + 8);
                sel = \<lparr>sf_ty = ucast (rd32 f (off + 4)), sf_flags = ucast (rd32 f off), sf_len = ucast nlen,
                       sf_index = index + 12\<rparr>;
                res = selector_match bd (process_filter_namespace f n) sel
            in if res = PFILTER_REJECT then None
               else match_namespaces bd f n k (len - (12 + nlen * 4)) (index + 12 + ((nlen * 4) AND VALUES_MASK)))
      else match_namespaces bd f n k len index)"

definition match_capabilities :: "byte list \<Rightarrow> msg_ns \<Rightarrow> msg_capabilities \<Rightarrow> u32 \<Rightarrow> u32 \<times> int" where
  "match_capabilities f n c index0 =
     (let len = rd32 f (unat (index0 AND INDEX_MASK)) - 4;
          index1 = index0 + 4;
          off = unat (index1 AND INDEX_MASK)
      in if len > 0
         then (index1 + 20, process_filter_capabilities (rd32 f off) (rd32 f (off + 4)) (rd32 f (off + 8)) (rd64 f (off + 12)) n c)
         else (index1, PFILTER_ACCEPT))"

definition match_changes ::
  "build \<Rightarrow> ktask \<Rightarrow> exec_state \<Rightarrow> byte list \<Rightarrow> msg_ns \<Rightarrow> msg_capabilities \<Rightarrow> u32 \<Rightarrow> msg_selector_data
     \<Rightarrow> msg_selector_data \<times> int" where
  "match_changes bd kt s f n c index0 sel =
     (if \<not> bd_large bd then (sel, PFILTER_ACCEPT)
      else let len1 = rd32 f (unat (index0 AND INDEX_MASK)) - 4;
               index1 = index0 + 4;
               off1 = unat (index1 AND INDEX_MASK);
               r1 = (if len1 > 0
                     then process_filter_namespace_change kt s (ucast (rd32 f off1)) (ucast (rd32 f (off1 + 4))) n sel
                     else (sel, PFILTER_ACCEPT));
               index2 = (if len1 > 0 then index1 + 8 else index1)
           in if snd r1 = PFILTER_REJECT then r1
              else let len2 = rd32 f (unat (index2 AND INDEX_MASK)) - 4;
                       off2 = unat ((index2 + 4) AND INDEX_MASK)
                   in if len2 > 0
                      then process_filter_capability_change kt s (rd32 f off2) (rd32 f (off2 + 4)) (rd32 f (off2 + 8))
                             (rd64 f (off2 + 12)) n c (fst r1)
                      else r1)"

text \<open>The offset of the sections of selector \<open>index\<close>: the table of relative offsets follows the number of selectors.\<close>

definition selector_offset :: "byte list \<Rightarrow> u32 \<Rightarrow> u32" where
  "selector_offset f index =
     (let i1 = index * 4 + 4
      in ((i1 + rd32 f (unat (i1 AND INDEX_MASK))) AND INDEX_MASK) + 4)"

definition selector_sections ::
  "build \<Rightarrow> ktask \<Rightarrow> exec_state \<Rightarrow> byte list \<Rightarrow> u32 \<Rightarrow> execve_map_value \<Rightarrow> msg_ns \<Rightarrow> msg_capabilities
     \<Rightarrow> msg_selector_data \<Rightarrow> msg_selector_data \<times> int" where
  "selector_sections bd kt s f index enter n c sel =
     (case match_pid bd s f enter (selector_offset f index) of
        (i1, r1) \<Rightarrow>
          if r1 = PFILTER_REJECT then (sel, r1)
          else case match_namespaces bd f n (if bd_large bd then ns_max_types else NUM_NS_FILTERS_SMALL)
                      (rd32 f (unat (i1 AND INDEX_MASK)) - 4) (i1 + 4) of
                 None \<Rightarrow> (sel, PFILTER_REJECT)
               | Some i2 \<Rightarrow>
                   (case match_capabilities f n c i2 of
                      (i3, r3) \<Rightarrow> if r3 = PFILTER_REJECT then (sel, r3) else match_changes bd kt s f n c i3 sel))"

text \<open>
  \<^verbatim>\<open>enter\<close> points into the process table (\<open>Some pid\<close>) or at the scratch value of the message (\<open>None\<close>);
  matching binaries writes through it.
\<close>

record kfilter =
  fk_vf :: kvfs
  fk_kt :: ktask
  fk_kp :: kproc
  fk_ktime :: u64
  fk_mbs :: mbset
  fk_mm :: mb_maps
  fk_filter_map :: "u32 \<rightharpoonup> byte list"

record pf_state =
  ps_x :: exec_state
  ps_path :: "byte list option"
  ps_msg :: "msg_generic_kprobe option"

definition put_enter :: "u32 option \<Rightarrow> execve_map_value \<Rightarrow> exec_state \<times> msg_generic_kprobe \<Rightarrow> exec_state \<times> msg_generic_kprobe" where
  "put_enter pl v sm =
     (case pl of
        None \<Rightarrow> (fst sm, (snd sm)\<lparr>gk_curr := v\<rparr>)
      | Some pid \<Rightarrow> (execve_map_write pid (\<lambda>_. v) (fst sm), snd sm))"

definition selector_process_filter ::
  "build \<Rightarrow> kfilter \<Rightarrow> byte list \<Rightarrow> u32 \<Rightarrow> u32 option \<Rightarrow> execve_map_value \<Rightarrow> exec_state \<times> msg_generic_kprobe
     \<Rightarrow> (exec_state \<times> msg_generic_kprobe) \<times> execve_map_value \<times> int" where
  "selector_process_filter bd kf f index pl enter sm =
     (case match_binaries bd (fk_mbs kf) (fk_mm kf) (fst sm) index enter of
        (enter', ok) \<Rightarrow>
          case put_enter pl enter' sm of
            (s', msg') \<Rightarrow>
              if \<not> ok then ((s', msg'), enter', 0)
              else case selector_sections bd (fk_kt kf) s' f index enter' (gk_ns msg') (gk_caps msg') (gk_sel msg') of
                     (sel', r) \<Rightarrow> ((s', msg'\<lparr>gk_sel := sel'\<rparr>), enter', r))"

definition process_filter_done :: "msg_selector_data \<Rightarrow> execve_map_value \<Rightarrow> msg_execve_key \<times> int" where
  "process_filter_done sel enter =
     (\<lparr>ek_pid = ek_pid (ev_key enter), ek_ktime = ek_ktime (ev_key enter)\<rparr>,
      if sd_pass sel then PFILTER_ACCEPT else PFILTER_REJECT)"

section \<open>Model: one tail call, and the run over the selectors\<close>

definition filter_done :: "execve_map_value \<Rightarrow> exec_state \<times> msg_generic_kprobe \<Rightarrow> (exec_state \<times> msg_generic_kprobe) \<times> int" where
  "filter_done enter sm =
     (case process_filter_done (gk_sel (snd sm)) enter of
        (key, r) \<Rightarrow> ((fst sm, (snd sm)\<lparr>gk_current := key\<rparr>), r))"

definition filter_selectors ::
  "build \<Rightarrow> kfilter \<Rightarrow> byte list \<Rightarrow> u32 option \<Rightarrow> execve_map_value \<Rightarrow> exec_state \<times> msg_generic_kprobe
     \<Rightarrow> (exec_state \<times> msg_generic_kprobe) \<times> int" where
  "filter_selectors bd kf f pl enter sm =
     (let sel = gk_sel (snd sm);
          selectors = (scast (rd32 f 0) :: u64)
      in if sd_curr sel > MAX_SELECTORS then filter_done enter sm
         else if selectors = 0
         then filter_done enter (fst sm, (snd sm)\<lparr>gk_sel := sel\<lparr>sd_pass := True\<rparr>\<rparr>)
         else if selectors \<le> sd_curr sel then filter_done enter sm
         else case selector_process_filter bd kf f (ucast (sd_curr sel)) pl enter sm of
                ((s', msg'), enter', pass) \<Rightarrow>
                  let sel1 = (if pass \<noteq> 0
                              then (gk_sel msg')
                                     \<lparr>sd_active := (sd_active (gk_sel msg'))[unat (sd_curr (gk_sel msg') AND 0x1f) := True,
                                                                              SELECTORS_ACTIVE := True],
                                      sd_pass := True\<rparr>
                              else gk_sel msg');
                      sel2 = sel1\<lparr>sd_curr := sd_curr sel1 + 1\<rparr>;
                      sm' = (s', msg'\<lparr>gk_sel := sel2\<rparr>)
                  in if sd_curr sel2 > selectors then filter_done enter' sm' else (sm', PFILTER_CONTINUE))"

definition generic_process_filter :: "build \<Rightarrow> kfilter \<Rightarrow> pf_state \<Rightarrow> pf_state \<times> int" where
  "generic_process_filter bd kf st =
     (case ps_msg st of
        None \<Rightarrow> (st, 0)
      | Some msg0 \<Rightarrow>
          let looked = (case event_find_curr (fk_kt kf) (ps_x st) of
                          (pid, walked, Some v) \<Rightarrow> (ps_path st, msg0, Some (Some pid, v))
                        | (pid, walked, None) \<Rightarrow>
                            (case event_find_curr_probe bd (fk_vf kf) (fk_kt kf) (fk_kp kf) (fk_ktime kf) (ps_path st)
                                    (gk_curr msg0) (gk_exe msg0) of
                               (path', exe', None) \<Rightarrow> (path', msg0\<lparr>gk_exe := exe'\<rparr>, None)
                             | (path', exe', Some v) \<Rightarrow>
                                 (path', msg0\<lparr>gk_exe := exe', gk_curr := v,
                                    gk_common := (gk_common msg0)\<lparr>mc_flags := mc_flags (gk_common msg0) OR MSG_COMMON_FLAG_PROCESS_NOT_FOUND\<rparr>\<rparr>,
                                  Some (None, v))))
          in case looked of
               (path1, msg1, None) \<Rightarrow> (st\<lparr>ps_path := path1, ps_msg := Some msg1\<rparr>, PFILTER_CURR_NOT_FOUND)
             | (path1, msg1, Some (pl, enter)) \<Rightarrow>
                 (case fk_filter_map kf (gk_idx msg1) of
                    None \<Rightarrow> (st\<lparr>ps_path := path1, ps_msg := Some msg1\<rparr>, PFILTER_ERROR)
                  | Some f \<Rightarrow>
                      (case filter_selectors bd kf f pl enter (ps_x st, msg1) of
                         ((x', msg'), r) \<Rightarrow> (st\<lparr>ps_x := x', ps_path := path1, ps_msg := Some msg'\<rparr>, r))))"

text \<open>
  The tail-call program: it calls itself while the filter says to continue, at most \<open>n\<close> times, and goes on to
  the event when it accepts. \<open>None\<close> means that \<open>n\<close> calls were not enough.
\<close>

fun generic_kprobe_process_filter :: "build \<Rightarrow> kfilter \<Rightarrow> nat \<Rightarrow> pf_state \<Rightarrow> (pf_state \<times> bool) option" where
  "generic_kprobe_process_filter bd kf 0 st = None"
| "generic_kprobe_process_filter bd kf (Suc n) st =
     (case generic_process_filter bd kf st of
        (st', r) \<Rightarrow>
          if r = PFILTER_CONTINUE then generic_kprobe_process_filter bd kf n st'
          else Some (st', r = PFILTER_ACCEPT))"

section \<open>The values of a filter\<close>

definition filter_at :: "selector_filter \<Rightarrow> nat \<Rightarrow> selector_filter" where
  "filter_at sel k = sel\<lparr>sf_index := sf_index sel + of_nat (4 * k)\<rparr>"

lemma filter_at_fields [simp]:
  "sf_ty (filter_at sel k) = sf_ty sel" "sf_flags (filter_at sel k) = sf_flags sel" "sf_len (filter_at sel k) = sf_len sel"
  by (simp_all add: filter_at_def)

text \<open>Both variants of the loop compute the disjunction (or the conjunction) over the values.\<close>

lemma of_bool_and_or:
  "(of_bool P AND of_bool Q :: int) = of_bool (P \<and> Q)" "(of_bool P OR of_bool Q :: int) = of_bool (P \<or> Q)"
  by simp_all

lemma selector_match_of_bool:
  assumes "1 \<le> sf_len sel"
  shows "selector_match bd (\<lambda>sf. of_bool (q sf)) sel =
    of_bool (if sf_ty sel = type_notin then \<forall>k < min (unat (sf_len sel)) 4. q (filter_at sel k)
             else \<exists>k < min (unat (sf_len sel)) 4. q (filter_at sel k))"
proof -
  define n where "n = min (unat (sf_len sel)) 4"
  have "1 \<le> unat (sf_len sel)" using assms by (simp add: word_le_nat_alt)
  then consider "n = Suc 0" | "n = Suc (Suc 0)" | "n = Suc (Suc (Suc 0))" | "n = Suc (Suc (Suc (Suc 0)))"
    unfolding n_def by linarith
  moreover have "(4 :: nat) = Suc (Suc (Suc (Suc 0)))" by simp
  moreover have "(1 :: int) = of_bool True" "(0 :: int) = of_bool False" by simp_all
  ultimately show ?thesis
    unfolding selector_match_def MAX_SELECTOR_VALUES_def n_def [symmetric] Let_def
    by cases (simp_all only: match_loop.simps match_unrolled.simps list_update_code replicate.simps nth_Cons_0 nth_Cons_Suc
        numeral_eq_Suc One_nat_def if_True if_False of_bool_and_or nat.distinct cong: if_cong,
        auto simp: All_less_Suc Ex_less_Suc filter_at_def next_pid_value_def ac_simps)
qed

text \<open>A process and the entries met by following parent keys, at most \<open>n\<close> in all.\<close>

fun pid_chain :: "exec_state \<Rightarrow> nat \<Rightarrow> execve_map_value \<Rightarrow> execve_map_value list" where
  "pid_chain s 0 v = []"
| "pid_chain s (Suc n) v = v # (case table s (ek_pid (ev_pkey v)) of None \<Rightarrow> [] | Some p \<Rightarrow> pid_chain s n p)"

lemma find_pidset_None [simp]: "find_pidset s n val isns None = False"
  by (cases n) simp_all

lemma ucast_u32_u64_eq [simp]: "(ucast (a :: u32) :: u64) = ucast b \<longleftrightarrow> a = b"
  by (simp add: word_unat_eq_iff)

lemma ucast_u32_u64_0 [simp]: "0 = (ucast (b :: u32) :: u64) \<longleftrightarrow> 0 = b"
  by (simp add: word_unat_eq_iff)

lemma find_pidset_chain:
  "find_pidset s n (ucast (val :: u32)) False (Some v) \<longleftrightarrow>
     (\<exists>u \<in> set (pid_chain s n v). ek_pid (ev_key u) = val \<or> ek_pid (ev_pkey u) = val)"
proof (induction n arbitrary: v)
  case (Suc n)
  then show ?case by (cases "table s (ek_pid (ev_pkey v))") auto
qed simp

lemma find_pidset_chain_ns:
  assumes "val \<noteq> 0"
  shows "find_pidset s n (ucast (val :: u32)) True (Some v) \<longleftrightarrow> (\<exists>u \<in> set (pid_chain s n v). ev_nspid u = val)"
proof (induction n arbitrary: v)
  case (Suc n)
  then show ?case using assms by (cases "table s (ek_pid (ev_pkey v))") auto
qed simp

text \<open>Whether a pid value of a filter concerns the process, by the flags of the filter.\<close>

definition pid_hit :: "exec_state \<Rightarrow> u64 \<Rightarrow> execve_map_value \<Rightarrow> u32 \<Rightarrow> bool" where
  "pid_hit s flags enter v =
     (let ns = (flags AND PID_SELECTOR_FLAG_NSPID \<noteq> 0);
          pid = (\<lambda>u. if ns then ev_nspid u else ek_pid (ev_key u))
      in if flags AND PID_SELECTOR_FLAG_FOLLOW = 0 then pid enter = v
         else (\<exists>u \<in> set (pid_chain s 9 enter). pid u = v \<or> (\<not> ns \<and> ek_pid (ev_pkey u) = v)))"

lemma process_filter_pid_hit:
  assumes "sf_ty sf = type_in \<or> sf_ty sf = type_notin"
    and "sf_flags sf AND PID_SELECTOR_FLAG_NSPID = 0 \<or> ev_nspid enter \<noteq> 0 \<and> filter_value sf f \<noteq> 0"
  shows "process_filter_pid s f enter sf =
     of_bool ((sf_ty sf = type_in) = pid_hit s (sf_flags sf) enter (filter_value sf f))"
proof (cases "sf_flags sf AND PID_SELECTOR_FLAG_NSPID = 0")
  case True
  then show ?thesis
    using assms(1) find_pidset_chain [of s 9 "filter_value sf f" enter]
    by (auto simp: process_filter_pid_def process_filter_pid1_def pid_hit_def filter_pidsets_def filter_pidset_def Let_def
        tg_consts word_unat_eq_iff)
next
  case False
  then show ?thesis
    using assms find_pidset_chain_ns [of "filter_value sf f" s 9 enter]
    by (auto simp: process_filter_pid_def process_filter_pid1_def pid_hit_def filter_pidsets_def filter_pidset_def Let_def
        tg_consts word_unat_eq_iff)
qed

lemma namespace_hit:
  assumes "sf_ty sf = type_in \<or> sf_ty sf = type_notin" and "unat (sf_flags sf AND 0xf) < ns_max_types"
  shows "process_filter_namespace f n sf =
     of_bool ((sf_ty sf = type_in) = (n ! unat (sf_flags sf AND 0xf) = filter_value sf f))"
  using assms by (auto simp: process_filter_namespace_def Let_def tg_consts)

text \<open>The values of a filter as user space lays them out: 32-bit words from an aligned offset.\<close>

definition holds_values :: "byte list \<Rightarrow> selector_filter \<Rightarrow> u32 list \<Rightarrow> bool" where
  "holds_values f sel vals \<longleftrightarrow>
     unat (sf_index sel) mod 4 = 0 \<and> unat (sf_index sel) + 16 \<le> 1000 \<and> 1 \<le> sf_len sel
     \<and> length vals = min (unat (sf_len sel)) 4
     \<and> slice (unat (sf_index sel)) (4 * length vals) f = concat (map (le_bytes 4) vals)"

lemma slice_slice: "i + n \<le> m \<Longrightarrow> slice i n (slice j m f) = slice (j + i) n f"
  by (simp add: slice_def take_drop min_def add.commute)

lemma slice_concat_words:
  "k < length vals \<Longrightarrow> slice (4 * k) 4 (concat (map (le_bytes 4) vals)) = le_bytes 4 (vals ! k)"
proof (induction vals arbitrary: k)
  case (Cons v vals)
  then show ?case by (cases k) (simp_all add: slice_def)
qed simp

lemma filter_value_at:
  assumes "holds_values f sel vals" and "k < length vals"
  shows "filter_value (filter_at sel k) f = vals ! k"
proof -
  let ?i = "unat (sf_index sel)"
  have k: "k < 4" and i: "?i mod 4 = 0" "?i + 16 \<le> 1000"
    and vals: "slice ?i (4 * length vals) f = concat (map (le_bytes 4) vals)"
    using assms by (auto simp: holds_values_def)
  have k4: "unat (of_nat (4 * k) :: u32) = 4 * k" using k by (simp only: unsigned_of_nat) (simp add: take_bit_nat_eq_self)
  define w where "w = sf_index sel + of_nat (4 * k)"
  have w: "unat w = ?i + 4 * k"
    unfolding w_def using k i k4 by (subst unat_add_lem [THEN iffD1]) (simp_all del: of_nat_mult)
  have "4 * (unat w div 4 mod 1024) = ?i + 4 * k" unfolding w using k i by auto
  moreover have "\<not> w > 1000" using w k i by (simp add: word_less_nat_alt)
  moreover have "sf_index (filter_at sel k) = w" by (simp add: filter_at_def w_def)
  ultimately have "filter_value (filter_at sel k) f = rd32 f (?i + 4 * k)" by (simp only: filter_value_def if_False)
  moreover have "slice (?i + 4 * k) 4 f = le_bytes 4 (vals ! k)"
    using slice_slice [of "4 * k" 4 "4 * length vals" ?i f] slice_concat_words [OF assms(2)] assms(2) vals by simp
  ultimately show ?thesis by (simp add: rd32_def le_word_le_bytes)
qed

text \<open>A filter whose verdict on each value is a membership test accepts by membership among all values.\<close>

lemma selector_match_hits:
  assumes "holds_values f sel vals" and "sf_ty sel = type_in \<or> sf_ty sel = type_notin"
    and "\<And>sf. pf sf = 0 \<or> pf sf = 1"
    and "\<And>k. k < length vals \<Longrightarrow> pf (filter_at sel k) = of_bool ((sf_ty sel = type_in) = P (filter_value (filter_at sel k) f))"
  shows "selector_match bd pf sel =
     (if (sf_ty sel = type_in) = (\<exists>v \<in> set vals. P v) then PFILTER_ACCEPT else PFILTER_REJECT)"
proof -
  have len: "1 \<le> sf_len sel" "length vals = min (unat (sf_len sel)) 4" using assms(1) by (auto simp: holds_values_def)
  have pf: "(pf (filter_at sel k) = 1) \<longleftrightarrow> (sf_ty sel = type_in) = P (vals ! k)" if "k < length vals" for k
    using assms(4) [OF that] filter_value_at [OF assms(1) that] by simp
  have eq: "pf = (\<lambda>sf. of_bool (pf sf = 1))" using assms(3) by (auto simp: fun_eq_iff of_bool_def)
  have ex: "(\<exists>v \<in> set vals. P v) \<longleftrightarrow> (\<exists>k < length vals. P (vals ! k))" by (metis in_set_conv_nth)
  show ?thesis
    by (subst eq, subst selector_match_of_bool [OF len(1)])
      (use assms(2) pf ex in \<open>auto simp: tg_consts simp flip: len(2)\<close>)
qed

section \<open>Properties\<close>


text \<open>
  A namespace filter accepts with In exactly when the inode number of the process's namespace of the
  given kind is one of the values, and with NotIn exactly when it is none of them.
\<close>

theorem namespace_filter_exact:
  assumes "holds_values f sel vals" and "sf_ty sel = type_in \<or> sf_ty sel = type_notin"
    and "unat (sf_flags sel AND 0xf) < ns_max_types"
  shows "selector_match bd (process_filter_namespace f n) sel =
     (if (sf_ty sel = type_in) = (n ! unat (sf_flags sel AND 0xf) \<in> set vals) then PFILTER_ACCEPT else PFILTER_REJECT)"
proof -
  have "selector_match bd (process_filter_namespace f n) sel =
     (if (sf_ty sel = type_in) = (\<exists>v \<in> set vals. n ! unat (sf_flags sel AND 0xf) = v) then PFILTER_ACCEPT else PFILTER_REJECT)"
  proof (rule selector_match_hits [OF assms(1,2)])
    show "process_filter_namespace f n sf = 0 \<or> process_filter_namespace f n sf = 1" for sf
      by (simp add: process_filter_namespace_def Let_def tg_consts)
  qed (use assms(2,3) namespace_hit in simp)
  then show ?thesis by simp
qed


lemma ns_change_loop_exact:
  "ns_change_loop pick init n k i m =
     ((m \<or> (\<exists>j. i \<le> j \<and> j < i + k \<and> pick j \<and> init ! j = 0 ) \<or> (\<exists>j. i \<le> j \<and> j < i + k \<and> pick j \<and> init ! j \<noteq> 0 \<and> init ! j \<noteq> n ! j)),
      (\<exists>j. i \<le> j \<and> j < i + k \<and> pick j \<and> init ! j \<noteq> 0 \<and> init ! j \<noteq> n ! j))"
proof (induction k arbitrary: i m)
  case (Suc k)
  have r: "(\<exists>j. i \<le> j \<and> j < i + Suc k \<and> Q j) \<longleftrightarrow> Q i \<or> (\<exists>j. Suc i \<le> j \<and> j < Suc i + k \<and> Q j)" for Q
    by (rule iffI; clarsimp) (metis Suc_leI le_neq_implies_less, metis Suc_leD le_refl less_add_Suc1 add_Suc)
  show ?case unfolding r by (simp add: Suc.IH)
qed auto

text \<open>
  A namespace-change filter accepts exactly when a selected namespace of the current process was known
  and differs from the one it is in now (selected by the mask for In, by its complement for NotIn); the
  message is marked for a refresh of the entry exactly when it accepts or a selected namespace was unknown;
  a process that is not tracked is rejected.
\<close>

theorem namespace_change_exact:
  assumes "ty = type_in \<or> ty = type_notin" and "table s (current_tgid kt) = Some v"
    and "picked = {i. i < ns_max_types \<and> (ty = type_in) = bit val i}"
    and "changed \<longleftrightarrow> (\<exists>i \<in> picked. ev_ns v ! i \<noteq> 0 \<and> ev_ns v ! i \<noteq> n ! i)"
  shows "process_filter_namespace_change kt s ty val n sel =
     (if changed \<or> (\<exists>i \<in> picked. ev_ns v ! i = 0) then sel\<lparr>sd_match_ns := 1\<rparr> else sel,
      if changed then PFILTER_ACCEPT else PFILTER_REJECT)"
  using assms(1,2) unfolding assms(3,4)
  by (auto simp: process_filter_namespace_change_def execve_map_get_noinit_def ns_change_loop_exact)

lemma word_bits_eq_iff: "(a :: 'a::len word) = b \<longleftrightarrow> (\<forall>i. bit a i = bit b i)"
  by (metis bit_word_eqI)

text \<open>
  A capability-change filter with In accepts exactly when one of the selected capabilities changed since
  the entry was written; with NotIn, when only others changed; unchanged capabilities are never accepted.
\<close>

theorem capability_change_exact:
  assumes "table s (current_tgid kt) = Some v" and "ns = 0 \<or> n ! ns_user \<noteq> ns" and "ty \<le> 2"
    and "changed = {i. bit (cap_of (ev_caps v) ty) i \<noteq> bit (cap_of c ty) i}"
  shows "snd (process_filter_capability_change kt s ty op ns val n c sel) = PFILTER_ACCEPT \<longleftrightarrow>
     (op = op_filter_in \<and> (\<exists>i \<in> changed. bit val i) \<or>
      op = op_filter_notin \<and> changed \<noteq> {} \<and> (\<forall>i \<in> changed. \<not> bit val i))"
proof -
  let ?a = "cap_of (ev_caps v) ty" and ?b = "cap_of c ty"
  have "(?a AND val \<noteq> ?b AND val) \<longleftrightarrow> (\<exists>i \<in> changed. bit val i)"
    unfolding assms(4) by (auto simp: word_bits_eq_iff bit_and_iff)
  moreover have "?a \<noteq> ?b \<longleftrightarrow> changed \<noteq> {}" unfolding assms(4) by (auto simp: word_bits_eq_iff)
  moreover have "\<not> ty > 2" using assms(3) by simp
  ultimately show ?thesis
    using assms(1,2)
    by (auto simp: process_filter_capability_change_def execve_map_get_noinit_def Let_def tg_consts)
qed

section \<open>The run over the selectors\<close>

lemma find_curr_loop_table:
  "find_curr_loop kt s n t p w = (pid, w', Some v) \<Longrightarrow> table s pid = Some v"
  by (induction n arbitrary: t p w) (auto simp: Let_def execve_map_get_noinit_def split: option.splits if_splits)

lemma execve_map_write_same:
  assumes "table s pid = Some v"
  shows "execve_map_write pid (\<lambda>_. v) s = s"
proof -
  have "(bm_elems (xs_map s))(pid := map_option (\<lambda>_. v) (bm_elems (xs_map s) pid)) = bm_elems (xs_map s)"
    using assms by (simp add: map_lookup_elem_def fun_upd_idem_iff)
  then show ?thesis by (simp add: execve_map_write_def map_modify_def)
qed

text \<open>The selector state of the message does not influence the verdict on a selector.\<close>

lemma snd_change_indep:
  "snd (process_filter_namespace_change kt s ty val n sel) = snd (process_filter_namespace_change kt s ty val n sel')"
  "snd (process_filter_capability_change kt s t op ns val n c sel) = snd (process_filter_capability_change kt s t op ns val n c sel')"
  by (auto simp: process_filter_namespace_change_def process_filter_capability_change_def Let_def split_beta split: option.split)

lemma match_changes_indep:
  "snd (match_changes bd kt s f n c i sel) = snd (match_changes bd kt s f n c i sel')"
proof (cases "0 < rd32 f (unat (i AND INDEX_MASK)) - 4")
  case True
  note ns = snd_change_indep(1) [of kt s "ucast (rd32 f (unat (i + 4 AND INDEX_MASK)))"
      "ucast (rd32 f (unat (i + 4 AND INDEX_MASK) + 4))" n sel sel']
  show ?thesis
    unfolding match_changes_def Let_def using True ns by (auto intro!: snd_change_indep(2))
next
  case False
  then show ?thesis unfolding match_changes_def Let_def by (auto intro!: snd_change_indep(2))
qed

lemma selector_sections_indep:
  "snd (selector_sections bd kt s f i enter n c sel) = snd (selector_sections bd kt s f i enter n c sel')"
  by (auto simp: selector_sections_def split: prod.split option.split intro!: match_changes_indep)

text \<open>Two selector states that agree but for the change marks.\<close>

definition same_run :: "msg_selector_data \<Rightarrow> msg_selector_data \<Rightarrow> bool" where
  "same_run a b \<longleftrightarrow> sd_curr a = sd_curr b \<and> sd_pass a = sd_pass b \<and> sd_active a = sd_active b"

lemma change_filters_run:
  "same_run (fst (process_filter_namespace_change kt s ty val n sel)) sel"
  "same_run (fst (process_filter_capability_change kt s t op ns v n c sel)) sel"
  by (simp_all add: process_filter_namespace_change_def process_filter_capability_change_def Let_def same_run_def
      split: prod.split option.split)

lemma same_run_trans: "same_run a b \<Longrightarrow> same_run b c \<Longrightarrow> same_run a c"
  by (simp add: same_run_def)

lemma match_changes_run: "same_run (fst (match_changes bd kt s f n c i sel)) sel"
proof -
  have "same_run sel sel" by (simp add: same_run_def)
  then show ?thesis
    unfolding match_changes_def Let_def
    by (auto intro: change_filters_run same_run_trans [OF change_filters_run(2)])
qed

lemma selector_sections_run: "same_run (fst (selector_sections bd kt s f i enter n c sel)) sel"
proof -
  have "same_run sel sel" by (simp add: same_run_def)
  then show ?thesis
    unfolding selector_sections_def by (auto split: prod.split option.split intro: match_changes_run)
qed

text \<open>One call for a tracked process, when no selector filters on binaries.\<close>

definition selector_passes :: "build \<Rightarrow> kfilter \<Rightarrow> exec_state \<Rightarrow> byte list \<Rightarrow> execve_map_value \<Rightarrow> msg_ns \<Rightarrow> msg_capabilities \<Rightarrow> nat \<Rightarrow> bool" where
  "selector_passes bd kf x f enter n c i \<longleftrightarrow>
     snd (selector_sections bd (fk_kt kf) x f (of_nat i) enter n c
       \<lparr>sd_curr = 0, sd_pass = False, sd_active = [], sd_match_ns = 0, sd_match_cap = 0\<rparr>) \<noteq> 0"

lemma small_counts:
  assumes "k \<le> 6"
  shows "unat (of_nat k :: u64) = k" and "unat (of_nat k :: u32) = k" and "scast (of_nat k :: u32) = (of_nat k :: u64)"
    and "ucast (of_nat k :: u64) = (of_nat k :: u32)" and "unat (of_nat k AND 0x1f :: u64) = k"
proof -
  have "k \<in> {0, 1, 2, 3, 4, 5, 6}" using assms by auto
  then show "unat (of_nat k :: u64) = k" "unat (of_nat k :: u32) = k" "scast (of_nat k :: u32) = (of_nat k :: u64)"
    "ucast (of_nat k :: u64) = (of_nat k :: u32)" "unat (of_nat k AND 0x1f :: u64) = k" by auto
qed

lemma selector_process_filter_no_binaries:
  assumes "mm_sel_opts (fk_mm kf) = (\<lambda>_. None)" and "table x pid = Some enter"
  shows "selector_process_filter bd kf f i (Some pid) enter (x, msg) =
     (let r = selector_sections bd (fk_kt kf) x f i enter (gk_ns msg) (gk_caps msg) (gk_sel msg)
      in ((x, msg\<lparr>gk_sel := fst r\<rparr>), enter, snd r))"
  using assms
  by (simp add: selector_process_filter_def match_binaries_def put_enter_def execve_map_write_same split_beta Let_def)

lemma unat_MAX_SELECTORS: "unat MAX_SELECTORS = 5"
  by (simp add: MAX_SELECTORS_def)

lemma filter_selectors_step:
  assumes "mm_sel_opts (fk_mm kf) = (\<lambda>_. None)" and "table x pid = Some enter"
    and "rd32 f 0 = of_nat n" and "i < n" and "n \<le> 5" and "sd_curr (gk_sel msg) = of_nat i"
    and "p = selector_passes bd kf x f enter (gk_ns msg) (gk_caps msg) i"
  shows "\<exists>sel'. filter_selectors bd kf f (Some pid) enter (x, msg) = ((x, msg\<lparr>gk_sel := sel'\<rparr>), PFILTER_CONTINUE)
    \<and> sd_curr sel' = of_nat (Suc i) \<and> sd_pass sel' = (sd_pass (gk_sel msg) \<or> p)
    \<and> sd_active sel' = (if p then (sd_active (gk_sel msg))[i := True, 31 := True] else sd_active (gk_sel msg))"
proof -
  define r where "r = selector_sections bd (fk_kt kf) x f (of_nat i) enter (gk_ns msg) (gk_caps msg) (gk_sel msg)"
  have p: "p \<longleftrightarrow> snd r \<noteq> 0"
    unfolding assms(7) selector_passes_def r_def using selector_sections_indep by metis
  have run: "sd_curr (fst r) = of_nat i" "sd_pass (fst r) = sd_pass (gk_sel msg)" "sd_active (fst r) = sd_active (gk_sel msg)"
    using selector_sections_run [of bd "fk_kt kf" x f "of_nat i" enter "gk_ns msg" "gk_caps msg" "gk_sel msg"] assms(6)
    by (simp_all add: same_run_def r_def)
  have w: "\<not> (of_nat i :: u64) > MAX_SELECTORS" "(of_nat n :: u64) \<noteq> 0" "\<not> (of_nat n :: u64) \<le> of_nat i"
    "\<not> (of_nat i + 1 :: u64) > of_nat n"
    using assms(4,5) small_counts(1) [of i] small_counts(1) [of n] small_counts(1) [of "Suc i"]
      unat_MAX_SELECTORS
    by (auto simp: word_less_nat_alt word_le_nat_alt word_unat_eq_iff add.commute)
  define sel' where "sel' = (if p then (fst r)\<lparr>sd_active := (sd_active (fst r))[i := True, 31 := True], sd_pass := True\<rparr>
      else fst r)\<lparr>sd_curr := of_nat i + 1\<rparr>"
  have "filter_selectors bd kf f (Some pid) enter (x, msg) = ((x, msg\<lparr>gk_sel := sel'\<rparr>), PFILTER_CONTINUE)"
    using w small_counts(3-5) [of n] small_counts(3-5) [of i] assms(4,5) run p
    by (simp add: filter_selectors_def Let_def assms(3,6) selector_process_filter_no_binaries [OF assms(1,2)]
        r_def [symmetric] sel'_def SELECTORS_ACTIVE_def)
  then show ?thesis using run by (auto simp: sel'_def)
qed

lemma filter_selectors_last:
  assumes "rd32 f 0 = of_nat n" and "1 \<le> n" and "n \<le> 5" and "sd_curr (gk_sel msg) = of_nat n"
  shows "filter_selectors bd kf f pl enter (x, msg) =
     ((x, msg\<lparr>gk_current := \<lparr>ek_pid = ek_pid (ev_key enter), ek_ktime = ek_ktime (ev_key enter)\<rparr>\<rparr>),
      if sd_pass (gk_sel msg) then PFILTER_ACCEPT else PFILTER_REJECT)"
proof -
  have "\<not> (of_nat n :: u64) > MAX_SELECTORS" "(of_nat n :: u64) \<noteq> 0"
    using assms(2,3) small_counts(1) [of n] unat_MAX_SELECTORS by (auto simp: word_less_nat_alt word_unat_eq_iff)
  then show ?thesis
    using small_counts(3) [of n] assms
    by (simp add: filter_selectors_def Let_def filter_done_def process_filter_done_def)
qed

text \<open>The state of the run before selector \<open>i\<close>.\<close>

definition run_at :: "(nat \<Rightarrow> bool) \<Rightarrow> nat \<Rightarrow> msg_generic_kprobe \<Rightarrow> msg_generic_kprobe \<Rightarrow> bool" where
  "run_at passes i msg0 msg \<longleftrightarrow>
     msg = msg0\<lparr>gk_sel := gk_sel msg\<rparr> \<and> sd_curr (gk_sel msg) = of_nat i
     \<and> sd_pass (gk_sel msg) = (\<exists>j < i. passes j)
     \<and> length (sd_active (gk_sel msg)) = 32 \<and> (\<forall>j < i. sd_active (gk_sel msg) ! j = passes j)
     \<and> (\<forall>j < 31. i \<le> j \<longrightarrow> \<not> sd_active (gk_sel msg) ! j) \<and> sd_active (gk_sel msg) ! 31 = (\<exists>j < i. passes j)"

lemma run_at_idx:
  assumes "msg = msg0\<lparr>gk_sel := gk_sel msg\<rparr>" shows "gk_idx msg = gk_idx msg0"
  by (subst assms) simp

lemma generic_process_filter_tracked:
  assumes "ps_msg st = Some msg" and "event_find_curr (fk_kt kf) (ps_x st) = (pid, walked, Some enter)"
    and "fk_filter_map kf (gk_idx msg) = Some f"
    and "filter_selectors bd kf f (Some pid) enter (ps_x st, msg) = ((ps_x st, msg'), r)"
  shows "generic_process_filter bd kf st = (st\<lparr>ps_msg := Some msg'\<rparr>, r)"
  using assms by (simp add: generic_process_filter_def Let_def)

lemma process_filter_run_from:
  assumes "event_find_curr (fk_kt kf) x = (pid, walked, Some enter)"
    and "fk_filter_map kf (gk_idx msg0) = Some f" and "mm_sel_opts (fk_mm kf) = (\<lambda>_. None)"
    and "rd32 f 0 = of_nat n" and "1 \<le> n" and "n \<le> 5"
    and "passes = selector_passes bd kf x f enter (gk_ns msg0) (gk_caps msg0)"
    and "i + k = n" and "ps_x st = x" and "ps_msg st = Some msg" and "run_at passes i msg0 msg"
  shows "\<exists>msg'. generic_kprobe_process_filter bd kf (Suc k) st
       = Some (st\<lparr>ps_msg := Some (msg'\<lparr>gk_current := \<lparr>ek_pid = ek_pid (ev_key enter), ek_ktime = ek_ktime (ev_key enter)\<rparr>\<rparr>)\<rparr>, \<exists>j < n. passes j)
     \<and> run_at passes n msg0 msg'"
  using assms(8-)
proof (induction k arbitrary: i st msg)
  case 0
  have "msg = msg0\<lparr>gk_sel := gk_sel msg\<rparr>" using 0(4) unfolding run_at_def by blast
  then have fields: "gk_idx msg = gk_idx msg0" by (rule run_at_idx)
  have "sd_curr (gk_sel msg) = of_nat n" using 0(1,4) by (simp add: run_at_def)
  note last = filter_selectors_last [OF assms(4-6) this, of bd kf "Some pid" enter x]
  from generic_process_filter_tracked [of st msg kf pid walked enter f bd] last assms(1,2) 0 fields
  show ?case by (intro exI [of _ msg]) (auto simp: run_at_def tg_consts)
next
  case (Suc k)
  note find = find_curr_loop_table [OF assms(1) [unfolded event_find_curr_def]]
  have i: "i < n" using Suc.prems(1) by simp
  have m: "msg = msg0\<lparr>gk_sel := gk_sel msg\<rparr>" "sd_curr (gk_sel msg) = of_nat i" using Suc.prems(4) by (simp_all add: run_at_def)
  have fields: "gk_idx msg = gk_idx msg0" "gk_ns msg = gk_ns msg0" "gk_caps msg = gk_caps msg0"
    by (subst m(1), simp)+
  obtain sel' where sel': "filter_selectors bd kf f (Some pid) enter (x, msg) = ((x, msg\<lparr>gk_sel := sel'\<rparr>), PFILTER_CONTINUE)"
    "sd_curr sel' = of_nat (Suc i)" "sd_pass sel' = (sd_pass (gk_sel msg) \<or> passes i)"
    "sd_active sel' = (if passes i then (sd_active (gk_sel msg))[i := True, 31 := True] else sd_active (gk_sel msg))"
    using filter_selectors_step [OF assms(3) find assms(4) i assms(6) m(2) refl, of bd] unfolding assms(7) fields by blast
  let ?msg' = "msg\<lparr>gk_sel := sel'\<rparr>" and ?st' = "st\<lparr>ps_msg := Some (msg\<lparr>gk_sel := sel'\<rparr>)\<rparr>"
  have step: "generic_process_filter bd kf st = (?st', PFILTER_CONTINUE)"
    using generic_process_filter_tracked [of st msg kf pid walked enter f bd] sel'(1) assms(1,2) Suc.prems(2,3) fields
    by simp
  have "?msg' = msg0\<lparr>gk_sel := sel'\<rparr>" by (subst m(1)) simp
  then have "run_at passes (Suc i) msg0 ?msg'"
    using Suc.prems(4) sel'(2-4) i assms(6)
    by (auto simp: run_at_def less_Suc_eq nth_list_update)
  with Suc.IH [of "Suc i" ?st' ?msg'] Suc.prems(1,2) step
  show ?case by (simp add: tg_consts)
qed

text \<open>
  C21. The selectors are alternatives. For a tracked process and a policy of one to five selectors without
  binary filters, the chain of tail calls ends after one call per selector and one more; it goes on to the event exactly
  when some selector passes, it leaves the process table as it was, it records the process's key in the
  message, and it marks exactly the selectors that passed as active.
\<close>

theorem process_filter_alternatives:
  assumes "event_find_curr (fk_kt kf) (ps_x st) = (pid, walked, Some enter)" and "ps_msg st = Some msg"
    and "fk_filter_map kf (gk_idx msg) = Some f" and "mm_sel_opts (fk_mm kf) = (\<lambda>_. None)"
    and "rd32 f 0 = of_nat n" and "1 \<le> n" and "n \<le> 5"
    and "sd_curr (gk_sel msg) = 0" and "\<not> sd_pass (gk_sel msg)" and "sd_active (gk_sel msg) = replicate 32 False"
    and "passes = selector_passes bd kf (ps_x st) f enter (gk_ns msg) (gk_caps msg)"
  shows "\<exists>msg'. generic_kprobe_process_filter bd kf (Suc n) st = Some (st\<lparr>ps_msg := Some msg'\<rparr>, \<exists>j < n. passes j)
     \<and> gk_current msg' = \<lparr>ek_pid = ek_pid (ev_key enter), ek_ktime = ek_ktime (ev_key enter)\<rparr>
     \<and> (\<forall>j < n. sd_active (gk_sel msg') ! j = passes j)"
proof -
  have "run_at passes 0 msg msg" using assms(8-10) by (simp add: run_at_def)
  from process_filter_run_from [OF assms(1,3-7,11) _ refl assms(2) this] obtain msg' where
    m: "generic_kprobe_process_filter bd kf (Suc n) st
       = Some (st\<lparr>ps_msg := Some (msg'\<lparr>gk_current := \<lparr>ek_pid = ek_pid (ev_key enter), ek_ktime = ek_ktime (ev_key enter)\<rparr>\<rparr>)\<rparr>, \<exists>j < n. passes j)"
    "run_at passes n msg msg'" by auto
  show ?thesis by (rule exI, rule conjI, rule m(1)) (use m(2) in \<open>simp add: run_at_def\<close>)
qed

section \<open>Concrete runs\<close>

text \<open>A policy of one selector: a pid filter for pid 8, and no other filter.\<close>

definition f_words :: "u32 list" where
  "f_words = [1, 4, 40, 20, 5, 0, 1, 8, 4, 4, 4, 4]"

definition f_example :: "byte list" where
  "f_example = concat (map (le_bytes 4) f_words)"

lemma slice_f_example: "k < 12 \<Longrightarrow> slice (4 * k) 4 f_example = le_bytes 4 (f_words ! k)"
  unfolding f_example_def by (rule slice_concat_words) (simp add: f_words_def)

lemma rd32_f_example: "4 * k = off \<Longrightarrow> k < 12 \<Longrightarrow> rd32 f_example off = f_words ! k"
  using slice_f_example [of k] by (auto simp: rd32_def le_word_le_bytes)

lemmas rd32_f_simps =
  rd32_f_example [of 0 0, simplified] rd32_f_example [of 1 4, simplified] rd32_f_example [of 3 12, simplified]
  rd32_f_example [of 4 16, simplified] rd32_f_example [of 5 20, simplified] rd32_f_example [of 6 24, simplified]
  rd32_f_example [of 7 28, simplified] rd32_f_example [of 8 32, simplified] rd32_f_example [of 9 36, simplified]
  rd32_f_example [of 10 40, simplified] rd32_f_example [of 11 44, simplified]

definition sf_example :: selector_filter where
  "sf_example = \<lparr>sf_ty = type_in, sf_flags = 0, sf_len = 1, sf_index = 28\<rparr>"

lemma sf_example_values: "holds_values f_example sf_example [8]"
  using slice_f_example [of 7] by (simp add: holds_values_def sf_example_def f_words_def)


theorem namespace_filter_exact_witness:
  "selector_match build_v61 (process_filter_namespace f_example [8, 0, 0, 0, 0, 0, 0, 0, 0, 0]) sf_example = PFILTER_ACCEPT"
  using namespace_filter_exact [OF sf_example_values, of build_v61 "[8, 0, 0, 0, 0, 0, 0, 0, 0, 0]"]
  by (simp add: sf_example_def tg_consts)

definition v_example :: execve_map_value where
  "v_example = (tracked_value 10 5)\<lparr>ev_ns := [7, 0, 0, 0, 0, 0, 0, 0, 0, 0],
     ev_caps := \<lparr>cap_permitted = 1, cap_effective = 0, cap_inheritable = 0\<rparr>\<rparr>"

definition xs_current :: exec_state where
  "xs_current = xs_example\<lparr>xs_map := \<lparr>bm_elems = [10 \<mapsto> v_example], bm_admit = (\<lambda>_ _. 0)\<rparr>\<rparr>"

lemma xs_current_table: "table xs_current (current_tgid kt_example) = Some v_example"
  by (simp add: xs_current_def map_lookup_elem_def current_tgid_def kt_example_def)

definition sel_example :: msg_selector_data where
  "sel_example = \<lparr>sd_curr = 0, sd_pass = False, sd_active = replicate 32 False, sd_match_ns = 0, sd_match_cap = 0\<rparr>"

theorem namespace_change_exact_witness:
  "snd (process_filter_namespace_change kt_example xs_current type_in 1 [8, 0, 0, 0, 0, 0, 0, 0, 0, 0] sel_example) = PFILTER_ACCEPT"
proof -
  have "0 \<in> {i. i < ns_max_types \<and> (type_in = type_in) = bit (1 :: u64) i}" by (simp add: ns_max_types_def)
  moreover have "ev_ns v_example ! 0 = 7" by (simp add: v_example_def)
  ultimately show ?thesis
    using namespace_change_exact [OF disjI1 [OF refl] xs_current_table refl refl, of 1 "[8, 0, 0, 0, 0, 0, 0, 0, 0, 0]" sel_example]
    by (auto split: if_splits)
qed

theorem capability_change_exact_witness:
  "snd (process_filter_capability_change kt_example xs_current 0 op_filter_in 0 1 (replicate 10 0)
     \<lparr>cap_permitted = 0, cap_effective = 0, cap_inheritable = 0\<rparr> sel_example) = PFILTER_ACCEPT"
proof -
  have "bit (cap_of (ev_caps v_example) 0) 0" by (simp add: cap_of_def v_example_def)
  then show ?thesis
    using capability_change_exact [OF xs_current_table, of 0 "replicate 10 0" 0 _
        "\<lparr>cap_permitted = 0, cap_effective = 0, cap_inheritable = 0\<rparr>" op_filter_in 1 sel_example]
    by (auto simp: cap_of_def)
qed

definition msg_example :: msg_generic_kprobe where
  "msg_example = \<lparr>gk_common = \<lparr>mc_op = 0, mc_flags = 0, mc_size = 0, mc_ktime = 0\<rparr>,
     gk_current = zero_key, gk_ns = replicate 10 0,
     gk_caps = \<lparr>cap_permitted = 0, cap_effective = 0, cap_inheritable = 0\<rparr>,
     gk_func_id = 0, gk_retprobe_id = 0, gk_action = 0, gk_action_arg_id = 0, gk_tid = 0, gk_kernel_stack_id = 0,
     gk_user_stack_id = 0, gk_args = replicate 24000 0, gk_a = replicate 5 0, gk_argsoff = replicate 5 0,
     gk_sel = sel_example, gk_idx = 0, gk_tailcall_index_process = 0, gk_tailcall_index_selector = 0, gk_pass = 0,
     gk_lsm_post = False, gk_curr = zero_execve_map_value, gk_exe = zero_exe,
     gk_path = \<lparr>gp_state = STATE_INIT, gp_off = 0, gp_cnt = 0, gp_path_buf = \<lparr>pt_mnt = 0, pt_dentry = 0\<rparr>,
       gp_path = Path_buf, gp_root_dentry = 0, gp_root_mnt = 0, gp_dentry = 0, gp_vfsmnt = 0, gp_mnt = 0\<rparr>\<rparr>"

definition fk_example :: kfilter where
  "fk_example = \<lparr>fk_vf = vf_example, fk_kt = kt_example, fk_kp = kp_example, fk_ktime = 7, fk_mbs = mbs_example,
     fk_mm = mm_example\<lparr>mm_sel_opts := (\<lambda>_. None)\<rparr>, fk_filter_map = [0 \<mapsto> f_example]\<rparr>"

lemma match_namespaces_empty: "match_namespaces bd f n k 0 index = Some index"
  by (induction k) simp_all

lemma example_passes:
  "selector_passes build_v61 fk_example xs_example f_example (tracked_value 8 5) (replicate 10 0)
     \<lparr>cap_permitted = 0, cap_effective = 0, cap_inheritable = 0\<rparr> 0"
proof -
  have off: "selector_offset f_example 0 = 12"
    by (simp add: selector_offset_def Let_def rd32_f_simps f_words_def INDEX_MASK_def)
  have "selector_match build_v61 (process_filter_pid xs_example f_example (tracked_value 8 5)) sf_example = PFILTER_ACCEPT"
    unfolding sf_example_def
    by (simp add: selector_match_def build_v61_def process_filter_pid_def process_filter_pid1_def filter_value_def
        rd32_f_simps f_words_def tracked_value_def tg_consts)
  then have pid: "match_pid build_v61 xs_example f_example (tracked_value 8 5) 12 = (32, PFILTER_ACCEPT)"
    by (simp add: match_pid_def Let_def rd32_f_simps f_words_def INDEX_MASK_def VALUES_MASK_def sf_example_def type_in_def)
  have len: "rd32 f_example (unat (i AND INDEX_MASK)) - 4 = 0" if "i = 32 \<or> i = 36 \<or> i = 40 \<or> i = 44" for i
    using that by (auto simp: rd32_f_simps f_words_def INDEX_MASK_def)
  show ?thesis
    by (simp add: selector_passes_def selector_sections_def off pid len match_namespaces_empty match_capabilities_def
        match_changes_def Let_def PFILTER_ACCEPT_def PFILTER_REJECT_def)
qed

lemma example_current: "event_find_curr kt_example xs_example = (8, True, Some (tracked_value 8 5))"
proof -
  have "execve_map_get_noinit 10 xs_example = Some zero_execve_map_value" "execve_map_get_noinit 9 xs_example = None"
    "execve_map_get_noinit 8 xs_example = Some (tracked_value 8 5)"
    by (simp_all add: execve_map_get_noinit_def xs_example_def map_lookup_elem_def)
  then show ?thesis
    by (simp add: event_find_curr_def walk_numeral Let_def zero_execve_map_value_def zero_key_def tracked_value_def)
qed

theorem process_filter_alternatives_witness:
  "\<exists>st'. generic_kprobe_process_filter build_v61 fk_example 2
     \<lparr>ps_x = xs_example, ps_path = None, ps_msg = Some msg_example\<rparr> = Some (st', True)"
proof -
  let ?st = "\<lparr>ps_x = xs_example, ps_path = None, ps_msg = Some msg_example\<rparr>"
  have "event_find_curr (fk_kt fk_example) (ps_x ?st) = (8, True, Some (tracked_value 8 5))" "ps_msg ?st = Some msg_example"
    "fk_filter_map fk_example (gk_idx msg_example) = Some f_example" "mm_sel_opts (fk_mm fk_example) = (\<lambda>_. None)"
    "rd32 f_example 0 = of_nat 1" "(1 :: nat) \<le> 1" "(1 :: nat) \<le> 5" "sd_curr (gk_sel msg_example) = 0" "\<not> sd_pass (gk_sel msg_example)"
    "sd_active (gk_sel msg_example) = replicate 32 False"
    by (simp_all add: fk_example_def msg_example_def sel_example_def example_current rd32_f_simps f_words_def)
  from process_filter_alternatives [OF this refl, of build_v61] example_passes show ?thesis
    by (auto simp: msg_example_def numeral_2_eq_2)
qed

end
