(* ===== verification/Arg_Filters.thy ===== *)
theory Arg_Filters
  imports Pfilter
begin

text \<open>
  Argument filters of the generic sensors (\<^verbatim>\<open>process/types/basic.h\<close>): comparisons of integers with values in the
  compiled selector, membership in maps, ranges, string, file and address filters, and \<^verbatim>\<open>selector_arg_offset\<close>,
  which applies the filters of one selector to the collected arguments. The answers of the filter functions,
  0 or 1 in the code, are booleans. The maps that user space fills are the parameter \<open>am\<close>.
\<close>

section \<open>Constants\<close>

definition op_filter_gt :: u32 where [tg_consts]: "op_filter_gt = 1"
definition op_filter_lt :: u32 where [tg_consts]: "op_filter_lt = 2"
definition op_filter_eq :: u32 where [tg_consts]: "op_filter_eq = 3"
definition op_filter_inmap :: u32 where [tg_consts]: "op_filter_inmap = 10"
definition op_filter_notinmap :: u32 where [tg_consts]: "op_filter_notinmap = 11"
definition op_filter_mask :: u32 where [tg_consts]: "op_filter_mask = 12"
definition op_filter_saddr :: u32 where [tg_consts]: "op_filter_saddr = 13"
definition op_filter_daddr :: u32 where [tg_consts]: "op_filter_daddr = 14"
definition op_filter_sport :: u32 where [tg_consts]: "op_filter_sport = 15"
definition op_filter_dport :: u32 where [tg_consts]: "op_filter_dport = 16"
definition op_filter_protocol :: u32 where [tg_consts]: "op_filter_protocol = 17"
definition op_filter_notsport :: u32 where [tg_consts]: "op_filter_notsport = 18"
definition op_filter_notdport :: u32 where [tg_consts]: "op_filter_notdport = 19"
definition op_filter_sportpriv :: u32 where [tg_consts]: "op_filter_sportpriv = 20"
definition op_filter_notsportpriv :: u32 where [tg_consts]: "op_filter_notsportpriv = 21"
definition op_filter_dportpriv :: u32 where [tg_consts]: "op_filter_dportpriv = 22"
definition op_filter_notdportpriv :: u32 where [tg_consts]: "op_filter_notdportpriv = 23"
definition op_filter_notsaddr :: u32 where [tg_consts]: "op_filter_notsaddr = 24"
definition op_filter_notdaddr :: u32 where [tg_consts]: "op_filter_notdaddr = 25"
definition op_filter_family :: u32 where [tg_consts]: "op_filter_family = 28"
definition op_filter_state :: u32 where [tg_consts]: "op_filter_state = 29"
definition op_capabilities_gained :: u32 where [tg_consts]: "op_capabilities_gained = 30"
definition op_in_range :: u32 where [tg_consts]: "op_in_range = 31"
definition op_notin_range :: u32 where [tg_consts]: "op_notin_range = 32"

definition int_type :: u32 where [tg_consts]: "int_type = 1"
definition char_buf :: u32 where [tg_consts]: "char_buf = 2"
definition char_iovec :: u32 where [tg_consts]: "char_iovec = 3"
definition size_type :: u32 where [tg_consts]: "size_type = 4"
definition skb_type :: u32 where [tg_consts]: "skb_type = 5"
definition string_type :: u32 where [tg_consts]: "string_type = 6"
definition sock_type :: u32 where [tg_consts]: "sock_type = 7"
definition s64_ty :: u32 where [tg_consts]: "s64_ty = 10"
definition u64_ty :: u32 where [tg_consts]: "u64_ty = 11"
definition s32_ty :: u32 where [tg_consts]: "s32_ty = 12"
definition u32_ty :: u32 where [tg_consts]: "u32_ty = 13"
definition filename_ty :: u32 where [tg_consts]: "filename_ty = 14"
definition path_ty :: u32 where [tg_consts]: "path_ty = 15"
definition file_ty :: u32 where [tg_consts]: "file_ty = 16"
definition fd_ty :: u32 where [tg_consts]: "fd_ty = 17"
definition syscall64_type :: u32 where [tg_consts]: "syscall64_type = 28"
definition s16_ty :: u32 where [tg_consts]: "s16_ty = 29"
definition u16_ty :: u32 where [tg_consts]: "u16_ty = 30"
definition s8_ty :: u32 where [tg_consts]: "s8_ty = 31"
definition u8_ty :: u32 where [tg_consts]: "u8_ty = 32"
definition kernel_cap_ty :: u32 where [tg_consts]: "kernel_cap_ty = 33"
definition cap_inh_ty :: u32 where [tg_consts]: "cap_inh_ty = 34"
definition cap_prm_ty :: u32 where [tg_consts]: "cap_prm_ty = 35"
definition cap_eff_ty :: u32 where [tg_consts]: "cap_eff_ty = 36"
definition linux_binprm_type :: u32 where [tg_consts]: "linux_binprm_type = 37"
definition data_loc_type :: u32 where [tg_consts]: "data_loc_type = 38"
definition net_dev_ty :: u32 where [tg_consts]: "net_dev_ty = 39"
definition sockaddr_type :: u32 where [tg_consts]: "sockaddr_type = 40"
definition socket_type :: u32 where [tg_consts]: "socket_type = 41"
definition dentry_type :: u32 where [tg_consts]: "dentry_type = 42"

definition MAX_MATCH_VALUES :: nat where [tg_consts]: "MAX_MATCH_VALUES = 4"
definition AF_INET :: u16 where [tg_consts]: "AF_INET = 2"
definition AF_INET6 :: u16 where [tg_consts]: "AF_INET6 = 10"

section \<open>Model: integers\<close>

text \<open>A filter in the compiled policy; \<open>af_value\<close> is the policy from the field \<^verbatim>\<open>value\<close> on.\<close>

record selector_arg_filter =
  af_index :: u32
  af_op :: u32
  af_vallen :: u32
  af_type :: u32
  af_value :: "byte list"

definition arg_filter_at :: "byte list \<Rightarrow> nat \<Rightarrow> selector_arg_filter" where
  "arg_filter_at f off =
     \<lparr>af_index = rd32 f off, af_op = rd32 f (off + 4), af_vallen = rd32 f (off + 8), af_type = rd32 f (off + 12),
      af_value = drop (off + 16) f\<rparr>"

text \<open>The maps of the argument filters and the scratch buffers, which hold what the last use left there.\<close>

record arg_maps =
  am_argfilter :: "u32 \<rightharpoonup> u64 list"
  am_string :: "nat \<Rightarrow> u32 \<rightharpoonup> byte list list"
  am_string_heap :: "byte list option"
  am_zero_heap :: bool
  am_prefix :: "u32 \<rightharpoonup> byte list list"
  am_prefix_heap :: "byte list option"
  am_postfix :: "u32 \<rightharpoonup> byte list list"
  am_postfix_heap :: "byte list option"
  am_addr4 :: "u32 \<rightharpoonup> (nat \<times> byte list) list"
  am_addr6 :: "u32 \<rightharpoonup> (nat \<times> byte list) list"

definition rd16 :: "byte list \<Rightarrow> nat \<Rightarrow> u16" where
  "rd16 f off = le_word (slice off 2 f)"

definition rd8 :: "byte list \<Rightarrow> nat \<Rightarrow> u8" where
  "rd8 f off = le_word (slice off 1 f)"

definition is_signed_type :: "u32 \<Rightarrow> bool" where
  "is_signed_type ty \<longleftrightarrow> ty = s32_ty \<or> ty = s64_ty \<or> ty = int_type"

text \<open>
  The loop over the values of a filter: \<open>test i\<close> is whether value \<open>i\<close> makes the filter answer 1; the loop
  ends when the values, of \<open>step\<close> bytes each, and the eight bytes of the length and type fields fill \<^verbatim>\<open>vallen\<close>.
\<close>

fun selector_val_loop :: "(nat \<Rightarrow> bool) \<Rightarrow> u32 \<Rightarrow> nat \<Rightarrow> nat \<Rightarrow> nat \<Rightarrow> bool" where
  "selector_val_loop test vallen step 0 i = False"
| "selector_val_loop test vallen step (Suc n) i =
     (if test i then True
      else if of_nat (step * Suc i + 8) \<ge> vallen then False
      else selector_val_loop test vallen step n (Suc i))"

definition filter_64ty_selector_val :: "build \<Rightarrow> selector_arg_filter \<Rightarrow> byte list \<Rightarrow> bool" where
  "filter_64ty_selector_val bd flt args =
     (let arg = rd64 args 0; op = af_op flt; sgn = is_signed_type (af_type flt)
      in selector_val_loop
           (\<lambda>i. let w = rd64 (af_value flt) (8 * i)
                in if bd_large bd \<and> op = op_filter_lt then (if sgn then arg <s w else arg < w)
                   else if bd_large bd \<and> op = op_filter_gt then (if sgn then w <s arg else arg < w)
                   else if op = op_filter_eq then arg = w
                   else if op = op_filter_neq then arg \<noteq> w
                   else if op = op_filter_mask then arg AND w \<noteq> 0
                   else False)
           (af_vallen flt) 8 MAX_MATCH_VALUES 0)"

definition filter_32ty_selector_val :: "build \<Rightarrow> selector_arg_filter \<Rightarrow> byte list \<Rightarrow> bool" where
  "filter_32ty_selector_val bd flt args =
     (let arg = rd32 args 0; op = af_op flt; sgn = is_signed_type (af_type flt)
      in selector_val_loop
           (\<lambda>i. let w = rd32 (af_value flt) (4 * i)
                in if bd_large bd \<and> op = op_filter_lt then (if sgn then arg <s w else arg < w)
                   else if bd_large bd \<and> op = op_filter_gt then (if sgn then w <s arg else w < arg)
                   else if op = op_filter_eq then arg = w
                   else if op = op_filter_neq then arg \<noteq> w
                   else if op = op_filter_mask then arg AND w \<noteq> 0
                   else False)
           (af_vallen flt) 4 MAX_MATCH_VALUES 0)"

definition filter_16ty_selector_val :: "selector_arg_filter \<Rightarrow> byte list \<Rightarrow> bool" where
  "filter_16ty_selector_val flt args =
     (let arg = rd16 args 0; op = af_op flt; sgn = is_signed_type (af_type flt)
      in selector_val_loop
           (\<lambda>i. let w = rd32 (af_value flt) (4 * i)
                in if op = op_filter_lt then (if sgn then scast arg <s w else ucast arg < w)
                   else if op = op_filter_gt then (if sgn then w <s scast arg else ucast arg < w)
                   else if op = op_filter_eq then ucast arg = w
                   else if op = op_filter_neq then ucast arg \<noteq> w
                   else if op = op_filter_mask then ucast arg AND w \<noteq> 0
                   else False)
           (af_vallen flt) 4 MAX_MATCH_VALUES 0)"

definition filter_8ty_selector_val :: "selector_arg_filter \<Rightarrow> byte list \<Rightarrow> bool" where
  "filter_8ty_selector_val flt args =
     (let arg = rd8 args 0; op = af_op flt; sgn = is_signed_type (af_type flt)
      in selector_val_loop
           (\<lambda>i. let w = rd32 (af_value flt) (4 * i)
                in if op = op_filter_lt then (if sgn then scast arg <s w else ucast arg < w)
                   else if op = op_filter_gt then (if sgn then w <s scast arg else ucast arg < w)
                   else if op = op_filter_eq then ucast arg = w
                   else if op = op_filter_neq then ucast arg \<noteq> w
                   else if op = op_filter_mask then ucast arg AND w \<noteq> 0
                   else False)
           (af_vallen flt) 4 MAX_MATCH_VALUES 0)"

text \<open>The map number is the single byte \<^verbatim>\<open>filter->value\<close>.\<close>

definition map_op_result :: "u32 \<Rightarrow> bool \<Rightarrow> bool" where
  "map_op_result op pass =
     (if op \<in> {op_filter_inmap, op_filter_sport, op_filter_dport, op_filter_protocol, op_filter_family, op_filter_state}
      then pass
      else if op \<in> {op_filter_notinmap, op_filter_notsport, op_filter_notdport} then \<not> pass
      else False)"

definition filter_8ty_map :: "arg_maps \<Rightarrow> selector_arg_filter \<Rightarrow> byte list \<Rightarrow> bool" where
  "filter_8ty_map am flt args =
     (case am_argfilter am (ucast (rd8 (af_value flt) 0)) of
        None \<Rightarrow> False
      | Some m \<Rightarrow> map_op_result (af_op flt) (ucast (rd8 args 0) \<in> set m))"

definition filter_16ty_map :: "arg_maps \<Rightarrow> selector_arg_filter \<Rightarrow> byte list \<Rightarrow> bool" where
  "filter_16ty_map am flt args =
     (case am_argfilter am (ucast (rd8 (af_value flt) 0)) of
        None \<Rightarrow> False
      | Some m \<Rightarrow> map_op_result (af_op flt) (ucast (rd16 args 0) \<in> set m))"

definition filter_32ty_map :: "arg_maps \<Rightarrow> selector_arg_filter \<Rightarrow> byte list \<Rightarrow> bool" where
  "filter_32ty_map am flt args =
     (case am_argfilter am (ucast (rd8 (af_value flt) 0)) of
        None \<Rightarrow> False
      | Some m \<Rightarrow> map_op_result (af_op flt) (ucast (rd32 args 0) \<in> set m))"

definition filter_64ty_map :: "arg_maps \<Rightarrow> selector_arg_filter \<Rightarrow> byte list \<Rightarrow> bool" where
  "filter_64ty_map am flt args =
     (case am_argfilter am (ucast (rd8 (af_value flt) 0)) of
        None \<Rightarrow> False
      | Some m \<Rightarrow> (if af_op flt = op_filter_inmap then rd64 args 0 \<in> set m
                  else if af_op flt = op_filter_notinmap then rd64 args 0 \<notin> set m
                  else False))"

text \<open>The loop over ranges; \<open>res i\<close> is whether the argument lies in range \<open>i\<close>, \<open>al\<close> is the variable \<^verbatim>\<open>all\<close>.\<close>

fun range_loop :: "(nat \<Rightarrow> bool) \<Rightarrow> u32 \<Rightarrow> u32 \<Rightarrow> nat \<Rightarrow> nat \<Rightarrow> nat \<Rightarrow> bool \<Rightarrow> bool" where
  "range_loop res op vallen step 0 i al = (op = op_notin_range \<and> \<not> al)"
| "range_loop res op vallen step (Suc n) i al =
     (if op = op_in_range \<and> res i then True
      else let al' = (al \<or> res i)
           in if of_nat (2 * step * Suc i + 8) \<ge> vallen then op = op_notin_range \<and> \<not> al'
              else range_loop res op vallen step n (Suc i) al')"

definition filter_64ty_range :: "selector_arg_filter \<Rightarrow> byte list \<Rightarrow> bool" where
  "filter_64ty_range flt args =
     (let arg = rd64 args 0
      in range_loop
           (\<lambda>i. let lo = rd64 (af_value flt) (8 * (2 * i)); hi = rd64 (af_value flt) (8 * (2 * i + 1))
                in if is_signed_type (af_type flt) then lo <=s arg \<and> arg <=s hi else lo \<le> arg \<and> arg \<le> hi)
           (af_op flt) (af_vallen flt) 8 MAX_MATCH_VALUES 0 False)"

definition filter_32ty_range :: "selector_arg_filter \<Rightarrow> byte list \<Rightarrow> bool" where
  "filter_32ty_range flt args =
     (let arg = rd32 args 0
      in range_loop
           (\<lambda>i. let lo = rd32 (af_value flt) (4 * (2 * i)); hi = rd32 (af_value flt) (4 * (2 * i + 1))
                in if is_signed_type (af_type flt) then lo <=s arg \<and> arg <=s hi else lo \<le> arg \<and> arg \<le> hi)
           (af_op flt) (af_vallen flt) 4 MAX_MATCH_VALUES 0 False)"

definition filter_16ty_range :: "selector_arg_filter \<Rightarrow> byte list \<Rightarrow> bool" where
  "filter_16ty_range flt args =
     (let arg = rd16 args 0
      in range_loop
           (\<lambda>i. let lo = rd32 (af_value flt) (4 * (2 * i)); hi = rd32 (af_value flt) (4 * (2 * i + 1))
                in if is_signed_type (af_type flt) then lo <=s scast arg \<and> scast arg <=s hi
                   else lo \<le> ucast arg \<and> ucast arg \<le> hi)
           (af_op flt) (af_vallen flt) 4 MAX_MATCH_VALUES 0 False)"

definition filter_8ty_range :: "selector_arg_filter \<Rightarrow> byte list \<Rightarrow> bool" where
  "filter_8ty_range flt args =
     (let arg = rd8 args 0
      in range_loop
           (\<lambda>i. let lo = rd32 (af_value flt) (4 * (2 * i)); hi = rd32 (af_value flt) (4 * (2 * i + 1))
                in if is_signed_type (af_type flt) then lo <=s scast arg \<and> scast arg <=s hi
                   else lo \<le> ucast arg \<and> ucast arg \<le> hi)
           (af_op flt) (af_vallen flt) 4 MAX_MATCH_VALUES 0 False)"

definition is_val_op :: "u32 \<Rightarrow> bool" where
  "is_val_op op \<longleftrightarrow> op \<in> {op_filter_lt, op_filter_gt, op_filter_eq, op_filter_neq, op_filter_mask}"

definition is_map_op :: "u32 \<Rightarrow> bool" where
  "is_map_op op \<longleftrightarrow> op \<in> {op_filter_inmap, op_filter_notinmap}"

definition is_range_op :: "u32 \<Rightarrow> bool" where
  "is_range_op op \<longleftrightarrow> op \<in> {op_in_range, op_notin_range}"

definition filter_64ty :: "build \<Rightarrow> arg_maps \<Rightarrow> selector_arg_filter \<Rightarrow> byte list \<Rightarrow> bool" where
  "filter_64ty bd am flt args =
     (if is_val_op (af_op flt) then filter_64ty_selector_val bd flt args
      else if is_map_op (af_op flt) then filter_64ty_map am flt args
      else if bd_large bd \<and> is_range_op (af_op flt) then filter_64ty_range flt args
      else False)"

definition filter_32ty :: "build \<Rightarrow> arg_maps \<Rightarrow> selector_arg_filter \<Rightarrow> byte list \<Rightarrow> bool" where
  "filter_32ty bd am flt args =
     (if is_val_op (af_op flt) then filter_32ty_selector_val bd flt args
      else if is_map_op (af_op flt) then filter_32ty_map am flt args
      else if bd_large bd \<and> is_range_op (af_op flt) then filter_32ty_range flt args
      else False)"

definition filter_16ty :: "build \<Rightarrow> arg_maps \<Rightarrow> selector_arg_filter \<Rightarrow> byte list \<Rightarrow> bool" where
  "filter_16ty bd am flt args =
     (if is_val_op (af_op flt) then filter_16ty_selector_val flt args
      else if is_map_op (af_op flt) then filter_16ty_map am flt args
      else if bd_large bd \<and> is_range_op (af_op flt) then filter_16ty_range flt args
      else False)"

definition filter_8ty :: "build \<Rightarrow> arg_maps \<Rightarrow> selector_arg_filter \<Rightarrow> byte list \<Rightarrow> bool" where
  "filter_8ty bd am flt args =
     (if is_val_op (af_op flt) then filter_8ty_selector_val flt args
      else if is_map_op (af_op flt) then filter_8ty_map am flt args
      else if bd_large bd \<and> is_range_op (af_op flt) then filter_8ty_range flt args
      else False)"

section \<open>Model: strings\<close>

text \<open>
  String lengths are at most 4096 here, so that the 16-bit arithmetic of the code does not wrap: natural
  numbers. \<open>STRING_MAPS_SIZE\<close> is the key size of the map with the given number.
\<close>

definition STRING_MAPS_SIZE :: "build \<Rightarrow> nat \<Rightarrow> nat" where
  "STRING_MAPS_SIZE bd i =
     (if i \<le> 5 then 24 * (i + 1) + 1
      else if i = 6 then 256 + 2
      else if i = 7 then (if bd_v511 bd then 512 + 2 else 512)
      else if i = 8 then 1024 + 2
      else if i = 9 then 2048 + 2
      else 4096 + 2)"

definition MAX_STRING :: "build \<Rightarrow> nat" where
  "MAX_STRING bd =
     (if bd_large bd then (if bd_v511 bd then STRING_MAPS_SIZE bd 10 - 2 else STRING_MAPS_SIZE bd 7 - 2)
      else STRING_MAPS_SIZE bd 5 - 1)"

definition string_padded_len :: "build \<Rightarrow> nat \<Rightarrow> nat" where
  "string_padded_len bd len =
     (if len < STRING_MAPS_SIZE bd 5 then (if len mod 24 \<noteq> 0 then (len div 24 + 1) * 24 else len)
      else if len \<le> STRING_MAPS_SIZE bd 6 - 2 then STRING_MAPS_SIZE bd 6 - 2
      else if bd_large bd
      then (if bd_v511 bd
            then (if len \<le> STRING_MAPS_SIZE bd 7 - 2 then STRING_MAPS_SIZE bd 7 - 2
                  else if len \<le> STRING_MAPS_SIZE bd 8 - 2 then STRING_MAPS_SIZE bd 8 - 2
                  else if len \<le> STRING_MAPS_SIZE bd 9 - 2 then STRING_MAPS_SIZE bd 9 - 2
                  else STRING_MAPS_SIZE bd 10 - 2)
            else STRING_MAPS_SIZE bd 7 - 2)
      else STRING_MAPS_SIZE bd 5 - 1)"

definition string_map_index :: "build \<Rightarrow> nat \<Rightarrow> nat" where
  "string_map_index bd padded_len =
     (if padded_len < STRING_MAPS_SIZE bd 5 then padded_len div 24 - 1
      else if bd_large bd
      then (if bd_v511 bd
            then (if padded_len = STRING_MAPS_SIZE bd 6 - 2 then 6
                  else if padded_len = STRING_MAPS_SIZE bd 7 - 2 then 7
                  else if padded_len = STRING_MAPS_SIZE bd 8 - 2 then 8
                  else if padded_len = STRING_MAPS_SIZE bd 9 - 2 then 9
                  else 10)
            else if padded_len = STRING_MAPS_SIZE bd 6 - 2 then 6 else 7)
      else 5)"

definition get_string_map :: "build \<Rightarrow> arg_maps \<Rightarrow> nat \<Rightarrow> u32 \<Rightarrow> byte list list option" where
  "get_string_map bd am index map_idx =
     (if index \<le> (if bd_large bd then if bd_v511 bd then 10 else 7 else 5) then am_string am index map_idx else None)"

definition filter_char_buf_equal :: "build \<Rightarrow> arg_maps \<Rightarrow> selector_arg_filter \<Rightarrow> byte list \<Rightarrow> u32 \<Rightarrow> bool" where
  "filter_char_buf_equal bd am flt arg_str orig_len =
     (if unat orig_len > MAX_STRING bd \<or> orig_len = 0 then False
      else let len = unat orig_len;
               padded_len = string_padded_len bd len;
               index = string_map_index bd padded_len;
               map_idx = rd32 (af_value flt) (4 * (index mod 16))
           in if map_idx = 0xffffffff then False
              else case am_string_heap am of
                     None \<Rightarrow> False
                   | Some heap \<Rightarrow>
                       if \<not> am_zero_heap am then False
                       else let short = (\<not> bd_large bd \<or> index \<le> 5);
                                hdr = (if short then 1 else 2);
                                heap1 = blit 0 (if short then [of_nat len] else le_bytes 2 (of_nat len :: u16)) heap;
                                n = len mod 8192;
                                heap2 = blit hdr (take n arg_str) heap1;
                                heap3 = (if padded_len > n then blit (n + hdr) (replicate ((padded_len - n) mod 4096) 0) heap2
                                         else heap2)
                            in case get_string_map bd am index map_idx of
                                 None \<Rightarrow> False
                               | Some keys \<Rightarrow> take (STRING_MAPS_SIZE bd index) heap3 \<in> set keys)"

definition STRING_PREFIX_MAX_LENGTH :: nat where [tg_consts]: "STRING_PREFIX_MAX_LENGTH = 256"

definition filter_char_buf_prefix :: "arg_maps \<Rightarrow> selector_arg_filter \<Rightarrow> byte list \<Rightarrow> u32 \<Rightarrow> bool" where
  "filter_char_buf_prefix am flt arg_str arg_len0 =
     (case am_prefix am (rd32 (af_value flt) 0) of
        None \<Rightarrow> False
      | Some trie \<Rightarrow>
          if arg_len0 = 0 then False
          else let arg_len = (if unat arg_len0 \<ge> STRING_PREFIX_MAX_LENGTH then STRING_PREFIX_MAX_LENGTH - 1 else unat arg_len0)
               in case am_prefix_heap am of
                    None \<Rightarrow> False
                  | Some data \<Rightarrow> lpm_lookup trie arg_len (blit 0 (take (arg_len mod STRING_PREFIX_MAX_LENGTH) arg_str) data))"

definition copy_reverse :: "build \<Rightarrow> byte list \<Rightarrow> u32 \<Rightarrow> byte list \<Rightarrow> u32 \<Rightarrow> byte list" where
  "copy_reverse bd dest len src offset = copy_reverse_masked bd dest len src offset 4095"

definition filter_char_buf_postfix :: "build \<Rightarrow> arg_maps \<Rightarrow> selector_arg_filter \<Rightarrow> byte list \<Rightarrow> u32 \<Rightarrow> bool" where
  "filter_char_buf_postfix bd am flt arg_str orig_len =
     (case am_postfix am (rd32 (af_value flt) 0) of
        None \<Rightarrow> False
      | Some trie \<Rightarrow>
          if orig_len = 0 then False
          else let mx = of_nat (STRING_POSTFIX_MAX_MATCH_LENGTH bd);
                   arg_len = (if orig_len \<ge> mx then mx - 1 else orig_len)
               in case am_postfix_heap am of
                    None \<Rightarrow> False
                  | Some data \<Rightarrow> lpm_lookup trie (unat arg_len) (copy_reverse bd data arg_len arg_str (orig_len - arg_len)))"

text \<open>The comparison that the two string filters share, on the string and its length.\<close>

definition string_op_match :: "build \<Rightarrow> arg_maps \<Rightarrow> selector_arg_filter \<Rightarrow> byte list \<Rightarrow> u32 \<Rightarrow> bool" where
  "string_op_match bd am flt str len =
     (let op = af_op flt;
          mtch = (if op = op_filter_eq \<or> op = op_filter_neq then filter_char_buf_equal bd am flt str len
                  else if op = op_filter_str_prefix \<or> op = op_filter_str_notprefix then filter_char_buf_prefix am flt str len
                  else if op = op_filter_str_postfix \<or> op = op_filter_str_notpostfix
                  then filter_char_buf_postfix bd am flt str len
                  else False)
      in if is_not_operator op then \<not> mtch else mtch)"

definition filter_char_buf :: "build \<Rightarrow> arg_maps \<Rightarrow> selector_arg_filter \<Rightarrow> byte list \<Rightarrow> nat \<Rightarrow> bool" where
  "filter_char_buf bd am flt args value_off =
     string_op_match bd am flt (drop value_off args) (rd32 args (value_off - 4))"

definition filter_file_buf :: "build \<Rightarrow> arg_maps \<Rightarrow> selector_arg_filter \<Rightarrow> byte list \<Rightarrow> bool" where
  "filter_file_buf bd am flt args =
     (if rd32 args 0 = 0 then False else string_op_match bd am flt (drop 4 args) (rd32 args 0))"

section \<open>Model: addresses\<close>

record tuple_type =
  tu_saddr :: "u64 \<times> u64"
  tu_daddr :: "u64 \<times> u64"
  tu_sport :: u16
  tu_dport :: u16
  tu_protocol :: u16
  tu_family :: u16

definition tuple_at :: "byte list \<Rightarrow> tuple_type" where
  "tuple_at args =
     \<lparr>tu_saddr = (rd64 args 0, rd64 args 8), tu_daddr = (rd64 args 16, rd64 args 24),
      tu_sport = rd16 args 32, tu_dport = rd16 args 34, tu_protocol = rd16 args 36, tu_family = rd16 args 38\<rparr>"

text \<open>A trie with prefixes of any number of bits, the most significant bit of a byte first.\<close>

definition bits_of :: "byte list \<Rightarrow> bool list" where
  "bits_of bs = concat (map (\<lambda>b. map (\<lambda>i. bit b (7 - i)) [0..<8]) bs)"

definition lpm_bits :: "(nat \<times> byte list) list \<Rightarrow> nat \<Rightarrow> byte list \<Rightarrow> bool" where
  "lpm_bits trie n data \<longleftrightarrow> (\<exists>(m, p) \<in> set trie. m \<le> n \<and> take m (bits_of p) = take m (bits_of data))"

definition filter_addr_op_mod :: "u32 \<Rightarrow> bool \<Rightarrow> bool" where
  "filter_addr_op_mod op val =
     (if op = op_filter_saddr \<or> op = op_filter_daddr then val
      else if op = op_filter_notsaddr \<or> op = op_filter_notdaddr then \<not> val
      else False)"

definition filter_addr_map :: "arg_maps \<Rightarrow> selector_arg_filter \<Rightarrow> u64 \<times> u64 \<Rightarrow> u16 \<Rightarrow> bool" where
  "filter_addr_map am flt addr family =
     (if family = AF_INET
      then (case am_addr4 am (rd32 (af_value flt) 0) of
              None \<Rightarrow> filter_addr_op_mod (af_op flt) False
            | Some trie \<Rightarrow> filter_addr_op_mod (af_op flt) (lpm_bits trie 32 (le_bytes 4 (fst addr))))
      else if family = AF_INET6
      then (case am_addr6 am (rd32 (af_value flt) 4) of
              None \<Rightarrow> filter_addr_op_mod (af_op flt) False
            | Some trie \<Rightarrow>
                filter_addr_op_mod (af_op flt) (lpm_bits trie 128 (le_bytes 8 (fst addr) @ le_bytes 8 (snd addr))))
      else False)"

text \<open>The tuple that a socket, packet or address argument carries; \<open>None\<close> for another type.\<close>

definition inet_tuple :: "u32 \<Rightarrow> byte list \<Rightarrow> tuple_type option" where
  "inet_tuple ty args =
     (if ty \<in> {sock_type, socket_type, skb_type} then Some (tuple_at args)
      else if ty = sockaddr_type
      then Some \<lparr>tu_saddr = (rd64 args 8, rd64 args 16), tu_daddr = (0, 0), tu_sport = rd16 args 2, tu_dport = 0,
                 tu_protocol = 0, tu_family = rd16 args 0\<rparr>
      else None)"

definition filter_inet :: "arg_maps \<Rightarrow> selector_arg_filter \<Rightarrow> byte list \<Rightarrow> bool" where
  "filter_inet am flt args =
     (let op = af_op flt; sk = (af_type flt \<in> {sock_type, socket_type})
      in case inet_tuple (af_type flt) args of
           None \<Rightarrow> False
         | Some tuple \<Rightarrow>
             if op \<in> {op_filter_saddr, op_filter_notsaddr} then filter_addr_map am flt (tu_saddr tuple) (tu_family tuple)
             else if op \<in> {op_filter_daddr, op_filter_notdaddr} then filter_addr_map am flt (tu_daddr tuple) (tu_family tuple)
             else if op \<in> {op_filter_sport, op_filter_notsport}
             then filter_32ty_map am flt (le_bytes 4 (ucast (tu_sport tuple) :: u32))
             else if op \<in> {op_filter_dport, op_filter_notdport}
             then filter_32ty_map am flt (le_bytes 4 (ucast (tu_dport tuple) :: u32))
             else if op = op_filter_sportpriv then tu_sport tuple < 1024
             else if op = op_filter_dportpriv then tu_dport tuple < 1024
             else if op = op_filter_notsportpriv then tu_sport tuple \<ge> 1024
             else if op = op_filter_notdportpriv then tu_dport tuple \<ge> 1024
             else if op = op_filter_protocol then filter_32ty_map am flt (le_bytes 4 (ucast (tu_protocol tuple) :: u32))
             else if op = op_filter_family then filter_32ty_map am flt (le_bytes 4 (ucast (tu_family tuple) :: u32))
             else if op = op_filter_state
             then (if sk then filter_32ty_map am flt (le_bytes 4 (ucast (rd8 args 58) :: u32)) else False)
             else False)"

section \<open>Model: the filters of a selector\<close>

text \<open>
  The offset of argument \<open>i\<close>. The array has five elements; the index is only masked to three bits, and an index of
  five or more reads the selector state that follows the array in the message: \<^verbatim>\<open>sel.curr\<close>, then the bytes
  of \<^verbatim>\<open>sel.pass\<close> and \<^verbatim>\<open>sel.active\<close>.
\<close>

definition argsoff_at :: "msg_generic_kprobe \<Rightarrow> nat \<Rightarrow> u64" where
  "argsoff_at e i =
     (if i < 5 then gk_argsoff e ! i
      else if i = 5 then sd_curr (gk_sel e)
      else le_word (map (\<lambda>b. if b then 1 else 0) (slice (8 * (i - 6)) 8 (sd_pass (gk_sel e) # sd_active (gk_sel e)))))"

definition get_arg :: "msg_generic_kprobe \<Rightarrow> u32 \<Rightarrow> byte list" where
  "get_arg e index = drop (unat (argsoff_at e (unat (index AND 7)) AND 0x7ff)) (gk_args e)"

definition arg_passes :: "build \<Rightarrow> arg_maps \<Rightarrow> msg_generic_kprobe \<Rightarrow> selector_arg_filter \<Rightarrow> bool \<Rightarrow> bool" where
  "arg_passes bd am e flt pass =
     (let args = get_arg e (af_index flt); ty = af_type flt
      in if ty = fd_ty then pass \<and> filter_file_buf bd am flt (drop 4 args)
         else if ty \<in> {file_ty, path_ty, dentry_type} \<or> bd_large bd \<and> ty = linux_binprm_type
         then pass \<and> filter_file_buf bd am flt args
         else if ty \<in> {string_type, net_dev_ty, data_loc_type} then pass \<and> filter_char_buf bd am flt args 4
         else if ty = char_buf then pass \<and> filter_char_buf bd am flt args 8
         else if ty \<in> {cap_inh_ty, cap_prm_ty, cap_eff_ty, kernel_cap_ty} \<and> bd_large bd \<and> af_op flt = op_capabilities_gained
         then (let cap_old = rd64 args 0; cap_new = rd64 (get_arg e (rd32 (af_value flt) 0)) 0
               in (cap_old XOR cap_new) AND cap_new \<noteq> 0)
         else if ty \<in> {cap_inh_ty, cap_prm_ty, cap_eff_ty, kernel_cap_ty, syscall64_type, s64_ty, u64_ty}
         then pass \<and> filter_64ty bd am flt args
         else if ty \<in> {size_type, int_type, s32_ty, u32_ty} then pass \<and> filter_32ty bd am flt args
         else if bd_large bd \<and> ty \<in> {s16_ty, u16_ty} then pass \<and> filter_16ty bd am flt args
         else if bd_large bd \<and> ty \<in> {s8_ty, u8_ty} then pass \<and> filter_8ty bd am flt args
         else if ty \<in> {skb_type, sock_type, socket_type, sockaddr_type} then pass \<and> filter_inet am flt args
         else pass)"

definition skip_section :: "byte list \<Rightarrow> u64 \<Rightarrow> u64" where
  "skip_section f off = off + ucast (rd32 f (unat (off AND ucast INDEX_MASK)))"

definition arg_section :: "byte list \<Rightarrow> u32 \<Rightarrow> bool \<Rightarrow> nat" where
  "arg_section f selidx is_entry =
     (let off = skip_section f (4 + ucast (selidx * 4)) + 4
      in unat ((if is_entry then (skip_section f ^^ 5) off else off) AND ucast INDEX_MASK))"

text \<open>The loop over the argument filters; \<open>False\<close> is the answer 0.\<close>

fun arg_filters_loop :: "build \<Rightarrow> arg_maps \<Rightarrow> msg_generic_kprobe \<Rightarrow> byte list \<Rightarrow> nat \<Rightarrow> nat \<Rightarrow> nat \<Rightarrow> bool \<Rightarrow> bool" where
  "arg_filters_loop bd am e f seloff 0 i pass = pass"
| "arg_filters_loop bd am e f seloff (Suc k) i pass =
     (let argsoff = unat (rd32 f (seloff + 4 + 4 * i) AND 0x3ff)
      in if argsoff = 0 then pass
         else let flt = arg_filter_at f ((seloff + argsoff) mod 1024)
              in if af_index flt > 5 then False
                 else arg_filters_loop bd am e f seloff k (Suc i) (arg_passes bd am e flt pass))"

definition selector_arg_offset :: "build \<Rightarrow> arg_maps \<Rightarrow> byte list \<Rightarrow> msg_generic_kprobe \<Rightarrow> u32 \<Rightarrow> bool \<Rightarrow> nat" where
  "selector_arg_offset bd am f e selidx is_entry =
     (let seloff = arg_section f selidx is_entry
      in if rd32 f seloff \<le> 24 then seloff
         else if arg_filters_loop bd am e f seloff (if bd_large bd then 5 else 1) 0 True then seloff
         else 0)"

section \<open>Loops over values\<close>

lemma small_step:
  assumes "step \<le> 16" "m \<le> 4" shows "unat (of_nat (step * m + 8) :: u32) = step * m + 8"
    and "unat (of_nat (2 * step * m + 8) :: u32) = 2 * step * m + 8"
  using mult_le_mono [OF assms]
  by (simp_all only: unsigned_of_nat mult.assoc) (simp_all add: take_bit_nat_eq_self_iff mult.commute)

lemma selector_val_loop_from:
  assumes "0 < step" "step \<le> 16" "n \<le> 4" "i < n" "n \<le> i + k"
  shows "selector_val_loop test (of_nat (step * n + 8)) step k i \<longleftrightarrow> (\<exists>j. i \<le> j \<and> j < n \<and> test j)"
  using assms(4,5)
proof (induction k arbitrary: i)
  case 0
  then show ?case by simp
next
  case (Suc k)
  note u = small_step(1) [OF assms(2)]
  have "Suc i \<le> 4" using Suc.prems(1) assms(3) by simp
  then have stop: "(of_nat (step * Suc i + 8) :: u32) \<ge> of_nat (step * n + 8) \<longleftrightarrow> n \<le> Suc i"
    using u [of "Suc i"] u [OF assms(3)] assms(1) unfolding word_le_nat_alt
    by (metis add_le_cancel_right mult_le_cancel1)
  show ?case
  proof (cases "test i \<or> n \<le> Suc i")
    case True
    then show ?thesis using Suc.prems(1) stop by (auto simp: le_Suc_eq not_less_eq_eq dest: le_antisym)
  next
    case False
    then have "selector_val_loop test (of_nat (step * n + 8)) step (Suc k) i =
        selector_val_loop test (of_nat (step * n + 8)) step k (Suc i)"
      using stop by simp
    also have "\<dots> \<longleftrightarrow> (\<exists>j. Suc i \<le> j \<and> j < n \<and> test j)" using False Suc by simp
    finally show ?thesis using False by (metis Suc_leD Suc_leI le_neq_implies_less)
  qed
qed

lemma selector_val_loop_exact:
  assumes "vallen = of_nat (step * n + 8)" "0 < step" "step \<le> 16" "1 \<le> n" "n \<le> 4"
  shows "selector_val_loop test vallen step MAX_MATCH_VALUES 0 \<longleftrightarrow> (\<exists>j < n. test j)"
  using selector_val_loop_from [OF assms(2,3,5), of 0 MAX_MATCH_VALUES test] assms by (simp add: MAX_MATCH_VALUES_def)

lemma range_loop_from:
  assumes "0 < step" "step \<le> 16" "n \<le> 4" "i < n" "n \<le> i + k" "op = op_in_range \<or> op = op_notin_range"
  shows "range_loop res op (of_nat (2 * step * n + 8)) step k i al \<longleftrightarrow>
    (if op = op_in_range then \<exists>j. i \<le> j \<and> j < n \<and> res j else \<not> al \<and> (\<forall>j. i \<le> j \<and> j < n \<longrightarrow> \<not> res j))"
  using assms(4,5)
proof (induction k arbitrary: i al)
  case 0
  then show ?case by simp
next
  case (Suc k)
  note u = small_step(2) [OF assms(2)]
  have "Suc i \<le> 4" using Suc.prems(1) assms(3) by simp
  then have stop: "(of_nat (2 * step * Suc i + 8) :: u32) \<ge> of_nat (2 * step * n + 8) \<longleftrightarrow> n \<le> Suc i"
    using u [of "Suc i"] u [OF assms(3)] assms(1) unfolding word_le_nat_alt
    by (metis add_le_cancel_right mult_le_cancel1 nat_0_less_mult_iff zero_less_numeral)
  have ne: "op_notin_range \<noteq> op_in_range" by (simp add: tg_consts)
  have split: "(\<exists>j. i \<le> j \<and> j < n \<and> res j) \<longleftrightarrow> res i \<or> (\<exists>j. Suc i \<le> j \<and> j < n \<and> res j)"
    using Suc.prems(1) by (metis Suc_leD Suc_leI le_neq_implies_less le_refl)
  have last: "n \<le> Suc i \<Longrightarrow> \<not> (\<exists>j. Suc i \<le> j \<and> j < n \<and> res j)" by simp
  have IH: "Suc i < n \<Longrightarrow> range_loop res op (of_nat (2 * step * n + 8)) step k (Suc i) (al \<or> res i) \<longleftrightarrow>
    (if op = op_in_range then \<exists>j. Suc i \<le> j \<and> j < n \<and> res j
     else \<not> (al \<or> res i) \<and> \<not> (\<exists>j. Suc i \<le> j \<and> j < n \<and> res j))"
    using Suc.IH [of "Suc i" "al \<or> res i"] Suc.prems(2) by (metis add_Suc_right add_Suc)
  have neg: "(\<forall>j. i \<le> j \<and> j < n \<longrightarrow> \<not> res j) \<longleftrightarrow> \<not> (\<exists>j. i \<le> j \<and> j < n \<and> res j)" by blast
  show ?case
    unfolding range_loop.simps(2) Let_def stop neg split
    using IH last assms(6) ne by (cases "n \<le> Suc i") auto
qed

lemma range_loop_exact:
  assumes "vallen = of_nat (2 * step * n + 8)" "0 < step" "step \<le> 16" "1 \<le> n" "n \<le> 4"
    and "op = op_in_range \<or> op = op_notin_range"
  shows "range_loop res op vallen step MAX_MATCH_VALUES 0 False \<longleftrightarrow>
    (if op = op_in_range then \<exists>j < n. res j else \<forall>j < n. \<not> res j)"
  using range_loop_from [OF assms(2,3,5) _ _ assms(6), of 0 MAX_MATCH_VALUES res False] assms
  by (simp add: MAX_MATCH_VALUES_def)

text \<open>An integer, read with or without its sign.\<close>

definition numval :: "bool \<Rightarrow> 'a::len word \<Rightarrow> int" where
  "numval sg w = (if sg then sint w else uint w)"

lemma numval_less: "numval sg a < numval sg b \<longleftrightarrow> (if sg then a <s b else a < b)"
  by (simp add: numval_def word_sless_alt word_less_def)

lemma numval_le: "numval sg a \<le> numval sg b \<longleftrightarrow> (if sg then a <=s b else a \<le> b)"
  by (simp add: numval_def word_sle_eq word_le_def)

definition filter_values32 :: "selector_arg_filter \<Rightarrow> nat \<Rightarrow> u32 list" where
  "filter_values32 flt n = map (\<lambda>i. rd32 (af_value flt) (4 * i)) [0..<n]"

definition filter_values64 :: "selector_arg_filter \<Rightarrow> nat \<Rightarrow> u64 list" where
  "filter_values64 flt n = map (\<lambda>i. rd64 (af_value flt) (8 * i)) [0..<n]"

lemma in_filter_values:
  "(\<exists>v \<in> set (filter_values32 flt n). P v) \<longleftrightarrow> (\<exists>i < n. P (rd32 (af_value flt) (4 * i)))"
  "(\<exists>v \<in> set (filter_values64 flt n). Q v) \<longleftrightarrow> (\<exists>i < n. Q (rd64 (af_value flt) (8 * i)))"
  "arg \<in> set (filter_values32 flt n) \<longleftrightarrow> (\<exists>i < n. arg = rd32 (af_value flt) (4 * i))"
  "big \<in> set (filter_values64 flt n) \<longleftrightarrow> (\<exists>i < n. big = rd64 (af_value flt) (8 * i))"
  by (auto simp: filter_values32_def filter_values64_def)

lemmas op_names = op_filter_eq_def op_filter_neq_def op_filter_mask_def op_filter_lt_def op_filter_gt_def
  op_filter_inmap_def op_filter_notinmap_def op_in_range_def op_notin_range_def is_val_op_def is_map_op_def is_range_op_def

text \<open>
  A 32-bit argument filter with one to four values answers as its operator says, for signed and unsigned types:
  equal to one of the values, different from one of them, a bit in common with one, below or above one of them.
\<close>

theorem int_filter_exact:
  assumes "af_vallen flt = of_nat (4 * n + 8)" and "1 \<le> n" and "n \<le> 4"
    and "bd_large bd" and "arg = rd32 args 0" and "vs = filter_values32 flt n" and "sg = is_signed_type (af_type flt)"
  shows "filter_32ty bd am (flt\<lparr>af_op := op_filter_eq\<rparr>) args = (arg \<in> set vs)
     \<and> filter_32ty bd am (flt\<lparr>af_op := op_filter_neq\<rparr>) args = (\<exists>v \<in> set vs. arg \<noteq> v)
     \<and> filter_32ty bd am (flt\<lparr>af_op := op_filter_mask\<rparr>) args = (\<exists>v \<in> set vs. arg AND v \<noteq> 0)
     \<and> filter_32ty bd am (flt\<lparr>af_op := op_filter_lt\<rparr>) args = (\<exists>v \<in> set vs. numval sg arg < numval sg v)
     \<and> filter_32ty bd am (flt\<lparr>af_op := op_filter_gt\<rparr>) args = (\<exists>v \<in> set vs. numval sg v < numval sg arg)"
proof -
  note loop = selector_val_loop_exact [OF assms(1) _ _ assms(2,3), simplified]
  show ?thesis
    unfolding assms(5-7) in_filter_values numval_less
    by (simp add: filter_32ty_def filter_32ty_selector_val_def Let_def loop assms(4) op_names in_filter_values)
qed

text \<open>
  The same for 64-bit arguments, up to one operator: \<^verbatim>\<open>GT\<close> on unsigned types compares with the
  wrong relation and accepts the arguments \<^emph>\<open>below\<close> one of the values.
\<close>

theorem int64_filter_exact:
  assumes "af_vallen flt = of_nat (8 * n + 8)" and "1 \<le> n" and "n \<le> 4"
    and "bd_large bd" and "arg = rd64 args 0" and "vs = filter_values64 flt n" and "sg = is_signed_type (af_type flt)"
  shows "filter_64ty bd am (flt\<lparr>af_op := op_filter_eq\<rparr>) args = (arg \<in> set vs)
     \<and> filter_64ty bd am (flt\<lparr>af_op := op_filter_neq\<rparr>) args = (\<exists>v \<in> set vs. arg \<noteq> v)
     \<and> filter_64ty bd am (flt\<lparr>af_op := op_filter_mask\<rparr>) args = (\<exists>v \<in> set vs. arg AND v \<noteq> 0)
     \<and> filter_64ty bd am (flt\<lparr>af_op := op_filter_lt\<rparr>) args = (\<exists>v \<in> set vs. numval sg arg < numval sg v)
     \<and> filter_64ty bd am (flt\<lparr>af_op := op_filter_gt\<rparr>) args =
          (\<exists>v \<in> set vs. if sg then sint v < sint arg else uint arg < uint v)"
proof -
  note loop = selector_val_loop_exact [OF assms(1) _ _ assms(2,3), simplified]
  show ?thesis
    unfolding assms(5-7) in_filter_values numval_less
    by (simp add: filter_64ty_def filter_64ty_selector_val_def Let_def loop assms(4) op_names in_filter_values word_sless_alt word_less_def)
qed

text \<open>
  The filters for 16-bit and 8-bit arguments have the same defect, and since \<^verbatim>\<open>is_signed_type\<close> does not know the small
  signed types, a signed argument of 16 or 8 bits is compared without its sign.
\<close>

lemma small_int_gt_inverted:
  assumes "af_vallen flt = of_nat (4 * n + 8)" and "1 \<le> n" and "n \<le> 4" and "af_op flt = op_filter_gt"
  shows "af_type flt \<in> {u16_ty, s16_ty} \<Longrightarrow>
      filter_16ty bd am flt args = (\<exists>v \<in> set (filter_values32 flt n). uint (rd16 args 0) < uint v)"
    and "af_type flt \<in> {u8_ty, s8_ty} \<Longrightarrow>
      filter_8ty bd am flt args = (\<exists>v \<in> set (filter_values32 flt n). uint (rd8 args 0) < uint v)"
proof -
  note loop = selector_val_loop_exact [OF assms(1) _ _ assms(2,3), simplified]
  have u: "uint (ucast x :: u32) = uint x" "uint (ucast y :: u32) = uint y" for x :: u16 and y :: u8
    by (simp_all add: uint_up_ucast is_up)
  show "af_type flt \<in> {u16_ty, s16_ty} \<Longrightarrow>
      filter_16ty bd am flt args = (\<exists>v \<in> set (filter_values32 flt n). uint (rd16 args 0) < uint v)"
    unfolding in_filter_values
    by (auto simp: filter_16ty_def filter_16ty_selector_val_def Let_def loop assms(4) op_names is_signed_type_def
        u16_ty_def s16_ty_def s32_ty_def s64_ty_def int_type_def word_less_def u)
  show "af_type flt \<in> {u8_ty, s8_ty} \<Longrightarrow>
      filter_8ty bd am flt args = (\<exists>v \<in> set (filter_values32 flt n). uint (rd8 args 0) < uint v)"
    unfolding in_filter_values
    by (auto simp: filter_8ty_def filter_8ty_selector_val_def Let_def loop assms(4) op_names is_signed_type_def
        u8_ty_def s8_ty_def s32_ty_def s64_ty_def int_type_def word_less_def u)
qed

text \<open>Ranges are closed intervals; \<^verbatim>\<open>InRange\<close> asks for one that holds the argument, \<^verbatim>\<open>NotInRange\<close> for none.\<close>

theorem range_filter_exact:
  assumes "af_vallen flt = of_nat (8 * n + 8)" and "1 \<le> n" and "n \<le> 4"
    and "bd_large bd" and "arg = rd32 args 0" and "vs = filter_values32 flt (2 * n)" and "sg = is_signed_type (af_type flt)"
    and "hit = (\<exists>j < n. numval sg (vs ! (2 * j)) \<le> numval sg arg \<and> numval sg arg \<le> numval sg (vs ! (2 * j + 1)))"
  shows "filter_32ty bd am (flt\<lparr>af_op := op_in_range\<rparr>) args = hit
     \<and> filter_32ty bd am (flt\<lparr>af_op := op_notin_range\<rparr>) args = (\<not> hit)"
proof -
  have "af_vallen flt = of_nat (2 * 4 * n + 8)" using assms(1) by simp
  note loop = range_loop_exact [OF this _ _ assms(2,3), simplified]
  have vs: "vs ! (2 * j) = rd32 (af_value flt) (4 * (2 * j))" "vs ! (2 * j + 1) = rd32 (af_value flt) (4 * (2 * j + 1))"
    if "j < n" for j using that by (simp_all add: assms(6) filter_values32_def)
  have hit: "hit = (\<exists>j < n. if sg then rd32 (af_value flt) (4 * (2 * j)) <=s arg \<and> arg <=s rd32 (af_value flt) (4 * (2 * j + 1))
      else rd32 (af_value flt) (4 * (2 * j)) \<le> arg \<and> arg \<le> rd32 (af_value flt) (4 * (2 * j + 1)))"
    unfolding assms(8) numval_le using vs by auto
  show ?thesis
    unfolding hit
    by (simp add: filter_32ty_def filter_32ty_range_def Let_def loop assms(4,5,7) op_names)
qed

section \<open>String keys\<close>

text \<open>
  The key under which user space stores a string: its length (one byte, or two in the maps for long strings), the
  string, and zeroes up to the key size of the smallest map that takes it.
\<close>

definition string_index :: "build \<Rightarrow> byte list \<Rightarrow> nat" where
  "string_index bd str = string_map_index bd (string_padded_len bd (length str))"

definition string_key :: "build \<Rightarrow> byte list \<Rightarrow> byte list" where
  "string_key bd str =
     (if \<not> bd_large bd \<or> string_index bd str \<le> 5 then [of_nat (length str)] else le_bytes 2 (of_nat (length str) :: u16))
     @ str @ replicate (string_padded_len bd (length str) - length str) 0"

definition storable :: "build \<Rightarrow> byte list \<Rightarrow> bool" where
  "storable bd str \<longleftrightarrow> 0 < length str \<and> length str \<le> MAX_STRING bd"

lemma pad24:
  assumes "0 < len" "len < (145 :: nat)"
  defines "p \<equiv> (if len mod 24 \<noteq> 0 then (len div 24 + 1) * 24 else len)"
  shows "len \<le> p" and "p < 145" and "p div 24 - 1 \<le> 5" and "p = 24 * (p div 24 - 1 + 1)"
proof -
  obtain q r where len: "len = 24 * q + r" "r < 24" by (metis mod_less_divisor mult_div_mod_eq zero_less_numeral)
  define m where "m = (if r = 0 then q else q + 1)"
  have "p = 24 * m" using len by (simp add: p_def m_def)
  moreover have "1 \<le> m" "m \<le> 6" "len \<le> 24 * m" using assms(1,2) len by (auto simp: m_def)
  ultimately show "len \<le> p" "p < 145" "p div 24 - 1 \<le> 5" "p = 24 * (p div 24 - 1 + 1)" by auto
qed

lemma string_sizes:
  assumes "storable bd str"
  defines "p \<equiv> string_padded_len bd (length str)" and "i \<equiv> string_index bd str"
  shows "length str \<le> p" and "p \<le> 4096" and "p - length str < 4096" and "i \<le> (if bd_large bd then if bd_v511 bd then 10 else 7 else 5)"
    and "STRING_MAPS_SIZE bd i = p + (if \<not> bd_large bd \<or> i \<le> 5 then 1 else 2)"
    and "i \<le> 5 \<Longrightarrow> length str \<le> 144"
proof -
  have "length str \<le> p \<and> p \<le> 4096 \<and> p - length str < 4096 \<and> i \<le> (if bd_large bd then if bd_v511 bd then 10 else 7 else 5)
    \<and> STRING_MAPS_SIZE bd i = p + (if \<not> bd_large bd \<or> i \<le> 5 then 1 else 2) \<and> (i \<le> 5 \<longrightarrow> length str \<le> 144)"
  proof (cases "length str < 145")
    case True
    note P = pad24 [OF _ True]
    have p: "p = (if length str mod 24 \<noteq> 0 then (length str div 24 + 1) * 24 else length str)"
      using True by (simp add: p_def string_padded_len_def STRING_MAPS_SIZE_def)
    have "0 < length str" using assms(1) by (simp add: storable_def)
    note P = P [OF this, folded p]
    have i: "i = p div 24 - 1" using P(2) by (simp add: i_def string_index_def string_map_index_def STRING_MAPS_SIZE_def p_def)
    have "STRING_MAPS_SIZE bd i = p + 1" using P(3,4) by (simp add: STRING_MAPS_SIZE_def i)
    then show ?thesis using P(1-3) True by (auto simp: i)
  next
    case False
    then have "bd_large bd" "length str \<le> (if bd_v511 bd then 4096 else 510)"
      using assms(1) by (auto simp: storable_def MAX_STRING_def STRING_MAPS_SIZE_def split: if_splits)
    with False show ?thesis
      by (cases "bd_v511 bd") (auto simp: p_def i_def string_index_def string_padded_len_def string_map_index_def STRING_MAPS_SIZE_def)
  qed
  then show "length str \<le> p" and "p \<le> 4096" and "p - length str < 4096" and "i \<le> (if bd_large bd then if bd_v511 bd then 10 else 7 else 5)"
    and "STRING_MAPS_SIZE bd i = p + (if \<not> bd_large bd \<or> i \<le> 5 then 1 else 2)" and "i \<le> 5 \<Longrightarrow> length str \<le> 144"
    by blast+
qed

lemma length_string_key: "storable bd str \<Longrightarrow> length (string_key bd str) = STRING_MAPS_SIZE bd (string_index bd str)"
  using string_sizes(1,5) [of bd str] by (auto simp: string_key_def)

text \<open>Within one map, different strings have different keys, also when they end in zeroes.\<close>

lemma string_key_inj:
  assumes "storable bd s" "storable bd t" "string_index bd s = string_index bd t" "string_key bd s = string_key bd t"
  shows "s = t"
proof -
  have len: "length s = length t"
  proof (cases "\<not> bd_large bd \<or> string_index bd t \<le> 5")
    case True
    then have "(of_nat (length s) :: byte) = of_nat (length t)"
      using assms(3,4) by (auto simp: string_key_def)
    moreover have "length s < 256" "length t < 256"
      using True string_sizes(4,6) [OF assms(1)] string_sizes(4,6) [OF assms(2)] assms(3) by (auto split: if_splits)
    ultimately show ?thesis
      by (simp add: word_of_nat_eq_iff take_bit_nat_eq_self)
  next
    case False
    then have "le_bytes 2 (of_nat (length s) :: u16) = le_bytes 2 (of_nat (length t) :: u16)"
      using assms(3,4) by (auto simp: string_key_def append_eq_append_conv)
    then have "(le_word (le_bytes 2 (of_nat (length s) :: u16)) :: u16) = le_word (le_bytes 2 (of_nat (length t) :: u16))"
      by simp
    then have "(of_nat (length s) :: u16) = of_nat (length t)" by (simp add: le_word_le_bytes)
    moreover have "length s < 65536" "length t < 65536"
      using string_sizes(1,2) [OF assms(1)] string_sizes(1,2) [OF assms(2)] by auto
    ultimately show ?thesis
      by (simp add: word_of_nat_eq_iff take_bit_nat_eq_self)
  qed
  then show ?thesis using assms(3,4) by (auto simp: string_key_def split: if_splits)
qed

text \<open>The maps of a filter hold the strings \<open>ws\<close>: each is in the map for its length; a map without strings may be missing.\<close>

definition strings_stored :: "build \<Rightarrow> arg_maps \<Rightarrow> selector_arg_filter \<Rightarrow> byte list list \<Rightarrow> bool" where
  "strings_stored bd am flt ws \<longleftrightarrow>
     (\<forall>w \<in> set ws. storable bd w)
     \<and> (\<forall>i \<le> 10. let mid = rd32 (af_value flt) (4 * i); here = filter (\<lambda>w. string_index bd w = i) ws
                  in if mid = 0xffffffff then here = [] else am_string am i mid = Some (map (string_key bd) here))"

lemma blit_chain:
  assumes "length a + length b + length c \<le> length h"
  shows "take (length a + length b + length c) (blit (length b + length a) c (blit (length a) b (blit 0 a h))) = a @ b @ c"
  using assms by (simp add: blit_def)

lemma equal_key_bytes:
  assumes "storable bd str" "length heap = 16384" "str = take (length str) arg_str"
  defines "len \<equiv> length str" and "p \<equiv> string_padded_len bd (length str)" and "i \<equiv> string_index bd str"
  defines "short \<equiv> \<not> bd_large bd \<or> i \<le> 5"
  defines "hdr \<equiv> (if short then 1 else 2)"
  defines "h2 \<equiv> blit hdr (take (len mod 8192) arg_str) (blit 0 (if short then [of_nat len] else le_bytes 2 (of_nat len :: u16)) heap)"
  defines "h3 \<equiv> (if p > len mod 8192 then blit (len mod 8192 + hdr) (replicate ((p - len mod 8192) mod 4096) 0) h2 else h2)"
  shows "take (STRING_MAPS_SIZE bd i) h3 = string_key bd str"
proof -
  note S = string_sizes [OF assms(1), folded p_def i_def]
  have n: "len mod 8192 = len" "(p - len) mod 4096 = p - len" using S(1-3) by (simp_all add: len_def)
  define a where "a = (if short then [of_nat len] else le_bytes 2 (of_nat len :: u16))"
  have a: "length a = hdr" by (simp add: a_def hdr_def)
  have arg: "take len arg_str = str" using assms(3) by (simp add: len_def)
  have "h3 = blit (length str + length a) (replicate (p - len) 0) (blit (length a) str (blit 0 a heap))"
    unfolding h3_def h2_def n arg a a_def [symmetric] using S(1) by (auto simp: len_def)
  moreover have "STRING_MAPS_SIZE bd i = length a + length str + length (replicate (p - len) (0 :: byte))"
    using S(1,5) a by (simp add: hdr_def short_def len_def)
  moreover have "length a + length str + length (replicate (p - len) (0 :: byte)) \<le> length heap"
    using S(1,2) assms(2) a by (simp add: hdr_def len_def)
  ultimately have "take (STRING_MAPS_SIZE bd i) h3 = a @ str @ replicate (p - len) 0" by (simp only: blit_chain)
  then show ?thesis by (simp add: string_key_def a_def short_def i_def [symmetric] p_def [symmetric] len_def)
qed

text \<open>
  C24. The equality filter decides by membership: when the maps of a filter hold the strings \<open>ws\<close>, an argument string of a
  length the maps support is accepted exactly when it is one of \<open>ws\<close>, whatever the scratch buffer held before.
\<close>

theorem string_equal_exact:
  assumes "strings_stored bd am flt ws" and "storable bd str" and "unat len = length str"
    and "str = take (length str) arg_str"
    and "am_string_heap am = Some heap" and "length heap = 16384" and "am_zero_heap am"
  shows "filter_char_buf_equal bd am flt arg_str len = (str \<in> set ws)"
proof -
  let ?i = "string_index bd str"
  note S = string_sizes [OF assms(2)]
  have i10: "?i \<le> 10" using S(4) by (auto split: if_splits)
  define mid where "mid = rd32 (af_value flt) (4 * ?i)"
  define here where "here = filter (\<lambda>w. string_index bd w = ?i) ws"
  have maps: "if mid = 0xffffffff then here = [] else am_string am ?i mid = Some (map (string_key bd) here)"
    using assms(1) i10 unfolding strings_stored_def mid_def here_def Let_def by blast
  have len: "\<not> (unat len > MAX_STRING bd \<or> len = 0)"
    using assms(2,3) by (auto simp: storable_def)
  have mem: "str \<in> set ws \<longleftrightarrow> string_key bd str \<in> set (map (string_key bd) here)"
  proof
    assume "string_key bd str \<in> set (map (string_key bd) here)"
    then obtain w where "w \<in> set ws" "string_index bd w = ?i" "string_key bd str = string_key bd w"
      by (auto simp: here_def)
    moreover have "storable bd w" using assms(1) \<open>w \<in> set ws\<close> by (simp add: strings_stored_def)
    ultimately show "str \<in> set ws" using string_key_inj [OF assms(2), of w] by auto
  qed (auto simp: here_def)
  have i: "string_map_index bd (string_padded_len bd (length str)) = ?i" by (simp add: string_index_def)
  have gm: "get_string_map bd am ?i mid = am_string am ?i mid" using S(4) by (simp add: get_string_map_def)
  note key = equal_key_bytes [OF assms(2,6,4)]
  show ?thesis
  proof (cases "mid = 0xffffffff")
    case True
    with maps mem show ?thesis using len i10 by (simp add: filter_char_buf_equal_def Let_def assms(3) i mid_def [symmetric])
  next
    case False
    have "filter_char_buf_equal bd am flt arg_str len = (string_key bd str \<in> set (map (string_key bd) here))"
      using len i10 maps False assms(5,7)
      unfolding filter_char_buf_equal_def Let_def assms(3) i
      by (simp add: mid_def [symmetric] gm key del: set_map split del: if_split)
    with mem show ?thesis by simp
  qed
qed

section \<open>Prefixes and suffixes\<close>

text \<open>
  The prefix filter accepts exactly the strings that start with one of the stored prefixes, also those longer than
  the 255 bytes that a trie key holds.
\<close>

theorem string_prefix_exact:
  assumes "am_prefix am (rd32 (af_value flt) 0) = Some trie" and "\<forall>p \<in> set trie. length p < 256"
    and "0 < length str" and "unat len = length str" and "str = take (length str) arg_str"
    and "am_prefix_heap am = Some data" and "length data = 256"
  shows "filter_char_buf_prefix am flt arg_str len = (\<exists>p \<in> set trie. \<exists>q. str = p @ q)"
proof -
  define n where "n = (if length str \<ge> 256 then 255 else length str)"
  have n: "n < 256" "n \<le> length str" by (auto simp: n_def)
  have "len \<noteq> 0" using assms(3,4) by auto
  then have "filter_char_buf_prefix am flt arg_str len = lpm_lookup trie n (blit 0 (take n arg_str) data)"
    using assms(1,6) n(1) by (simp add: filter_char_buf_prefix_def assms(4) n_def STRING_PREFIX_MAX_LENGTH_def Let_def)
  moreover have "take n arg_str = take n str" using n(2) assms(5) by (metis min_def take_take)
  moreover have "(length p \<le> n \<and> take (length p) (blit 0 (take n str) data) = p) = (\<exists>q. str = p @ q)"
    if "p \<in> set trie" for p
  proof -
    have "length p < 256" using assms(2) that by blast
    then have "length p \<le> n \<longleftrightarrow> length p \<le> length str" by (auto simp: n_def)
    moreover have "take (length p) (blit 0 (take n str) data) = take (length p) str" if "length p \<le> n"
      using that n(2) by (simp add: blit_def min.absorb1 min.absorb2)
    moreover have "length p \<le> length str \<and> take (length p) str = p \<longleftrightarrow> (\<exists>q. str = p @ q)"
      by (metis append_eq_conv_conj append_take_drop_id le_add1 length_append)
    ultimately show ?thesis by metis
  qed
  ultimately show ?thesis by (auto simp: lpm_lookup_def)
qed

lemma unat_and_4095: "unat ((w :: u32) AND 4095) = unat w mod 4096"
  using unat_and_mask [of w 12] by (simp add: mask_eq_exp_minus_1)

text \<open>
  The suffix filter accepts exactly the strings of up to 4096 bytes that end with one of the stored suffixes (the
  trie holds them reversed), although it compares at most 127 bytes (94 in the small programs).
\<close>

theorem string_postfix_exact:
  assumes "am_postfix am (rd32 (af_value flt) 0) = Some trie"
    and "\<forall>p \<in> set trie. length p < STRING_POSTFIX_MAX_MATCH_LENGTH bd"
    and "0 < length str" and "length str \<le> 4096" and "unat len = length str" and "str = take (length str) arg_str"
    and "am_postfix_heap am = Some data" and "length data = 128"
  shows "filter_char_buf_postfix bd am flt arg_str len = (\<exists>p \<in> set trie. \<exists>q. str = q @ rev p)"
proof -
  let ?mx = "STRING_POSTFIX_MAX_MATCH_LENGTH bd" and ?n = "length str"
  have mx: "0 < ?mx" "?mx \<le> 128" by (simp_all add: STRING_POSTFIX_MAX_MATCH_LENGTH_def)
  define m where "m = (if ?n \<ge> ?mx then ?mx - 1 else ?n)"
  have m: "m \<le> 127" "m \<le> ?n" "m < ?mx" "0 < m" using mx assms(3) by (auto simp: m_def STRING_POSTFIX_MAX_MATCH_LENGTH_def)
  define alen where "alen = (if len \<ge> of_nat ?mx then of_nat ?mx - 1 else len)"
  have umx: "unat (of_nat ?mx :: u32) = ?mx" using mx(2) by (simp add: unsigned_of_nat take_bit_nat_eq_self)
  have "unat (of_nat ?mx - 1 :: u32) = ?mx - 1" using umx mx(1) by (subst unat_sub_u32) auto
  then have alen: "unat alen = m" by (simp add: alen_def m_def word_le_nat_alt umx assms(5))
  define r where "r = copy_reverse bd data alen arg_str (len - alen)"
  have a127: "alen AND 127 = alen" using m(1) by (simp add: word_unat_eq_iff unat_and_127 alen)
  have "unat (alen + (len - alen)) = ?n" by (simp add: assms(5))
  from copy_reverse_loop_nth [OF this unat_and_4095, of 0 "?mx - 1" data arg_str] mx assms(3,8)
  have r: "length r = 128" "\<And>j. j < min (?mx - 1) ?n \<Longrightarrow> r ! j = arg_str ! ((?n - 1 - j) mod 4096)"
    by (simp_all add: r_def copy_reverse_def copy_reverse_masked_def a127)
  have s: "str ! j = arg_str ! j" if "j < ?n" for j using assms(6) that by (metis nth_take)
  have tr: "take m r = take m (rev str)"
  proof (rule nth_equalityI)
    show "length (take m r) = length (take m (rev str))" using r(1) m by simp
    fix j assume "j < length (take m r)"
    then have j: "j < m" by simp
    then have "r ! j = arg_str ! ((?n - 1 - j) mod 4096)" using r(2) [of j] m by simp
    also have "(?n - 1 - j) mod 4096 = ?n - 1 - j" using assms(3,4) by simp
    finally show "take m r ! j = take m (rev str) ! j" using j m s [of "?n - 1 - j"] by (simp add: rev_nth)
  qed
  have "len \<noteq> 0" using assms(3,5) by auto
  then have "filter_char_buf_postfix bd am flt arg_str len = lpm_lookup trie m r"
    using assms(1,7) by (simp add: filter_char_buf_postfix_def Let_def alen_def [symmetric] alen r_def)
  moreover have "(length p \<le> m \<and> take (length p) r = p) = (\<exists>q. str = q @ rev p)" if "p \<in> set trie" for p
  proof -
    have "length p < ?mx" using assms(2) that by blast
    then have "length p \<le> m \<longleftrightarrow> length p \<le> ?n" by (auto simp: m_def)
    moreover have "take (length p) r = take (length p) (rev str)" if "length p \<le> m"
      using tr that by (metis min_absorb1 take_take)
    ultimately show ?thesis using take_rev_suffix [of p str] by metis
  qed
  ultimately show ?thesis by (auto simp: lpm_lookup_def)
qed

section \<open>The filters of a selector\<close>

text \<open>The argument filters of the section at \<open>seloff\<close>: up to \<open>k\<close> offsets, ended by a zero.\<close>

fun selector_filters :: "byte list \<Rightarrow> nat \<Rightarrow> nat \<Rightarrow> nat \<Rightarrow> selector_arg_filter list" where
  "selector_filters f seloff 0 i = []"
| "selector_filters f seloff (Suc k) i =
     (let argsoff = unat (rd32 f (seloff + 4 + 4 * i) AND 0x3ff)
      in if argsoff = 0 then []
         else arg_filter_at f ((seloff + argsoff) mod 1024) # selector_filters f seloff k (Suc i))"

text \<open>
  A filter for gained capabilities overwrites the result of the filters before it, so that only the filters from the last such one on decide.
\<close>

definition overrides :: "build \<Rightarrow> selector_arg_filter \<Rightarrow> bool" where
  "overrides bd flt \<longleftrightarrow>
     bd_large bd \<and> af_op flt = op_capabilities_gained \<and> af_type flt \<in> {cap_inh_ty, cap_prm_ty, cap_eff_ty, kernel_cap_ty}"

fun decisive :: "build \<Rightarrow> selector_arg_filter list \<Rightarrow> selector_arg_filter list" where
  "decisive bd [] = []"
| "decisive bd (flt # fs) = (if list_ex (overrides bd) fs then decisive bd fs else flt # fs)"

lemma decisive_all: "\<not> list_ex (overrides bd) fs \<Longrightarrow> decisive bd fs = fs"
  by (cases fs) simp_all

lemma arg_passes_and:
  assumes "\<not> overrides bd flt"
  shows "arg_passes bd am e flt p = (p \<and> arg_passes bd am e flt True)"
proof -
  have "(af_type flt \<in> {cap_inh_ty, cap_prm_ty, cap_eff_ty, kernel_cap_ty} \<and> bd_large bd \<and> af_op flt = op_capabilities_gained) = False"
    using assms unfolding overrides_def by blast
  then have "\<not> arg_passes bd am e flt False" by (simp only: arg_passes_def Let_def simp_thms if_False if_cancel)
  then show ?thesis by (cases p) simp_all
qed

lemma capabilities_gained_forgets:
  assumes "overrides bd flt"
  shows "arg_passes bd am e flt p = arg_passes bd am e flt True"
proof -
  have o: "bd_large bd" "af_op flt = op_capabilities_gained" "af_type flt \<in> {cap_inh_ty, cap_prm_ty, cap_eff_ty, kernel_cap_ty}"
    using assms by (simp_all add: overrides_def)
  from o(3) have "arg_passes bd am e flt False = arg_passes bd am e flt True"
    by (auto simp: arg_passes_def Let_def o(1,2) tg_consts)
  then show ?thesis by (cases p) simp_all
qed

lemma arg_filters_loop_decisive:
  "arg_filters_loop bd am e f seloff k i pass \<longleftrightarrow>
     (pass \<or> list_ex (overrides bd) (selector_filters f seloff k i))
     \<and> (\<forall>flt \<in> set (selector_filters f seloff k i). af_index flt \<le> 5)
     \<and> (\<forall>flt \<in> set (decisive bd (selector_filters f seloff k i)). arg_passes bd am e flt True)"
proof (induction k arbitrary: i pass)
  case (Suc k)
  define argsoff where "argsoff = unat (rd32 f (seloff + 4 + 4 * i) AND 0x3ff)"
  define flt where "flt = arg_filter_at f ((seloff + argsoff) mod 1024)"
  let ?fs = "selector_filters f seloff k (Suc i)"
  show ?case
  proof (cases "argsoff = 0")
    case False
    then have sf: "selector_filters f seloff (Suc k) i = flt # ?fs"
      by (simp add: argsoff_def flt_def Let_def)
    have loop: "arg_filters_loop bd am e f seloff (Suc k) i pass =
        (af_index flt \<le> 5 \<and> arg_filters_loop bd am e f seloff k (Suc i) (arg_passes bd am e flt pass))"
      using False by (auto simp: argsoff_def [symmetric] flt_def [symmetric] Let_def not_less dest: leD)
    have flt: "arg_passes bd am e flt pass = (if overrides bd flt then arg_passes bd am e flt True else pass \<and> arg_passes bd am e flt True)"
      using arg_passes_and [of bd flt am e pass] capabilities_gained_forgets [of bd flt am e pass] by simp
    show ?thesis
      unfolding sf loop Suc.IH flt by (cases "list_ex (overrides bd) ?fs") (auto simp: decisive_all)
  qed (simp add: argsoff_def Let_def)
qed simp

text \<open>
  C23. The argument filters of a selector are a conjunction, except that a filter for gained capabilities makes the code forget the filters before it. The
  answer is the offset of the section if it has no filters, or if every filter names one of the arguments (an index up to 5) and the filters from the last one for
  gained capabilities on (all of them when there is none) accept, and 0 otherwise. The programs for older kernels look at the first filter only.
\<close>

theorem arg_filters_conj:
  assumes "seloff = arg_section f selidx is_entry" and "fs = selector_filters f seloff (if bd_large bd then 5 else 1) 0"
  shows "selector_arg_offset bd am f e selidx is_entry =
     (if rd32 f seloff \<le> 24
         \<or> (\<forall>flt \<in> set fs. af_index flt \<le> 5) \<and> (\<forall>flt \<in> set (decisive bd fs). arg_passes bd am e flt True)
      then seloff else 0)"
  unfolding selector_arg_offset_def Let_def assms(1) [symmetric] arg_filters_loop_decisive assms(2) [symmetric] by simp

section \<open>Concrete runs\<close>

text \<open>A policy of one selector: argument 0, an integer, equals 7; then the action \<^verbatim>\<open>Post\<close> without options.\<close>

definition g_words :: "u32 list" where
  "g_words = [1, 4, 96, 4, 4, 4, 4, 4, 44, 24, 0, 0, 0, 0, 0, 3, 12, 1, 7, 28, 0, 0, 0, 0, 0, 0]"

definition g_example :: "byte list" where
  "g_example = concat (map (le_bytes 4) g_words)"

lemma rd32_g_example: "4 * k = off \<Longrightarrow> k < 26 \<Longrightarrow> rd32 g_example off = g_words ! k"
  using slice_concat_words [of k g_words] by (auto simp: g_example_def rd32_def g_words_def le_word_le_bytes)

lemma rd32_drop: "rd32 (drop n f) m = rd32 f (n + m)"
  by (simp add: rd32_def slice_def add.commute)

lemmas rd32_g_simps =
  rd32_g_example [of 1 4, simplified] rd32_g_example [of 3 12, simplified] rd32_g_example [of 4 16, simplified]
  rd32_g_example [of 5 20, simplified] rd32_g_example [of 6 24, simplified] rd32_g_example [of 7 28, simplified]
  rd32_g_example [of 8 32, simplified] rd32_g_example [of 9 36, simplified] rd32_g_example [of 10 40, simplified]
  rd32_g_example [of 14 56, simplified] rd32_g_example [of 15 60, simplified] rd32_g_example [of 16 64, simplified]
  rd32_g_example [of 17 68, simplified] rd32_g_example [of 18 72, simplified] rd32_g_example [of 19 76, simplified]

definition g_filter :: selector_arg_filter where
  "g_filter = \<lparr>af_index = 0, af_op = 3, af_vallen = 12, af_type = 1, af_value = drop 72 g_example\<rparr>"

lemma g_filter_at: "arg_filter_at g_example 56 = g_filter"
  by (simp add: arg_filter_at_def g_filter_def rd32_g_simps g_words_def)

lemma skip_section_5:
  "(skip_section f ^^ 5) off = skip_section f (skip_section f (skip_section f (skip_section f (skip_section f off))))"
  by (simp add: numeral_eq_Suc)

lemma g_skip: "skip_section g_example 4 = 8" "skip_section g_example 12 = 16" "skip_section g_example 16 = 20"
  "skip_section g_example 20 = 24" "skip_section g_example 24 = 28" "skip_section g_example 28 = 32"
  by (simp_all add: skip_section_def INDEX_MASK_def rd32_g_simps g_words_def)

lemma g_section: "arg_section g_example 0 True = 32"
  by (simp add: arg_section_def Let_def skip_section_5 g_skip INDEX_MASK_def)

lemma g_filters: "selector_filters g_example 32 5 0 = [g_filter]"
proof -
  have "selector_filters g_example 32 (Suc (Suc k)) 0 = [g_filter]" for k
    by (simp add: Let_def rd32_g_simps g_words_def g_filter_at)
  from this [of 3] show ?thesis by simp
qed

definition am_example :: arg_maps where
  "am_example = \<lparr>am_argfilter = Map.empty,
     am_string = (\<lambda>i m. if i = 0 \<and> m = 0 then Some [string_key build_v61 [47, 97]] else None),
     am_string_heap = Some (replicate 16384 9), am_zero_heap = True,
     am_prefix = [0 \<mapsto> [[47]]], am_prefix_heap = Some (replicate 256 9),
     am_postfix = [0 \<mapsto> [[97]]], am_postfix_heap = Some (replicate 128 9), am_addr4 = Map.empty, am_addr6 = Map.empty\<rparr>"

definition e_example :: msg_generic_kprobe where
  "e_example = msg_example\<lparr>gk_args := le_bytes 4 (7 :: u32) @ replicate 23996 0\<rparr>"

lemma rd32_le_bytes: "rd32 (le_bytes 4 (w :: u32) @ rest) 0 = w"
  by (simp add: rd32_def slice_def le_word_le_bytes)

lemma e_arg: "get_arg e_example 0 = gk_args e_example" "rd32 (gk_args e_example) 0 = 7"
  by (simp_all add: get_arg_def argsoff_at_def e_example_def msg_example_def rd32_le_bytes)

theorem int_filter_exact_witness:
  "filter_32ty build_v61 am_example (g_filter\<lparr>af_op := op_filter_eq\<rparr>) (gk_args e_example)"
proof -
  have "af_vallen g_filter = of_nat (4 * 1 + 8)" "(1 :: nat) \<le> 1" "(1 :: nat) \<le> 4" "bd_large build_v61"
    by (simp_all add: g_filter_def build_v61_def)
  from int_filter_exact [OF this refl refl refl, of am_example "gk_args e_example"] show ?thesis
    by (simp add: filter_values32_def e_arg g_filter_def rd32_drop rd32_g_simps g_words_def)
qed

lemma g_filter_passes_iff: "arg_passes build_v61 am_example e g_filter True \<longleftrightarrow> rd32 (get_arg e 0) 0 = 7"
proof -
  have "selector_val_loop test 12 4 MAX_MATCH_VALUES 0 = test 0" for test
    using selector_val_loop_exact [of 12 4 1 test] by simp
  then show ?thesis
    by (simp add: arg_passes_def Let_def g_filter_def filter_32ty_def filter_32ty_selector_val_def is_val_op_def
        rd32_drop rd32_g_simps g_words_def tg_consts del: One_nat_def)
qed

lemma g_filter_passes: "arg_passes build_v61 am_example e_example g_filter True"
  by (simp add: g_filter_passes_iff e_arg)

lemma g_offset: "selector_arg_offset build_v61 am_example g_example e 0 True = (if rd32 (get_arg e 0) 0 = 7 then 32 else 0)"
proof -
  have "arg_filters_loop build_v61 am_example e g_example 32 (Suc (Suc k)) 0 True = arg_passes build_v61 am_example e g_filter True" for k
    by (simp add: Let_def rd32_g_simps g_words_def g_filter_at) (simp add: g_filter_def)
  from this [of 3] show ?thesis
    by (simp add: selector_arg_offset_def g_section Let_def build_v61_def [symmetric] rd32_g_simps g_words_def g_filter_passes_iff)
       (simp add: build_v61_def)
qed

theorem arg_filters_conj_witness: "selector_arg_offset build_v61 am_example g_example e_example 0 True = 32"
  using arg_filters_conj [OF g_section [symmetric] refl, of build_v61 am_example e_example] g_filter_passes
  by (simp add: g_filters build_v61_def) (simp add: g_filter_def)

lemma small_sizes: "string_padded_len bd (Suc (Suc 0)) = 24" "string_map_index bd 24 = 0"
  by (simp_all add: string_padded_len_def string_map_index_def STRING_MAPS_SIZE_def)

definition s_filter :: selector_arg_filter where
  "s_filter = \<lparr>af_index = 0, af_op = op_filter_eq, af_vallen = 52, af_type = string_type,
     af_value = le_bytes 4 (0 :: u32) @ concat (replicate 10 (le_bytes 4 (0xffffffff :: u32)))\<rparr>"

lemma s_filter_ids: "rd32 (af_value s_filter) (4 * i) = (if i = 0 then 0 else 0xffffffff)" if "i \<le> 10"
proof -
  have v: "af_value s_filter = concat (map (le_bytes 4) (0 # replicate 10 (0xffffffff :: u32)))"
    by (simp add: s_filter_def)
  show ?thesis using that slice_concat_words [of i "0 # replicate 10 (0xffffffff :: u32)"]
    unfolding rd32_def v by (simp add: le_word_le_bytes nth_Cons')
qed

theorem string_equal_exact_witness:
  "filter_char_buf_equal build_v61 am_example s_filter [47, 97, 0, 0] 2
   \<and> \<not> filter_char_buf_equal build_v61 am_example s_filter [47, 98, 0, 0] 2"
proof -
  have idx: "string_index build_v61 [a, b] = 0" for a b by (simp add: string_index_def small_sizes)
  have st: "storable build_v61 [a, b]" for a b
    by (simp add: storable_def MAX_STRING_def STRING_MAPS_SIZE_def build_v61_def)
  have "strings_stored build_v61 am_example s_filter [[47, 97]]"
    unfolding strings_stored_def Let_def
    by (simp add: st idx s_filter_ids am_example_def)
  from string_equal_exact [OF this st, of 2] show ?thesis by (simp add: am_example_def)
qed

theorem string_prefix_exact_witness: "filter_char_buf_prefix am_example s_filter [47, 97, 0, 0] 2"
  using string_prefix_exact [of am_example s_filter "[[47]]" "[47, 97]" 2 "[47, 97, 0, 0]" "replicate 256 9"]
  by (simp add: am_example_def s_filter_ids [of 0, simplified])

theorem string_postfix_exact_witness: "filter_char_buf_postfix build_v61 am_example s_filter [47, 97, 0, 0] 2"
proof -
  have "\<exists>q. [47, 97] = q @ [97 :: byte]" by (rule exI [of _ "[47]"]) simp
  with string_postfix_exact [of am_example s_filter "[[97]]" build_v61 "[47, 97]" 2 "[47, 97, 0, 0]" "replicate 128 9"]
  show ?thesis
    by (simp add: am_example_def s_filter_ids [of 0, simplified] STRING_POSTFIX_MAX_MATCH_LENGTH_def)
qed

theorem int64_filter_exact_witness:
  "filter_64ty build_v61 am_example \<lparr>af_index = 0, af_op = op_filter_gt, af_vallen = 16, af_type = u64_ty,
     af_value = le_bytes 8 (9 :: u64)\<rparr> (le_bytes 8 (7 :: u64))"
proof -
  let ?flt = "\<lparr>af_index = 0, af_op = op_filter_gt, af_vallen = 16, af_type = u64_ty, af_value = le_bytes 8 (9 :: u64)\<rparr>"
  have rd: "rd64 (le_bytes 8 w) 0 = w" for w :: u64 by (simp add: rd64_def slice_def le_word_le_bytes)
  have "af_vallen ?flt = of_nat (8 * 1 + 8)" "(1 :: nat) \<le> 1" "(1 :: nat) \<le> 4" "bd_large build_v61"
    by (simp_all add: build_v61_def)
  from int64_filter_exact [OF this refl refl refl, of am_example "le_bytes 8 (7 :: u64)"] show ?thesis
    by (simp add: filter_values64_def rd is_signed_type_def tg_consts)
qed

theorem range_filter_exact_witness:
  "filter_32ty build_v61 am_example \<lparr>af_index = 0, af_op = op_in_range, af_vallen = 16, af_type = u32_ty,
     af_value = concat (map (le_bytes 4) [5, 9 :: u32])\<rparr> (le_bytes 4 (7 :: u32))"
proof -
  let ?flt = "\<lparr>af_index = 0, af_op = op_in_range, af_vallen = 16, af_type = u32_ty, af_value = concat (map (le_bytes 4) [5, 9 :: u32])\<rparr>"
  have v: "rd32 (af_value ?flt) 0 = 5" "rd32 (af_value ?flt) 4 = 9"
    using slice_concat_words [of 0 "[5, 9 :: u32]"] slice_concat_words [of 1 "[5, 9 :: u32]"]
    by (simp_all add: rd32_def le_word_le_bytes)
  have vs: "filter_values32 ?flt (2 * 1) = [5, 9]" using v by (simp add: filter_values32_def upt_rec)
  have "af_vallen ?flt = of_nat (8 * 1 + 8)" "(1 :: nat) \<le> 1" "(1 :: nat) \<le> 4" "bd_large build_v61"
    by (simp_all add: build_v61_def)
  from range_filter_exact [OF this refl refl refl refl, of am_example "le_bytes 4 (7 :: u32)"] show ?thesis
    unfolding vs using rd32_le_bytes [of 7 "[]"] by (simp add: is_signed_type_def tg_consts numval_def)
qed

end
