(* ===== verification/Enforcer.thy ===== *)
theory Enforcer
  imports Event_Output
begin

text \<open>
  The enforcer (\<^verbatim>\<open>process/bpf_enforcer.h\<close>, \<^verbatim>\<open>process/bpf_enforcer.c\<close>): a policy action leaves an error and
  a signal for the current thread in \<^verbatim>\<open>enforcer_data\<close>, the enforcer program attached to the system call
  consumes it, and a cleanup at system call exit removes what was not consumed; overwritten and unused
  notifications are counted. The three programs refine a machine with at most one pending notification
  per thread.
\<close>

section \<open>Model\<close>

record enforcer_act_info =
  ea_func_id :: u32
  ea_arg :: u32

record enforcer_data =
  ed_error :: "16 word"
  ed_signal :: "16 word"
  ed_act_info :: enforcer_act_info

datatype enforcer_missed_reason = ENFORCER_MISSED_OVERWRITTEN | ENFORCER_MISSED_NOACTION

record enforcer_missed_key =
  em_act_info :: enforcer_act_info
  em_reason :: enforcer_missed_reason

type_synonym missed_map = "(enforcer_missed_key, u32) bpf_map"

record enforcer_state =
  en_data :: "(u64, enforcer_data) bpf_map"
  en_missed :: missed_map
  en_errm :: errmetrics_map
  en_signals :: "int list"

text \<open>
  \<open>race\<close> is what other CPUs do to the map between the failed lookup and the insertion; the second lookup
  of the code is there for an entry that such a race created.
\<close>

definition enforcer_update_missed_notifications ::
  "(missed_map \<Rightarrow> missed_map) \<Rightarrow> enforcer_missed_key \<Rightarrow> missed_map \<times> errmetrics_map \<Rightarrow> missed_map \<times> errmetrics_map" where
  "enforcer_update_missed_notifications race key st =
     (case st of (m, em) \<Rightarrow>
        (case map_lookup_elem m key of
           Some _ \<Rightarrow> (map_modify m key (\<lambda>c. c + 1), em)
         | None \<Rightarrow>
             (case map_update_elem (race m) key 1 BPF_NOEXIST of
                (m', err) \<Rightarrow>
                  let em' = with_errmetrics (get_fileid ''bpf_enforcer.h'') 59 fn_map_update_elem err em
                  in if err = 0 then (m', em')
                     else (case map_lookup_elem m' key of
                             Some _ \<Rightarrow> (map_modify m' key (\<lambda>c. c + 1), em')
                           | None \<Rightarrow> (m', em')))))"

definition enforcer_missed :: "(missed_map \<Rightarrow> missed_map) \<Rightarrow> enforcer_missed_key \<Rightarrow> enforcer_state \<Rightarrow> enforcer_state" where
  "enforcer_missed race key s =
     (case enforcer_update_missed_notifications race key (en_missed s, en_errm s) of
        (m, em) \<Rightarrow> s\<lparr>en_missed := m, en_errm := em\<rparr>)"

definition do_enforcer_cleanup :: "(missed_map \<Rightarrow> missed_map) \<Rightarrow> u64 \<Rightarrow> enforcer_state \<Rightarrow> enforcer_state" where
  "do_enforcer_cleanup race tid s =
     (case map_lookup_elem (en_data s) tid of
        None \<Rightarrow> s
      | Some p \<Rightarrow>
          let s1 = enforcer_missed race \<lparr>em_act_info = ed_act_info p, em_reason = ENFORCER_MISSED_NOACTION\<rparr> s
          in s1\<lparr>en_data := fst (map_delete_elem (en_data s1) tid)\<rparr>)"

definition do_enforcer_action ::
  "(missed_map \<Rightarrow> missed_map) \<Rightarrow> u64 \<Rightarrow> int \<Rightarrow> int \<Rightarrow> enforcer_act_info \<Rightarrow> enforcer_state \<Rightarrow> enforcer_state" where
  "do_enforcer_action race tid error signal act_info s =
     (let data = \<lparr>ed_error = word_of_int error, ed_signal = word_of_int signal, ed_act_info = act_info\<rparr>
      in case map_lookup_elem (en_data s) tid of
           Some p \<Rightarrow>
             let s1 = enforcer_missed race
                        \<lparr>em_act_info = ed_act_info p, em_reason = ENFORCER_MISSED_OVERWRITTEN\<rparr> s
             in s1\<lparr>en_data := map_modify (en_data s1) tid (\<lambda>_. data)\<rparr>
         | None \<Rightarrow>
             (case map_update_elem (en_data s) tid data BPF_ANY of
                (m, err) \<Rightarrow>
                  s\<lparr>en_data := m,
                    en_errm := with_errmetrics (get_fileid ''bpf_enforcer.h'') 107 fn_map_update_elem err (en_errm s)\<rparr>))"

text \<open>
  \<^verbatim>\<open>do_enforcer\<close> reads the error through the pointer after it deleted the element; \<open>stale\<close> is what the
  freed element holds by then (the same data, unless another CPU reused the element).
\<close>

definition do_enforcer :: "(enforcer_data \<Rightarrow> enforcer_data) \<Rightarrow> u64 \<Rightarrow> enforcer_state \<Rightarrow> enforcer_state \<times> int" where
  "do_enforcer stale tid s =
     (case map_lookup_elem (en_data s) tid of
        None \<Rightarrow> (s, 0)
      | Some data \<Rightarrow>
          let s1 = (if ed_signal data \<noteq> 0 then s\<lparr>en_signals := en_signals s @ [sint (ed_signal data)]\<rparr> else s);
              s2 = s1\<lparr>en_data := fst (map_delete_elem (en_data s1) tid)\<rparr>
          in (s2, sint (ed_error (stale data))))"

text \<open>The kprobe flavour overrides the return value when the answer is not zero.\<close>

definition kprobe_enforcer :: "(enforcer_data \<Rightarrow> enforcer_data) \<Rightarrow> u64 \<Rightarrow> enforcer_state \<Rightarrow> enforcer_state \<times> int option" where
  "kprobe_enforcer stale tid s =
     (case do_enforcer stale tid s of (s', ret) \<Rightarrow> (s', if ret \<noteq> 0 then Some ret else None))"

definition fmodret_enforcer :: "(enforcer_data \<Rightarrow> enforcer_data) \<Rightarrow> u64 \<Rightarrow> enforcer_state \<Rightarrow> enforcer_state \<times> int" where
  "fmodret_enforcer stale tid s = do_enforcer stale tid s"

section \<open>Missed notifications are counted\<close>

definition missed_count :: "enforcer_state \<Rightarrow> enforcer_missed_key \<Rightarrow> nat" where
  "missed_count s k = (case map_lookup_elem (en_missed s) k of None \<Rightarrow> 0 | Some c \<Rightarrow> unat c)"

definition missed_roomy :: "enforcer_state \<Rightarrow> bool" where
  "missed_roomy s \<longleftrightarrow> (\<forall>e k. bm_admit (en_missed s) e k = 0)"

lemma missed_update_noexist:
  assumes "map_lookup_elem m key = None" "\<And>e k. bm_admit m e k = 0"
  shows "map_update_elem m key v BPF_NOEXIST = (m\<lparr>bm_elems := (bm_elems m)(key \<mapsto> v)\<rparr>, 0)"
  using assms by (simp add: map_ops_defs)

lemma enforcer_missed_eq:
  assumes "missed_roomy s"
  shows "en_missed (enforcer_missed id k s) =
           (case map_lookup_elem (en_missed s) k of
              Some _ \<Rightarrow> map_modify (en_missed s) k (\<lambda>c. c + 1)
            | None \<Rightarrow> (en_missed s)\<lparr>bm_elems := (bm_elems (en_missed s))(k \<mapsto> 1)\<rparr>)"
    and "en_data (enforcer_missed race k s) = en_data s"
    and "en_signals (enforcer_missed race k s) = en_signals s"
  using assms
  by (auto simp: enforcer_missed_def enforcer_update_missed_notifications_def missed_roomy_def
      missed_update_noexist split: option.split prod.split)

interpretation missed: counter_store "\<lambda>s k. enforcer_missed id k s" missed_count missed_roomy "2 ^ 32"
proof unfold_locales
  fix s :: enforcer_state and k
  show "missed_count s k < 2 ^ 32"
    by (auto simp: missed_count_def unat_bounds split: option.split)
qed (auto simp: missed_count_def enforcer_missed_eq missed_roomy_def map_ops_defs unat_word_ariths
    split: option.split)

text \<open>
  A missed notification is counted even when another CPU creates the counter in between: if the
  race left the key with count \<open>c\<close>, the counter ends at \<open>c + 1\<close>.
\<close>

theorem missed_notification_race:
  assumes "map_lookup_elem m key = None" "map_lookup_elem (race m) key = Some c"
    and "enforcer_update_missed_notifications race key (m, em) = (m', em')"
  shows "map_lookup_elem m' key = Some (c + 1)"
  using assms
  by (auto simp: enforcer_update_missed_notifications_def map_update_elem_def map_lookup_elem_def
      EEXIST_def map_modify_def Let_def split: prod.splits if_splits)

theorem missed_notification_race_witness:
  "let key = \<lparr>em_act_info = \<lparr>ea_func_id = 1, ea_arg = 2\<rparr>, em_reason = ENFORCER_MISSED_NOACTION\<rparr>;
       race = (\<lambda>m. m\<lparr>bm_elems := (bm_elems m)(key \<mapsto> 1)\<rparr>)
   in map_lookup_elem (fst (enforcer_update_missed_notifications race key (empty_map, empty_lru))) key = Some 2"
proof -
  define key where "key = \<lparr>em_act_info = \<lparr>ea_func_id = 1, ea_arg = 2\<rparr>, em_reason = ENFORCER_MISSED_NOACTION\<rparr>"
  define race :: "missed_map \<Rightarrow> missed_map" where "race = (\<lambda>m. m\<lparr>bm_elems := (bm_elems m)(key \<mapsto> 1)\<rparr>)"
  obtain m' em' where r: "enforcer_update_missed_notifications race key (empty_map, empty_lru) = (m', em')"
    by (metis prod.exhaust)
  have "map_lookup_elem m' key = Some (1 + 1)"
    by (rule missed_notification_race [OF _ _ r]) (simp_all add: map_ops_defs race_def)
  with r show ?thesis by (simp add: key_def race_def Let_def)
qed

section \<open>Refinement: at most one pending notification per thread\<close>

datatype enf_op =
    Enf_action u64 int int enforcer_act_info
  | Enf_enforce u64
  | Enf_cleanup u64

type_synonym pending = "u64 \<rightharpoonup> enforcer_data"

record enf_effect =
  ef_missed :: "enforcer_missed_key list"
  ef_signals :: "int list"
  ef_result :: int

definition no_effect :: enf_effect where
  "no_effect = \<lparr>ef_missed = [], ef_signals = [], ef_result = 0\<rparr>"

fun spec_step :: "enf_op \<Rightarrow> pending \<Rightarrow> pending \<times> enf_effect" where
  "spec_step (Enf_action tid error signal info) p =
     (p(tid \<mapsto> \<lparr>ed_error = word_of_int error, ed_signal = word_of_int signal, ed_act_info = info\<rparr>),
      no_effect\<lparr>ef_missed := (case p tid of None \<Rightarrow> []
        | Some d \<Rightarrow> [\<lparr>em_act_info = ed_act_info d, em_reason = ENFORCER_MISSED_OVERWRITTEN\<rparr>])\<rparr>)"
| "spec_step (Enf_enforce tid) p =
     (p(tid := None),
      (case p tid of None \<Rightarrow> no_effect
       | Some d \<Rightarrow> no_effect\<lparr>ef_result := sint (ed_error d),
                            ef_signals := (if ed_signal d \<noteq> 0 then [sint (ed_signal d)] else [])\<rparr>))"
| "spec_step (Enf_cleanup tid) p =
     (p(tid := None),
      no_effect\<lparr>ef_missed := (case p tid of None \<Rightarrow> []
        | Some d \<Rightarrow> [\<lparr>em_act_info = ed_act_info d, em_reason = ENFORCER_MISSED_NOACTION\<rparr>])\<rparr>)"

fun impl_step :: "enf_op \<Rightarrow> enforcer_state \<Rightarrow> enforcer_state \<times> int" where
  "impl_step (Enf_action i error signal info) s = (do_enforcer_action id i error signal info s, 0)"
| "impl_step (Enf_enforce i) s = do_enforcer id i s"
| "impl_step (Enf_cleanup i) s = (do_enforcer_cleanup id i s, 0)"

fun spec_run :: "enf_op list \<Rightarrow> pending \<Rightarrow> pending \<times> enforcer_missed_key list \<times> int list \<times> int list" where
  "spec_run [] p = (p, [], [], [])"
| "spec_run (x # xs) p =
     (case spec_step x p of (p1, e) \<Rightarrow>
        (case spec_run xs p1 of (p2, ms, sg, rs) \<Rightarrow> (p2, ef_missed e @ ms, ef_signals e @ sg, ef_result e # rs)))"

fun impl_run :: "enf_op list \<Rightarrow> enforcer_state \<Rightarrow> enforcer_state \<times> int list" where
  "impl_run [] s = (s, [])"
| "impl_run (x # xs) s =
     (case impl_step x s of (s1, r) \<Rightarrow> (case impl_run xs s1 of (s2, rs) \<Rightarrow> (s2, r # rs)))"

definition enf_roomy :: "enforcer_state \<Rightarrow> bool" where
  "enf_roomy s \<longleftrightarrow> missed_roomy s \<and> (\<forall>e k. bm_admit (en_data s) e k = 0)"

text \<open>One step: the pending table, the answer, the signals and the missed counters agree.\<close>

lemma enforcer_missed_counts:
  assumes "missed_roomy s"
  shows "missed_count (enforcer_missed id k s) j = (missed_count s j + count_list [k] j) mod 2 ^ 32"
    and "missed_roomy (enforcer_missed id k s)"
  using missed.fold_bump_count [OF assms, of "[k]" j] missed.bump_good [OF assms, of k] by simp_all

lemma missed_count_cong: "en_missed s = en_missed t \<Longrightarrow> missed_count s = missed_count t"
  by (simp add: missed_count_def fun_eq_iff)

lemma missed_roomy_cong: "en_missed s = en_missed t \<Longrightarrow> missed_roomy s = missed_roomy t"
  by (simp add: missed_roomy_def)

lemma impl_step_refines:
  assumes room: "enf_roomy s" and imp: "impl_step x s = (s', r)"
    and spec: "spec_step x (map_lookup_elem (en_data s)) = (p', e)"
  shows "map_lookup_elem (en_data s') = p' \<and> r = ef_result e \<and> en_signals s' = en_signals s @ ef_signals e
         \<and> (\<forall>k. missed_count s' k = (missed_count s k + count_list (ef_missed e) k) mod 2 ^ 32)
         \<and> enf_roomy s'"
proof -
  have mr: "missed_roomy s" and adm: "\<And>e k. bm_admit (en_data s) e k = 0"
    using room by (auto simp: enf_roomy_def)
  have small: "missed_count s k mod 2 ^ 32 = missed_count s k" for k
    using missed.cnt_bound [of s k] by simp
  note eqs = enforcer_missed_eq(2,3) [OF mr]
  note cnts = enforcer_missed_counts [OF mr]
  have dat: "\<And>k. missed_count (s\<lparr>en_data := d\<rparr>) k = missed_count s k" for d s
    by (simp add: missed_count_def)
  have p': "p' = fst (spec_step x (map_lookup_elem (en_data s)))"
    and e: "e = snd (spec_step x (map_lookup_elem (en_data s)))"
    and s': "s' = fst (impl_step x s)" and r: "r = snd (impl_step x s)"
    using spec imp by simp_all
  note unf = p' e s' r Let_def no_effect_def missed_count_def missed_roomy_def enf_roomy_def fun_eq_iff
  show ?thesis
  proof (cases x)
    case (Enf_action i error signal info)
    show ?thesis
    proof (cases "map_lookup_elem (en_data s) i")
      case None
      with Enf_action mr adm small show ?thesis
        by (auto simp: unf do_enforcer_action_def split_beta map_update_accepts)
    next
      case (Some d)
      with Enf_action cnts eqs adm show ?thesis
        by (auto simp: unf do_enforcer_action_def)
    qed
  next
    case (Enf_enforce i)
    with mr adm small show ?thesis
      by (auto simp: unf do_enforcer_def split: option.splits)
  next
    case (Enf_cleanup i)
    with mr adm cnts eqs small show ?thesis
      by (auto simp: unf do_enforcer_cleanup_def split: option.splits)
  qed
qed

text \<open>
  C31. The enforcer programs implement the one-slot-per-thread specification: for any interleaving of
  actions, enforcements and cleanups by any threads (with maps that have room), the pending entries, the
  values answered to the system calls and the signals sent are those of the specification, and each
  missed-notification counter has grown by exactly the number of overwritten or unused notifications of
  its key (modulo the counter's width).
\<close>

theorem enforcer_refines_spec:
  assumes "enf_roomy s" and "impl_run xs s = (s', rs)"
    and "spec_run xs (map_lookup_elem (en_data s)) = (p', ms, sg, rs')"
  shows "map_lookup_elem (en_data s') = p' \<and> rs = rs' \<and> en_signals s' = en_signals s @ sg
         \<and> (\<forall>k. missed_count s' k = (missed_count s k + count_list ms k) mod 2 ^ 32)"
  using assms
proof (induction xs arbitrary: s s' rs p' ms sg rs')
  case Nil
  then show ?case using missed.cnt_bound by auto
next
  case (Cons x xs)
  obtain s1 r where st: "impl_step x s = (s1, r)" by (metis prod.exhaust)
  obtain p1 e where sp: "spec_step x (map_lookup_elem (en_data s)) = (p1, e)" by (metis prod.exhaust)
  from impl_step_refines [OF Cons.prems(1) st sp]
  have ref: "map_lookup_elem (en_data s1) = p1" "r = ef_result e" "en_signals s1 = en_signals s @ ef_signals e"
    "\<And>k. missed_count s1 k = (missed_count s k + count_list (ef_missed e) k) mod 2 ^ 32" "enf_roomy s1"
    by auto
  obtain s2 rs1 where run1: "impl_run xs s1 = (s2, rs1)" by (metis prod.exhaust)
  obtain p2 ms1 sg1 rs2 where run2: "spec_run xs p1 = (p2, ms1, sg1, rs2)" by (metis prod.exhaust)
  from Cons.IH [OF ref(5) run1] run2 ref(1)
  have "map_lookup_elem (en_data s2) = p2 \<and> rs1 = rs2 \<and> en_signals s2 = en_signals s1 @ sg1
      \<and> (\<forall>k. missed_count s2 k = (missed_count s1 k + count_list ms1 k) mod 2 ^ 32)"
    by blast
  with Cons.prems(2,3) st sp run1 run2 ref show ?case
    by (auto simp: mod_simps add.assoc)
qed

definition enf_start :: enforcer_state where
  "enf_start = \<lparr>en_data = empty_map, en_missed = empty_map, en_errm = empty_lru, en_signals = []\<rparr>"

definition enf_example :: "enf_op list" where
  "enf_example = [Enf_action 7 (-1) 9 \<lparr>ea_func_id = 1, ea_arg = 0\<rparr>,
     Enf_action 7 (-2) 0 \<lparr>ea_func_id = 2, ea_arg = 0\<rparr>, Enf_enforce 7, Enf_enforce 7]"

theorem enforcer_refines_spec_witness:
  "enf_roomy enf_start \<and> snd (impl_run enf_example enf_start) = [0, 0, -2, 0]
   \<and> en_signals (fst (impl_run enf_example enf_start)) = []"
proof -
  have room: "enf_roomy enf_start"
    by (simp add: enf_roomy_def missed_roomy_def enf_start_def empty_map_def)
  obtain s' rs where im: "impl_run enf_example enf_start = (s', rs)" by (metis prod.exhaust)
  obtain p' ms sg rs' where sp:
    "spec_run enf_example (map_lookup_elem (en_data enf_start)) = (p', ms, sg, rs')"
    by (metis prod.exhaust)
  have vals: "rs' = [0, 0, -2, 0] \<and> sg = []"
    using sp by (auto simp: enf_example_def no_effect_def enf_start_def map_ops_defs)
  show ?thesis
    using room vals enforcer_refines_spec [OF room im sp] im by (simp add: enf_start_def)
qed

end
