(* ===== verification/Retprobe.thy ===== *)
theory Retprobe
  imports Event_Output
begin

text \<open>
  The hand-over from an entry probe to its return probe (\<^verbatim>\<open>process/retprobe_map.h\<close>): the entry probe
  leaves its data under the probe id and the thread, the return probe takes and removes it.
\<close>

record retprobe_key =
  rk_id :: u64
  rk_tid :: u64

record retprobe_info =
  ri_ktime_enter :: u64
  ri_ptr :: u64
  ri_cnt :: u64

record retprobe_state =
  rp_map :: "(retprobe_key, retprobe_info) bpf_map"
  rp_errm :: errmetrics_map

definition retprobe_map_get :: "u64 \<Rightarrow> u64 \<Rightarrow> retprobe_state \<Rightarrow> retprobe_state \<times> retprobe_info option" where
  "retprobe_map_get pid tid s =
     (let key = \<lparr>rk_id = pid, rk_tid = tid\<rparr>
      in case map_lookup_elem (rp_map s) key of
           None \<Rightarrow> (s, None)
         | Some info \<Rightarrow> (s\<lparr>rp_map := fst (map_delete_elem (rp_map s) key)\<rparr>, Some info))"

definition retprobe_map_clear :: "u64 \<Rightarrow> u64 \<Rightarrow> retprobe_state \<Rightarrow> retprobe_state" where
  "retprobe_map_clear pid tid s =
     (let key = \<lparr>rk_id = pid, rk_tid = tid\<rparr>
      in case map_lookup_elem (rp_map s) key of
           None \<Rightarrow> s
         | Some info \<Rightarrow> s\<lparr>rp_map := fst (map_delete_elem (rp_map s) key)\<rparr>)"

definition retprobe_map_set :: "u64 \<Rightarrow> u64 \<Rightarrow> u64 \<Rightarrow> u64 \<Rightarrow> retprobe_state \<Rightarrow> retprobe_state" where
  "retprobe_map_set pid tid ktime p s =
     (let info = \<lparr>ri_ktime_enter = ktime, ri_ptr = p, ri_cnt = 0\<rparr>;
          key = \<lparr>rk_id = pid, rk_tid = tid\<rparr>
      in case map_update_elem (rp_map s) key info BPF_ANY of
           (m, err) \<Rightarrow> s\<lparr>rp_map := m,
             rp_errm := with_errmetrics (get_fileid ''retprobe_map.h'') 70 fn_map_update_elem err (rp_errm s)\<rparr>)"

definition retprobe_map_set_iovec ::
  "u64 \<Rightarrow> u64 \<Rightarrow> u64 \<Rightarrow> u64 \<Rightarrow> u64 \<Rightarrow> retprobe_state \<Rightarrow> retprobe_state" where
  "retprobe_map_set_iovec pid tid ktime p cnt s =
     (let info = \<lparr>ri_ktime_enter = ktime, ri_ptr = p, ri_cnt = cnt\<rparr>;
          key = \<lparr>rk_id = pid, rk_tid = tid\<rparr>
      in case map_update_elem (rp_map s) key info BPF_ANY of
           (m, err) \<Rightarrow> s\<lparr>rp_map := m,
             rp_errm := with_errmetrics (get_fileid ''retprobe_map.h'') 87 fn_map_update_elem err (rp_errm s)\<rparr>)"

text \<open>The thread id, or the frame pointer outside of process context (\<^verbatim>\<open>-EINVAL\<close>).\<close>

definition retprobe_map_get_key :: "u64 \<Rightarrow> u64 \<Rightarrow> u64" where
  "retprobe_map_get_key pid_tgid frame_pointer = (if pid_tgid = - 22 then frame_pointer else pid_tgid)"

section \<open>Properties\<close>

definition rp_lookup :: "retprobe_state \<Rightarrow> u64 \<Rightarrow> u64 \<Rightarrow> retprobe_info option" where
  "rp_lookup s pid tid = map_lookup_elem (rp_map s) \<lparr>rk_id = pid, rk_tid = tid\<rparr>"

lemma rp_lookup_set:
  "rp_lookup (retprobe_map_set_iovec pid tid k p c s) pid' tid' =
     (if (pid', tid') = (pid, tid)
         \<and> snd (map_update_elem (rp_map s) \<lparr>rk_id = pid, rk_tid = tid\<rparr>
                  \<lparr>ri_ktime_enter = k, ri_ptr = p, ri_cnt = c\<rparr> BPF_ANY) = 0
      then Some \<lparr>ri_ktime_enter = k, ri_ptr = p, ri_cnt = c\<rparr> else rp_lookup s pid' tid')"
  "rp_lookup (retprobe_map_set pid tid k p s) pid' tid' =
     (if (pid', tid') = (pid, tid)
         \<and> snd (map_update_elem (rp_map s) \<lparr>rk_id = pid, rk_tid = tid\<rparr>
                  \<lparr>ri_ktime_enter = k, ri_ptr = p, ri_cnt = 0\<rparr> BPF_ANY) = 0
      then Some \<lparr>ri_ktime_enter = k, ri_ptr = p, ri_cnt = 0\<rparr> else rp_lookup s pid' tid')"
  by (simp_all add: rp_lookup_def retprobe_map_set_iovec_def retprobe_map_set_def Let_def split_beta)

lemma rp_lookup_get:
  "rp_lookup (fst (retprobe_map_get pid tid s)) pid' tid' =
     (if (pid', tid') = (pid, tid) then None else rp_lookup s pid' tid')"
  by (auto simp: rp_lookup_def retprobe_map_get_def Let_def split: option.split)

text \<open>The operations of the probes as a sequence; a store carries its data, the iovec variant a count as well.\<close>

datatype rp_op = Rp_set u64 u64 u64 u64 | Rp_set_iovec u64 u64 u64 u64 u64 | Rp_get u64 u64 | Rp_clear u64 u64

fun rp_step :: "rp_op \<Rightarrow> retprobe_state \<Rightarrow> retprobe_state" where
  "rp_step (Rp_set pid tid k p) s = retprobe_map_set pid tid k p s"
| "rp_step (Rp_set_iovec pid tid k p c) s = retprobe_map_set_iovec pid tid k p c s"
| "rp_step (Rp_get pid tid) s = fst (retprobe_map_get pid tid s)"
| "rp_step (Rp_clear pid tid) s = retprobe_map_clear pid tid s"

fun rp_target :: "rp_op \<Rightarrow> u64 \<times> u64" where
  "rp_target (Rp_set pid tid k p) = (pid, tid)"
| "rp_target (Rp_set_iovec pid tid k p c) = (pid, tid)"
| "rp_target (Rp_get pid tid) = (pid, tid)"
| "rp_target (Rp_clear pid tid) = (pid, tid)"

fun rp_stored :: "rp_op \<Rightarrow> retprobe_info option" where
  "rp_stored (Rp_set pid tid k p) = Some \<lparr>ri_ktime_enter = k, ri_ptr = p, ri_cnt = 0\<rparr>"
| "rp_stored (Rp_set_iovec pid tid k p c) = Some \<lparr>ri_ktime_enter = k, ri_ptr = p, ri_cnt = c\<rparr>"
| "rp_stored _ = None"

lemma rp_lookup_clear:
  "rp_lookup (retprobe_map_clear pid tid s) pid' tid' =
     (if (pid', tid') = (pid, tid) then None else rp_lookup s pid' tid')"
  by (auto simp: rp_lookup_def retprobe_map_clear_def Let_def split: option.split)

lemma rp_step_other: "rp_target x \<noteq> (pid, tid) \<Longrightarrow> rp_lookup (rp_step x s) pid tid = rp_lookup s pid tid"
  by (cases x) (auto simp: rp_lookup_set rp_lookup_get rp_lookup_clear)

lemma rp_steps_other:
  "\<forall>x \<in> set xs. rp_target x \<noteq> (pid, tid) \<Longrightarrow> rp_lookup (fold rp_step xs s) pid tid = rp_lookup s pid tid"
  by (induction xs arbitrary: s) (auto simp: rp_step_other)

text \<open>
  C32. The return probe receives exactly what its entry probe left, once: after an accepted store, and
  whatever stores, takes and clears other probes or threads do in between, the first take for the same
  probe and thread returns the stored entry time, pointer and count, and the next take finds nothing.
\<close>

theorem retprobe_roundtrip:
  assumes "rp_target x = (pid, tid)" and "rp_stored x = Some info"
    and "bm_admit (rp_map s) (bm_elems (rp_map s)) \<lparr>rk_id = pid, rk_tid = tid\<rparr> = 0"
    and "\<forall>y \<in> set xs. rp_target y \<noteq> (pid, tid)"
    and "s1 = fold rp_step xs (rp_step x s)" and "retprobe_map_get pid tid s1 = (s2, r)"
  shows "r = Some info \<and> snd (retprobe_map_get pid tid s2) = None"
proof -
  have "rp_lookup (rp_step x s) pid tid = Some info"
    using assms(1-3) by (cases x) (auto simp: rp_lookup_set map_update_accepts)
  then have "rp_lookup s1 pid tid = Some info" using assms(4,5) by (simp add: rp_steps_other)
  moreover have "rp_lookup s2 pid tid = None"
    using rp_lookup_get [of pid tid s1 pid tid] assms(6) by simp
  ultimately show ?thesis
    using assms(6) by (auto simp: retprobe_map_get_def rp_lookup_def Let_def split: option.splits)
qed

definition rp_empty :: retprobe_state where
  "rp_empty = \<lparr>rp_map = empty_map, rp_errm = empty_lru\<rparr>"

theorem retprobe_roundtrip_witness:
  "snd (retprobe_map_get 1 2 (fold rp_step [Rp_get 1 3, Rp_clear 4 2] (retprobe_map_set 1 2 10 20 rp_empty)))
     = Some \<lparr>ri_ktime_enter = 10, ri_ptr = 20, ri_cnt = 0\<rparr>"
proof -
  define s1 where "s1 = fold rp_step [Rp_get 1 3, Rp_clear 4 2] (rp_step (Rp_set 1 2 10 20) rp_empty)"
  obtain s2 r where g: "retprobe_map_get 1 2 s1 = (s2, r)" by (metis prod.exhaust)
  have "r = Some \<lparr>ri_ktime_enter = 10, ri_ptr = 20, ri_cnt = 0\<rparr> \<and> snd (retprobe_map_get 1 2 s2) = None"
    by (rule retprobe_roundtrip [OF _ _ _ _ s1_def g]) (simp_all add: rp_empty_def empty_map_def)
  with g show ?thesis by (simp add: s1_def)
qed

end
