(* ===== verification/Generic_State.thy ===== *)
theory Generic_State
  imports Arg_Filters Enforcer Retprobe Data_Event Cgroup
begin

text \<open>
  The shared state of the generic sensors (\<^verbatim>\<open>process/generic_maps.h\<close>, \<^verbatim>\<open>process/heap.h\<close>, the maps of
  \<^verbatim>\<open>process/types/basic.h\<close> and \<^verbatim>\<open>process/uprobe_offload.h\<close>): the scratch message, the maps the programs write, and
  the configuration that user space writes. One source is compiled into eight program types; the type is the
  parameter \<open>fl\<close>.
\<close>

section \<open>Program types and configuration\<close>

datatype flavour = KPROBE | KRETPROBE | UPROBE | URETPROBE | TRACEPOINT | LSM | USDT | RAWTP

record config_btf_arg =
  cb_offset :: u32
  cb_is_pointer :: u16
  cb_is_initialized :: u16

record config_usdt_arg =
  cu_val_off :: u64
  cu_reg_off :: u32
  cu_reg_idx_off :: u32
  cu_shift :: u8
  cu_type :: u8
  cu_sig :: u8
  cu_scale :: u8

record config_reg_arg =
  cr_offset :: u16
  cr_size :: u8

text \<open>The arrays of the configuration are lists; signed 32-bit fields are words.\<close>

record event_config =
  ec_func_id :: u32
  ec_arg :: "u32 list"
  ec_arm :: "u32 list"
  ec_off :: "u32 list"
  ec_idx :: "u32 list"
  ec_syscall :: u32
  ec_argreturncopy :: u32
  ec_argreturn :: u32
  ec_argreturnaction :: u32
  ec_policy_id :: u32
  ec_btf_arg :: "config_btf_arg list list"
  ec_usdt_arg :: "config_usdt_arg list"
  ec_reg_arg :: "config_reg_arg list"

definition USDT_ARG_TYPE_NONE :: u8 where [tg_consts]: "USDT_ARG_TYPE_NONE = 0"
definition USDT_ARG_TYPE_CONST :: u8 where [tg_consts]: "USDT_ARG_TYPE_CONST = 1"
definition USDT_ARG_TYPE_REG :: u8 where [tg_consts]: "USDT_ARG_TYPE_REG = 2"
definition USDT_ARG_TYPE_REG_DEREF :: u8 where [tg_consts]: "USDT_ARG_TYPE_REG_DEREF = 3"
definition USDT_ARG_TYPE_SIB :: u8 where [tg_consts]: "USDT_ARG_TYPE_SIB = 4"

section \<open>State\<close>

record fdinstall_key =
  fi_tid :: u64
  fi_fd :: u32

record ratelimit_key =
  rl_func_id :: u64
  rl_action :: u64
  rl_tid :: u64
  rl_data :: "byte list"

record socket_owner =
  so_pid :: u32
  so_tid :: u32
  so_ktime :: u64

record write_offload_data =
  wo_addr :: u64
  wo_value :: u32

record ima_hash =
  ih_state :: u8
  ih_algo :: u8
  ih_value :: "byte list"

text \<open>
  \<open>gs_e\<close> is the element of \<^verbatim>\<open>process_call_heap\<close>, \<open>gs_heap\<close> the 4104 bytes of \<^verbatim>\<open>heap\<close> and \<open>gs_ratelimit_heap\<close> says whether
  the lookup in \<^verbatim>\<open>ratelimit_heap\<close> succeeds. \<open>gs_signals\<close> are the signals sent to the current task.
\<close>

record gen_state =
  gs_e :: "msg_generic_kprobe option"
  gs_x :: exec_state
  gs_os :: out_state
  gs_en :: enforcer_state
  gs_rp :: retprobe_state
  gs_fd :: "(fdinstall_key, byte list) lru_map"
  gs_heap :: "byte list option"
  gs_ratelimit :: "(ratelimit_key, u64) lru_map"
  gs_ratelimit_heap :: bool
  gs_sock :: "(u64, socket_owner) lru_map"
  gs_override :: "(u64, u32) bpf_map"
  gs_sleepable :: "(u64, u32) bpf_map"
  gs_write_offload :: "(u64, write_offload_data) bpf_map"
  gs_signals :: "int list"
  gs_path :: "byte list option"
  gs_data :: "msg_data option"
  gs_ima :: "(u64, ima_hash) bpf_map"

text \<open>
  Fields of kernel structures that the programs read are named by strings; their offsets come from the kernel's type information and
  are a parameter, as is which of the optional features of the kernel are there.
\<close>

type_synonym kfield = string

datatype kfeature = Has_iter_type | Has_iter_iovec | Has_iter_ubuf | Protocol_is_u32 | Has_active_extensions | Has_sec_path

text \<open>
  What the helpers answer during one run of a program, and the maps only user space writes: the task, the
  time, the stack ids, memory, the address of the context and the registers in it, the answer to a write to user memory, the compiled
  policy, the configuration, the mode of the policy (\<open>None\<close>: no such element),
  the cgroups and the policies that apply to them, and the sets of binaries.
\<close>

record gen_ctx =
  gx_kt :: ktask
  gx_kp :: kproc
  gx_vf :: kvfs
  gx_ktime :: u64
  gx_fp :: u64
  gx_stackid :: "bool \<Rightarrow> u64"
  gx_mem :: memory
  gx_co :: "kfield \<Rightarrow> u64"
  gx_has :: "kfeature \<Rightarrow> bool"
  gx_enum :: "kfeature \<Rightarrow> u64"
  gx_i_mode :: "ptr \<Rightarrow> u16"
  gx_index :: u32
  gx_ctx :: ptr
  gx_regs :: "u32 \<Rightarrow> u64"
  gx_syscall_regs :: ptr
  gx_write_user :: "ptr \<Rightarrow> u32 \<Rightarrow> int"
  gx_race :: "missed_map \<Rightarrow> missed_map"
  gx_am :: arg_maps
  gx_filter_map :: "u32 \<rightharpoonup> byte list"
  gx_config_map :: "u32 \<rightharpoonup> event_config"
  gx_policy_mode :: "u8 option"
  gx_kc :: kcgrp
  gx_cs :: cgrp_state
  gx_policies :: "u32 \<rightharpoonup> (u64 \<rightharpoonup> u8)"
  gx_mbs :: mbset
  gx_mm :: mb_maps

definition gx_pid_tgid :: "gen_ctx \<Rightarrow> u64" where
  "gx_pid_tgid gx = kt_pid_tgid (gx_kt gx)"

text \<open>A store to a hash map through the pointer of a lookup, or an insertion (\<^verbatim>\<open>if (p) *p = v; else map_update_elem\<close>).\<close>

definition set_or_insert :: "('k, 'v) bpf_map \<Rightarrow> 'k \<Rightarrow> 'v \<Rightarrow> ('k, 'v) bpf_map" where
  "set_or_insert m k v =
     (case map_lookup_elem m k of
        Some _ \<Rightarrow> map_modify m k (\<lambda>_. v)
      | None \<Rightarrow> fst (map_update_elem m k v BPF_ANY))"

lemma set_or_insert_lookup:
  "map_lookup_elem (set_or_insert m k v) j =
     (if j = k \<and> (map_lookup_elem m k \<noteq> None \<or> snd (map_update_elem m k v BPF_ANY) = 0) then Some v else map_lookup_elem m j)"
  by (auto simp: set_or_insert_def split: option.splits)

section \<open>Concrete states\<close>

definition gs_example :: gen_state where
  "gs_example = \<lparr>gs_e = Some e_example, gs_x = xs_current,
     gs_os = \<lparr>os_sent = [], os_answer = (\<lambda>_ _ _. 0), os_tg_stats = Some (\<lambda>_ _. 0), os_policy_stats = Some (\<lambda>_. 0), os_conf = None\<rparr>,
     gs_en = enf_start, gs_rp = rp_empty, gs_fd = empty_lru, gs_heap = Some (replicate 4104 9), gs_ratelimit = empty_lru,
     gs_ratelimit_heap = True, gs_sock = empty_lru, gs_override = empty_map, gs_sleepable = empty_map,
     gs_write_offload = empty_map, gs_signals = [], gs_path = None, gs_data = None, gs_ima = empty_map\<rparr>"

definition gx_example :: gen_ctx where
  "gx_example = \<lparr>gx_kt = kt_example, gx_kp = kp_example, gx_vf = vf_example, gx_ktime = 5000000, gx_fp = 0,
     gx_stackid = (\<lambda>_. 0), gx_mem = (\<lambda>_. None), gx_co = (\<lambda>_. 0), gx_has = (\<lambda>_. False), gx_enum = (\<lambda>_. 0),
     gx_i_mode = (\<lambda>_. 0), gx_index = 0, gx_ctx = 0, gx_regs = (\<lambda>_. 0), gx_syscall_regs = 0, gx_write_user = (\<lambda>_ _. 0), gx_race = id, gx_am = am_example,
     gx_filter_map = [0 \<mapsto> g_example], gx_config_map = Map.empty, gx_policy_mode = None,
     gx_kc = kc_example, gx_cs = cs_example, gx_policies = Map.empty, gx_mbs = fk_mbs fk_example, gx_mm = fk_mm fk_example\<rparr>"

end
