(* ===== verification/Generic_Actions.thy ===== *)
theory Generic_Actions
  imports Generic_State
begin

text \<open>
  The actions of a matching selector and the output of the event (\<^verbatim>\<open>process/generic_calls.h\<close>,
  \<^verbatim>\<open>process/types/basic.h\<close>, \<^verbatim>\<open>process/uprobe_offload.h\<close>, \<^verbatim>\<open>process/bpf_generic_kprobe.c\<close>): following file descriptors, rate
  limits, socket tracking, signals, overriding return values, notifying the enforcer, setting USDT arguments.
\<close>

section \<open>Constants\<close>

definition ACTION_POST :: u32 where [tg_consts]: "ACTION_POST = 0"
definition ACTION_FOLLOWFD :: u32 where [tg_consts]: "ACTION_FOLLOWFD = 1"
definition ACTION_SIGKILL :: u32 where [tg_consts]: "ACTION_SIGKILL = 2"
definition ACTION_UNFOLLOWFD :: u32 where [tg_consts]: "ACTION_UNFOLLOWFD = 3"
definition ACTION_OVERRIDE :: u32 where [tg_consts]: "ACTION_OVERRIDE = 4"
definition ACTION_COPYFD :: u32 where [tg_consts]: "ACTION_COPYFD = 5"
definition ACTION_GETURL :: u32 where [tg_consts]: "ACTION_GETURL = 6"
definition ACTION_DNSLOOKUP :: u32 where [tg_consts]: "ACTION_DNSLOOKUP = 7"
definition ACTION_NOPOST :: u32 where [tg_consts]: "ACTION_NOPOST = 8"
definition ACTION_SIGNAL :: u32 where [tg_consts]: "ACTION_SIGNAL = 9"
definition ACTION_TRACKSOCK :: u32 where [tg_consts]: "ACTION_TRACKSOCK = 10"
definition ACTION_UNTRACKSOCK :: u32 where [tg_consts]: "ACTION_UNTRACKSOCK = 11"
definition ACTION_NOTIFY_ENFORCER :: u32 where [tg_consts]: "ACTION_NOTIFY_ENFORCER = 12"
definition ACTION_CLEANUP_ENFORCER_NOTIFICATION :: u32 where [tg_consts]: "ACTION_CLEANUP_ENFORCER_NOTIFICATION = 13"
definition ACTION_SET :: u32 where [tg_consts]: "ACTION_SET = 14"

definition FGS_SIGKILL :: u32 where [tg_consts]: "FGS_SIGKILL = 9"
definition MAX_ACTIONS :: nat where [tg_consts]: "MAX_ACTIONS = 3"
definition MAX_POSSIBLE_ARGS :: nat where [tg_consts]: "MAX_POSSIBLE_ARGS = 5"
definition KEY_BYTES_PER_ARG :: nat where [tg_consts]: "KEY_BYTES_PER_ARG = 40"

definition MSG_COMMON_FLAG_KERNEL_STACKTRACE :: byte where [tg_consts]: "MSG_COMMON_FLAG_KERNEL_STACKTRACE = 2"
definition MSG_COMMON_FLAG_USER_STACKTRACE :: byte where [tg_consts]: "MSG_COMMON_FLAG_USER_STACKTRACE = 4"
definition MSG_COMMON_FLAG_IMA_HASH :: byte where [tg_consts]: "MSG_COMMON_FLAG_IMA_HASH = 8"
definition MSG_COMMON_FLAG_ACTION_FAILED :: byte where [tg_consts]: "MSG_COMMON_FLAG_ACTION_FAILED = 32"

definition POLICY_SIGNAL :: nat where [tg_consts]: "POLICY_SIGNAL = 2"
definition POLICY_MONITOR_SIGNAL :: nat where [tg_consts]: "POLICY_MONITOR_SIGNAL = 3"
definition POLICY_OVERRIDE :: nat where [tg_consts]: "POLICY_OVERRIDE = 4"
definition POLICY_MONITOR_OVERRIDE :: nat where [tg_consts]: "POLICY_MONITOR_OVERRIDE = 5"
definition POLICY_NOTIFY_ENFORCER :: nat where [tg_consts]: "POLICY_NOTIFY_ENFORCER = 6"
definition POLICY_MONITOR_NOTIFY_ENFORCER :: nat where [tg_consts]: "POLICY_MONITOR_NOTIFY_ENFORCER = 7"

definition POLICY_MODE_ENFORCE :: u8 where [tg_consts]: "POLICY_MODE_ENFORCE = 0"

section \<open>Model: single actions\<close>

definition fd_key :: "gen_ctx \<Rightarrow> u32 \<Rightarrow> fdinstall_key" where
  "fd_key gx fd = \<lparr>fi_tid = drop_bit 32 (gx_pid_tgid gx), fi_fd = fd\<rparr>"

text \<open>The offset of an argument that an action names, masked to 11 bits; \<open>None\<close> when the index is not below six.\<close>

definition action_argoff :: "msg_generic_kprobe \<Rightarrow> u32 \<Rightarrow> nat option" where
  "action_argoff e i =
     (let j = i AND 0xf in if j > 5 then None else Some (unat (argsoff_at e (unat j) AND 0x7ff)))"

definition installfd :: "gen_ctx \<Rightarrow> msg_generic_kprobe \<Rightarrow> u32 \<Rightarrow> u32 \<Rightarrow> bool \<Rightarrow> gen_state \<Rightarrow> gen_state \<times> int" where
  "installfd gx e fd name follow s =
     (case gs_heap s of
        None \<Rightarrow> (s, 0)
      | Some val \<Rightarrow>
          (case action_argoff e fd of
             None \<Rightarrow> (s, 0)
           | Some fdoff \<Rightarrow>
               let key = fd_key gx (rd32 (gk_args e) fdoff)
               in if follow
                  then (case action_argoff e name of
                          None \<Rightarrow> (s, 0)
                        | Some nameoff \<Rightarrow>
                            let size = unat (rd32 (gk_args e) nameoff AND 0xfff);
                                val' = blit 0 (slice nameoff (size + 4 + 4) (gk_args e)) val
                            in (s\<lparr>gs_heap := Some val', gs_fd := fst (lru_update_elem (gs_fd s) key val')\<rparr>, 0))
                  else (s\<lparr>gs_fd := fst (map_delete_elem (gs_fd s) key)\<rparr>, snd (map_delete_elem (gs_fd s) key))))"

definition copyfd :: "gen_ctx \<Rightarrow> msg_generic_kprobe \<Rightarrow> u32 \<Rightarrow> u32 \<Rightarrow> gen_state \<Rightarrow> gen_state \<times> int" where
  "copyfd gx e oldfd newfd s =
     (case action_argoff e oldfd of
        None \<Rightarrow> (s, 0)
      | Some oldfdoff \<Rightarrow>
          (case map_lookup_elem (gs_fd s) (fd_key gx (rd32 (gk_args e) oldfdoff)) of
             None \<Rightarrow> (s, 0)
           | Some val \<Rightarrow>
               (case action_argoff e newfd of
                  None \<Rightarrow> (s, 0)
                | Some newfdoff \<Rightarrow>
                    (s\<lparr>gs_fd := fst (lru_update_elem (gs_fd s) (fd_key gx (rd32 (gk_args e) newfdoff)) val)\<rparr>, 0))))"

definition msg_generic_arg_value_u64 :: "msg_generic_kprobe \<Rightarrow> u32 \<Rightarrow> u64 \<Rightarrow> u64" where
  "msg_generic_arg_value_u64 e arg_id err_val =
     (if arg_id > of_nat MAX_POSSIBLE_ARGS then err_val
      else rd64 (gk_args e) (unat (argsoff_at e (unat arg_id) AND 0x7ff)))"

text \<open>
  The argument bytes of a rate limit key: up to 40 bytes of every argument, one behind the other. \<open>i\<close> is the
  argument, \<open>k\<close> the number of arguments left. The offsets are signed.
\<close>

fun ratelimit_copy :: "msg_generic_kprobe \<Rightarrow> nat \<Rightarrow> nat \<Rightarrow> u32 \<Rightarrow> byte list \<Rightarrow> byte list" where
  "ratelimit_copy e 0 i index dst = dst"
| "ratelimit_copy e (Suc k) i index dst =
     (let off = gk_argsoff e ! i; size = ucast (mc_size (gk_common e))
      in if size <=s off then dst
         else let arg_size0 = (ucast (if i < MAX_POSSIBLE_ARGS - 1 then gk_argsoff e ! (i + 1) - off else size - off) :: u32)
              in if 0 <s arg_size0
                 then (let key_index = unat (off AND 16383);
                           arg_size = (if of_nat KEY_BYTES_PER_ARG <s arg_size0 then of_nat KEY_BYTES_PER_ARG else arg_size0) AND 0x3f;
                           index' = index AND 0xff
                       in ratelimit_copy e k (Suc i) (index' + arg_size)
                            (blit (unat index') (slice key_index (unat arg_size) (gk_args e)) dst))
                 else ratelimit_copy e k (Suc i) index dst)"

definition ratelimit_scope_tid :: "msg_generic_kprobe \<Rightarrow> u64 \<Rightarrow> u64 option" where
  "ratelimit_scope_tid e scope =
     (if scope = 0 then Some (ucast (gk_tid e))
      else if scope = 1 then Some (ucast (ek_pid (gk_current e)))
      else if scope = 2 then Some 0
      else None)"

definition rate_limit :: "gen_ctx \<Rightarrow> u64 \<Rightarrow> u64 \<Rightarrow> msg_generic_kprobe \<Rightarrow> gen_state \<Rightarrow> gen_state \<times> bool" where
  "rate_limit gx interval scope e s =
     (let curr_time = gx_ktime gx
      in if interval = 0 then (s, False)
         else if \<not> gs_ratelimit_heap s then (s, False)
         else case ratelimit_scope_tid e scope of
                None \<Rightarrow> (s, False)
              | Some tid \<Rightarrow>
                  let key = \<lparr>rl_func_id = gk_func_id e, rl_action = gk_action e, rl_tid = tid,
                             rl_data = ratelimit_copy e MAX_POSSIBLE_ARGS 0 0 (replicate (MAX_POSSIBLE_ARGS * KEY_BYTES_PER_ARG) 0)\<rparr>
                  in if (case map_lookup_elem (gs_ratelimit s) key of
                           None \<Rightarrow> False
                         | Some seen \<Rightarrow> seen > curr_time - interval * 1000000)
                     then (s, True)
                     else (s\<lparr>gs_ratelimit := fst (lru_update_elem (gs_ratelimit s) key curr_time)\<rparr>, False))"

definition tracksock :: "build \<Rightarrow> gen_ctx \<Rightarrow> msg_generic_kprobe \<Rightarrow> u32 \<Rightarrow> bool \<Rightarrow> gen_state \<Rightarrow> gen_state \<times> int" where
  "tracksock bd gx e socki track s =
     (if \<not> bd_large bd then (s, 0)
      else case action_argoff e socki of
             None \<Rightarrow> (s, 0)
           | Some sockoff \<Rightarrow>
               let sockaddr = rd64 (gk_args e) (sockoff + 40)
               in if sockaddr = 0 then (s, 0)
                  else if \<not> track then (s\<lparr>gs_sock := fst (map_delete_elem (gs_sock s) sockaddr)\<rparr>, snd (map_delete_elem (gs_sock s) sockaddr))
                  else case execve_map_get_noinit (current_tgid (gx_kt gx)) (gs_x s) of
                         None \<Rightarrow> (s, 0)
                       | Some v \<Rightarrow>
                           let owner = \<lparr>so_pid = ek_pid (ev_key v), so_tid = ucast (gx_pid_tgid gx), so_ktime = ek_ktime (ev_key v)\<rparr>
                           in (s\<lparr>gs_sock := fst (lru_update_elem (gs_sock s) sockaddr owner)\<rparr>, 0))"

definition update_pid_tid_from_sock :: "build \<Rightarrow> gen_state \<Rightarrow> u64 \<Rightarrow> msg_generic_kprobe \<Rightarrow> msg_generic_kprobe" where
  "update_pid_tid_from_sock bd s sockaddr e =
     (if \<not> bd_large bd then e
      else case map_lookup_elem (gs_sock s) sockaddr of
             None \<Rightarrow> e
           | Some owner \<Rightarrow>
               e\<lparr>gk_current := (gk_current e)\<lparr>ek_pid := so_pid owner, ek_ktime := so_ktime owner\<rparr>, gk_tid := so_tid owner\<rparr>)"

definition do_action_signal :: "build \<Rightarrow> u32 \<Rightarrow> gen_state \<Rightarrow> gen_state" where
  "do_action_signal bd sig s = (if bd_large bd then s\<lparr>gs_signals := gs_signals s @ [sint sig]\<rparr> else s)"

definition do_action_notify_enforcer ::
  "flavour \<Rightarrow> gen_ctx \<Rightarrow> msg_generic_kprobe \<Rightarrow> u32 \<Rightarrow> u32 \<Rightarrow> u32 \<Rightarrow> gen_state \<Rightarrow> gen_state" where
  "do_action_notify_enforcer fl gx e error sig info_arg_id s =
     (if fl = TRACEPOINT \<or> fl = KPROBE
      then (let argv = msg_generic_arg_value_u64 e info_arg_id 0;
                info = \<lparr>ea_func_id = ucast (gk_func_id e), ea_arg = ucast argv\<rparr>
            in s\<lparr>gs_en := do_enforcer_action (gx_race gx) (gx_pid_tgid gx) (sint error) (sint sig) info (gs_en s)\<rparr>)
      else s)"

definition do_override_action :: "flavour \<Rightarrow> gen_ctx \<Rightarrow> u32 \<Rightarrow> gen_state \<Rightarrow> gen_state" where
  "do_override_action fl gx error s =
     (if fl = KPROBE \<or> fl = LSM then s\<lparr>gs_override := set_or_insert (gs_override s) (gx_pid_tgid gx) error\<rparr> else s)"

definition do_uprobe_override :: "gen_ctx \<Rightarrow> u32 \<Rightarrow> gen_state \<Rightarrow> gen_state" where
  "do_uprobe_override gx idx s = s\<lparr>gs_sleepable := set_or_insert (gs_sleepable s) (gx_pid_tgid gx) idx\<rparr>"

text \<open>Before Linux 6.1 the program writes to user memory itself, later a sleepable program does it.\<close>

definition write_user_arg :: "build \<Rightarrow> gen_ctx \<Rightarrow> ptr \<Rightarrow> u32 \<Rightarrow> gen_state \<Rightarrow> gen_state \<times> int" where
  "write_user_arg bd gx addr val s =
     (if bd_v61 bd
      then (s\<lparr>gs_write_offload := set_or_insert (gs_write_offload s) (gx_pid_tgid gx) \<lparr>wo_addr = addr, wo_value = val\<rparr>\<rparr>, 0)
      else (s, gx_write_user gx addr val))"

definition do_set_action :: "flavour \<Rightarrow> build \<Rightarrow> gen_ctx \<Rightarrow> u32 \<Rightarrow> u32 \<Rightarrow> gen_state \<Rightarrow> gen_state" where
  "do_set_action fl bd gx arg_idx arg_value s =
     (if fl \<noteq> USDT then s
      else case gs_e s of
             None \<Rightarrow> s
           | Some e \<Rightarrow>
               (case gx_config_map gx (gk_idx e) of
                  None \<Rightarrow> s
                | Some config \<Rightarrow>
                    let arg = ec_usdt_arg config ! unat (arg_idx AND 7);
                        failed = s\<lparr>gs_e := Some (e\<lparr>gk_common := (gk_common e)\<lparr>mc_flags := mc_flags (gk_common e) OR MSG_COMMON_FLAG_ACTION_FAILED\<rparr>\<rparr>)\<rparr>
                    in if cu_type arg = USDT_ARG_TYPE_REG_DEREF
                       then (case probe_read (gx_mem gx) 8 (gx_ctx gx + ucast (cu_reg_off arg AND 0xfff)) of
                               (bs, err) \<Rightarrow>
                                 if err \<noteq> 0 then s
                                 else (case write_user_arg bd gx (le_word bs + cu_val_off arg) arg_value s of
                                         (s', err') \<Rightarrow> if err' \<noteq> 0 then failed\<lparr>gs_write_offload := gs_write_offload s'\<rparr> else s'))
                       else failed))"

section \<open>Model: the actions of a selector\<close>

text \<open>Word \<open>i\<close> of the action list at \<open>base\<close>, behind the length field.\<close>

definition act_word :: "byte list \<Rightarrow> nat \<Rightarrow> u32 \<Rightarrow> u32" where
  "act_word f base i = rd32 f (base + 4 + 4 * unat i)"

definition or_flags :: "byte \<Rightarrow> msg_generic_kprobe \<Rightarrow> msg_generic_kprobe" where
  "or_flags fl e = e\<lparr>gk_common := (gk_common e)\<lparr>mc_flags := mc_flags (gk_common e) OR fl\<rparr>\<rparr>"

definition action_post ::
  "build \<Rightarrow> gen_ctx \<Rightarrow> (u32 \<Rightarrow> u32) \<Rightarrow> msg_generic_kprobe \<Rightarrow> gen_state \<Rightarrow> bool \<Rightarrow> gen_state \<times> bool" where
  "action_post bd gx arg e s post =
     (case (if bd_large bd then rate_limit gx (ucast (arg 1)) (ucast (arg 2)) e s else (s, False)) of
        (s1, limited) \<Rightarrow>
          let e1 = (if arg 3 \<noteq> 0
                    then (or_flags MSG_COMMON_FLAG_KERNEL_STACKTRACE e)\<lparr>gk_kernel_stack_id := gx_stackid gx False\<rparr> else e);
              e2 = (if arg 4 \<noteq> 0
                    then (or_flags MSG_COMMON_FLAG_USER_STACKTRACE e1)\<lparr>gk_user_stack_id := gx_stackid gx True\<rparr> else e1);
              e3 = (if bd_v511 bd \<and> arg 5 \<noteq> 0 then or_flags MSG_COMMON_FLAG_IMA_HASH e2 else e2)
          in (s1\<lparr>gs_e := Some e3\<rparr>, if limited then False else post))"

text \<open>
  The switch of \<^verbatim>\<open>do_action\<close>: the state, the variable \<^verbatim>\<open>post\<close>, the number of words consumed behind the action word,
  the error, and the policy counter to update.
\<close>

definition action_effect ::
  "flavour \<Rightarrow> build \<Rightarrow> gen_ctx \<Rightarrow> bool \<Rightarrow> u32 \<Rightarrow> (u32 \<Rightarrow> u32) \<Rightarrow> msg_generic_kprobe \<Rightarrow> gen_state \<Rightarrow> bool
     \<Rightarrow> gen_state \<times> bool \<times> u32 \<times> int \<times> nat option" where
  "action_effect fl bd gx enforce action arg e s post =
     (if action = ACTION_NOPOST then (s, False, 0, 0, None)
      else if action = ACTION_POST
      then (case action_post bd gx arg e s post of (s', post') \<Rightarrow> (s', post', if bd_v511 bd then 5 else 4, 0, None))
      else if action = ACTION_UNFOLLOWFD \<or> action = ACTION_FOLLOWFD
      then (case installfd gx e (arg 1) (arg 2) (action = ACTION_FOLLOWFD) s of (s', err) \<Rightarrow> (s', post, 2, err, None))
      else if action = ACTION_COPYFD
      then (case copyfd gx e (arg 1) (arg 2) s of (s', err) \<Rightarrow> (s', post, 2, err, None))
      else if action = ACTION_SIGNAL
      then (if enforce then (do_action_signal bd (arg 1) s, post, 1, 0, Some POLICY_SIGNAL)
            else (s, post, 1, 0, Some POLICY_MONITOR_SIGNAL))
      else if action = ACTION_SIGKILL
      then (if enforce then (do_action_signal bd FGS_SIGKILL s, post, 0, 0, Some POLICY_SIGNAL)
            else (s, post, 0, 0, Some POLICY_MONITOR_SIGNAL))
      else if action = ACTION_OVERRIDE
      then (if enforce
            then (if fl = UPROBE then do_uprobe_override gx (arg 1) s else do_override_action fl gx (arg 1) s,
                  post, 1, 0, Some POLICY_OVERRIDE)
            else (s, post, 1, 0, Some POLICY_MONITOR_OVERRIDE))
      else if action = ACTION_GETURL \<or> action = ACTION_DNSLOOKUP
      then (s\<lparr>gs_e := Some (e\<lparr>gk_action_arg_id := arg 1\<rparr>)\<rparr>, post, 1, 0, None)
      else if action = ACTION_TRACKSOCK \<or> action = ACTION_UNTRACKSOCK
      then (case tracksock bd gx e (arg 1) (action = ACTION_TRACKSOCK) s of (s', err) \<Rightarrow> (s', post, 1, err, None))
      else if action = ACTION_NOTIFY_ENFORCER
      then (if enforce
            then (do_action_notify_enforcer fl gx e (arg 1) (arg 2) (arg 3) s, post, 3, 0, Some POLICY_NOTIFY_ENFORCER)
            else (s, post, 3, 0, Some POLICY_MONITOR_NOTIFY_ENFORCER))
      else if action = ACTION_CLEANUP_ENFORCER_NOTIFICATION
      then (s\<lparr>gs_en := do_enforcer_cleanup (gx_race gx) (gx_pid_tgid gx) (gs_en s)\<rparr>, post, 0, 0, None)
      else if action = ACTION_SET
      then (do_set_action fl bd gx (arg 1) (arg 2) s, post, 2, 0, None)
      else (s, post, 0, 0, None))"

definition do_action ::
  "flavour \<Rightarrow> build \<Rightarrow> gen_ctx \<Rightarrow> byte list \<Rightarrow> nat \<Rightarrow> bool \<Rightarrow> u32 \<Rightarrow> gen_state \<times> bool \<Rightarrow> (gen_state \<times> bool) \<times> u32" where
  "do_action fl bd gx f base enforce i sp =
     (case gs_e (fst sp) of
        None \<Rightarrow> (sp, 0)
      | Some e \<Rightarrow>
          let action = act_word f base i
          in case action_effect fl bd gx enforce action (\<lambda>k. act_word f base (i + k)) e (fst sp) (snd sp) of
               (s1, post, n, err, polacct) \<Rightarrow>
                 let s2 = (case polacct of None \<Rightarrow> s1 | Some p \<Rightarrow> s1\<lparr>gs_os := policy_stats_update bd p (gs_os s1)\<rparr>)
                 in if err = 0
                    then ((s2\<lparr>gs_e := map_option (\<lambda>e'. e'\<lparr>gk_action := scast action\<rparr>) (gs_e s2)\<rparr>, post), i + n + 1)
                    else ((s2, post), 0))"

definition has_action :: "byte list \<Rightarrow> nat \<Rightarrow> u32 \<Rightarrow> bool" where
  "has_action f base idx \<longleftrightarrow> idx * 4 + 4 < rd32 f base"

fun do_actions_loop ::
  "flavour \<Rightarrow> build \<Rightarrow> gen_ctx \<Rightarrow> byte list \<Rightarrow> nat \<Rightarrow> bool \<Rightarrow> nat \<Rightarrow> u32 \<Rightarrow> gen_state \<times> bool \<Rightarrow> gen_state \<times> bool" where
  "do_actions_loop fl bd gx f base enforce 0 i sp = sp"
| "do_actions_loop fl bd gx f base enforce (Suc n) i sp =
     (if \<not> has_action f base i then sp
      else case do_action fl bd gx f base enforce i sp of
             (sp', i') \<Rightarrow> do_actions_loop fl bd gx f base enforce n i' sp')"

definition enforce_mode :: "gen_ctx \<Rightarrow> bool" where
  "enforce_mode gx = (case gx_policy_mode gx of None \<Rightarrow> True | Some m \<Rightarrow> m = POLICY_MODE_ENFORCE)"

definition do_actions :: "flavour \<Rightarrow> build \<Rightarrow> gen_ctx \<Rightarrow> byte list \<Rightarrow> nat \<Rightarrow> gen_state \<Rightarrow> gen_state \<times> bool" where
  "do_actions fl bd gx f base s = do_actions_loop fl bd gx f base (enforce_mode gx) MAX_ACTIONS 0 (s, True)"

definition SIZEOF_GENERIC_HEAD :: nat where [tg_consts]: "SIZEOF_GENERIC_HEAD = 144"

definition refresh_entry :: "flavour \<Rightarrow> build \<Rightarrow> gen_ctx \<Rightarrow> msg_generic_kprobe \<Rightarrow> exec_state \<Rightarrow> exec_state" where
  "refresh_entry fl bd gx e x =
     (let pid = current_tgid (gx_kt gx); task = kt_current (gx_kt gx);
          x1 = (if sd_match_ns (gk_sel e) \<noteq> 0
                then execve_map_write pid (\<lambda>v. v\<lparr>ev_ns := get_namespaces (gx_kp gx) (gx_kt gx) task (ev_ns v)\<rparr>) x else x);
          x2 = (if sd_match_cap (gk_sel e) \<noteq> 0
                then execve_map_write pid (\<lambda>v. v\<lparr>ev_caps := get_current_subj_caps (gx_kp gx) task (ev_caps v)\<rparr>) x1 else x1)
      in if fl = KRETPROBE \<or> fl = URETPROBE \<or> \<not> bd_large bd then x else x2)"

definition generic_output :: "flavour \<Rightarrow> build \<Rightarrow> gen_ctx \<Rightarrow> u8 \<Rightarrow> gen_state \<Rightarrow> gen_state" where
  "generic_output fl bd gx op s =
     (case gs_e s of
        None \<Rightarrow> s
      | Some e \<Rightarrow>
          let total0 = (ucast (mc_size (gk_common e)) + of_nat SIZEOF_GENERIC_HEAD :: u64) AND 0x7fff;
              total = (if total0 < 9000 then total0 else 9000)
          in s\<lparr>gs_x := refresh_entry fl bd gx e (gs_x s),
               gs_os := event_output_metric bd op (Ev_generic e) total (gs_os s)\<rparr>)"

text \<open>The answer says whether the event is to be posted, which is a tail call to the output program.\<close>

definition generic_actions :: "flavour \<Rightarrow> build \<Rightarrow> gen_ctx \<Rightarrow> gen_state \<Rightarrow> gen_state \<times> bool" where
  "generic_actions fl bd gx s =
     (case gs_e s of
        None \<Rightarrow> (s, False)
      | Some e \<Rightarrow>
          if gk_pass e <=s 1 then (s, False)
          else case gx_filter_map gx (gk_idx e) of
                 None \<Rightarrow> (s, False)
               | Some f \<Rightarrow>
                   let pass = gk_pass e AND 0x7ff;
                       actoff = (pass + rd32 f (unat pass)) AND 0x7ff
                   in do_actions fl bd gx f (unat actoff) s)"

section \<open>Model: the override programs\<close>

text \<open>
  \<open>stale\<close> is what the freed map element holds when it is read after its deletion. The kprobe flavour
  answers the value given to \<^verbatim>\<open>override_return\<close>, if it was called.
\<close>

definition generic_kprobe_override :: "gen_ctx \<Rightarrow> gen_state \<Rightarrow> gen_state \<times> u64 option" where
  "generic_kprobe_override gx s =
     (case map_lookup_elem (gs_override s) (gx_pid_tgid gx) of
        None \<Rightarrow> (s, None)
      | Some error \<Rightarrow> (s\<lparr>gs_override := fst (map_delete_elem (gs_override s) (gx_pid_tgid gx))\<rparr>, Some (scast error)))"

definition generic_fmodret_override :: "(u32 \<Rightarrow> u32) \<Rightarrow> gen_ctx \<Rightarrow> gen_state \<Rightarrow> gen_state \<times> u64" where
  "generic_fmodret_override stale gx s =
     (case map_lookup_elem (gs_override s) (gx_pid_tgid gx) of
        None \<Rightarrow> (s, 0)
      | Some error \<Rightarrow> (s\<lparr>gs_override := fst (map_delete_elem (gs_override s) (gx_pid_tgid gx))\<rparr>, scast (stale error)))"

definition set_if_not_errno_or_zero :: "int \<Rightarrow> int \<Rightarrow> int" where
  "set_if_not_errno_or_zero x y = (if x < - 4095 then y else if x \<le> 0 then x else y)"

definition try_override :: "(u32 \<Rightarrow> u32) \<Rightarrow> gen_ctx \<Rightarrow> gen_state \<Rightarrow> gen_state \<times> int" where
  "try_override stale gx s =
     (case map_lookup_elem (gs_override s) (gx_pid_tgid gx) of
        None \<Rightarrow> (s, 0)
      | Some error \<Rightarrow>
          (s\<lparr>gs_override := fst (map_delete_elem (gs_override s) (gx_pid_tgid gx))\<rparr>,
           set_if_not_errno_or_zero (sint (stale error)) (- 1)))"

section \<open>Frames\<close>

text \<open>What enforcement leaves behind: signals sent, return values to override, uprobe register writes to do.\<close>

definition enforced :: "gen_state \<Rightarrow> int list \<times> (u64, u32) bpf_map \<times> (u64, u32) bpf_map" where
  "enforced s = (gs_signals s, gs_override s, gs_sleepable s)"

named_theorems enforced_frame \<open>operations that do not enforce\<close>

lemma enforced_updates [simp]:
  "enforced (s\<lparr>gs_e := e\<rparr>) = enforced s" "enforced (s\<lparr>gs_os := os\<rparr>) = enforced s" "enforced (s\<lparr>gs_fd := fd\<rparr>) = enforced s"
  "enforced (s\<lparr>gs_heap := h\<rparr>) = enforced s" "enforced (s\<lparr>gs_ratelimit := r\<rparr>) = enforced s"
  "enforced (s\<lparr>gs_sock := so\<rparr>) = enforced s" "enforced (s\<lparr>gs_en := en\<rparr>) = enforced s"
  "enforced (s\<lparr>gs_write_offload := w\<rparr>) = enforced s" "enforced (s\<lparr>gs_x := x\<rparr>) = enforced s"
  by (simp_all add: enforced_def)

lemma installfd_frame [enforced_frame]: "enforced (fst (installfd gx e fd name follow s)) = enforced s"
  by (simp add: installfd_def Let_def split: option.split)

lemma copyfd_frame [enforced_frame]: "enforced (fst (copyfd gx e oldfd newfd s)) = enforced s"
  by (simp add: copyfd_def split: option.split)

lemma rate_limit_frame [enforced_frame]: "enforced (fst (rate_limit gx interval scope e s)) = enforced s"
  by (simp add: rate_limit_def Let_def split: option.split)

lemma tracksock_frame [enforced_frame]: "enforced (fst (tracksock bd gx e socki track s)) = enforced s"
  by (simp add: tracksock_def Let_def split: option.split)

lemma write_user_arg_frame [enforced_frame]: "enforced (fst (write_user_arg bd gx addr val s)) = enforced s"
  by (simp add: write_user_arg_def)

lemma action_post_frame [enforced_frame]: "enforced (fst (action_post bd gx arg e s post)) = enforced s"
  by (simp add: action_post_def Let_def split_beta rate_limit_frame)

lemma do_set_action_frame [enforced_frame]: "enforced (do_set_action fl bd gx i v s) = enforced s"
  by (simp add: do_set_action_def Let_def split_beta write_user_arg_frame split: option.split)

lemma action_effect_monitor:
  "enforced (fst (action_effect fl bd gx False action arg e s post)) = enforced s"
  unfolding action_effect_def split_beta if_distrib [of fst] if_distrib [of enforced] fst_conv
  by (simp only: enforced_frame enforced_updates if_False if_cancel)

lemma do_action_monitor: "enforced (fst (fst (do_action fl bd gx f base False i sp))) = enforced (fst sp)"
proof (cases "gs_e (fst sp)")
  case (Some e)
  then show ?thesis by (simp add: do_action_def Let_def split_beta action_effect_monitor split: option.split)
qed (simp add: do_action_def)

lemma do_actions_loop_monitor: "enforced (fst (do_actions_loop fl bd gx f base False n i sp)) = enforced (fst sp)"
proof (induction n arbitrary: i sp)
  case (Suc n)
  then show ?case by (simp add: split_beta do_action_monitor)
qed simp

text \<open>In monitor mode the actions of a selector leave no enforcement behind, whatever the compiled policy says.\<close>

lemma generic_actions_monitor:
  assumes "enforce_mode gx = False" shows "enforced (fst (generic_actions fl bd gx s)) = enforced s"
proof -
  have "enforced (fst (do_actions fl bd gx f base s)) = enforced s" for f base
    using do_actions_loop_monitor [of fl bd gx f base MAX_ACTIONS 0 "(s, True)"] by (simp add: do_actions_def assms)
  then show ?thesis by (simp add: generic_actions_def Let_def split_beta split: option.split)
qed

lemma generic_output_enforced [simp]: "enforced (generic_output fl bd gx op s) = enforced s"
  by (simp add: generic_output_def Let_def split: option.split)

section \<open>The list of actions\<close>

text \<open>The number of parameter words of an action.\<close>

definition action_arity :: "build \<Rightarrow> u32 \<Rightarrow> nat" where
  "action_arity bd action =
     (if action = ACTION_POST then (if bd_v511 bd then 5 else 4)
      else if action \<in> {ACTION_FOLLOWFD, ACTION_UNFOLLOWFD, ACTION_COPYFD, ACTION_SET} then 2
      else if action \<in> {ACTION_SIGNAL, ACTION_OVERRIDE, ACTION_GETURL, ACTION_DNSLOOKUP, ACTION_TRACKSOCK, ACTION_UNTRACKSOCK} then 1
      else if action = ACTION_NOTIFY_ENFORCER then 3
      else 0)"

definition run_action ::
  "flavour \<Rightarrow> build \<Rightarrow> gen_ctx \<Rightarrow> bool \<Rightarrow> gen_state \<times> bool \<Rightarrow> u32 list \<Rightarrow> gen_state \<times> bool" where
  "run_action fl bd gx enforce sp ws =
     (case gs_e (fst sp) of
        None \<Rightarrow> sp
      | Some e \<Rightarrow>
          (case action_effect fl bd gx enforce (hd ws) (\<lambda>k. ws ! unat k) e (fst sp) (snd sp) of
             (s1, post, n, err, polacct) \<Rightarrow>
               let s2 = (case polacct of None \<Rightarrow> s1 | Some p \<Rightarrow> s1\<lparr>gs_os := policy_stats_update bd p (gs_os s1)\<rparr>)
               in (s2\<lparr>gs_e := map_option (\<lambda>e'. e'\<lparr>gk_action := scast (hd ws)\<rparr>) (gs_e s2)\<rparr>, post)))"

lemmas action_names = ACTION_POST_def ACTION_FOLLOWFD_def ACTION_SIGKILL_def ACTION_UNFOLLOWFD_def ACTION_OVERRIDE_def
  ACTION_COPYFD_def ACTION_GETURL_def ACTION_DNSLOOKUP_def ACTION_NOPOST_def ACTION_SIGNAL_def ACTION_TRACKSOCK_def
  ACTION_UNTRACKSOCK_def ACTION_NOTIFY_ENFORCER_def ACTION_CLEANUP_ENFORCER_NOTIFICATION_def ACTION_SET_def

lemma action_effect_consumed:
  "fst (snd (snd (action_effect fl bd gx enforce action arg e s post))) = of_nat (action_arity bd action)"
  unfolding action_effect_def split_beta if_distrib [of fst] if_distrib [of snd] fst_conv snd_conv
  by (simp add: action_arity_def action_names)

lemma installfd_follow_err: "snd (installfd gx e fd name True s) = 0"
  by (simp add: installfd_def Let_def split: option.split)

lemma copyfd_err: "snd (copyfd gx e oldfd newfd s) = 0"
  by (simp add: copyfd_def split: option.split)

lemma tracksock_err: "snd (tracksock bd gx e socki True s) = 0"
  by (simp add: tracksock_def Let_def split: option.split)

lemma action_effect_ok:
  assumes "action \<noteq> ACTION_UNFOLLOWFD" "action \<noteq> ACTION_UNTRACKSOCK"
  shows "fst (snd (snd (snd (action_effect fl bd gx enforce action arg e s post)))) = 0"
  unfolding action_effect_def split_beta if_distrib [of fst] if_distrib [of snd] fst_conv snd_conv
  using assms installfd_follow_err [of gx e "arg 1" "arg 2" s] copyfd_err [of gx e "arg 1" "arg 2" s] tracksock_err [of bd gx e "arg 1" s]
  by simp

lemma action_effect_cong:
  assumes "\<And>k. 1 \<le> k \<Longrightarrow> k \<le> action_arity bd action \<Longrightarrow> arg (of_nat k) = arg' (of_nat k)"
  shows "action_effect fl bd gx enforce action arg e s post = action_effect fl bd gx enforce action arg' e s post"
proof -
  have 1: "1 \<le> action_arity bd action \<Longrightarrow> arg 1 = arg' 1" using assms [of 1] by simp
  have 2: "2 \<le> action_arity bd action \<Longrightarrow> arg 2 = arg' 2" using assms [of 2] by simp
  have 3: "3 \<le> action_arity bd action \<Longrightarrow> arg 3 = arg' 3" using assms [of 3] by simp
  have 4: "4 \<le> action_arity bd action \<Longrightarrow> arg 4 = arg' 4" using assms [of 4] by simp
  have 5: "5 \<le> action_arity bd action \<Longrightarrow> arg 5 = arg' 5" using assms [of 5] by simp
  have "action_post bd gx arg e s post = action_post bd gx arg' e s post" if "action = ACTION_POST"
  proof (cases "bd_v511 bd")
    case True
    then show ?thesis using that 1 2 3 4 5 by (simp add: action_post_def action_arity_def)
  next
    case False
    then show ?thesis using that 1 2 3 4 by (simp add: action_post_def action_arity_def)
  qed
  moreover have "arg 1 = arg' 1" if "action \<in> {ACTION_FOLLOWFD, ACTION_UNFOLLOWFD, ACTION_COPYFD, ACTION_SET, ACTION_SIGNAL,
      ACTION_OVERRIDE, ACTION_GETURL, ACTION_DNSLOOKUP, ACTION_TRACKSOCK, ACTION_UNTRACKSOCK, ACTION_NOTIFY_ENFORCER}"
    using that 1 by (auto simp: action_arity_def action_names)
  moreover have "arg 2 = arg' 2" if "action \<in> {ACTION_FOLLOWFD, ACTION_UNFOLLOWFD, ACTION_COPYFD, ACTION_SET, ACTION_NOTIFY_ENFORCER}"
    using that 2 by (auto simp: action_arity_def action_names)
  moreover have "arg 3 = arg' 3" if "action = ACTION_NOTIFY_ENFORCER"
    using that 3 by (simp add: action_arity_def action_names)
  ultimately show ?thesis unfolding action_effect_def by (simp cong: if_cong)
qed

lemma e_kept: "gs_e (fst (installfd gx e fd name follow s)) = gs_e s" "gs_e (fst (copyfd gx e fd name s)) = gs_e s"
  "gs_e (fst (tracksock bd gx e fd follow s)) = gs_e s" "gs_e (do_action_signal bd sig s) = gs_e s"
  "gs_e (do_override_action fl gx v s) = gs_e s" "gs_e (do_uprobe_override gx v s) = gs_e s"
  "gs_e (do_action_notify_enforcer fl gx e v sig i s) = gs_e s" "gs_e (fst (write_user_arg bd gx a v s)) = gs_e s"
  by (simp_all add: installfd_def copyfd_def tracksock_def do_action_signal_def do_override_action_def do_uprobe_override_def
      do_action_notify_enforcer_def write_user_arg_def Let_def split: option.split)

lemma e_present: "gs_e s = Some e \<Longrightarrow> gs_e (do_set_action fl bd gx i v s) \<noteq> None" "gs_e (fst (action_post bd gx arg e s post)) \<noteq> None"
  by (simp_all add: do_set_action_def action_post_def Let_def split_beta e_kept split: option.split)

lemma action_effect_e: "gs_e s = Some e \<Longrightarrow> gs_e (fst (action_effect fl bd gx enforce action arg e s post)) \<noteq> None"
  unfolding action_effect_def split_beta if_distrib [of fst] if_distrib [of gs_e] fst_conv
  using e_present by (simp add: e_kept)

lemma run_action_e: "gs_e (fst sp) \<noteq> None \<Longrightarrow> gs_e (fst (run_action fl bd gx enforce sp ws)) \<noteq> None"
  using action_effect_e [of "fst sp" _ fl bd gx enforce "hd ws" "\<lambda>k. ws ! unat k" "snd sp"]
  by (auto simp: run_action_def Let_def split_beta split: option.split)

text \<open>
  The compiled list at \<open>base\<close> holds the actions \<open>acts\<close>, each an action word followed by its parameters.
\<close>

definition holds_actions :: "build \<Rightarrow> byte list \<Rightarrow> nat \<Rightarrow> u32 list list \<Rightarrow> bool" where
  "holds_actions bd f base acts \<longleftrightarrow>
     rd32 f base = of_nat (4 + 4 * length (concat acts))
     \<and> (\<forall>j < length (concat acts). rd32 f (base + 4 + 4 * j) = concat acts ! j)
     \<and> (\<forall>a \<in> set acts. length a = Suc (action_arity bd (hd a)))"

lemma action_arity_le: "action_arity bd a \<le> 5"
  by (simp add: action_arity_def)

lemma small_index: "n \<le> 100 \<Longrightarrow> unat (of_nat n :: u32) = n"
  by (simp add: unsigned_of_nat take_bit_nat_eq_self)

lemma length_concat_le: "(\<And>x. x \<in> set xss \<Longrightarrow> length x \<le> n) \<Longrightarrow> length (concat xss) \<le> length xss * n"
proof (induction xss)
  case (Cons x xss)
  then show ?case using add_mono [of "length x" n "length (concat xss)" "length xss * n"] by simp
qed simp

lemma do_action_words:
  assumes "gs_e (fst sp) \<noteq> None" "length a = Suc (action_arity bd (hd a))" "hd a \<noteq> ACTION_UNFOLLOWFD" "hd a \<noteq> ACTION_UNTRACKSOCK"
    and "\<And>j. j < length a \<Longrightarrow> act_word f base (of_nat (i + j)) = a ! j"
  shows "do_action fl bd gx f base enforce (of_nat i) sp = (run_action fl bd gx enforce sp a, of_nat (i + length a))"
proof -
  obtain e where e: "gs_e (fst sp) = Some e" using assms(1) by blast
  have hd: "act_word f base (of_nat i) = hd a" using assms(5) [of 0] assms(2) by (cases a) auto
  have "action_effect fl bd gx enforce (hd a) (\<lambda>k. act_word f base (of_nat i + k)) e (fst sp) (snd sp)
      = action_effect fl bd gx enforce (hd a) (\<lambda>k. a ! unat k) e (fst sp) (snd sp)"
  proof (rule action_effect_cong)
    fix k assume k: "1 \<le> k" "k \<le> action_arity bd (hd a)"
    then have "unat (of_nat k :: u32) = k" using action_arity_le [of bd "hd a"] by (intro small_index) simp
    then show "act_word f base (of_nat i + of_nat k) = a ! unat (of_nat k :: u32)"
      using assms(2) assms(5) [of k] k by simp
  qed
  then show ?thesis
    using action_effect_consumed [of fl bd gx enforce "hd a" "\<lambda>k. a ! unat k" e "fst sp" "snd sp"]
      action_effect_ok [OF assms(3,4), of fl bd gx enforce "\<lambda>k. a ! unat k" e "fst sp" "snd sp"]
    unfolding do_action_def run_action_def e hd Let_def option.case split_beta
    by (simp only: if_True simp_thms) (simp add: assms(2) ac_simps)
qed

lemma do_actions_loop_words:
  assumes "holds_actions bd f base (pre @ acts)" "length acts \<le> n" "length (pre @ acts) \<le> 3" "gs_e (fst sp) \<noteq> None"
    and "\<forall>a \<in> set acts. hd a \<noteq> ACTION_UNFOLLOWFD \<and> hd a \<noteq> ACTION_UNTRACKSOCK"
  shows "do_actions_loop fl bd gx f base enforce n (of_nat (length (concat pre))) sp = foldl (run_action fl bd gx enforce) sp acts"
  using assms
proof (induction acts arbitrary: pre n sp)
  case Nil
  have "\<not> has_action f base (of_nat (length (concat pre)))"
    using Nil.prems(1) by (simp add: has_action_def holds_actions_def algebra_simps)
  then show ?case by (cases n) simp_all
next
  case (Cons a acts)
  obtain m where n: "n = Suc m" "length acts \<le> m" using Cons.prems(2) by (cases n) auto
  let ?W = "concat (pre @ a # acts)" and ?i = "length (concat pre)"
  have len: "length b = Suc (action_arity bd (hd b))" if "b \<in> set (pre @ a # acts)" for b
    using Cons.prems(1) that unfolding holds_actions_def by blast
  have "length ?W \<le> length (pre @ a # acts) * 6"
    using len action_arity_le by (intro length_concat_le) fastforce
  then have W: "length ?W \<le> 18" using Cons.prems(3) by simp
  have pos: "?i < length ?W" using len [of a] by simp
  have word: "act_word f base (of_nat (?i + j)) = a ! j" if "j < length a" for j
  proof -
    have "?i + j < length ?W" using that by simp
    then have "rd32 f (base + 4 + 4 * (?i + j)) = ?W ! (?i + j)"
      using Cons.prems(1) unfolding holds_actions_def by blast
    then have "act_word f base (of_nat (?i + j)) = ?W ! (?i + j)"
      using \<open>?i + j < length ?W\<close> W small_index [of "?i + j"] by (simp add: act_word_def del: of_nat_add concat_append distrib_left)
    also have "\<dots> = a ! j" using that by (simp add: nth_append)
    finally show ?thesis .
  qed
  have has: "has_action f base (of_nat ?i)"
  proof -
    have "unat (of_nat (4 * ?i + 4) :: u32) = 4 * ?i + 4" using W pos by (intro small_index) simp
    moreover have "unat (of_nat (4 + 4 * length ?W) :: u32) = 4 + 4 * length ?W" using W by (intro small_index) simp
    ultimately have "(of_nat (4 * ?i + 4) :: u32) < of_nat (4 + 4 * length ?W)"
      using pos by (simp only: word_less_nat_alt)
    moreover have "rd32 f base = of_nat (4 + 4 * length ?W)" using Cons.prems(1) by (simp only: holds_actions_def)
    ultimately show ?thesis by (simp add: has_action_def mult.commute)
  qed
  have a: "hd a \<noteq> ACTION_UNFOLLOWFD" "hd a \<noteq> ACTION_UNTRACKSOCK" using Cons.prems(5) by simp_all
  have step: "do_action fl bd gx f base enforce (of_nat ?i) sp = (run_action fl bd gx enforce sp a, of_nat (length (concat (pre @ [a]))))"
    using do_action_words [OF Cons.prems(4) _ a word] len [of a] by simp
  have IH: "do_actions_loop fl bd gx f base enforce m (of_nat (length (concat (pre @ [a])))) (run_action fl bd gx enforce sp a)
      = foldl (run_action fl bd gx enforce) (run_action fl bd gx enforce sp a) acts"
    using Cons.prems n(2) run_action_e [OF Cons.prems(4)] by (intro Cons.IH) simp_all
  show ?case unfolding n(1) do_actions_loop.simps using has step IH by simp
qed

text \<open>
  C25. The actions of a selector are run in the order of the list, each with its own parameters, and the run ends
  behind the last one. This is for lists of at most MAX_ACTIONS actions in which UnfollowFD and UntrackSock do not occur: these may fail, and then the run starts again at the
  first action and those behind the failed one are not reached (see the lemma on failed actions below).
\<close>

theorem actions_in_order:
  assumes "holds_actions bd f base acts" and "length acts \<le> MAX_ACTIONS" and "gs_e s \<noteq> None"
    and "\<forall>a \<in> set acts. hd a \<noteq> ACTION_UNFOLLOWFD \<and> hd a \<noteq> ACTION_UNTRACKSOCK"
  shows "do_actions fl bd gx f base s = foldl (run_action fl bd gx (enforce_mode gx)) (s, True) acts"
  using do_actions_loop_words [of bd f base "[]" acts MAX_ACTIONS "(s, True)"] assms
  by (simp add: do_actions_def MAX_ACTIONS_def)


section \<open>Rate limits\<close>

definition ratelimit_key_of :: "msg_generic_kprobe \<Rightarrow> u64 \<Rightarrow> ratelimit_key" where
  "ratelimit_key_of e tid =
     \<lparr>rl_func_id = gk_func_id e, rl_action = gk_action e, rl_tid = tid, rl_data = ratelimit_copy e 5 0 0 (replicate 200 0)\<rparr>"

lemma rate_limit_eq:
  assumes "interval \<noteq> 0" "gs_ratelimit_heap s" "ratelimit_scope_tid e scope = Some tid"
  shows "rate_limit gx interval scope e s =
    (if (case map_lookup_elem (gs_ratelimit s) (ratelimit_key_of e tid) of
           None \<Rightarrow> False | Some seen \<Rightarrow> seen > gx_ktime gx - interval * 1000000)
     then (s, True)
     else (s\<lparr>gs_ratelimit := fst (lru_update_elem (gs_ratelimit s) (ratelimit_key_of e tid) (gx_ktime gx))\<rparr>, False))"
  using assms by (simp add: rate_limit_def Let_def ratelimit_key_of_def tg_consts)

text \<open>The comparison of the limit: the difference wraps as long as the machine has been up for less than the interval.\<close>

lemma rate_limit_compare:
  assumes "unat interval * 1000000 < 2 ^ 64" and "seen \<le> (now :: u64)"
  shows "(seen > now - interval * 1000000) \<longleftrightarrow>
     unat interval * 1000000 \<le> unat now \<and> unat now < unat seen + unat interval * 1000000"
proof -
  have i: "unat (interval * 1000000) = unat interval * 1000000" using assms(1) by (simp add: unat_word_ariths)
  show ?thesis
  proof (cases "unat interval * 1000000 \<le> unat now")
    case True
    then have "unat (now - interval * 1000000) = unat now - unat interval * 1000000" using i by (subst unat_sub_u64) simp_all
    with True show ?thesis by (auto simp: word_less_nat_alt)
  next
    case False
    then have "now < interval * 1000000" using i by (simp add: word_less_nat_alt)
    then have "now \<le> now - interval * 1000000" by (metis linorder_not_le order_less_imp_le word_sub_le_iff)
    with False assms(2) show ?thesis by auto
  qed
qed

text \<open>
  C27. A rate limit lets an event pass and then suppresses the events with the same key for the interval, once the machine has been
  up that long: an event that is seen not before the one that passed is suppressed if and only if less than the interval has passed since then
  and the time since boot is at least the interval. Before that no event is suppressed at all, because the subtraction wraps. The interval in
  nanoseconds fits in 64 bits, and the map has taken the time of the event that passed.
\<close>

theorem rate_limit_window:
  assumes "rate_limit gx1 interval scope e1 s = (s1, False)"
    and "interval \<noteq> 0" and "gs_ratelimit_heap s" and "ratelimit_scope_tid e1 scope = Some tid" and "ratelimit_scope_tid e2 scope = Some tid"
    and "ratelimit_key_of e2 tid = ratelimit_key_of e1 tid"
    and "snd (lru_update_elem (gs_ratelimit s) (ratelimit_key_of e1 tid) (gx_ktime gx1)) = 0"
    and "unat interval * 1000000 < 2 ^ 64" and "gx_ktime gx1 \<le> gx_ktime gx2"
  shows "snd (rate_limit gx2 interval scope e2 s1) \<longleftrightarrow>
     unat interval * 1000000 \<le> unat (gx_ktime gx2) \<and> unat (gx_ktime gx2) < unat (gx_ktime gx1) + unat interval * 1000000"
proof -
  let ?k = "ratelimit_key_of e1 tid"
  have s1: "s1 = s\<lparr>gs_ratelimit := fst (lru_update_elem (gs_ratelimit s) ?k (gx_ktime gx1))\<rparr>"
    using assms(1) unfolding rate_limit_eq [OF assms(2-4)] by (simp split: if_splits)
  have seen: "map_lookup_elem (gs_ratelimit s1) ?k = Some (gx_ktime gx1)"
    unfolding s1 using lru_lookup_same [OF assms(7)] by simp
  have "gs_ratelimit_heap s1" using assms(3) by (simp add: s1)
  then show ?thesis
    unfolding rate_limit_eq [OF assms(2) \<open>gs_ratelimit_heap s1\<close> assms(5)] assms(6) seen
    using rate_limit_compare [OF assms(8,9)] by simp
qed

text \<open>
  Before the machine has been up for one interval the subtraction wraps and the limit does nothing, whatever was seen.
\<close>

lemma rate_limit_early:
  assumes "interval \<noteq> 0" and "gs_ratelimit_heap s" and "ratelimit_scope_tid e scope = Some tid"
    and "unat interval * 1000000 < 2 ^ 64" and "unat (gx_ktime gx) < unat interval * 1000000"
    and "map_lookup_elem (gs_ratelimit s) (ratelimit_key_of e tid) = Some seen" and "seen \<le> gx_ktime gx"
  shows "\<not> snd (rate_limit gx interval scope e s)"
  using rate_limit_compare [OF assms(4,7)] assms(5) unfolding rate_limit_eq [OF assms(1-3)] assms(6) by simp

section \<open>Overrides\<close>

text \<open>
  C26. An override reaches the task it is for, once: after the action in enforcement mode the override program of the same task gets exactly the
  value of the action, a second run gets nothing, the security module's output program returns the value when it is an
  error code, and the pending values of other tasks stay as they were.
\<close>

theorem override_roundtrip:
  assumes "gs_e s = Some e" and "fl = KPROBE \<or> fl = LSM"
    and "bm_admit (gs_override s) (bm_elems (gs_override s)) (gx_pid_tgid gx) = 0"
    and "s1 = fst (run_action fl bd gx True (s, post) [ACTION_OVERRIDE, error])" and "gx_pid_tgid gx' = gx_pid_tgid gx"
  shows "\<exists>s2. generic_kprobe_override gx' s1 = (s2, Some (scast error))
     \<and> generic_kprobe_override gx' s2 = (s2, None)
     \<and> snd (try_override id gx' s1) = set_if_not_errno_or_zero (sint error) (- 1)
     \<and> (\<forall>tid. tid \<noteq> gx_pid_tgid gx \<longrightarrow> map_lookup_elem (gs_override s2) tid = map_lookup_elem (gs_override s) tid)"
proof -
  have s1: "gs_override s1 = set_or_insert (gs_override s) (gx_pid_tgid gx) error"
    unfolding assms(4) using assms(1,2)
    by (auto simp: run_action_def action_effect_def action_names do_override_action_def Let_def)
  have "map_lookup_elem (gs_override s1) (gx_pid_tgid gx) = Some error"
    unfolding s1 set_or_insert_lookup using map_update_accepts [OF assms(3)] by simp
  then show ?thesis
    by (auto simp: generic_kprobe_override_def try_override_def assms(5) s1 set_or_insert_lookup)
qed


section \<open>Followed descriptors and tracked sockets\<close>

text \<open>Following a descriptor stores the name argument: its length field, the path and the flags behind it.\<close>

lemma installfd_stores:
  assumes "gs_heap s = Some val" "length val = 4104" "length (gk_args e) = 24000"
    and "action_argoff e fd = Some fdoff" "action_argoff e name = Some nameoff"
    and "key = fd_key gx (rd32 (gk_args e) fdoff)" "n = unat (rd32 (gk_args e) nameoff AND 0xfff)"
    and "\<And>v. snd (lru_update_elem (gs_fd s) key v) = 0"
  shows "\<exists>v. map_lookup_elem (gs_fd (fst (installfd gx e fd name True s))) key = Some v
    \<and> length v = 4104 \<and> take (n + 8) v = slice nameoff (n + 8) (gk_args e)"
proof -
  have "nameoff < 2048"
    using assms(5) unat_mask_le [of "argsoff_at e (unat (name AND 15))" "0x7ff"]
    by (auto simp: action_argoff_def Let_def split: if_splits)
  moreover have "n \<le> 4095" using unat_mask_le [of "rd32 (gk_args e) nameoff" "0xfff"] by (simp add: assms(7))
  ultimately have len: "length (slice nameoff (n + 4 + 4) (gk_args e)) = n + 8" using assms(3) by simp
  define v where "v = blit 0 (slice nameoff (n + 4 + 4) (gk_args e)) val"
  have "gs_fd (fst (installfd gx e fd name True s)) = fst (lru_update_elem (gs_fd s) key v)"
    using assms(1,4,5) by (simp add: installfd_def Let_def v_def assms(6,7))
  moreover have "length v = 4104" using len \<open>n \<le> 4095\<close> assms(2) by (simp add: v_def)
  moreover have "take (n + 8) v = slice nameoff (n + 8) (gk_args e)" using len by (simp add: v_def blit_def add.commute)
  ultimately show ?thesis using lru_lookup_same [OF assms(8)] by auto
qed

lemma copyfd_copies:
  assumes "action_argoff e oldfd = Some oo" "action_argoff e newfd = Some no"
    and "map_lookup_elem (gs_fd s) (fd_key gx (rd32 (gk_args e) oo)) = Some v"
    and "\<And>k v. snd (lru_update_elem (gs_fd s) k v) = 0"
  shows "map_lookup_elem (gs_fd (fst (copyfd gx e oldfd newfd s))) (fd_key gx (rd32 (gk_args e) no)) = Some v"
  using assms(1-3) lru_lookup_same [OF assms(4)] by (simp add: copyfd_def)

text \<open>
  Events on a tracked socket are attributed to the process that the tracking action recorded, whichever
  task they are seen in, and not any more after the socket is untracked.
\<close>

theorem socket_owner_roundtrip:
  assumes "bd_large bd" and "gs_e s = Some e" and "action_argoff e socki = Some off"
    and "sk = rd64 (gk_args e) (off + 40)" and "sk \<noteq> 0"
    and "execve_map_get_noinit (current_tgid (gx_kt gx)) (gs_x s) = Some v"
    and "\<And>owner. snd (lru_update_elem (gs_sock s) sk owner) = 0"
    and "s1 = fst (tracksock bd gx e socki True s)" and "s2 = fst (tracksock bd gx' e socki False s1)"
  shows "update_pid_tid_from_sock bd s1 sk ev =
       ev\<lparr>gk_current := (gk_current ev)\<lparr>ek_pid := ek_pid (ev_key v), ek_ktime := ek_ktime (ev_key v)\<rparr>, gk_tid := ucast (gx_pid_tgid gx)\<rparr>
     \<and> update_pid_tid_from_sock bd s2 sk ev = ev"
proof -
  let ?o = "\<lparr>so_pid = ek_pid (ev_key v), so_tid = ucast (gx_pid_tgid gx), so_ktime = ek_ktime (ev_key v)\<rparr>"
  have s1: "gs_sock s1 = fst (lru_update_elem (gs_sock s) sk ?o)"
    unfolding assms(8) using assms(1-6) by (simp add: tracksock_def Let_def)
  have s2: "gs_sock s2 = fst (map_delete_elem (gs_sock s1) sk)"
    unfolding assms(9) using assms(1,3-5) by (simp add: tracksock_def Let_def)
  show ?thesis
    using lru_lookup_same [OF assms(7)] assms(1) by (simp add: update_pid_tid_from_sock_def s1 s2)
qed

text \<open>
  An action that fails sets the position back to the first action: the actions behind it are never run, here when a
  selector asks to untrack a socket that is not tracked.
\<close>

lemma failed_action_blocks_rest:
  assumes "bd_large bd" and "gs_e s = Some e" and "act_word f base 0 = ACTION_UNTRACKSOCK"
    and "action_argoff e (act_word f base 1) = Some off" and "rd64 (gk_args e) (off + 40) \<noteq> 0"
    and "map_lookup_elem (gs_sock s) (rd64 (gk_args e) (off + 40)) = None"
  shows "do_actions fl bd gx f base s = (s, True)"
proof -
  have "tracksock bd gx e (act_word f base 1) False s = (s, - ENOENT)"
    using assms by (simp add: tracksock_def Let_def map_lookup_elem_def map_delete_elem_def)
  then have "do_action fl bd gx f base en 0 (s, True) = ((s, True), 0)" for en
    using assms(2,3) by (simp add: do_action_def action_effect_def action_names Let_def ENOENT_def)
  then have "do_actions_loop fl bd gx f base en n 0 (s, True) = (s, True)" for n en
    by (induction n) simp_all
  then show ?thesis by (simp add: do_actions_def)
qed

section \<open>Concrete runs\<close>

lemma g_actions: "holds_actions build_v61 g_example 76 [[ACTION_POST, 0, 0, 0, 0, 0]]"
proof -
  have "rd32 g_example (76 + 4 + 4 * j) = g_words ! (20 + j)" if "j < 6" for j
    using rd32_g_example [of "20 + j" "76 + 4 + 4 * j"] that by simp
  moreover have "g_words ! (20 + j) = [ACTION_POST, 0, 0, 0, 0, 0] ! j" if "j < 6" for j
    using that by (simp add: g_words_def less_Suc_eq numeral_eq_Suc ACTION_POST_def)
  ultimately show ?thesis
    by (simp add: holds_actions_def rd32_g_simps g_words_def action_arity_def build_v61_def)
qed

theorem actions_in_order_witness:
  "snd (do_actions KPROBE build_v61 gx_example g_example 76 gs_example)"
  using actions_in_order [OF g_actions, of gs_example KPROBE gx_example]
  by (simp add: gs_example_def MAX_ACTIONS_def action_names run_action_def action_effect_def action_post_def rate_limit_def Let_def split_beta)

theorem rate_limit_window_witness:
  "snd (rate_limit (gx_example\<lparr>gx_ktime := 6000000\<rparr>) 5 2 e_example (fst (rate_limit gx_example 5 2 e_example gs_example)))"
proof -
  have h: "(5 :: u64) \<noteq> 0" "gs_ratelimit_heap gs_example" "ratelimit_scope_tid e_example 2 = Some 0"
    by (simp_all add: gs_example_def ratelimit_scope_tid_def)
  have "rate_limit gx_example 5 2 e_example gs_example = (fst (rate_limit gx_example 5 2 e_example gs_example), False)"
    unfolding rate_limit_eq [OF h] by (simp add: gs_example_def empty_lru_def map_lookup_elem_def)
  from rate_limit_window [OF this h h(3) refl, of "gx_example\<lparr>gx_ktime := 6000000\<rparr>"] show ?thesis
    by (simp add: gs_example_def gx_example_def empty_lru_def lru_update_elem_def)
qed

theorem override_roundtrip_witness:
  "\<exists>s2. generic_kprobe_override gx_example (fst (run_action KPROBE build_v61 gx_example True (gs_example, True) [ACTION_OVERRIDE, - 1]))
     = (s2, Some (- 1))"
  using override_roundtrip [of gs_example e_example KPROBE gx_example _ build_v61 True "- 1" gx_example, OF _ _ _ refl refl]
  by (auto simp: gs_example_def empty_map_def)

theorem socket_owner_roundtrip_witness:
  "update_pid_tid_from_sock build_v61 (fst (tracksock build_v61 gx_example
       (e_example\<lparr>gk_args := replicate 40 0 @ le_bytes 8 (77 :: u64) @ replicate 100 0\<rparr>) 0 True
       (gs_example\<lparr>gs_e := Some (e_example\<lparr>gk_args := replicate 40 0 @ le_bytes 8 (77 :: u64) @ replicate 100 0\<rparr>)\<rparr>))) 77 e_example
   = e_example\<lparr>gk_current := (gk_current e_example)\<lparr>ek_pid := 10, ek_ktime := 5\<rparr>, gk_tid := 10\<rparr>"
proof -
  let ?e = "e_example\<lparr>gk_args := replicate 40 0 @ le_bytes 8 (77 :: u64) @ replicate 100 0\<rparr>"
  let ?s = "gs_example\<lparr>gs_e := Some ?e\<rparr>"
  have sk: "rd64 (gk_args ?e) (0 + 40) = 77" by (simp add: rd64_def slice_def le_word_le_bytes)
  have "bd_large build_v61" "gs_e ?s = Some ?e" "action_argoff ?e 0 = Some 0" "(77 :: u64) \<noteq> 0"
    "execve_map_get_noinit (current_tgid (gx_kt gx_example)) (gs_x ?s) = Some v_example"
    "\<And>owner. snd (lru_update_elem (gs_sock ?s) 77 owner) = 0"
    by (simp_all add: build_v61_def action_argoff_def argsoff_at_def e_example_def msg_example_def gx_example_def gs_example_def
        execve_map_get_noinit_def xs_current_table empty_lru_def lru_update_elem_def)
  from socket_owner_roundtrip [where ev = e_example and gx' = gx_example, OF this(1-3) sk [symmetric] this(4-6) refl refl] show ?thesis
    by (simp add: v_example_def tracked_value_def gx_example_def gx_pid_tgid_def kt_example_def)
qed

end
