(* ===== verification/Uprobe_Offload.thy ===== *)
theory Uprobe_Offload
  imports Generic_Actions
begin

text \<open>
  Registers of the probed task (\<^verbatim>\<open>process/regs.h\<close>) and the sleepable programs that finish an action of a uprobe
  (\<^verbatim>\<open>process/uprobe_offload.h\<close>) or of a USDT probe (\<^verbatim>\<open>process/bpf_generic_usdt.c\<close>). The registers saved in the
  context are a function from the byte offset in \<^verbatim>\<open>struct pt_regs\<close>, x86 layout, to the value.
\<close>

section \<open>Model: registers\<close>

type_synonym regs = "u32 \<Rightarrow> u64"

text \<open>The registers of the two switches, r15 to di, ip and sp.\<close>

definition reg_offsets :: "u32 list" where
  "reg_offsets = [0, 8, 16, 24, 32, 40, 48, 56, 64, 72, 80, 88, 96, 104, 112, 128, 152]"

text \<open>The shift instructions use the low six bits of the count.\<close>

definition read_reg :: "regs \<Rightarrow> u32 \<Rightarrow> u8 \<Rightarrow> u64" where
  "read_reg regs src shift =
     (if src \<in> set reg_offsets
      then (let n = unat (shift AND 63) in drop_bit n (push_bit n (regs src)))
      else 0)"

definition write_low :: "nat \<Rightarrow> u64 \<Rightarrow> u64 \<Rightarrow> u64" where
  "write_low n val old = (old AND NOT (mask n)) OR (val AND mask n)"

definition write_reg :: "u32 \<Rightarrow> u8 \<Rightarrow> u64 \<Rightarrow> regs \<Rightarrow> regs" where
  "write_reg dst sz val regs =
     (if dst \<notin> set reg_offsets then regs
      else if sz = 8 then regs(dst := val)
      else if sz = 4 then regs(dst := write_low 32 val (regs dst))
      else if sz = 2 then regs(dst := write_low 16 val (regs dst))
      else if sz = 1 then regs(dst := write_low 8 val (regs dst))
      else regs)"

section \<open>Model: the sleepable program of uprobes\<close>

record reg_assignment =
  ra_type :: u8
  ra_src :: u16
  ra_dst :: u16
  ra_src_size :: u8
  ra_dst_size :: u8
  ra_off :: u64

record uprobe_regs =
  ur_ass :: "reg_assignment list"
  ur_cnt :: u32

definition REGS_MAX :: nat where [tg_consts]: "REGS_MAX = 18"
definition ASM_ASSIGNMENT_TYPE_CONST :: u8 where [tg_consts]: "ASM_ASSIGNMENT_TYPE_CONST = 1"
definition ASM_ASSIGNMENT_TYPE_REG :: u8 where [tg_consts]: "ASM_ASSIGNMENT_TYPE_REG = 2"
definition ASM_ASSIGNMENT_TYPE_REG_OFF :: u8 where [tg_consts]: "ASM_ASSIGNMENT_TYPE_REG_OFF = 3"
definition ASM_ASSIGNMENT_TYPE_REG_DEREF :: u8 where [tg_consts]: "ASM_ASSIGNMENT_TYPE_REG_DEREF = 4"

definition read_reg_ass :: "regs \<Rightarrow> reg_assignment \<Rightarrow> u64" where
  "read_reg_ass regs ass = read_reg regs (ucast (ra_src ass)) (64 - ra_src_size ass * 8)"

definition assign_reg :: "memory \<Rightarrow> reg_assignment \<Rightarrow> regs \<Rightarrow> regs" where
  "assign_reg mem ass regs =
     (let dst = ucast (ra_dst ass); sz = ra_dst_size ass; src = read_reg_ass regs ass
      in if ra_type ass = ASM_ASSIGNMENT_TYPE_CONST then write_reg dst sz (ra_off ass) regs
         else if ra_type ass = ASM_ASSIGNMENT_TYPE_REG then write_reg dst sz src regs
         else if ra_type ass = ASM_ASSIGNMENT_TYPE_REG_OFF then write_reg dst sz (src + ra_off ass) regs
         else if ra_type ass = ASM_ASSIGNMENT_TYPE_REG_DEREF
         then (case probe_read mem 8 (src + ra_off ass) of
                 (bs, err) \<Rightarrow> if err = 0 then write_reg dst sz (le_word bs) regs else regs)
         else regs)"

fun assign_loop :: "memory \<Rightarrow> uprobe_regs \<Rightarrow> nat \<Rightarrow> nat \<Rightarrow> regs \<Rightarrow> regs" where
  "assign_loop mem ur 0 i regs = regs"
| "assign_loop mem ur (Suc k) i regs =
     (if of_nat i < ur_cnt ur then assign_loop mem ur k (Suc i) (assign_reg mem (ur_ass ur ! i) regs) else regs)"

text \<open>
  The index is read through the pointer of the deleted element: \<open>stale\<close> is what is found there.
\<close>

definition uprobe_offload_x86 ::
  "(u32 \<Rightarrow> u32) \<Rightarrow> gen_ctx \<Rightarrow> (u32 \<rightharpoonup> uprobe_regs) \<Rightarrow> gen_state \<times> regs \<Rightarrow> gen_state \<times> regs" where
  "uprobe_offload_x86 stale gx regs_map sr =
     (case map_lookup_elem (gs_sleepable (fst sr)) (gx_pid_tgid gx) of
        None \<Rightarrow> sr
      | Some idx \<Rightarrow>
          let s' = (fst sr)\<lparr>gs_sleepable := fst (map_delete_elem (gs_sleepable (fst sr)) (gx_pid_tgid gx))\<rparr>
          in case regs_map (stale idx) of
               None \<Rightarrow> (s', snd sr)
             | Some ur \<Rightarrow> (s', assign_loop (gx_mem gx) ur REGS_MAX 0 (snd sr)))"

section \<open>Model: the sleepable program of USDT probes\<close>

text \<open>The answer is the write to user memory that the program makes, if it makes one.\<close>

definition generic_sleepable_offload :: "gen_ctx \<Rightarrow> gen_state \<Rightarrow> gen_state \<times> (ptr \<times> u32) option" where
  "generic_sleepable_offload gx s =
     (case map_lookup_elem (gs_write_offload s) (gx_pid_tgid gx) of
        None \<Rightarrow> (s, None)
      | Some data \<Rightarrow>
          (s\<lparr>gs_write_offload := fst (map_delete_elem (gs_write_offload s) (gx_pid_tgid gx))\<rparr>,
           Some (wo_addr data, wo_value data)))"

section \<open>Registers\<close>

lemma read_reg_low:
  assumes "src \<in> set reg_offsets" and "1 \<le> n" and "n \<le> 8"
  shows "read_reg regs src (64 - of_nat n * 8) = regs src AND mask (8 * n)"
proof -
  have "n \<in> {1, 2, 3, 4, 5, 6, 7, 8}" using assms(2,3) by auto
  then have sh: "unat ((64 - of_nat n * 8 :: u8) AND 63) = 64 - 8 * n" by auto
  show ?thesis unfolding read_reg_def sh using assms
    by (auto simp: Let_def bit_simps intro!: bit_word_eqI)
qed

lemma write_low_low: "n \<le> 64 \<Longrightarrow> write_low n val old AND mask n = val AND mask n"
  by (auto simp: write_low_def bit_simps intro!: bit_word_eqI)

lemma write_low_high: "write_low n val old AND NOT (mask n) = old AND NOT (mask n)"
  by (auto simp: write_low_def bit_simps intro!: bit_word_eqI)

lemma write_reg_eq:
  assumes "n \<in> {1, 2, 4, 8}" and "dst \<in> set reg_offsets"
  shows "write_reg dst (of_nat n) val regs = regs(dst := write_low (8 * n) val (regs dst))"
proof -
  have "write_low 64 val old = val" for old by (auto simp: write_low_def bit_simps intro!: bit_word_eqI)
  with assms show ?thesis by (auto simp: write_reg_def)
qed

text \<open>
  A register write is read back: for an operand of one, two, four or eight bytes a read of that width
  answers the written value truncated to it, the rest of the register and every other register keep their bits.
\<close>

theorem register_roundtrip:
  assumes "dst \<in> set reg_offsets" and "n \<in> {1, 2, 4, 8}" and "regs' = write_reg dst (of_nat n) val regs"
  shows "read_reg regs' dst (64 - of_nat n * 8) = val AND mask (8 * n)
     \<and> regs' dst AND NOT (mask (8 * n)) = regs dst AND NOT (mask (8 * n)) \<and> (\<forall>r. r \<noteq> dst \<longrightarrow> regs' r = regs r)"
proof -
  have n: "1 \<le> n" "n \<le> 8" using assms(2) by auto
  show ?thesis
    using read_reg_low [OF assms(1) n] n
    unfolding assms(3) write_reg_eq [OF assms(2,1)] by (simp add: write_low_low write_low_high)
qed

theorem register_roundtrip_witness:
  "read_reg (write_reg 80 4 0x1122334455667788 (\<lambda>_. 7)) 80 32 = 0x55667788"
  using register_roundtrip [OF _ _ refl, of 80 4 "0x1122334455667788" "\<lambda>_. 7"]
  by (simp add: reg_offsets_def mask_eq_exp_minus_1)

section \<open>Handing work to another program\<close>

text \<open>
  Three actions leave a value behind, under the identity of the task, for a program that runs later: a return value
  to override, registers to set, user memory to write. \<open>give\<close> leaves the value, \<open>take\<close> picks it up.
\<close>

locale handover =
  fixes give :: "'v \<Rightarrow> 's \<Rightarrow> 's" and take_up :: "'s \<Rightarrow> 's \<times> 'v option" and room :: "'s \<Rightarrow> bool"
  assumes give_take: "room s \<Longrightarrow> snd (take_up (give v s)) = Some v"
    and take_empties: "snd (take_up (fst (take_up s))) = None"
    and take_none: "snd (take_up s) = None \<Longrightarrow> fst (take_up s) = s"
    and give_room: "room s \<Longrightarrow> room (give v s)"
    and take_room: "room s \<Longrightarrow> room (fst (take_up s))"
begin

lemma last_given_wins: "room s \<Longrightarrow> snd (take_up (give w (give v s))) = Some w"
  by (intro give_take give_room)

lemma taken_once: "room s \<Longrightarrow> \<exists>s'. take_up (give v s) = (s', Some v) \<and> take_up s' = (s', None)"
  by (metis give_take prod.collapse take_empties take_none)

lemma foldl_give_take:
  assumes "room s" and "vs \<noteq> []"
  shows "snd (take_up (foldl (\<lambda>s v. give v s) s vs)) = Some (last vs)"
  using assms
proof (induction vs rule: rev_induct)
  case (snoc v vs)
  have "room (foldl (\<lambda>s v. give v s) s vs)" using snoc.prems(1) by (induction vs rule: rev_induct) (simp_all add: give_room)
  then show ?case by (simp add: give_take)
qed simp

end

text \<open>The kernel takes another element for this task.\<close>

definition has_room :: "('k, 'v) bpf_map \<Rightarrow> 'k \<Rightarrow> bool" where
  "has_room m k \<longleftrightarrow> (\<forall>es. bm_admit m es k = 0)"

lemma has_room_update: "has_room m k \<Longrightarrow> snd (map_update_elem m k v BPF_ANY) = 0"
  by (rule map_update_accepts) (simp add: has_room_def)

lemma has_room_keeps [simp]:
  "has_room (set_or_insert m k v) j = has_room m j" "has_room (fst (map_delete_elem m k)) j = has_room m j"
  by (simp_all add: has_room_def set_or_insert_def map_ops_defs split: option.split)

text \<open>All three go through a hash map keyed by the task: \<open>get\<close> and \<open>put\<close> reach the map inside the state.\<close>

definition slot_take :: "('s \<Rightarrow> ('k, 'v) bpf_map) \<Rightarrow> (('k, 'v) bpf_map \<Rightarrow> 's \<Rightarrow> 's) \<Rightarrow> 'k \<Rightarrow> 's \<Rightarrow> 's \<times> 'v option" where
  "slot_take get put k s =
     (if map_lookup_elem (get s) k = None then s else put (fst (map_delete_elem (get s) k)) s, map_lookup_elem (get s) k)"

lemma slot_handover:
  assumes "\<And>m s. get (put m s) = m"
  shows "handover (\<lambda>v s. put (set_or_insert (get s) k v) s) (slot_take get put k) (\<lambda>s. has_room (get s) k)"
  by unfold_locales (simp_all add: slot_take_def assms set_or_insert_lookup has_room_update)

lemma do_uprobe_override_slot:
  "do_uprobe_override gx = (\<lambda>v s. s\<lparr>gs_sleepable := set_or_insert (gs_sleepable s) (gx_pid_tgid gx) v\<rparr>)"
  by (simp add: do_uprobe_override_def fun_eq_iff)

lemma do_override_slot:
  "do_override_action KPROBE gx = (\<lambda>v s. s\<lparr>gs_override := set_or_insert (gs_override s) (gx_pid_tgid gx) v\<rparr>)"
  by (simp add: do_override_action_def fun_eq_iff)

interpretation sleepable: handover "do_uprobe_override gx"
  "slot_take gs_sleepable (\<lambda>m s. s\<lparr>gs_sleepable := m\<rparr>) (gx_pid_tgid gx)" "\<lambda>s. has_room (gs_sleepable s) (gx_pid_tgid gx)" for gx
  unfolding do_uprobe_override_slot by (rule slot_handover) simp

interpretation user_write: handover "\<lambda>d s. s\<lparr>gs_write_offload := set_or_insert (gs_write_offload s) (gx_pid_tgid gx) d\<rparr>"
  "slot_take gs_write_offload (\<lambda>m s. s\<lparr>gs_write_offload := m\<rparr>) (gx_pid_tgid gx)" "\<lambda>s. has_room (gs_write_offload s) (gx_pid_tgid gx)" for gx
  by (rule slot_handover) simp

interpretation override: handover "do_override_action KPROBE gx"
  "slot_take gs_override (\<lambda>m s. s\<lparr>gs_override := m\<rparr>) (gx_pid_tgid gx)" "\<lambda>s. has_room (gs_override s) (gx_pid_tgid gx)" for gx
  unfolding do_override_slot by (rule slot_handover) simp

lemma generic_sleepable_offload_slot:
  "generic_sleepable_offload gx s =
     (case slot_take gs_write_offload (\<lambda>m s. s\<lparr>gs_write_offload := m\<rparr>) (gx_pid_tgid gx) s of
        (s', d) \<Rightarrow> (s', map_option (\<lambda>d. (wo_addr d, wo_value d)) d))"
  by (simp add: generic_sleepable_offload_def slot_take_def split: option.split)

lemma uprobe_offload_slot:
  "uprobe_offload_x86 stale gx regs_map (s, regs) =
     (case slot_take gs_sleepable (\<lambda>m s. s\<lparr>gs_sleepable := m\<rparr>) (gx_pid_tgid gx) s of
        (s', None) \<Rightarrow> (s', regs)
      | (s', Some idx) \<Rightarrow>
          (s', case regs_map (stale idx) of None \<Rightarrow> regs | Some ur \<Rightarrow> assign_loop (gx_mem gx) ur REGS_MAX 0 regs))"
  by (simp add: uprobe_offload_x86_def slot_take_def split: option.split)

section \<open>The assignments\<close>

lemma assign_loop_fold:
  assumes "i + k \<le> 18" and "18 \<le> length (ur_ass ur)"
  shows "assign_loop mem ur k i regs = fold (assign_reg mem) (drop i (take (min (i + k) (unat (ur_cnt ur))) (ur_ass ur))) regs"
  using assms(1)
proof (induction k arbitrary: i regs)
  case (Suc k)
  have i: "unat (of_nat i :: u32) = i" using Suc.prems by (simp add: unsigned_of_nat take_bit_nat_eq_self)
  show ?case
  proof (cases "i < unat (ur_cnt ur)")
    case True
    let ?n = "min (i + Suc k) (unat (ur_cnt ur))"
    have "drop i (take ?n (ur_ass ur)) = ur_ass ur ! i # drop (Suc i) (take ?n (ur_ass ur))"
      using True Suc.prems assms(2) by (subst Cons_nth_drop_Suc [symmetric]) (auto simp: min_def)
    with True Suc.IH [of "Suc i"] Suc.prems i show ?thesis by (simp add: word_less_nat_alt)
  qed (simp add: i word_less_nat_alt min_def)
qed simp

text \<open>
  C34. A uprobe override is carried out once: after the override action with the number of an assignment list, the sleepable
  program of the same task runs the first entries of that list, as many as its count says and at most
  eighteen, in order, on the saved registers, and a second run changes nothing.
\<close>

theorem uprobe_override_once:
  assumes "has_room (gs_sleepable s) (gx_pid_tgid gx)" and "regs_map idx = Some ur" and "length (ur_ass ur) = REGS_MAX"
  shows "\<exists>s'. uprobe_offload_x86 id gx regs_map (do_uprobe_override gx idx s, regs)
       = (s', fold (assign_reg (gx_mem gx)) (take (unat (ur_cnt ur)) (ur_ass ur)) regs)
     \<and> (\<forall>regs'. uprobe_offload_x86 id gx regs_map (s', regs') = (s', regs'))"
proof -
  from sleepable.taken_once [OF assms(1)] obtain s' where
    s': "slot_take gs_sleepable (\<lambda>m s. s\<lparr>gs_sleepable := m\<rparr>) (gx_pid_tgid gx) (do_uprobe_override gx idx s) = (s', Some idx)"
      "slot_take gs_sleepable (\<lambda>m s. s\<lparr>gs_sleepable := m\<rparr>) (gx_pid_tgid gx) s' = (s', None)" by blast
  have "assign_loop (gx_mem gx) ur REGS_MAX 0 regs = fold (assign_reg (gx_mem gx)) (take (unat (ur_cnt ur)) (ur_ass ur)) regs"
    using assign_loop_fold [of 0 REGS_MAX ur "gx_mem gx" regs] assms(3) by (simp add: REGS_MAX_def min_def)
  with s' assms(2) show ?thesis by (auto simp: uprobe_offload_slot)
qed

definition ur_example :: uprobe_regs where
  "ur_example = \<lparr>ur_ass = \<lparr>ra_type = 1, ra_src = 0, ra_dst = 80, ra_src_size = 8, ra_dst_size = 8, ra_off = 42\<rparr>
     # replicate 17 \<lparr>ra_type = 0, ra_src = 0, ra_dst = 0, ra_src_size = 0, ra_dst_size = 0, ra_off = 0\<rparr>, ur_cnt = 1\<rparr>"

theorem uprobe_override_once_witness:
  "\<exists>s'. uprobe_offload_x86 id gx_example [3 \<mapsto> ur_example] (do_uprobe_override gx_example 3 gs_example, \<lambda>_. 7) = (s', (\<lambda>_. 7)(80 := 42))"
proof -
  have "has_room (gs_sleepable gs_example) (gx_pid_tgid gx_example)" by (simp add: gs_example_def has_room_def empty_map_def)
  from uprobe_override_once [OF this, of "[3 \<mapsto> ur_example]" 3 ur_example "\<lambda>_. 7"] show ?thesis
    by (auto simp: ur_example_def assign_reg_def write_reg_def reg_offsets_def tg_consts)
qed

text \<open>
  A USDT \<^verbatim>\<open>Set\<close> action on a build for Linux 6.1 is carried out once: the sleepable program of the task writes the
  value to the address of the operand, and a second run writes nothing.
\<close>

lemma user_write_once:
  assumes "has_room (gs_write_offload s) (gx_pid_tgid gx)" and "bd_v61 bd"
  shows "\<exists>s'. generic_sleepable_offload gx (fst (write_user_arg bd gx addr val s)) = (s', Some (addr, val))
     \<and> generic_sleepable_offload gx s' = (s', None)"
  using user_write.taken_once [OF assms(1), of "\<lparr>wo_addr = addr, wo_value = val\<rparr>"] assms(2)
  by (auto simp: write_user_arg_def generic_sleepable_offload_slot)

end
