(* ===== verification/Kernel_Args.thy ===== *)
theory Kernel_Args
  imports Generic_State
begin

text \<open>
  Copies of kernel structures into the argument buffer of an event (\<^verbatim>\<open>process/types/basic.h\<close>, \<^verbatim>\<open>skb.h\<close>, \<^verbatim>\<open>sock.h\<close>,
  \<^verbatim>\<open>sockaddr.h\<close>, \<^verbatim>\<open>socket.h\<close>). Every copier gets the buffer and the offset in it and answers the
  buffer and the number of bytes used. Offsets in the destination follow the C layout of the event structures.
\<close>

section \<open>Model: reading and writing\<close>

definition kread :: "gen_ctx \<Rightarrow> kfield \<Rightarrow> nat \<Rightarrow> ptr \<Rightarrow> byte list" where
  "kread gx fld n p = fst (probe_read (gx_mem gx) n (p + gx_co gx fld))"

definition kread_err :: "gen_ctx \<Rightarrow> kfield \<Rightarrow> nat \<Rightarrow> ptr \<Rightarrow> int" where
  "kread_err gx fld n p = snd (probe_read (gx_mem gx) n (p + gx_co gx fld))"

definition kread_ptr :: "gen_ctx \<Rightarrow> kfield \<Rightarrow> ptr \<Rightarrow> ptr" where
  "kread_ptr gx fld p = le_word (kread gx fld 8 p)"

text \<open>Several writes at offsets relative to \<open>off\<close>.\<close>

definition puts :: "nat \<Rightarrow> (nat \<times> byte list) list \<Rightarrow> byte list \<Rightarrow> byte list" where
  "puts off ws buf = foldl (\<lambda>b w. blit (off + fst w) (snd w) b) buf ws"

section \<open>Model: sockets and packets\<close>

text \<open>\<^verbatim>\<open>bpf_ntohs\<close> on a little-endian machine.\<close>

definition ntohs_bytes :: "byte list \<Rightarrow> byte list" where
  "ntohs_bytes bs = rev bs"

definition sock_addrs :: "gen_ctx \<Rightarrow> ptr \<Rightarrow> u16 \<Rightarrow> (nat \<times> byte list) list" where
  "sock_addrs gx sk family =
     (if family = AF_INET then [(0, kread gx ''skc_rcv_saddr'' 4 sk), (16, kread gx ''skc_daddr'' 4 sk)]
      else if family = AF_INET6 then [(0, kread gx ''skc_v6_rcv_saddr'' 16 sk), (16, kread gx ''skc_v6_daddr'' 16 sk)]
      else [])"

definition set_event_from_sock :: "gen_ctx \<Rightarrow> nat \<Rightarrow> ptr \<Rightarrow> byte list \<Rightarrow> byte list" where
  "set_event_from_sock gx off sk buf =
     (let family = kread gx ''skc_family'' 2 sk;
          proto = kread gx ''sk_protocol'' 2 sk;
          proto' = (if gx_has gx Protocol_is_u32 then le_bytes 2 (drop_bit 8 (le_word proto :: u16)) else proto)
      in puts off
           ([(40, le_bytes 8 sk), (38, family), (58, kread gx ''skc_state'' 1 sk), (56, kread gx ''sk_type'' 2 sk), (36, proto'),
             (48, kread gx ''sk_mark'' 4 sk), (52, kread gx ''sk_priority'' 4 sk), (0, replicate 32 0)]
            @ sock_addrs gx sk (le_word family)
            @ [(32, kread gx ''skc_num'' 2 sk), (34, ntohs_bytes (kread gx ''skc_dport'' 2 sk))]) buf)"

definition set_event_from_socket :: "gen_ctx \<Rightarrow> nat \<Rightarrow> ptr \<Rightarrow> byte list \<Rightarrow> byte list" where
  "set_event_from_socket gx off sock buf =
     (let sk = kread_ptr gx ''sock_sk'' sock in if sk \<noteq> 0 then set_event_from_sock gx off sk buf else buf)"

definition set_event_from_sockaddr_in :: "gen_ctx \<Rightarrow> nat \<Rightarrow> ptr \<Rightarrow> byte list \<Rightarrow> byte list" where
  "set_event_from_sockaddr_in gx off address buf =
     (let fam = kread gx ''sa_family'' 2 address;
          buf1 = puts off [(0, replicate 24 0), (0, fam)] buf;
          family = (le_word fam :: u16)
      in if kread_err gx ''sa_family'' 2 address < 0 then buf1
         else if family = AF_INET
         then puts off [(8, le_bytes 8 (le_word (kread gx ''sin_addr'' 4 address) :: u64)),
                        (2, ntohs_bytes (kread gx ''sin_port'' 2 address))] buf1
         else if family = AF_INET6
         then puts off [(8, kread gx ''sin6_addr'' 16 address), (2, ntohs_bytes (kread gx ''sin6_port'' 2 address))] buf1
         else buf1)"

text \<open>
  The walk over the extension headers of an IPv6 packet, with \<open>k\<close> headers left to look at. The answer is the
  transport protocol and its offset, or \<open>None\<close>, which the code answers as protocol 0.
\<close>

definition ext_len :: "u8 \<Rightarrow> u8 \<Rightarrow> u16 \<Rightarrow> u16" where
  "ext_len cur len old =
     (if cur = 255 then 40
      else if cur \<in> {0, 43, 60} then ucast len * 8 + 8
      else if cur = 44 then 8
      else if cur = 51 then ucast len * 4 + 8
      else old)"

definition is_extension :: "u8 \<Rightarrow> bool" where
  "is_extension h \<longleftrightarrow> h \<in> {0, 43, 44, 51, 60}"

fun ip6_walk :: "gen_ctx \<Rightarrow> ptr \<Rightarrow> nat \<Rightarrow> u16 \<Rightarrow> u8 \<Rightarrow> u8 \<Rightarrow> u8 \<Rightarrow> u16 \<Rightarrow> (u8 \<times> u16) option" where
  "ip6_walk gx skb_head 0 ip_off cur next len byte_len = None"
| "ip6_walk gx skb_head (Suc k) ip_off cur next len byte_len =
     (let byte_len' = ext_len cur len byte_len; ip_off' = ip_off + byte_len'
      in if \<not> is_extension next then Some (next, ip_off')
         else case probe_read (gx_mem gx) 2 (skb_head + ucast ip_off') of
                (bs, err) \<Rightarrow> if err < 0 then None
                            else ip6_walk gx skb_head k ip_off' next (bs ! 0) (bs ! 1) byte_len')"

definition get_ip6_protocol :: "gen_ctx \<Rightarrow> ptr \<Rightarrow> u16 \<Rightarrow> ptr \<Rightarrow> (u8 \<times> u16) option" where
  "get_ip6_protocol gx ip network_header_off skb_head =
     (if kread_err gx ''ip6_nexthdr'' 1 ip < 0 then None
      else ip6_walk gx skb_head 7 network_header_off 255 (le_word (kread gx ''ip6_nexthdr'' 1 ip)) 0 0)"

definition IPPROTO_TCP :: u8 where [tg_consts]: "IPPROTO_TCP = 6"
definition IPPROTO_UDP :: u8 where [tg_consts]: "IPPROTO_UDP = 17"

definition skb_ports :: "gen_ctx \<Rightarrow> ptr \<Rightarrow> u8 \<Rightarrow> u16 \<Rightarrow> byte list \<times> byte list" where
  "skb_ports gx skb_head protocol l4_off =
     (let hdr = skb_head + ucast l4_off
      in if protocol = IPPROTO_TCP then (kread gx ''tcp_source'' 2 hdr, kread gx ''tcp_dest'' 2 hdr)
         else if protocol = IPPROTO_UDP then (kread gx ''udp_source'' 2 hdr, kread gx ''udp_dest'' 2 hdr)
         else (replicate 2 0, replicate 2 0))"

definition skb_secpath :: "gen_ctx \<Rightarrow> ptr \<Rightarrow> (nat \<times> byte list) list" where
  "skb_secpath gx skb =
     (if gx_has gx Has_active_extensions \<and> gx_has gx Has_sec_path
      then (let ext = kread_ptr gx ''skb_extensions'' skb
            in if ext \<noteq> 0
               then (let offset = kread_ptr gx ''ext_offset'' (ext + gx_enum gx Has_sec_path); sp = ext + push_bit 3 offset
                     in [(56, kread gx ''sp_len'' 4 sp), (60, kread gx ''sp_olen'' 4 sp)])
               else [])
      else [])"

text \<open>For a packet that is not IP the tuple is left as it was.\<close>

definition set_event_from_skb :: "gen_ctx \<Rightarrow> nat \<Rightarrow> ptr \<Rightarrow> byte list \<Rightarrow> byte list" where
  "set_event_from_skb gx off skb buf =
     (let skb_head = kread_ptr gx ''skb_head'' skb;
          l3_off = (le_word (kread gx ''skb_network_header'' 2 skb) :: u16);
          ip = skb_head + ucast l3_off;
          ip_ver = drop_bit 4 (le_word (fst (probe_read (gx_mem gx) 1 ip)) :: u8);
          finish = (\<lambda>protocol l4_off buf.
             let ports = skb_ports gx skb_head protocol l4_off
             in puts off ([(32, ntohs_bytes (fst ports)), (34, ntohs_bytes (snd ports))] @ skb_secpath gx skb) buf)
      in if ip_ver = 4
         then (let protocol = (le_word (kread gx ''ip_protocol'' 1 ip) :: u8)
               in finish protocol (le_word (kread gx ''skb_transport_header'' 2 skb))
                    (puts off [(36, le_bytes 2 (ucast protocol :: u16)), (38, le_bytes 2 AF_INET), (0, replicate 32 0),
                               (0, kread gx ''ip_saddr'' 4 ip), (16, kread gx ''ip_daddr'' 4 ip)] buf))
         else if ip_ver = 6
         then (case get_ip6_protocol gx ip l3_off skb_head of
                 res \<Rightarrow>
                   let protocol = (case res of None \<Rightarrow> 0 | Some (p, _) \<Rightarrow> p);
                       l4_off = (case res of None \<Rightarrow> 0 | Some (_, l) \<Rightarrow> l)
                   in finish protocol l4_off
                        (puts off [(36, le_bytes 2 (ucast protocol :: u16)), (38, le_bytes 2 AF_INET6),
                                   (0, kread gx ''ip6_saddr'' 16 ip), (16, kread gx ''ip6_daddr'' 16 ip)] buf))
         else buf)"

definition copy_skb :: "gen_ctx \<Rightarrow> nat \<Rightarrow> ptr \<Rightarrow> byte list \<Rightarrow> byte list \<times> int" where
  "copy_skb gx off arg buf =
     (set_event_from_skb gx off arg
        (puts off [(40, kread gx ''skb_hash'' 4 arg), (44, kread gx ''skb_len'' 4 arg), (48, kread gx ''skb_priority'' 4 arg),
                   (52, kread gx ''skb_mark'' 4 arg)] buf), 64)"

definition copy_sock :: "gen_ctx \<Rightarrow> nat \<Rightarrow> ptr \<Rightarrow> byte list \<Rightarrow> byte list \<times> int" where
  "copy_sock gx off arg buf = (set_event_from_sock gx off arg buf, 64)"

definition copy_sockaddr :: "gen_ctx \<Rightarrow> nat \<Rightarrow> ptr \<Rightarrow> byte list \<Rightarrow> byte list \<times> int" where
  "copy_sockaddr gx off arg buf = (set_event_from_sockaddr_in gx off arg buf, 24)"

definition copy_socket :: "gen_ctx \<Rightarrow> nat \<Rightarrow> ptr \<Rightarrow> byte list \<Rightarrow> byte list \<times> int" where
  "copy_socket gx off arg buf = (set_event_from_socket gx off arg buf, 64)"

section \<open>Model: credentials, modules and BPF objects\<close>

definition user_ns_writes :: "gen_ctx \<Rightarrow> ptr \<Rightarrow> (nat \<times> byte list) list" where
  "user_ns_writes gx ns =
     [(0, kread gx ''ns_level'' 4 ns), (4, kread gx ''ns_owner'' 4 ns), (8, kread gx ''ns_group'' 4 ns), (12, kread gx ''ns_inum'' 4 ns)]"

definition copy_user_ns :: "gen_ctx \<Rightarrow> nat \<Rightarrow> ptr \<Rightarrow> byte list \<Rightarrow> byte list \<times> int" where
  "copy_user_ns gx off arg buf = (puts off (user_ns_writes gx arg) buf, 16)"

definition copy_cred :: "gen_ctx \<Rightarrow> nat \<Rightarrow> ptr \<Rightarrow> byte list \<Rightarrow> byte list \<times> int" where
  "copy_cred gx off arg buf =
     (let buf1 = puts off
            [(0, kread gx ''cred_uid'' 4 arg), (4, kread gx ''cred_gid'' 4 arg), (16, kread gx ''cred_euid'' 4 arg), (20, kread gx ''cred_egid'' 4 arg),
             (8, kread gx ''cred_suid'' 4 arg), (12, kread gx ''cred_sgid'' 4 arg), (24, kread gx ''cred_fsuid'' 4 arg),
             (28, kread gx ''cred_fsgid'' 4 arg), (36, replicate 4 0), (32, kread gx ''cred_securebits'' 4 arg),
             (48, kread gx ''cred_cap_effective'' 8 arg), (56, kread gx ''cred_cap_inheritable'' 8 arg),
             (40, kread gx ''cred_cap_permitted'' 8 arg)] buf
      in (puts (off + 64) (user_ns_writes gx (kread_ptr gx ''cred_user_ns'' arg)) buf1, 80))"

definition copy_capability :: "nat \<Rightarrow> u64 \<Rightarrow> byte list \<Rightarrow> byte list \<times> int" where
  "copy_capability off arg buf = (puts off [(4, replicate 4 0), (0, le_bytes 4 (ucast arg :: u32))] buf, 8)"

definition copy_load_module :: "gen_ctx \<Rightarrow> nat \<Rightarrow> ptr \<Rightarrow> byte list \<Rightarrow> byte list \<times> int" where
  "copy_load_module gx off arg buf =
     (let buf1 = puts off [(0, replicate 80 0)] buf
      in if kread_err gx ''load_name'' 8 arg \<noteq> 0 then (buf1, 0)
         else case probe_read_str (gx_mem gx) 63 (kread_ptr gx ''load_name'' arg) of
                (nm, r) \<Rightarrow>
                  let buf2 = puts off [(16, nm)] buf1
                  in if r < 0 then (buf2, 0)
                     else let buf3 = puts off [(8, kread gx ''module_taints'' 8 (kread_ptr gx ''load_mod'' arg))] buf2;
                              ok = (le_word (kread gx ''load_sig_ok'' 4 arg) :: u32)
                          in (if kread_err gx ''load_sig_ok'' 4 arg = 0
                              then puts off [(0, le_bytes 4 (if ok \<noteq> 0 then 1 else 0 :: u32))] buf3 else buf3, 80))"

definition copy_kernel_module :: "gen_ctx \<Rightarrow> nat \<Rightarrow> ptr \<Rightarrow> byte list \<Rightarrow> byte list \<times> int" where
  "copy_kernel_module gx off arg buf =
     (let buf1 = puts off [(0, replicate 80 0)] buf
      in case probe_read_str (gx_mem gx) 63 (arg + gx_co gx ''module_name'') of
           (nm, r) \<Rightarrow>
             let buf2 = puts off [(16, nm)] buf1
             in if r < 0 then (buf2, 0) else (puts off [(8, kread gx ''module_taints'' 8 arg)] buf2, 80))"

definition copy_bpf_attr :: "gen_ctx \<Rightarrow> nat \<Rightarrow> ptr \<Rightarrow> byte list \<Rightarrow> byte list \<times> int" where
  "copy_bpf_attr gx off arg buf =
     (puts off [(0, kread gx ''attr_prog_type'' 4 arg), (4, kread gx ''attr_insn_cnt'' 4 arg), (8, kread gx ''attr_prog_name'' 16 arg)] buf, 24)"

definition copy_bpf_prog :: "gen_ctx \<Rightarrow> nat \<Rightarrow> ptr \<Rightarrow> byte list \<Rightarrow> byte list \<times> int" where
  "copy_bpf_prog gx off arg buf =
     (puts off [(0, kread gx ''prog_type'' 4 arg), (4, kread gx ''prog_len'' 4 arg),
                (8, fst (probe_read_str (gx_mem gx) 16 (kread_ptr gx ''prog_aux'' arg + gx_co gx ''aux_name'')))] buf, 24)"

definition copy_perf_event :: "gen_ctx \<Rightarrow> nat \<Rightarrow> ptr \<Rightarrow> byte list \<Rightarrow> byte list \<times> int" where
  "copy_perf_event gx off arg buf =
     (puts off [(0, fst (probe_read_str (gx_mem gx) 128 (kread_ptr gx ''perf_kprobe_func'' arg))), (144, kread gx ''perf_type'' 4 arg),
                (128, kread gx ''perf_config'' 8 arg), (136, kread gx ''perf_probe_offset'' 8 arg)] buf, 152)"

definition copy_bpf_map :: "gen_ctx \<Rightarrow> nat \<Rightarrow> ptr \<Rightarrow> byte list \<Rightarrow> byte list \<times> int" where
  "copy_bpf_map gx off arg buf =
     (puts off [(0, kread gx ''map_type'' 4 arg), (4, kread gx ''map_key_size'' 4 arg), (8, kread gx ''map_value_size'' 4 arg),
                (12, kread gx ''map_max_entries'' 4 arg), (16, kread gx ''map_name'' 16 arg)] buf, 32)"

section \<open>IPv6 extension headers\<close>

text \<open>
  A chain of extension headers, each with its type and length field, followed by the transport protocol \<open>p\<close>.
\<close>

fun next_type :: "(u8 \<times> u8) list \<Rightarrow> u8 \<Rightarrow> u8" where
  "next_type [] p = p"
| "next_type (h # hs) p = fst h"

fun headers_at :: "gen_ctx \<Rightarrow> ptr \<Rightarrow> u16 \<Rightarrow> (u8 \<times> u8) list \<Rightarrow> u8 \<Rightarrow> bool" where
  "headers_at gx skb_head off [] p = True"
| "headers_at gx skb_head off (h # hs) p =
     (is_extension (fst h) \<and> probe_read (gx_mem gx) 2 (skb_head + ucast off) = ([next_type hs p, snd h], 0)
      \<and> headers_at gx skb_head (off + ext_len (fst h) (snd h) 0) hs p)"

fun headers_len :: "(u8 \<times> u8) list \<Rightarrow> u16" where
  "headers_len [] = 0"
| "headers_len (h # hs) = ext_len (fst h) (snd h) 0 + headers_len hs"

lemma ext_len_extension: "is_extension t \<Longrightarrow> ext_len t l old = ext_len t l 0"
  by (auto simp: is_extension_def ext_len_def)

lemma ip6_walk_headers:
  assumes "headers_at gx skb_head (ip_off + ext_len cur len bl) hs p" "\<not> is_extension p"
  shows "ip6_walk gx skb_head k ip_off cur (next_type hs p) len bl =
     (if length hs < k then Some (p, ip_off + ext_len cur len bl + headers_len hs) else None)"
  using assms(1)
proof (induction hs arbitrary: k ip_off cur len bl)
  case Nil
  then show ?case using assms(2) by (cases k) (simp_all add: Let_def)
next
  case (Cons h hs)
  let ?off = "ip_off + ext_len cur len bl"
  have h: "is_extension (fst h)" "probe_read (gx_mem gx) 2 (skb_head + ucast ?off) = ([next_type hs p, snd h], 0)"
    "headers_at gx skb_head (?off + ext_len (fst h) (snd h) (ext_len cur len bl)) hs p"
    using Cons.prems ext_len_extension [of "fst h" "snd h" "ext_len cur len bl"] by simp_all
  show ?case
  proof (cases k)
    case (Suc m)
    have "ip6_walk gx skb_head k ip_off cur (next_type (h # hs) p) len bl =
        ip6_walk gx skb_head m ?off (fst h) (next_type hs p) (snd h) (ext_len cur len bl)"
      using h(1,2) by (simp add: Suc Let_def)
    also have "\<dots> = (if length hs < m then Some (p, ?off + ext_len (fst h) (snd h) (ext_len cur len bl) + headers_len hs) else None)"
      by (rule Cons.IH [OF h(3)])
    finally show ?thesis using ext_len_extension [OF h(1), of "snd h" "ext_len cur len bl"] by (simp add: Suc add.assoc)
  qed simp
qed

text \<open>
  The transport header of an IPv6 packet is found behind any chain of up to six extension headers of the
  five known kinds, at the sum of their lengths; a longer chain is given up.
\<close>

theorem ip6_protocol_exact:
  assumes "kread_err gx ''ip6_nexthdr'' 1 ip = 0" and "le_word (kread gx ''ip6_nexthdr'' 1 ip) = next_type hs p"
    and "headers_at gx skb_head (l3_off + 40) hs p" and "\<not> is_extension p"
  shows "get_ip6_protocol gx ip l3_off skb_head = (if length hs \<le> 6 then Some (p, l3_off + 40 + headers_len hs) else None)"
proof -
  have "ext_len 255 0 0 = 40" by (simp add: ext_len_def)
  with ip6_walk_headers [of gx skb_head l3_off 255 0 0 hs p 7] assms show ?thesis
    by (simp add: get_ip6_protocol_def less_Suc_eq_le)
qed

section \<open>The tuple of a socket\<close>

lemma length_kread [simp]: "length (kread gx fld n p) = n"
  by (simp add: kread_def)

lemma slice_blit_after:
  "b + length bs \<le> a \<Longrightarrow> b \<le> length buf \<Longrightarrow> slice a n (blit b bs buf) = slice a n buf"
  by (simp add: slice_def drop_blit_after)

lemma slice_blit_exact: "a \<le> length buf \<Longrightarrow> n = length bs \<Longrightarrow> slice a n (blit a bs buf) = bs"
  by (simp add: slice_blit_same)

lemma puts_Cons: "puts off ((r, bs) # ws) buf = puts off ws (blit (off + r) bs buf)"
  by (simp add: puts_def)

lemma puts_Nil [simp]: "puts off [] buf = buf"
  by (simp add: puts_def)

lemma puts_append: "puts off (ws @ vs) buf = puts off vs (puts off ws buf)"
  by (simp add: puts_def)

definition writes_fit :: "nat \<Rightarrow> (nat \<times> byte list) list \<Rightarrow> bool" where
  "writes_fit n ws \<longleftrightarrow> (\<forall>(r, bs) \<in> set ws. r + length bs \<le> n)"

lemma length_puts:
  "writes_fit n ws \<Longrightarrow> off + n \<le> length buf \<Longrightarrow> length (puts off ws buf) = length buf"
  by (induction ws arbitrary: buf) (auto simp: puts_Cons writes_fit_def)

text \<open>A field keeps the value of the last write that covers it.\<close>

lemma slice_puts_other:
  assumes "\<forall>(r, bs) \<in> set ws. r + length bs \<le> a \<or> a + n \<le> r" "writes_fit m ws" "off + m \<le> length buf"
  shows "slice (off + a) n (puts off ws buf) = slice (off + a) n buf"
  using assms
proof (induction ws arbitrary: buf)
  case (Cons w ws)
  obtain r bs where w: "w = (r, bs)" by (cases w)
  have fit: "r + length bs \<le> m" "writes_fit m ws" using Cons.prems(2) by (auto simp: writes_fit_def w)
  have "slice (off + a) n (puts off (w # ws) buf) = slice (off + a) n (blit (off + r) bs buf)"
    using Cons fit by (simp add: w puts_Cons)
  also have "\<dots> = slice (off + a) n buf"
    using Cons.prems(1,3) fit(1) by (auto simp: w slice_blit_after slice_blit_before)
  finally show ?case .
qed simp

lemma slice_blit_inside:
  assumes "r \<le> a" "a + n \<le> r + length bs" "off + r \<le> length buf"
  shows "slice (off + a) n (blit (off + r) bs buf) = slice (a - r) n bs"
proof -
  have "drop (off + a) (blit (off + r) bs buf) = drop (a - r) (bs @ drop (off + r + length bs) buf)"
    using assms(1,3) by (simp add: blit_def)
  then show ?thesis using assms(1,2) by (simp add: slice_def)
qed

lemma slice_puts_last:
  assumes "ws = pre @ (r, bs) # post" "r \<le> a" "a + n \<le> r + length bs" "\<forall>(q, cs) \<in> set post. q + length cs \<le> a \<or> a + n \<le> q"
    and "writes_fit m ws" "off + m \<le> length buf"
  shows "slice (off + a) n (puts off ws buf) = slice (a - r) n bs"
proof -
  have fit: "writes_fit m pre" "r + length bs \<le> m" "writes_fit m post"
    using assms(5) by (auto simp: writes_fit_def assms(1))
  let ?b = "blit (off + r) bs (puts off pre buf)"
  have len: "length (puts off pre buf) = length buf" using length_puts [OF fit(1) assms(6)] .
  then have "off + m \<le> length ?b" using fit(2) assms(6) by simp
  then have "slice (off + a) n (puts off post ?b) = slice (off + a) n ?b"
    using slice_puts_other [OF assms(4) fit(3)] by blast
  also have "\<dots> = slice (a - r) n bs" using assms(2,3,6) fit(2) len by (intro slice_blit_inside) simp_all
  finally show ?thesis by (simp add: assms(1) puts_append puts_Cons)
qed

lemma le_word_zeros: "le_word (bs @ replicate k 0) = le_word bs"
proof (induction bs)
  case Nil
  then show ?case by (induction k) simp_all
qed simp

lemma rd_drop: "rd64 (drop off b) k = le_word (slice (off + k) 8 b)" "rd16 (drop off b) k = le_word (slice (off + k) 2 b)"
  by (simp_all add: rd64_def rd16_def slice_def add.commute)

definition sock_writes :: "gen_ctx \<Rightarrow> ptr \<Rightarrow> (nat \<times> byte list) list" where
  "sock_writes gx sk =
     (let family = kread gx ''skc_family'' 2 sk; proto = kread gx ''sk_protocol'' 2 sk
      in [(40, le_bytes 8 sk), (38, family), (58, kread gx ''skc_state'' 1 sk), (56, kread gx ''sk_type'' 2 sk),
          (36, if gx_has gx Protocol_is_u32 then le_bytes 2 (drop_bit 8 (le_word proto :: u16)) else proto),
          (48, kread gx ''sk_mark'' 4 sk), (52, kread gx ''sk_priority'' 4 sk), (0, replicate 32 0)]
         @ sock_addrs gx sk (le_word family)
         @ [(32, kread gx ''skc_num'' 2 sk), (34, ntohs_bytes (kread gx ''skc_dport'' 2 sk))])"

lemma set_event_from_sock_writes: "set_event_from_sock gx off sk buf = puts off (sock_writes gx sk) buf"
  by (simp add: set_event_from_sock_def sock_writes_def Let_def)

lemma sock_writes_fit: "writes_fit 64 (sock_writes gx sk)"
  by (auto simp: writes_fit_def sock_writes_def sock_addrs_def Let_def ntohs_bytes_def)

text \<open>
  The event of a socket holds its family, ports (the destination in host order), addresses and the address of the
  socket itself.
\<close>

lemma socket_tuple_exact:
  assumes "off + 64 \<le> length buf" and "t = tuple_at (drop off (fst (copy_sock gx off sk buf)))"
    and "family = le_word (kread gx ''skc_family'' 2 sk)"
  shows "tu_family t = family \<and> tu_sport t = le_word (kread gx ''skc_num'' 2 sk)
     \<and> tu_dport t = le_word (rev (kread gx ''skc_dport'' 2 sk))
     \<and> (family = AF_INET \<longrightarrow> tu_saddr t = (le_word (kread gx ''skc_rcv_saddr'' 4 sk), 0)
                             \<and> tu_daddr t = (le_word (kread gx ''skc_daddr'' 4 sk), 0))
     \<and> (family = AF_INET6 \<longrightarrow> tu_saddr t = (le_word (take 8 (kread gx ''skc_v6_rcv_saddr'' 16 sk)), le_word (drop 8 (kread gx ''skc_v6_rcv_saddr'' 16 sk)))
                             \<and> tu_daddr t = (le_word (take 8 (kread gx ''skc_v6_daddr'' 16 sk)), le_word (drop 8 (kread gx ''skc_v6_daddr'' 16 sk))))
     \<and> rd64 (drop off (fst (copy_sock gx off sk buf))) 40 = sk"
proof -
  let ?ws = "sock_writes gx sk" and ?b = "fst (copy_sock gx off sk buf)"
  have b: "?b = puts off ?ws buf" by (simp add: copy_sock_def set_event_from_sock_writes)
  note field = slice_puts_last [OF _ _ _ _ sock_writes_fit assms(1), of gx sk, folded b]
  define A where "A = [(40 :: nat, le_bytes 8 sk), (38, kread gx ''skc_family'' 2 sk), (58, kread gx ''skc_state'' 1 sk), (56, kread gx ''sk_type'' 2 sk),
          (36, if gx_has gx Protocol_is_u32 then le_bytes 2 (drop_bit 8 (le_word (kread gx ''sk_protocol'' 2 sk) :: u16)) else kread gx ''sk_protocol'' 2 sk),
          (48, kread gx ''sk_mark'' 4 sk), (52, kread gx ''sk_priority'' 4 sk)]"
  define P where "P = [(32 :: nat, kread gx ''skc_num'' 2 sk), (34, ntohs_bytes (kread gx ''skc_dport'' 2 sk))]"
  have ws: "?ws = A @ (0, replicate 32 0) # sock_addrs gx sk family @ P"
    by (simp add: sock_writes_def A_def P_def assms(3) Let_def)
  have sport: "slice (off + 32) 2 ?b = kread gx ''skc_num'' 2 sk"
    by (subst field [of "A @ (0, replicate 32 0) # sock_addrs gx sk family" 32 "kread gx ''skc_num'' 2 sk" "[(34, ntohs_bytes (kread gx ''skc_dport'' 2 sk))]"])
      (simp_all add: ws P_def ntohs_bytes_def slice_def)
  have dport: "slice (off + 34) 2 ?b = rev (kread gx ''skc_dport'' 2 sk)"
    by (subst field [of "A @ (0, replicate 32 0) # sock_addrs gx sk family @ [(32, kread gx ''skc_num'' 2 sk)]" 34 "ntohs_bytes (kread gx ''skc_dport'' 2 sk)" "[]"])
      (simp_all add: ws P_def ntohs_bytes_def slice_def)
  have addrs: "\<forall>(q, cs) \<in> set (sock_addrs gx sk family). q + length cs \<le> 32" by (auto simp: sock_addrs_def)
  have fam: "slice (off + 38) 2 ?b = kread gx ''skc_family'' 2 sk"
    by (subst field [of "take 1 A" 38 "kread gx ''skc_family'' 2 sk" "drop 2 A @ (0, replicate 32 0) # sock_addrs gx sk family @ P"])
      (use addrs in \<open>auto simp: ws A_def P_def ntohs_bytes_def slice_def\<close>)
  have addr: "slice (off + 40) 8 ?b = le_bytes 8 sk"
    by (subst field [of "[]" 40 "le_bytes 8 sk" "drop 1 A @ (0, replicate 32 0) # sock_addrs gx sk family @ P"])
      (use addrs in \<open>auto simp: ws A_def P_def ntohs_bytes_def slice_def\<close>)
  have v4: "slice off 8 ?b = kread gx ''skc_rcv_saddr'' 4 sk @ replicate 4 0 \<and> slice (off + 8) 8 ?b = replicate 8 0
      \<and> slice (off + 16) 8 ?b = kread gx ''skc_daddr'' 4 sk @ replicate 4 0 \<and> slice (off + 24) 8 ?b = replicate 8 0"
    if "family = AF_INET"
  proof -
    have sa: "sock_addrs gx sk family = [(0, kread gx ''skc_rcv_saddr'' 4 sk), (16, kread gx ''skc_daddr'' 4 sk)]"
      using that by (simp add: sock_addrs_def)
    have zero: "slice (off + a) n ?b = replicate n 0" if "4 \<le> a \<and> a + n \<le> 16 \<or> 20 \<le> a \<and> a + n \<le> 32" for a n
      by (subst field [of A 0 "replicate 32 0" "sock_addrs gx sk family @ P"])
        (use that in \<open>auto simp: ws sa P_def ntohs_bytes_def slice_def\<close>)
    have "slice (off + 0) 4 ?b = kread gx ''skc_rcv_saddr'' 4 sk"
      by (subst field [of "A @ [(0, replicate 32 0)]" 0 "kread gx ''skc_rcv_saddr'' 4 sk" "(16, kread gx ''skc_daddr'' 4 sk) # P"])
        (simp_all add: ws sa P_def ntohs_bytes_def slice_def)
    moreover have "slice (off + 16) 4 ?b = kread gx ''skc_daddr'' 4 sk"
      by (subst field [of "A @ [(0, replicate 32 0), (0, kread gx ''skc_rcv_saddr'' 4 sk)]" 16 "kread gx ''skc_daddr'' 4 sk" P])
        (simp_all add: ws sa P_def ntohs_bytes_def slice_def)
    ultimately show ?thesis
      using zero [of 4 4] zero [of 8 8] zero [of 20 4] zero [of 24 8]
        slice_append_split [of off 4 4 ?b] slice_append_split [of "off + 16" 4 4 ?b] by (simp add: ac_simps)
  qed
  have v6: "slice off 8 ?b = take 8 (kread gx ''skc_v6_rcv_saddr'' 16 sk) \<and> slice (off + 8) 8 ?b = drop 8 (kread gx ''skc_v6_rcv_saddr'' 16 sk)
      \<and> slice (off + 16) 8 ?b = take 8 (kread gx ''skc_v6_daddr'' 16 sk) \<and> slice (off + 24) 8 ?b = drop 8 (kread gx ''skc_v6_daddr'' 16 sk)"
    if "family = AF_INET6"
  proof -
    have sa: "sock_addrs gx sk family = [(0, kread gx ''skc_v6_rcv_saddr'' 16 sk), (16, kread gx ''skc_v6_daddr'' 16 sk)]"
      using that by (simp add: sock_addrs_def tg_consts)
    have "slice (off + a) 8 ?b = slice a 8 (kread gx ''skc_v6_rcv_saddr'' 16 sk)" if "a = 0 \<or> a = 8" for a
      by (subst field [of "A @ [(0, replicate 32 0)]" 0 "kread gx ''skc_v6_rcv_saddr'' 16 sk" "(16, kread gx ''skc_v6_daddr'' 16 sk) # P"])
        (use that in \<open>auto simp: ws sa P_def ntohs_bytes_def\<close>)
    moreover have "slice (off + a) 8 ?b = slice (a - 16) 8 (kread gx ''skc_v6_daddr'' 16 sk)" if "a = 16 \<or> a = 24" for a
      by (subst field [of "A @ [(0, replicate 32 0), (0, kread gx ''skc_v6_rcv_saddr'' 16 sk)]" 16 "kread gx ''skc_v6_daddr'' 16 sk" P])
        (use that in \<open>auto simp: ws sa P_def ntohs_bytes_def\<close>)
    ultimately show ?thesis by (fastforce simp: slice_def)
  qed
  show ?thesis
    unfolding assms(2) tuple_at_def rd_drop
    using sport dport fam addr v4 v6 le_word_zeros [of _ 4, where 'a = 64] le_word_zeros [of "[]" 8, where 'a = 64]
    by (simp add: assms(3) le_word_le_bytes)
qed

lemma le_bytes_le_word:
  assumes "length bs = n" "8 * n \<le> LENGTH('a)" shows "le_bytes n (le_word bs :: 'a::len word) = bs"
proof (rule nth_equalityI)
  fix i assume "i < length (le_bytes n (le_word bs :: 'a word))"
  then have i: "i < n" by simp
  show "le_bytes n (le_word bs :: 'a word) ! i = bs ! i"
  proof (rule bit_word_eqI)
    fix j assume "j < LENGTH(8)"
    then have j: "j < 8" by simp
    have "8 * i + j < 8 * n" using i j by simp
    then show "bit (le_bytes n (le_word bs :: 'a word) ! i) j = bit (bs ! i) j"
      using i j assms by (simp add: le_bytes_def bit_simps bit_le_word)
  qed
qed (simp add: assms)


section \<open>Concrete runs\<close>

text \<open>A packet with one hop-by-hop header of 8 bytes before TCP; memory holds the two headers.\<close>

definition gx_ip6 :: gen_ctx where
  "gx_ip6 = gx_example\<lparr>gx_mem := mem_at 1000 (replicate 6 0 @ [0] @ replicate 33 0 @ [6, 0] @ replicate 6 0),
     gx_co := (\<lambda>fld. if fld = ''ip6_nexthdr'' then 6 else 0)\<rparr>"

theorem ip6_protocol_exact_witness: "get_ip6_protocol gx_ip6 1000 0 1000 = Some (6, 48)"
proof -
  have rd: "probe_read (gx_mem gx_ip6) 1 1006 = ([0], 0)" "probe_read (gx_mem gx_ip6) 2 1040 = ([6, 0], 0)"
    by (simp_all add: probe_read_def gx_ip6_def mem_at_def upt_rec nth_append)
  have "kread_err gx_ip6 ''ip6_nexthdr'' 1 1000 = 0" "le_word (kread gx_ip6 ''ip6_nexthdr'' 1 1000) = next_type [(0, 0)] 6"
    using rd(1) by (simp_all add: kread_err_def kread_def gx_ip6_def)
  moreover have "headers_at gx_ip6 1000 (0 + 40) [(0, 0)] 6" "\<not> is_extension 6"
    using rd(2) by (simp_all add: is_extension_def ext_len_def)
  ultimately show ?thesis using ip6_protocol_exact [of gx_ip6 1000 "[(0, 0)]" 6 1000 0] by (simp add: ext_len_def)
qed

definition gx_sock :: gen_ctx where
  "gx_sock = gx_example\<lparr>gx_mem := mem_at 500 [2, 0, 1, 187, 10, 0, 0, 1],
     gx_co := (\<lambda>fld. if fld = ''skc_family'' then 0 else if fld = ''skc_dport'' then 2 else 4)\<rparr>"


end
