(* ===== verification/Generic_Args.thy ===== *)
theory Generic_Args
  imports Uprobe_Offload Kernel_Args
begin

text \<open>
  Reading the arguments of a hooked function into the event (\<^verbatim>\<open>process/generic_calls.h\<close>,
  \<^verbatim>\<open>process/types/basic.h\<close>, \<^verbatim>\<open>process/regs.h\<close>). A pointer into the argument buffer is its offset. The readers
  work on the scratch message \<open>e\<close> and the rest of the state \<open>s\<close> and answer the number of bytes appended, or a negative
  number that drops the event.
\<close>

section \<open>Constants\<close>

definition cred_type :: u32 where [tg_consts]: "cred_type = 8"
definition const_buf_type :: u32 where [tg_consts]: "const_buf_type = 18"
definition bpf_attr_type :: u32 where [tg_consts]: "bpf_attr_type = 19"
definition perf_event_type :: u32 where [tg_consts]: "perf_event_type = 20"
definition bpf_map_type :: u32 where [tg_consts]: "bpf_map_type = 21"
definition user_namespace_type :: u32 where [tg_consts]: "user_namespace_type = 22"
definition capability_type :: u32 where [tg_consts]: "capability_type = 23"
definition kiocb_type :: u32 where [tg_consts]: "kiocb_type = 24"
definition iov_iter_type :: u32 where [tg_consts]: "iov_iter_type = 25"
definition load_module_type :: u32 where [tg_consts]: "load_module_type = 26"
definition kernel_module_type :: u32 where [tg_consts]: "kernel_module_type = 27"
definition bpf_prog_type :: u32 where [tg_consts]: "bpf_prog_type = 43"

definition char_buf_pagefault :: int where [tg_consts]: "char_buf_pagefault = - 2"
definition char_buf_toolarge :: int where [tg_consts]: "char_buf_toolarge = - 3"
definition char_buf_saved_for_retprobe :: int where [tg_consts]: "char_buf_saved_for_retprobe = - 4"
definition invalid_ty :: int where [tg_consts]: "invalid_ty = - 2"

section \<open>Model: buffers and strings\<close>

definition args_off :: "nat \<Rightarrow> nat" where
  "args_off off = off mod 16384"

definition put_args :: "nat \<Rightarrow> byte list \<Rightarrow> msg_generic_kprobe \<Rightarrow> msg_generic_kprobe" where
  "put_args off bs e = e\<lparr>gk_args := blit off bs (gk_args e)\<rparr>"

definition le32 :: "int \<Rightarrow> byte list" where
  "le32 n = le_bytes 4 (word_of_int n :: u32)"

definition return_error :: "nat \<Rightarrow> int \<Rightarrow> msg_generic_kprobe \<Rightarrow> msg_generic_kprobe \<times> int" where
  "return_error off err e = (put_args off (le32 err) e, 4)"

definition has_return_copy :: "u32 \<Rightarrow> bool" where
  "has_return_copy argm \<longleftrightarrow> bit argm 4"

definition has_max_data :: "u32 \<Rightarrow> bool" where
  "has_max_data argm \<longleftrightarrow> bit argm 5"

definition get_arg_meta :: "u32 \<Rightarrow> msg_generic_kprobe \<Rightarrow> u64" where
  "get_arg_meta meta e = (let i = unat (meta AND 0xf) in if 1 \<le> i \<and> i \<le> 5 then gk_a e ! (i - 1) else 0)"

definition copy_strings :: "gen_ctx \<Rightarrow> nat \<Rightarrow> ptr \<Rightarrow> nat \<Rightarrow> msg_generic_kprobe \<Rightarrow> msg_generic_kprobe \<times> int" where
  "copy_strings gx off arg max_size e =
     (case probe_read_str (gx_mem gx) (max_size + 1) arg of
        (bs, r) \<Rightarrow>
          let e1 = put_args (off + 4) bs e
          in if r \<le> 1 then (e1, invalid_ty) else (put_args off (le32 (r - 1)) e1, r - 1 + 4))"

definition data_heap_ptr :: "flavour \<Rightarrow> build \<Rightarrow> bool" where
  "data_heap_ptr fl bd \<longleftrightarrow> bd_large bd \<and> fl \<noteq> TRACEPOINT \<and> fl \<noteq> UPROBE"

text \<open>The copy of a buffer of known length, \<^verbatim>\<open>__copy_char_buf\<close>; long buffers go out as data events.\<close>

definition copy_bytes ::
  "flavour \<Rightarrow> build \<Rightarrow> gen_ctx \<Rightarrow> nat \<Rightarrow> ptr \<Rightarrow> u64 \<Rightarrow> bool \<Rightarrow> msg_generic_kprobe \<Rightarrow> gen_state
     \<Rightarrow> (msg_generic_kprobe \<times> gen_state) \<times> int" where
  "copy_bytes fl bd gx off arg bytes max_data e s =
     (let use_data = (bd_large bd \<and> max_data \<and> data_heap_ptr fl bd); o1 = args_off off
      in if use_data \<and> bytes \<ge> 0x1000
         then (case data_event_bytes bd (gx_mem gx) (gx_pid_tgid gx) (gx_fp gx) (gx_ktime gx) arg bytes
                      (desc_of_bytes (slice (o1 + 4) SIZEOF_DATA_EVENT_DESC (gk_args e))) (gs_data s) (gs_os s) of
                 (dh, os, desc, n) \<Rightarrow>
                   let e1 = put_args o1 (le32 1) e
                   in ((if n = 0 then e1 else put_args (o1 + 4) (desc_bytes desc) e1, s\<lparr>gs_data := dh, gs_os := os\<rparr>), uint n + 4))
         else let e1 = (if use_data then put_args o1 (le32 0) e else e);
                  o2 = (if use_data then args_off (off + 4) else o1);
                  extra = (if use_data then 12 else 8);
                  rd_bytes = (if bytes < 0x1000 then bytes else 0xfff) AND 0xfff
              in case probe_read (gx_mem gx) (unat rd_bytes) arg of
                   (bs, err) \<Rightarrow>
                     let e2 = put_args (o2 + 8) bs e1
                     in if err < 0 then (case return_error o2 char_buf_pagefault e2 of (e3, n) \<Rightarrow> ((e3, s), n))
                        else ((put_args (o2 + 4) (le_bytes 4 (ucast rd_bytes :: u32)) (put_args o2 (le_bytes 4 (ucast bytes :: u32)) e2), s),
                              uint rd_bytes + extra))"

definition copy_char_buf ::
  "flavour \<Rightarrow> build \<Rightarrow> gen_ctx \<Rightarrow> nat \<Rightarrow> ptr \<Rightarrow> u32 \<Rightarrow> msg_generic_kprobe \<Rightarrow> gen_state
     \<Rightarrow> (msg_generic_kprobe \<times> gen_state) \<times> int" where
  "copy_char_buf fl bd gx off arg argm e s =
     (if has_return_copy argm
      then (let retid = retprobe_map_get_key (gx_pid_tgid gx) (gx_fp gx)
            in case return_error (args_off off) char_buf_saved_for_retprobe e of
                 (e', n) \<Rightarrow> ((e', s\<lparr>gs_rp := retprobe_map_set (gk_func_id e) retid (mc_ktime (gk_common e)) arg (gs_rp s)\<rparr>), n))
      else copy_bytes fl bd gx off arg (get_arg_meta argm e) (has_max_data argm) e s)"

definition copy_iov_iter ::
  "flavour \<Rightarrow> build \<Rightarrow> gen_ctx \<Rightarrow> nat \<Rightarrow> ptr \<Rightarrow> u32 \<Rightarrow> msg_generic_kprobe \<Rightarrow> gen_state
     \<Rightarrow> (msg_generic_kprobe \<times> gen_state) \<times> int" where
  "copy_iov_iter fl bd gx off arg argm e s =
     (let nodata = ((put_args (args_off off) (le32 0 @ le32 0) e, s), 8);
          iter_type = (le_word (kread gx ''iov_iter_type'' 1 arg) :: u64)
      in if \<not> bd_large bd then ((e, s), 0)
         else if \<not> gx_has gx Has_iter_type then nodata
         else if gx_has gx Has_iter_iovec \<and> iter_type = gx_enum gx Has_iter_iovec
         then (let kvec = kread_ptr gx ''iov_kvec'' arg
               in copy_bytes fl bd gx off (kread_ptr gx ''kvec_iov_base'' kvec) (kread_ptr gx ''kvec_iov_len'' kvec) (has_max_data argm) e s)
         else if bd_v61 bd \<and> gx_has gx Has_iter_ubuf \<and> iter_type = gx_enum gx Has_iter_ubuf
         then copy_bytes fl bd gx off (kread_ptr gx ''iov_ubuf'' arg) (kread_ptr gx ''iov_count'' arg) (has_max_data argm) e s
         else nodata)"

text \<open>One entry of an I/O vector; a negative answer is an error.\<close>

definition parse_iovec_array :: "gen_ctx \<Rightarrow> nat \<Rightarrow> ptr \<Rightarrow> nat \<Rightarrow> u64 \<Rightarrow> msg_generic_kprobe \<Rightarrow> msg_generic_kprobe \<times> int" where
  "parse_iovec_array gx off arg i mx e =
     (case probe_read (gx_mem gx) 16 (arg + of_nat (16 * i)) of
        (iov, err) \<Rightarrow>
          if err < 0 then (e, char_buf_pagefault)
          else let iov_base = (le_word (take 8 iov) :: u64); iov_len = (le_word (drop 8 iov) :: u64);
                   sz = (if mx \<noteq> 0 \<and> iov_len > mx then mx else iov_len)
               in if sz > 4094 then (e, char_buf_toolarge)
                  else let n = sz AND 0xfff
                       in case probe_read (gx_mem gx) (unat n) iov_base of
                            (bs, err2) \<Rightarrow>
                              let e1 = put_args (args_off off) bs e
                              in if err2 < 0 then (e1, char_buf_pagefault) else (e1, uint n))"

text \<open>
  The unrolled sequence of \<^verbatim>\<open>PARSE_IOVEC_ENTRY\<close>, with \<open>k\<close> entries left: the message, and the total size or the error.
\<close>

fun iovec_entries :: "gen_ctx \<Rightarrow> ptr \<Rightarrow> u64 \<Rightarrow> nat \<Rightarrow> nat \<Rightarrow> nat \<Rightarrow> u64 \<Rightarrow> int \<Rightarrow> msg_generic_kprobe \<Rightarrow> msg_generic_kprobe \<times> (int + int)" where
  "iovec_entries gx arg cnt 0 i off mx tot e = (e, Inr tot)"
| "iovec_entries gx arg cnt (Suc k) i off mx tot e =
     (if of_nat i \<ge> cnt then (e, Inr tot)
      else case parse_iovec_array gx off arg i mx e of
             (e', c) \<Rightarrow>
               if c < 0 then (e', Inl c)
               else let mx' = (if mx \<noteq> 0 then mx - of_int c else mx)
                    in if mx \<noteq> 0 \<and> mx' = 0 then (e', Inr (tot + c))
                       else iovec_entries gx arg cnt k (Suc i) (off + nat c) mx' (tot + c) e')"

definition copy_iovec :: "gen_ctx \<Rightarrow> nat \<Rightarrow> ptr \<Rightarrow> u64 \<Rightarrow> u64 \<Rightarrow> msg_generic_kprobe \<Rightarrow> msg_generic_kprobe \<times> int" where
  "copy_iovec gx off arg cnt mx e =
     (case iovec_entries gx arg cnt 7 0 (off + 8) mx 0 e of
        (e', Inl err) \<Rightarrow> return_error (args_off off) err e'
      | (e', Inr tot) \<Rightarrow> (put_args (args_off off) (le32 tot @ le32 tot) e', tot + 8))"

definition copy_char_iovec ::
  "gen_ctx \<Rightarrow> nat \<Rightarrow> ptr \<Rightarrow> u32 \<Rightarrow> msg_generic_kprobe \<Rightarrow> gen_state \<Rightarrow> (msg_generic_kprobe \<times> gen_state) \<times> int" where
  "copy_char_iovec gx off arg argm e s =
     (let meta = get_arg_meta argm e
      in if has_return_copy argm
         then (let retid = retprobe_map_get_key (gx_pid_tgid gx) (gx_fp gx)
               in case return_error (args_off off) char_buf_saved_for_retprobe e of
                    (e', n) \<Rightarrow> ((e', s\<lparr>gs_rp := retprobe_map_set_iovec (gk_func_id e) retid (mc_ktime (gk_common e)) arg meta (gs_rp s)\<rparr>), n))
         else case copy_iovec gx off arg meta 0 e of (e', n) \<Rightarrow> ((e', s), n))"

section \<open>Model: paths\<close>

definition get_path :: "build \<Rightarrow> gen_ctx \<Rightarrow> u32 \<Rightarrow> ptr \<Rightarrow> path_val \<Rightarrow> path_val \<times> path_ref option" where
  "get_path bd gx ty arg path_buf =
     (let at = (\<lambda>p. (path_buf, if p = 0 then None else Some (Path_at p)))
      in if ty = kiocb_type then at (kread_ptr gx ''kiocb_ki_filp'' arg + gx_co gx ''file_f_path'')
         else if ty = file_ty then at (arg + gx_co gx ''file_f_path'')
         else if ty = path_ty then at arg
         else if ty = dentry_type then (\<lparr>pt_mnt = 0, pt_dentry = arg\<rparr>, Some Path_buf)
         else if bd_large bd \<and> ty = linux_binprm_type then at (kread_ptr gx ''bprm_file'' arg + gx_co gx ''file_f_path'')
         else (path_buf, None))"

text \<open>
  The kernel's file system view with the program's own path at an address of its own.
\<close>

definition vf_with_path :: "kvfs \<Rightarrow> path_val \<Rightarrow> path_ref \<Rightarrow> kvfs \<times> ptr" where
  "vf_with_path vf pb ref =
     (case ref of
        Path_at p \<Rightarrow> (vf, p)
      | Path_buf \<Rightarrow>
          let p = vf_fs_root vf + 1
          in (vf\<lparr>vf_path_dentry := (vf_path_dentry vf)(p := pt_dentry pb), vf_path_mnt := (vf_path_mnt vf)(p := pt_mnt pb)\<rparr>, p))"

definition store_path :: "gen_ctx \<Rightarrow> nat \<Rightarrow> byte list \<Rightarrow> ptr \<Rightarrow> u32 \<Rightarrow> u32 \<Rightarrow> msg_generic_kprobe \<Rightarrow> msg_generic_kprobe \<times> int" where
  "store_path gx off buffer dentry len flags e =
     (let n = unat (len AND 0xfff)
      in (put_args off (le_bytes 4 (of_nat n :: u32) @ take n buffer @ le_bytes 4 flags @ le_bytes 2 (gx_i_mode gx dentry)) e,
          int n + 10))"

definition copy_path :: "build \<Rightarrow> gen_ctx \<Rightarrow> nat \<Rightarrow> path_val \<Rightarrow> path_ref \<Rightarrow> msg_generic_kprobe \<Rightarrow> gen_state \<Rightarrow> (msg_generic_kprobe \<times> gen_state) \<times> int" where
  "copy_path bd gx off pb ref e s =
     (case vf_with_path (gx_vf gx) pb ref of
        (vf, p) \<Rightarrow>
          (case d_path_local bd vf p (gs_path s) of
             None \<Rightarrow> ((e, s), 0)
           | Some (b, error) \<Rightarrow>
               (case store_path gx off (drop (unat (pb_ptr b)) (pb_buf b)) (vf_path_dentry vf p) (pb_len b) (word_of_int error) e of
                  (e', n) \<Rightarrow> ((e', s\<lparr>gs_path := Some (pb_buf b)\<rparr>), n))))"

section \<open>Model: one argument\<close>

definition type_to_min_size :: "build \<Rightarrow> u32 \<Rightarrow> u32 \<Rightarrow> u64" where
  "type_to_min_size bd ty argm =
     (if ty \<in> {fd_ty, file_ty, path_ty, dentry_type, string_type} then of_nat (MAX_STRING bd)
      else if ty \<in> {int_type, s32_ty, u32_ty, s16_ty, u16_ty, s8_ty, u8_ty} then 4
      else if ty = skb_type then 64
      else if ty \<in> {sock_type, socket_type} then 64
      else if ty = sockaddr_type then 24
      else if ty = cred_type then 80
      else if ty \<in> {size_type, s64_ty, u64_ty, kernel_cap_ty, cap_inh_ty, cap_prm_ty, cap_eff_ty} then 8
      else if ty \<in> {char_buf, char_iovec} then 4
      else if ty = const_buf_type then scast argm
      else if ty \<in> {bpf_attr_type, bpf_prog_type} then 24
      else if ty = perf_event_type then 152
      else if ty = bpf_map_type then 32
      else if ty = user_namespace_type then 16
      else if ty = capability_type then 8
      else if ty \<in> {load_module_type, kernel_module_type} then 80
      else if ty = linux_binprm_type then of_nat (MAX_STRING bd)
      else if ty = net_dev_ty then 16
      else 0)"

text \<open>A descriptor argument: the path that a follow action stored for it; without one the event is dropped.\<close>

definition read_fd :: "gen_ctx \<Rightarrow> nat \<Rightarrow> u64 \<Rightarrow> gen_state \<Rightarrow> msg_generic_kprobe \<Rightarrow> msg_generic_kprobe \<times> int" where
  "read_fd gx off arg s e =
     (let fd = (ucast arg :: u32)
      in case map_lookup_elem (gs_fd s) (fd_key gx fd) of
           None \<Rightarrow> (e, - 1)
         | Some val \<Rightarrow>
             let bytes = unat (rd32 val 0 AND 0xfff);
                 e1 = put_args off (le_bytes 4 fd) e;
                 e2 = put_args (off + 4) (slice 0 (bytes + 4) val) e1;
                 e3 = put_args (off + (bytes + 8)) (slice (bytes + 4) 4 val) e2
             in (e3, int bytes + 12))"

definition lift_copy :: "byte list \<times> int \<Rightarrow> msg_generic_kprobe \<Rightarrow> gen_state \<Rightarrow> (msg_generic_kprobe \<times> gen_state) \<times> int" where
  "lift_copy r e s = ((e\<lparr>gk_args := fst r\<rparr>, s), snd r)"

definition read_value ::
  "flavour \<Rightarrow> build \<Rightarrow> gen_ctx \<Rightarrow> u32 \<Rightarrow> nat \<Rightarrow> u64 \<Rightarrow> u32 \<Rightarrow> msg_generic_kprobe \<Rightarrow> gen_state
     \<Rightarrow> (msg_generic_kprobe \<times> gen_state) \<times> int" where
  "read_value fl bd gx ty off arg argm e s =
     (let lift = (\<lambda>(e', n). ((e', s), n)); buf = gk_args e
      in if ty = iov_iter_type then copy_iov_iter fl bd gx off arg argm e s
         else if ty = fd_ty then lift (read_fd gx off arg s e)
         else if ty = filename_ty then lift (copy_strings gx off (kread_ptr gx ''filename_name'' arg) (MAX_STRING bd) e)
         else if ty = string_type then lift (copy_strings gx off arg (MAX_STRING bd) e)
         else if ty = net_dev_ty then lift (copy_strings gx off (arg + gx_co gx ''netdev_name'') 16 e)
         else if ty = data_loc_type
         then lift (copy_strings gx off (gx_ctx gx + (arg AND 0xffff)) (unat (drop_bit 16 arg AND 0xfff)) e)
         else if ty \<in> {syscall64_type, size_type, s64_ty, u64_ty} then ((put_args off (le_bytes 8 arg) e, s), 8)
         else if ty \<in> {int_type, s32_ty, u32_ty} then ((put_args off (le_bytes 4 arg) e, s), 4)
         else if ty \<in> {s16_ty, u16_ty} then ((put_args off (le_bytes 2 arg) e, s), 4)
         else if ty \<in> {s8_ty, u8_ty} then ((put_args off (le_bytes 1 arg) e, s), 4)
         else if ty = skb_type then lift_copy (copy_skb gx off arg buf) e s
         else if ty = sock_type
         then (case lift_copy (copy_sock gx off arg buf) e s of ((e1, s1), n) \<Rightarrow> ((update_pid_tid_from_sock bd s1 arg e1, s1), n))
         else if ty = sockaddr_type then lift_copy (copy_sockaddr gx off arg buf) e s
         else if ty = socket_type
         then (case lift_copy (copy_socket gx off arg buf) e s of
                 ((e1, s1), n) \<Rightarrow> ((update_pid_tid_from_sock bd s1 (rd64 (gk_args e1) (off + 40)) e1, s1), n))
         else if ty = cred_type then lift_copy (copy_cred gx off arg buf) e s
         else if ty = char_buf then copy_char_buf fl bd gx off arg argm e s
         else if ty = char_iovec then copy_char_iovec gx off arg argm e s
         else if ty = const_buf_type
         then (let n = unat (argm AND 0x03ff) in ((put_args off (fst (probe_read (gx_mem gx) n arg)) e, s), int n))
         else if ty = bpf_attr_type then lift_copy (copy_bpf_attr gx off arg buf) e s
         else if ty = bpf_prog_type then lift_copy (copy_bpf_prog gx off arg buf) e s
         else if ty = perf_event_type then lift_copy (copy_perf_event gx off arg buf) e s
         else if ty = bpf_map_type then lift_copy (copy_bpf_map gx off arg buf) e s
         else if ty = user_namespace_type then lift_copy (copy_user_ns gx off arg buf) e s
         else if ty = capability_type then lift_copy (copy_capability off arg buf) e s
         else if ty = load_module_type then lift_copy (copy_load_module gx off arg buf) e s
         else if ty = kernel_module_type then lift_copy (copy_kernel_module gx off arg buf) e s
         else if ty \<in> {kernel_cap_ty, cap_inh_ty, cap_prm_ty, cap_eff_ty}
         then ((put_args off (fst (probe_read (gx_mem gx) 8 arg)) e, s), 8)
         else ((e, s), 0))"

definition read_arg ::
  "flavour \<Rightarrow> build \<Rightarrow> gen_ctx \<Rightarrow> nat \<Rightarrow> u32 \<Rightarrow> u64 \<Rightarrow> u64 \<Rightarrow> u32 \<Rightarrow> gen_state \<Rightarrow> gen_state \<times> int" where
  "read_arg fl bd gx index ty orig_off arg argm s =
     (case gs_e s of
        None \<Rightarrow> (s, 0)
      | Some e \<Rightarrow>
          if orig_off \<ge> 16383 - type_to_min_size bd ty argm then (s, 0)
          else let off = unat (orig_off AND 16383);
                   e1 = e\<lparr>gk_argsoff := (gk_argsoff e)[index mod 8 := of_nat off]\<rparr>
               in case get_path bd gx ty arg \<lparr>pt_mnt = 0, pt_dentry = 0\<rparr> of
                    (pb, ref) \<Rightarrow>
                      (case (case ref of Some p \<Rightarrow> copy_path bd gx off pb p e1 s
                             | None \<Rightarrow> read_value fl bd gx ty off arg argm e1 s) of
                         ((e2, s2), n) \<Rightarrow> (s2\<lparr>gs_e := Some e2\<rparr>, n)))"

section \<open>Followed descriptors\<close>

lemma read_fd_found:
  assumes "map_lookup_elem (gs_fd s) (fd_key gx (ucast arg)) = Some val" and "length val = 4104"
    and "n = unat (rd32 val 0 AND 0xfff)" and "off + n + 12 \<le> length (gk_args e)"
  shows "read_fd gx off arg s e = (put_args off (le_bytes 4 (ucast arg :: u32) @ take (n + 8) val) e, int n + 12)"
proof -
  have n: "n \<le> 4095" using unat_mask_le [of "rd32 val 0" "0xfff"] by (simp add: assms(3))
  have "blit (off + (n + 8)) (slice (n + 4) 4 val) (blit (off + 4) (slice 0 (n + 4) val) (blit off (le_bytes 4 (ucast arg :: u32)) (gk_args e)))
     = blit off (le_bytes 4 (ucast arg :: u32) @ slice 0 (n + 4) val @ slice (n + 4) 4 val) (gk_args e)"
    using assms(2,4) n by (simp add: blit_append [symmetric] blit_append [of off "le_bytes 4 (ucast arg :: u32)", simplified, symmetric] ac_simps)
  moreover have "slice 0 (n + 4) val @ slice (n + 4) 4 val = take (n + 8) val"
    using slice_append_split [of 0 "n + 4" 4 val] by (simp add: slice_def add.commute)
  ultimately show ?thesis using assms(1) by (simp add: read_fd_def Let_def put_args_def assms(3) [symmetric])
qed

text \<open>
  C28. A followed descriptor is reported with its path: after a follow action on an event with a descriptor and a
  name argument, any later read of that descriptor by a task of the same process puts into its event the
  descriptor and then the length, the path and the flags of that name argument, in \<open>n + 12\<close> bytes;
  once the descriptor is unfollowed, the read fails and the event is dropped.
\<close>

theorem followed_fd_roundtrip:
  assumes "gs_heap s = Some heap" and "length heap = 4104" and "length (gk_args e) = 24000"
    and "action_argoff e fdi = Some fdoff" and "action_argoff e namei = Some nameoff"
    and "fd = rd32 (gk_args e) fdoff" and "n = unat (rd32 (gk_args e) nameoff AND 0xfff)"
    and "\<And>v. snd (lru_update_elem (gs_fd s) (fd_key gx fd) v) = 0"
    and "s1 = fst (installfd gx e fdi namei True s)" and "s2 = fst (installfd gx e fdi namei False s1)"
    and "drop_bit 32 (gx_pid_tgid gx') = drop_bit 32 (gx_pid_tgid gx)" and "ucast arg = fd" and "off + n + 12 \<le> length (gk_args ev)"
  shows "read_fd gx' off arg s1 ev = (put_args off (le_bytes 4 fd @ slice nameoff (n + 8) (gk_args e)) ev, int n + 12)
     \<and> read_fd gx' off arg s2 ev = (ev, - 1)"
proof -
  have key: "fd_key gx' x = fd_key gx x" for x
    using assms(11) by (simp add: fd_key_def)
  obtain v where v: "map_lookup_elem (gs_fd s1) (fd_key gx fd) = Some v" "length v = 4104"
      "take (n + 8) v = slice nameoff (n + 8) (gk_args e)"
    using installfd_stores [OF assms(1-5) refl assms(7)] assms(6,8,9) by blast
  have "take 4 (take (n + 8) v) = take 4 (slice nameoff (n + 8) (gk_args e))" using v(3) by simp
  then have "rd32 v 0 = rd32 (gk_args e) nameoff" by (simp add: rd32_def slice_def)
  then have n: "n = unat (rd32 v 0 AND 0xfff)" using assms(7) by simp
  have "read_fd gx' off arg s1 ev = (put_args off (le_bytes 4 fd @ slice nameoff (n + 8) (gk_args e)) ev, int n + 12)"
    using read_fd_found [OF _ v(2) n assms(13), of s1 gx' arg] v(1,3) assms(12) by (simp add: key)
  moreover have "map_lookup_elem (gs_fd s2) (fd_key gx fd) = None"
  proof -
    obtain h where "gs_heap s1 = Some h" using assms(1,4,5,9) by (auto simp: installfd_def Let_def)
    then show ?thesis using assms(4,6,10) by (simp add: installfd_def Let_def)
  qed
  ultimately show ?thesis using assms(12) by (simp add: read_fd_def key)
qed

section \<open>Buffers\<close>

text \<open>
  A readable buffer is copied whole, up to 4095 bytes: without data events, \<^verbatim>\<open>__copy_char_buf\<close> appends
  the length, the number of bytes copied and the bytes, and leaves everything else in the event and in the maps unchanged.
\<close>

theorem char_buf_exact:
  assumes "\<not> (bd_large bd \<and> max_data \<and> data_heap_ptr fl bd)" and "snd (probe_read (gx_mem gx) n arg) = 0"
    and "n = min (unat bytes) 4095" and "off < 16384" and "off + n + 8 \<le> length (gk_args e)"
  shows "copy_bytes fl bd gx off arg bytes max_data e s =
    ((put_args off (le_bytes 4 (ucast bytes :: u32) @ le_bytes 4 (of_nat n :: u32) @ fst (probe_read (gx_mem gx) n arg)) e, s), int n + 8)"
proof -
  define rd where "rd = (if bytes < 0x1000 then bytes else 0xfff) AND 0xfff"
  have "unat (bytes AND 0xfff) = unat bytes mod 4096" using unat_and_mask [of bytes 12] by (simp add: mask_eq_exp_minus_1)
  then have rd: "unat rd = n" by (auto simp: rd_def assms(3) word_less_nat_alt min_def)
  obtain bs where bs: "probe_read (gx_mem gx) n arg = (bs, 0)" "length bs = n"
    using assms(2) length_probe_read by (metis prod.collapse)
  have u: "uint rd = int n" "(ucast rd :: u32) = of_nat n"
    by (simp_all only: rd [symmetric] of_nat_unat)
  have "blit (off + 4) (le_bytes 4 (of_nat n :: u32)) (blit off (le_bytes 4 (ucast bytes :: u32)) (blit (off + 8) bs (gk_args e)))
     = blit off (le_bytes 4 (ucast bytes :: u32) @ le_bytes 4 (of_nat n :: u32) @ bs) (gk_args e)"
    using assms(5) bs(2) by (simp add: blit_def ac_simps min_def)
  note blits = this
  have nd: "(bd_large bd \<and> max_data \<and> data_heap_ptr fl bd) = False" using assms(1) by blast
  have o: "args_off off = off" using assms(4) by (simp add: args_off_def)
  show ?thesis
    unfolding copy_bytes_def nd Let_def o if_False simp_thms(22) rd_def [symmetric] rd bs(1) prod.case u fst_conv
    by (simp add: put_args_def blits)
qed


section \<open>I/O vectors\<close>

text \<open>The vector at an address: readable entries, each with a readable buffer of at most 4094 bytes.\<close>

fun iovec_at :: "memory \<Rightarrow> ptr \<Rightarrow> nat \<Rightarrow> byte list list \<Rightarrow> bool" where
  "iovec_at mem arg i [] \<longleftrightarrow> True"
| "iovec_at mem arg i (buf # bufs) \<longleftrightarrow>
     (\<exists>base. probe_read mem 16 (arg + of_nat (16 * i)) = (le_bytes 8 (base :: u64) @ le_bytes 8 (of_nat (length buf) :: u64), 0)
        \<and> length buf \<le> 4094 \<and> probe_read mem (length buf) base = (buf, 0)) \<and> iovec_at mem arg (Suc i) bufs"

lemma parse_iovec_array_buf:
  assumes "iovec_at (gx_mem gx) arg i (buf # bufs)" and "off < 16384"
  shows "parse_iovec_array gx off arg i 0 e = (put_args off buf e, int (length buf))"
proof -
  obtain base where "probe_read (gx_mem gx) 16 (arg + of_nat (16 * i)) = (le_bytes 8 (base :: u64) @ le_bytes 8 (of_nat (length buf) :: u64), 0)"
    and len: "length buf \<le> 4094" and "probe_read (gx_mem gx) (length buf) base = (buf, 0)" using assms(1) by auto
  moreover have "unat (of_nat (length buf) AND 0xfff :: u64) = length buf" "\<not> (of_nat (length buf) :: u64) > 4094"
    using len unat_and_mask [of "of_nat (length buf) :: u64" 12]
    by (simp_all add: mask_eq_exp_minus_1 word_less_nat_alt unsigned_of_nat take_bit_nat_eq_self)
  moreover from this(1) have "uint (of_nat (length buf) AND 0xfff :: u64) = int (length buf)" by (metis of_nat_unat)
  ultimately show ?thesis using assms(2)
    by (simp add: parse_iovec_array_def le_word_le_bytes Let_def args_off_def)
qed

lemma iovec_entries_concat:
  assumes "iovec_at (gx_mem gx) arg i bufs" and "i + length bufs = unat cnt" and "length bufs \<le> k"
    and "off + length (concat bufs) < 16384" and "length (gk_args e) = 24000"
  shows "iovec_entries gx arg cnt k i off 0 tot e = (put_args off (concat bufs) e, Inr (tot + int (length (concat bufs))))"
  using assms
proof (induction bufs arbitrary: i k off tot e)
  case Nil
  then have "(of_nat i :: u64) = cnt" by simp
  with Nil show ?case by (cases k) (simp_all add: put_args_def)
next
  case (Cons buf bufs)
  then obtain k' where k: "k = Suc k'" by (cases k) auto
  have "unat (of_nat i :: u64) \<le> i" by (simp add: unsigned_of_nat)
  then have i: "\<not> of_nat i \<ge> cnt" using Cons.prems(2) by (simp add: word_le_nat_alt)
  have "off < 16384" using Cons.prems(4) by simp
  note step = parse_iovec_array_buf [OF Cons.prems(1) this, of e]
  have "put_args (off + length buf) (concat bufs) (put_args off buf e) = put_args off (buf @ concat bufs) e"
    using Cons.prems(4,5) by (simp add: put_args_def blit_append)
  moreover have "length (gk_args (put_args off buf e)) = 24000" using Cons.prems(4,5) by (simp add: put_args_def)
  ultimately show ?case
    using Cons.IH [of "Suc i" k' "off + length buf" "put_args off buf e" "tot + int (length buf)"] Cons.prems i step k by simp
qed

text \<open>
  A vector of up to seven readable buffers is gathered: \<^verbatim>\<open>__copy_char_iovec\<close> appends the total length twice and the contents of
  the buffers one behind the other.
\<close>

theorem iovec_gathered:
  assumes "iovec_at (gx_mem gx) arg 0 bufs" and "unat cnt = length bufs" and "length bufs \<le> 7"
    and "off + 8 + length (concat bufs) < 16384" and "length (gk_args e) = 24000" and "n = length (concat bufs)"
  shows "copy_iovec gx off arg cnt 0 e = (put_args off (le32 (int n) @ le32 (int n) @ concat bufs) e, int n + 8)"
proof -
  have "iovec_entries gx arg cnt 7 0 (off + 8) 0 0 e = (put_args (off + 8) (concat bufs) e, Inr (int n))"
    using iovec_entries_concat [OF assms(1) _ assms(3), of cnt "off + 8" e 0] assms by simp
  moreover have "blit off (le32 (int n) @ le32 (int n)) (blit (off + 8) (concat bufs) (gk_args e))
      = blit off (le32 (int n) @ le32 (int n) @ concat bufs) (gk_args e)"
    using assms(4-6) by (simp add: blit_def le32_def min_def ac_simps)
  ultimately show ?thesis using assms(4) by (simp add: copy_iovec_def put_args_def args_off_def)
qed

section \<open>Concrete runs\<close>

lemma fd_heads: "gs_heap gs_example = Some (replicate 4104 9)" "action_argoff (e_example\<lparr>gk_args := xs\<rparr>) 0 = Some 0"
  "action_argoff (e_example\<lparr>gk_args := xs\<rparr>) 1 = Some 0"
  by (simp_all add: gs_example_def action_argoff_def argsoff_at_def e_example_def msg_example_def)

theorem followed_fd_roundtrip_witness:
  "\<exists>ev. read_fd gx_example 16 3 (fst (installfd gx_example (e_example\<lparr>gk_args := le_bytes 4 (3 :: u32) @ replicate 23996 7\<rparr>) 0 0 True gs_example))
       (e_example\<lparr>gk_args := replicate 40 0\<rparr>) = (ev, 15)"
proof -
  let ?e = "e_example\<lparr>gk_args := le_bytes 4 (3 :: u32) @ replicate 23996 7\<rparr>"
  have fd: "rd32 (gk_args ?e) 0 = 3" by (simp add: rd32_le_bytes)
  have upd: "snd (lru_update_elem (gs_fd gs_example) (fd_key gx_example 3) v) = 0" for v
    by (simp add: gs_example_def empty_lru_def lru_update_elem_def)
  from followed_fd_roundtrip [OF fd_heads(1) _ _ fd_heads(2) fd_heads(2) fd [symmetric] refl upd refl refl refl, of 3 16 "e_example\<lparr>gk_args := replicate 40 0\<rparr>"] fd
  show ?thesis by simp
qed

definition mem_iovec :: memory where
  "mem_iovec = mem_at 1000 (le_bytes 8 (1016 :: u64) @ le_bytes 8 (2 :: u64) @ [65, 66])"

lemma mem_iovec_vector: "iovec_at mem_iovec 1000 0 [[65, 66]]"
proof -
  have "probe_read mem_iovec 2 1016 = ([65, 66], 0)"
    by (simp add: mem_iovec_def probe_read_def mem_at_def upt_rec nth_append)
  then have "probe_read mem_iovec (length [65, 66 :: byte]) 1016 = ([65, 66], 0)" by (simp add: numeral_2_eq_2)
  moreover have "probe_read mem_iovec 16 1000 = (le_bytes 8 (1016 :: u64) @ le_bytes 8 (of_nat (length [65, 66 :: byte]) :: u64), 0)"
    using probe_read_mem_at [of 16 "le_bytes 8 (1016 :: u64) @ le_bytes 8 (2 :: u64) @ [65, 66]" 1000] by (simp add: mem_iovec_def)
  ultimately show ?thesis by (auto simp del: length_Cons intro!: exI [of _ 1016])
qed

definition gx_iovec :: gen_ctx where
  "gx_iovec = gx_example\<lparr>gx_mem := mem_iovec\<rparr>"

theorem iovec_gathered_witness:
  "snd (copy_iovec gx_iovec 0 1000 1 0 (e_example\<lparr>gk_args := replicate 24000 0\<rparr>)) = 10"
  using iovec_gathered [of gx_iovec 1000 "[[65, 66]]" 1 0, OF _ _ _ _ _ refl] mem_iovec_vector by (simp add: gx_iovec_def)

theorem char_buf_exact_witness:
  "copy_bytes KPROBE build_v61 gx_iovec 0 1016 2 False (e_example\<lparr>gk_args := replicate 40 0\<rparr>) gs_example
   = ((put_args 0 (le_bytes 4 (2 :: u32) @ le_bytes 4 (2 :: u32) @ [65, 66]) (e_example\<lparr>gk_args := replicate 40 0\<rparr>), gs_example), 10)"
proof -
  have "probe_read (gx_mem gx_iovec) 2 1016 = ([65, 66], 0)"
    by (simp add: gx_iovec_def mem_iovec_def probe_read_def mem_at_def upt_rec nth_append)
  note rd = this
  have n: "2 = min (unat (2 :: u64)) 4095" "0 + 2 + 8 \<le> length (gk_args (e_example\<lparr>gk_args := replicate 40 0\<rparr>))" by simp_all
  from char_buf_exact [OF _ _ n(1) _ n(2), of build_v61 False KPROBE gx_iovec 1016 gs_example] show ?thesis
    by (simp add: rd)
qed

end
