(* ===== verification/Tail_Calls.thy ===== *)
theory Tail_Calls
  imports Prelude
begin

text \<open>
  Chains of tail calls (the helper \<^verbatim>\<open>tail_call\<close> of \<^verbatim>\<open>bpf/include/api.h\<close> and the program numbers of
  \<^verbatim>\<open>process/types/basic.h\<close>). A program ends by returning a value or by a tail call. The kernel allows 33 tail calls in a chain; a call
  beyond the limit or to an empty slot of the program array fails, and the code behind it is executed. The locale \<open>chain\<close>
  is what the programs of one array promise, with the facts about whole chains that follow from facts about single programs.
\<close>

section \<open>Programs and chains\<close>

datatype prog =
    TAIL_CALL_SETUP | TAIL_CALL_PROCESS | TAIL_CALL_FILTER | TAIL_CALL_ARGS | TAIL_CALL_ACTIONS | TAIL_CALL_SEND | TAIL_CALL_PATH

datatype outcome = Tail prog | Ret int

text \<open>\<open>ok\<close> says which tail calls succeed; a successful one does not come back to \<open>rest\<close>.\<close>

definition tail_call :: "(prog \<Rightarrow> bool) \<Rightarrow> prog \<Rightarrow> ('s \<Rightarrow> 's \<times> outcome) \<Rightarrow> 's \<Rightarrow> 's \<times> outcome" where
  "tail_call ok p rest s = (if ok p then (s, Tail p) else rest s)"

definition ret :: "int \<Rightarrow> 's \<Rightarrow> 's \<times> outcome" where
  "ret r s = (s, Ret r)"

definition MAX_TAIL_CALL_CNT :: nat where [tg_consts]: "MAX_TAIL_CALL_CNT = 33"

text \<open>
  A chain with \<open>n\<close> tail calls left: the final state, the value returned and the number of calls left over. \<open>has\<close> are the slots of the
  array that hold a program.
\<close>

fun run_chain ::
  "((prog \<Rightarrow> bool) \<Rightarrow> prog \<Rightarrow> 's \<Rightarrow> 's \<times> outcome) \<Rightarrow> (prog \<Rightarrow> bool) \<Rightarrow> nat \<Rightarrow> 's \<times> outcome \<Rightarrow> 's \<times> int \<times> nat" where
  "run_chain step has n (s, Ret r) = (s, r, n)"
| "run_chain step has 0 (s, Tail p) = (s, 0, 0)"
| "run_chain step has (Suc n) (s, Tail p) = run_chain step has n (step (\<lambda>q. has q \<and> 0 < n) p s)"

section \<open>Chains of well-behaved programs\<close>

lemma tail_call_Tail: "tail_call ok p rest s = (s', Tail q) \<Longrightarrow> (rest s = (s', Tail q) \<Longrightarrow> ok q) \<Longrightarrow> ok q"
  by (auto simp: tail_call_def split: if_splits)

lemma ret_Tail [simp]: "ret r s \<noteq> (s', Tail q)"
  by (simp add: ret_def)

text \<open>What holds at the end of a program: \<open>I\<close> of the state, and \<open>J p\<close> when it calls \<open>p\<close>.\<close>

definition ends :: "('s \<Rightarrow> bool) \<Rightarrow> (prog \<Rightarrow> 's \<Rightarrow> bool) \<Rightarrow> 's \<times> outcome \<Rightarrow> bool" where
  "ends I J so = (I (fst so) \<and> (\<forall>p. snd so = Tail p \<longrightarrow> J p (fst so)))"

lemma ends_ret [simp]: "ends I J (ret r s) = I s" "ends I J (s, Ret r) = I s"
  by (simp_all add: ends_def ret_def)

lemma ends_Tail [simp]: "ends I J (s, Tail p) \<longleftrightarrow> I s \<and> J p s"
  by (simp add: ends_def)

lemma ends_tail_call:
  "ends I J (rest s) \<Longrightarrow> (ok p \<Longrightarrow> I s \<and> J p s) \<Longrightarrow> ends I J (tail_call ok p rest s)"
  by (simp add: tail_call_def)

lemma ends_mono: "ends I J so \<Longrightarrow> (\<And>s. I s \<Longrightarrow> I' s) \<Longrightarrow> (\<And>p s. I s \<Longrightarrow> J p s \<Longrightarrow> J' p s) \<Longrightarrow> ends I' J' so"
  by (auto simp: ends_def)

locale chain =
  fixes step :: "(prog \<Rightarrow> bool) \<Rightarrow> prog \<Rightarrow> 's \<Rightarrow> 's \<times> outcome" and has :: "prog \<Rightarrow> bool"
  assumes only_ok: "step ok p s = (s', Tail q) \<Longrightarrow> ok q"
begin

text \<open>An invariant of every program, with a condition on what is called, is an invariant of the chain.\<close>

lemma run_chain_inv:
  assumes "\<And>ok p s. has p \<Longrightarrow> (\<And>q. ok q \<Longrightarrow> has q) \<Longrightarrow> I s \<Longrightarrow> J p s \<Longrightarrow> ends I J (step ok p s)"
    and "ends I J so" and "\<And>p. snd so = Tail p \<Longrightarrow> has p"
  shows "I (fst (run_chain step has n so))"
  using assms(2,3)
proof (induction n arbitrary: so)
  case 0
  then show ?case by (cases so; cases "snd so") (simp_all add: ends_def)
next
  case (Suc n)
  show ?case
  proof (cases "snd so")
    case (Ret r)
    with Suc.prems(1) show ?thesis by (cases so) (simp add: ends_def)
  next
    case (Tail p)
    let ?ok = "\<lambda>q. has q \<and> 0 < n" and ?s = "fst so"
    have so: "so = (?s, Tail p)" using Tail by (cases so) simp
    have "ends I J (step ?ok p ?s)"
      by (rule assms(1)) (use Suc.prems(1) Suc.prems(2) [OF Tail] Tail in \<open>auto simp: ends_def\<close>)
    moreover have "has q" if "snd (step ?ok p ?s) = Tail q" for q
      using only_ok [of ?ok p ?s "fst (step ?ok p ?s)" q] that by (simp add: prod_eq_iff)
    ultimately have "I (fst (run_chain step has n (step ?ok p ?s)))" by (rule Suc.IH)
    then show ?thesis by (subst so) simp
  qed
qed

text \<open>
  Programs that go down in a measure \<open>m\<close>, which is positive, leave the calls that the measure does not need; in particular
  the limit of the kernel is not hit when it is above the measure.
\<close>

lemma run_chain_left:
  assumes "\<And>ok p s. has p \<Longrightarrow> (\<And>q. ok q \<Longrightarrow> has q) \<Longrightarrow> J p s \<Longrightarrow> ends (\<lambda>_. True) (\<lambda>q s'. J q s' \<and> m q s' < m p s) (step ok p s)"
    and "\<And>p s. J p s \<Longrightarrow> 0 < m p s"
    and "ends (\<lambda>_. True) (\<lambda>q s'. J q s' \<and> m q s' \<le> k) so" and "\<And>p. snd so = Tail p \<Longrightarrow> has p" and "k \<le> n"
  shows "n - k \<le> snd (snd (run_chain step has n so))"
  using assms(3-)
proof (induction n arbitrary: so k)
  case 0
  then show ?case by simp
next
  case (Suc n)
  show ?case
  proof (cases "snd so")
    case (Ret r)
    then show ?thesis by (cases so) simp
  next
    case (Tail p)
    let ?ok = "\<lambda>q. has q \<and> 0 < n" and ?s = "fst so"
    have so: "so = (?s, Tail p)" using Tail by (cases so) simp
    from Suc.prems(1) have J: "J p ?s" "m p ?s \<le> k" by (simp_all add: ends_def Tail)
    have "ends (\<lambda>_. True) (\<lambda>q s'. J q s' \<and> m q s' < m p ?s) (step ?ok p ?s)"
      by (rule assms(1)) (use Suc.prems(2) [OF Tail] J in auto)
    then have "ends (\<lambda>_. True) (\<lambda>q s'. J q s' \<and> m q s' \<le> k - 1) (step ?ok p ?s)"
      by (rule ends_mono) (use J(2) in auto)
    moreover have "has q" if "snd (step ?ok p ?s) = Tail q" for q
      using only_ok [of ?ok p ?s "fst (step ?ok p ?s)" q] that by (simp add: prod_eq_iff)
    ultimately have "n - (k - 1) \<le> snd (snd (run_chain step has n (step ?ok p ?s)))"
      using Suc.prems(3) by (intro Suc.IH) auto
    moreover have "0 < k" using J assms(2) [OF J(1)] by simp
    ultimately show ?thesis by (subst so) simp
  qed
qed

text \<open>Programs that always call another one that is closer to a target \<open>t\<close> reach it, with calls left over.\<close>

lemma run_chain_reaches:
  assumes step: "\<And>ok p s. (\<And>q. has q \<Longrightarrow> ok q) \<Longrightarrow> J p s \<Longrightarrow> p \<noteq> t \<Longrightarrow> \<exists>q s'. step ok p s = (s', Tail q) \<and> J q s' \<and> m q s' < m p s"
    and pos: "\<And>p s. J p s \<Longrightarrow> 0 < m p s" and "J p s" and "m p s \<le> n"
  shows "\<exists>s' k. 0 < k \<and> m t s' \<le> k \<and> J t s' \<and> run_chain step has n (s, Tail p) = run_chain step has k (s', Tail t)"
  using assms(3,4)
proof (induction n arbitrary: p s)
  case 0
  then show ?case using pos [of p s] by simp
next
  case (Suc n)
  show ?case
  proof (cases "p = t")
    case True
    then show ?thesis using Suc.prems by blast
  next
    case False
    obtain q s' where "J q s'" "m q s' < m p s" using step [of "\<lambda>_. True", OF _ Suc.prems(1) False] by blast
    then have "0 < n" using pos [of q s'] Suc.prems(2) by simp
    then obtain q s' where "step (\<lambda>q. has q \<and> 0 < n) p s = (s', Tail q)" "J q s'" "m q s' < m p s"
      using step [of "\<lambda>q. has q \<and> 0 < n", OF _ Suc.prems(1) False] by blast
    then show ?thesis using Suc.IH [of q s'] Suc.prems(2) by simp
  qed
qed

end

end
