(* ===== verification/Generic_Programs.thy ===== *)
theory Generic_Programs
  imports Generic_Args Tail_Calls
begin

text \<open>
  The tail-call programs of the generic sensors (\<^verbatim>\<open>process/generic_calls.h\<close>, \<^verbatim>\<open>process/generic_path.h\<close>, the
  \<^verbatim>\<open>bpf_generic_*.c\<close> files). A program ends by returning a value or by a tail call; the machine at the end of this theory runs a
  chain of them. Registers and system call registers have the x86 layout.
\<close>

section \<open>Constants\<close>

definition upd_e :: "(msg_generic_kprobe \<Rightarrow> msg_generic_kprobe) \<Rightarrow> gen_state \<Rightarrow> gen_state" where
  "upd_e g s = s\<lparr>gs_e := map_option g (gs_e s)\<rparr>"

definition MSG_OP_GENERIC_KPROBE :: u8 where [tg_consts]: "MSG_OP_GENERIC_KPROBE = 13"
definition MSG_OP_GENERIC_TRACEPOINT :: u8 where [tg_consts]: "MSG_OP_GENERIC_TRACEPOINT = 14"
definition MSG_OP_GENERIC_UPROBE :: u8 where [tg_consts]: "MSG_OP_GENERIC_UPROBE = 15"
definition MSG_OP_GENERIC_LSM :: u8 where [tg_consts]: "MSG_OP_GENERIC_LSM = 16"
definition MSG_OP_GENERIC_USDT :: u8 where [tg_consts]: "MSG_OP_GENERIC_USDT = 28"
definition MSG_COMMON_FLAG_RETURN :: byte where [tg_consts]: "MSG_COMMON_FLAG_RETURN = 1"
definition MAX_TOTAL :: u32 where [tg_consts]: "MAX_TOTAL = 9000"
definition MAX_BTF_ARG_DEPTH :: nat where [tg_consts]: "MAX_BTF_ARG_DEPTH = 10"
definition EVENT_CONFIG_MAX_ARG :: nat where [tg_consts]: "EVENT_CONFIG_MAX_ARG = 5"

section \<open>Start\<close>

definition reset_selectors :: "bool \<Rightarrow> msg_selector_data \<Rightarrow> msg_selector_data" where
  "reset_selectors large sel =
     (let sel' = sel\<lparr>sd_curr := 0, sd_active := replicate 32 False, sd_pass := False\<rparr>
      in if large then sel'\<lparr>sd_match_ns := 0, sd_match_cap := 0\<rparr> else sel')"

definition set_flags :: "byte \<Rightarrow> msg_common \<Rightarrow> msg_common" where
  "set_flags fl c = c\<lparr>mc_flags := fl\<rparr>"

definition start_message :: "build \<Rightarrow> gen_ctx \<Rightarrow> event_config \<Rightarrow> msg_generic_kprobe \<Rightarrow> msg_generic_kprobe" where
  "start_message bd gx config msg =
     msg\<lparr>gk_idx := gx_index gx, gk_func_id := ucast (ec_func_id config), gk_retprobe_id := 0,
        gk_sel := reset_selectors (bd_large bd) (gk_sel msg),
        gk_tailcall_index_process := 0, gk_tailcall_index_selector := 0,
        gk_path := (if bd_v61 bd then gk_path msg else (gk_path msg)\<lparr>gp_state := STATE_INIT\<rparr>),
        gk_ns := get_namespaces (gx_kp gx) (gx_kt gx) (kt_current (gx_kt gx)) (gk_ns msg),
        gk_caps := get_current_subj_caps (gx_kp gx) (kt_current (gx_kt gx)) (gk_caps msg),
        gk_lsm_post := False, gk_common := set_flags 0 (gk_common msg)\<rparr>"

definition policy_applies :: "build \<Rightarrow> gen_ctx \<Rightarrow> u32 \<Rightarrow> gen_state \<Rightarrow> bool" where
  "policy_applies bd gx policy_id s =
     policy_filter_check bd (gx_kc gx) (kt_current (gx_kt gx)) (os_conf (gs_os s)) (gx_policies gx) (gx_cs gx) policy_id"

definition generic_start_process_filter :: "build \<Rightarrow> (prog \<Rightarrow> bool) \<Rightarrow> gen_ctx \<Rightarrow> gen_state \<Rightarrow> gen_state \<times> outcome" where
  "generic_start_process_filter bd ok gx s =
     (if gs_e s = None then ret 0 s
      else let s1 = upd_e (\<lambda>msg. msg\<lparr>gk_idx := gx_index gx\<rparr>) s
           in case gx_config_map gx (gx_index gx) of
                None \<Rightarrow> ret 0 s1
              | Some config \<Rightarrow>
                  if \<not> policy_applies bd gx (ec_policy_id config) s1 then ret 0 s1
                  else tail_call ok TAIL_CALL_FILTER (ret 0) (upd_e (start_message bd gx config) s1))"

section \<open>Where an argument comes from\<close>

definition extract_arg_depth :: "gen_ctx \<Rightarrow> config_btf_arg list \<Rightarrow> nat \<Rightarrow> u64 \<Rightarrow> u64 option" where
  "extract_arg_depth gx btf i a =
     (if i \<ge> MAX_BTF_ARG_DEPTH \<or> cb_is_initialized (btf ! i) = 0 then None
      else let a1 = a + ucast (cb_offset (btf ! i))
           in Some (if cb_is_pointer (btf ! i) \<noteq> 0 then le_word (fst (probe_read (gx_mem gx) 8 a1)) else a1))"

fun extract_loop :: "gen_ctx \<Rightarrow> config_btf_arg list \<Rightarrow> nat \<Rightarrow> nat \<Rightarrow> u64 \<Rightarrow> u64" where
  "extract_loop gx btf 0 i a = a"
| "extract_loop gx btf (Suc k) i a =
     (case extract_arg_depth gx btf i a of None \<Rightarrow> a | Some a' \<Rightarrow> extract_loop gx btf k (Suc i) a')"

definition extract_arg :: "build \<Rightarrow> gen_ctx \<Rightarrow> event_config \<Rightarrow> nat \<Rightarrow> u64 \<Rightarrow> u64" where
  "extract_arg bd gx config index a =
     (if \<not> bd_large bd \<or> index \<ge> EVENT_CONFIG_MAX_ARG then a
      else let btf = ec_btf_arg config ! index
           in if cb_is_initialized (btf ! 0) \<noteq> 0 then extract_loop gx btf MAX_BTF_ARG_DEPTH 0 a else a)"

text \<open>
  Indices of arguments are masked with 7, although the arrays have five elements; they stay below 5
  (lemma \<open>shrinks_process\<close> of theory \<^verbatim>\<open>Generic_Run\<close>).
\<close>

definition arg_idx :: "gen_ctx \<Rightarrow> nat \<Rightarrow> gen_state \<Rightarrow> u32" where
  "arg_idx gx index s =
     (case gs_e s of
        None \<Rightarrow> - 1
      | Some e \<Rightarrow> (case gx_config_map gx (gk_idx e) of None \<Rightarrow> - 1 | Some config \<Rightarrow> ec_idx config ! (index mod 8)))"

text \<open>The two shifts of the system call variant are on a signed value.\<close>

definition get_pt_regs_arg_syscall :: "gen_ctx \<Rightarrow> u16 \<Rightarrow> u8 \<Rightarrow> u64" where
  "get_pt_regs_arg_syscall gx offset shift =
     (if gx_syscall_regs gx = 0 then 0
      else let n = unat (shift AND 63); val = (le_word (fst (probe_read (gx_mem gx) 8 (gx_syscall_regs gx + ucast offset))) :: u64)
           in signed_drop_bit n (push_bit n val))"

definition get_pt_regs_arg :: "flavour \<Rightarrow> gen_ctx \<Rightarrow> event_config \<Rightarrow> nat \<Rightarrow> u64" where
  "get_pt_regs_arg fl gx config index =
     (if fl = KPROBE \<or> fl = UPROBE
      then (let reg = ec_reg_arg config ! index; shift = 64 - cr_size reg * 8
            in if ec_syscall config \<noteq> 0 then get_pt_regs_arg_syscall gx (cr_offset reg) shift
               else read_reg (gx_regs gx) (ucast (cr_offset reg)) shift)
      else 0)"

section \<open>Paths on kernels before 6.1\<close>

definition should_offload_path :: "build \<Rightarrow> u32 \<Rightarrow> bool" where
  "should_offload_path bd ty \<longleftrightarrow> \<not> bd_v61 bd \<and> ty \<in> {kiocb_type, file_ty, path_ty, dentry_type, linux_binprm_type}"

definition GENERIC_PATH_CALLS :: u32 where [tg_consts]: "GENERIC_PATH_CALLS = 8"

definition GENERIC_PATH_ITERATIONS :: "build \<Rightarrow> nat" where
  "GENERIC_PATH_ITERATIONS bd = (if bd_large bd then 512 else 32)"

definition upd_path :: "(generic_path \<Rightarrow> generic_path) \<Rightarrow> gen_state \<Rightarrow> gen_state" where
  "upd_path g = upd_e (\<lambda>e. e\<lparr>gk_path := g (gk_path e)\<rparr>)"

definition path_init :: "(prog \<Rightarrow> bool) \<Rightarrow> gen_ctx \<Rightarrow> generic_path \<Rightarrow> gen_state \<Rightarrow> gen_state \<times> outcome" where
  "path_init ok gx gp s =
     (case gs_path s of
        None \<Rightarrow> ret 0 s
      | Some buffer \<Rightarrow>
          (case vf_with_path (gx_vf gx) (gp_path_buf gp) (gp_path gp) of
             (vf, p) \<Rightarrow>
               let b0 = \<lparr>pb_buf = buffer, pb_ptr = of_nat (MAX_BUF_LEN - 1), pb_len = of_nat MAX_BUF_LEN\<rparr>;
                   b = (if d_unlinked vf (vf_path_dentry vf p) then fst (prepend DELETED b0) else b0);
                   gp' = gp\<lparr>gp_root_dentry := vf_path_dentry vf (vf_fs_root vf), gp_root_mnt := vf_path_mnt vf (vf_fs_root vf),
                           gp_dentry := vf_path_dentry vf p, gp_vfsmnt := vf_path_mnt vf p,
                           gp_mnt := real_mount vf (vf_path_mnt vf p), gp_cnt := 0, gp_off := ucast (pb_ptr b), gp_state := STATE_WORK\<rparr>
               in tail_call ok TAIL_CALL_PATH (ret 0) (upd_path (\<lambda>_. gp') (s\<lparr>gs_path := Some (pb_buf b)\<rparr>))))"

definition path_data :: "generic_path \<Rightarrow> byte list \<Rightarrow> cwd_read_data" where
  "path_data gp buffer =
     \<lparr>cw_root_dentry = gp_root_dentry gp, cw_root_mnt = gp_root_mnt gp, cw_dentry = gp_dentry gp, cw_vfsmnt = gp_vfsmnt gp,
      cw_mnt = gp_mnt gp, cw_b = \<lparr>pb_buf = buffer, pb_ptr = ucast (gp_off gp AND 0xfff), pb_len = gp_off gp\<rparr>, cw_resolved = False\<rparr>"

definition path_work :: "build \<Rightarrow> (prog \<Rightarrow> bool) \<Rightarrow> gen_ctx \<Rightarrow> generic_path \<Rightarrow> gen_state \<Rightarrow> gen_state \<times> outcome" where
  "path_work bd ok gx gp s =
     (case gs_path s of
        None \<Rightarrow> ret 0 s
      | Some buffer \<Rightarrow>
          let d = cwd_read_loop (gx_vf gx) (GENERIC_PATH_ITERATIONS bd) (path_data gp buffer);
              gp1 = gp\<lparr>gp_cnt := gp_cnt gp + 1, gp_off := ucast (pb_ptr (cw_b d))\<rparr>;
              s1 = s\<lparr>gs_path := Some (pb_buf (cw_b d))\<rparr>
          in if cw_resolved d \<or> gp_cnt gp1 = GENERIC_PATH_CALLS
             then tail_call ok TAIL_CALL_PROCESS (ret 0) (upd_path (\<lambda>_. gp1) s1)
             else tail_call ok TAIL_CALL_PATH (ret 0)
                    (upd_path (\<lambda>_. gp1\<lparr>gp_dentry := cw_dentry d, gp_vfsmnt := cw_vfsmnt d, gp_mnt := cw_mnt d\<rparr>) s1))"

definition generic_path :: "build \<Rightarrow> (prog \<Rightarrow> bool) \<Rightarrow> gen_ctx \<Rightarrow> gen_state \<Rightarrow> gen_state \<times> outcome" where
  "generic_path bd ok gx s =
     (case gs_e s of
        None \<Rightarrow> ret 0 s
      | Some e \<Rightarrow>
          (case gp_state (gk_path e) of
             STATE_INIT \<Rightarrow> path_init ok gx (gk_path e) s
           | STATE_WORK \<Rightarrow> path_work bd ok gx (gk_path e) s))"

text \<open>The argument's bytes, or the tail call that resolves the path first.\<close>

definition generic_path_offload ::
  "build \<Rightarrow> (prog \<Rightarrow> bool) \<Rightarrow> gen_ctx \<Rightarrow> u32 \<Rightarrow> u64 \<Rightarrow> nat \<Rightarrow> nat \<Rightarrow> gen_state \<Rightarrow> gen_state \<times> outcome" where
  "generic_path_offload bd ok gx ty arg index orig_off s =
     (case gs_e s of
        None \<Rightarrow> ret 0 s
      | Some e \<Rightarrow>
          let gp = gk_path e
          in if gp_state gp = STATE_INIT
             then (case get_path bd gx ty arg (gp_path_buf gp) of
                     (pb, None) \<Rightarrow> ret 0 (upd_path (\<lambda>gp. gp\<lparr>gp_path_buf := pb\<rparr>) s)
                   | (pb, Some p) \<Rightarrow>
                       tail_call ok TAIL_CALL_PATH (ret 0) (upd_path (\<lambda>gp. gp\<lparr>gp_path_buf := pb, gp_path := p\<rparr>) s))
             else let s1 = upd_path (\<lambda>gp. gp\<lparr>gp_state := STATE_INIT\<rparr>) s
                  in case gs_path s1 of
                       None \<Rightarrow> ret 0 s1
                     | Some buffer \<Rightarrow>
                         (case vf_with_path (gx_vf gx) (gp_path_buf gp) (gp_path gp) of
                            (vf, p) \<Rightarrow>
                              let e1 = e\<lparr>gk_path := gp\<lparr>gp_state := STATE_INIT\<rparr>, gk_argsoff := (gk_argsoff e)[index := of_nat orig_off]\<rparr>
                              in case store_path gx (args_off orig_off) (drop (unat (gp_off gp AND 0xfff)) buffer)
                                        (vf_path_dentry vf p) (of_nat MAX_BUF_LEN - gp_off gp - 1) 0 e1 of
                                   (e2, n) \<Rightarrow> (s1\<lparr>gs_e := Some e2\<rparr>, Ret n)))"

section \<open>Collecting the arguments\<close>

definition arg_value :: "flavour \<Rightarrow> gen_ctx \<Rightarrow> event_config \<Rightarrow> nat \<Rightarrow> msg_generic_kprobe \<Rightarrow> u64" where
  "arg_value fl gx config index e =
     (if fl = TRACEPOINT \<or> fl = USDT then gk_a e ! index
      else let am = ec_arm config ! index; i = unat (ec_idx config ! index AND 7)
           in if bit am 7 then get_pt_regs_arg fl gx config i
              else if bit am 6 then kt_current (gx_kt gx)
              else (gk_a e @ gk_argsoff e) ! i)"

definition generic_read_arg :: "flavour \<Rightarrow> build \<Rightarrow> (prog \<Rightarrow> bool) \<Rightarrow> gen_ctx \<Rightarrow> nat \<Rightarrow> nat \<Rightarrow> gen_state \<Rightarrow> gen_state \<times> outcome" where
  "generic_read_arg fl bd ok gx ix off s =
     (case gs_e s of
        None \<Rightarrow> ret 0 s
      | Some e \<Rightarrow>
          (case gx_config_map gx (gk_idx e) of
             None \<Rightarrow> ret 0 s
           | Some config \<Rightarrow>
               let index = ix mod 8; ty = ec_arg config ! index; a = extract_arg bd gx config index (arg_value fl gx config index e)
               in if fl \<noteq> TRACEPOINT \<and> fl \<noteq> USDT \<and> should_offload_path bd ty
                  then generic_path_offload bd ok gx ty a index off s
                  else case read_arg fl bd gx index ty (of_nat off) a (ec_arm config ! index) s of (s', n) \<Rightarrow> (s', Ret n)))"

definition filter_args_reject :: "gen_ctx \<Rightarrow> u64 \<Rightarrow> gen_state \<Rightarrow> gen_state \<times> int" where
  "filter_args_reject gx fid s = (s\<lparr>gs_rp := retprobe_map_clear fid (gx_pid_tgid gx) (gs_rp s)\<rparr>, 0)"

definition set_size :: "u32 \<Rightarrow> msg_generic_kprobe \<Rightarrow> msg_generic_kprobe" where
  "set_size n e = e\<lparr>gk_common := (gk_common e)\<lparr>mc_size := n\<rparr>\<rparr>"

definition next_argument :: "(prog \<Rightarrow> bool) \<Rightarrow> gen_ctx \<Rightarrow> u32 \<Rightarrow> gen_state \<Rightarrow> gen_state \<times> outcome" where
  "next_argument ok gx index s =
     (let rest = (\<lambda>s. tail_call ok TAIL_CALL_ARGS (ret 0) (upd_e (\<lambda>e. e\<lparr>gk_tailcall_index_process := 0\<rparr>) s))
      in if index <s 4 \<and> arg_idx gx (unat (index + 1)) s \<noteq> - 1
         then tail_call ok TAIL_CALL_PROCESS rest (upd_e (\<lambda>e. e\<lparr>gk_tailcall_index_process := index + 1\<rparr>) s)
         else rest s)"

definition generic_process_event :: "flavour \<Rightarrow> build \<Rightarrow> (prog \<Rightarrow> bool) \<Rightarrow> gen_ctx \<Rightarrow> gen_state \<Rightarrow> gen_state \<times> outcome" where
  "generic_process_event fl bd ok gx s =
     (case gs_e s of
        None \<Rightarrow> ret 0 s
      | Some e \<Rightarrow>
          let index = gk_tailcall_index_process e; total = mc_size (gk_common e)
          in if total < MAX_TOTAL
             then (case generic_read_arg fl bd ok gx (unat index) (unat total) s of
                     (s1, Tail p) \<Rightarrow> (s1, Tail p)
                   | (s1, Ret errv) \<Rightarrow>
                       if errv < 0
                       then (case filter_args_reject gx (gk_func_id e) s1 of (s2, r) \<Rightarrow> (s2, Ret r))
                       else next_argument ok gx index (upd_e (set_size (total + word_of_int errv)) s1))
             else next_argument ok gx index (upd_e (set_size total) s))"

section \<open>Setting the event up\<close>

definition generic_process_init :: "gen_ctx \<Rightarrow> u8 \<Rightarrow> msg_generic_kprobe \<Rightarrow> msg_generic_kprobe" where
  "generic_process_init gx op e =
     e\<lparr>gk_common := (gk_common e)\<lparr>mc_op := op, mc_size := 0, mc_ktime := gx_ktime gx\<rparr>, gk_action := 0, gk_tid := ucast (gx_pid_tgid gx)\<rparr>"

text \<open>
  An operand of a USDT probe. A failing read of an operand in memory answers the error code, truncated to the
  result type.
\<close>

definition read_usdt_arg :: "gen_ctx \<Rightarrow> event_config \<Rightarrow> nat \<Rightarrow> u64" where
  "read_usdt_arg gx config index =
     (let arg = ec_usdt_arg config ! index;
          ctx_reg = (\<lambda>off. probe_read (gx_mem gx) 8 (gx_ctx gx + ucast (off AND 0xfff :: u32)));
          user = (\<lambda>a. probe_read (gx_mem gx) 8 a);
          cast = (\<lambda>val :: u64. let n = unat (cu_shift arg AND 63); up = push_bit n val
                                in if cu_sig arg \<noteq> 0 then signed_drop_bit n up else drop_bit n up)
      in if cu_type arg = USDT_ARG_TYPE_CONST then cast (cu_val_off arg)
         else if cu_type arg = USDT_ARG_TYPE_REG
         then (case ctx_reg (cu_reg_off arg) of (r, err) \<Rightarrow> if err \<noteq> 0 then 0 else cast (le_word r))
         else if cu_type arg = USDT_ARG_TYPE_REG_DEREF
         then (case ctx_reg (cu_reg_off arg) of
                 (r, err) \<Rightarrow>
                   if err \<noteq> 0 then word_of_int err
                   else case user (le_word r + cu_val_off arg) of
                          (v, err2) \<Rightarrow> if err2 \<noteq> 0 then word_of_int err2 else cast (le_word v))
         else if cu_type arg = USDT_ARG_TYPE_SIB
         then (case ctx_reg (cu_reg_off arg) of
                 (r, err) \<Rightarrow>
                   if err \<noteq> 0 then word_of_int err
                   else case ctx_reg (cu_reg_idx_off arg) of
                          (x, err2) \<Rightarrow>
                            if err2 \<noteq> 0 then word_of_int err2
                            else case user (le_word r + push_bit (unat (cu_scale arg AND 63)) (le_word x) + cu_val_off arg) of
                                   (v, err3) \<Rightarrow> if err3 \<noteq> 0 then word_of_int err3 else cast (le_word v))
         else 0)"

text \<open>Offsets of the parameter registers: di, si, dx, then cx for functions and r10 for system calls, and r8.\<close>

definition func_args :: "gen_ctx \<Rightarrow> u64 list" where
  "func_args gx = map (gx_regs gx) [112, 104, 96, 88, 72]"

definition syscall_args :: "gen_ctx \<Rightarrow> u64 list" where
  "syscall_args gx = map (\<lambda>off. le_word (fst (probe_read (gx_mem gx) 8 (gx_syscall_regs gx + off)))) [112, 104, 96, 56, 72]"

definition raw_args :: "gen_ctx \<Rightarrow> u64 list" where
  "raw_args gx = map (gx_regs gx) [0, 8, 16, 24, 32]"

definition mark_retprobe :: "gen_ctx \<Rightarrow> event_config \<Rightarrow> gen_state \<Rightarrow> gen_state" where
  "mark_retprobe gx config s =
     (let retid = retprobe_map_get_key (gx_pid_tgid gx) (gx_fp gx);
          s1 = upd_e (\<lambda>e. e\<lparr>gk_retprobe_id := retid\<rparr>) s
      in if 0 <s ec_argreturn config
         then (case gs_e s1 of
                 None \<Rightarrow> s1
               | Some e \<Rightarrow> s1\<lparr>gs_rp := retprobe_map_set (gk_func_id e) retid (mc_ktime (gk_common e)) 1 (gs_rp s1)\<rparr>)
         else s1)"

text \<open>The work of the program types before the first argument; \<open>None\<close>: a system call probe without registers.\<close>

definition setup_message :: "flavour \<Rightarrow> gen_ctx \<Rightarrow> event_config \<Rightarrow> gen_state \<Rightarrow> gen_state option" where
  "setup_message fl gx config s =
     (let init = (\<lambda>as op. upd_e (\<lambda>e. generic_process_init gx op (e\<lparr>gk_a := as\<rparr>)) s)
      in case fl of
           KPROBE \<Rightarrow>
             if ec_syscall config \<noteq> 0 \<and> gx_syscall_regs gx = 0 then None
             else Some (mark_retprobe gx config (init (if ec_syscall config \<noteq> 0 then syscall_args gx else func_args gx) MSG_OP_GENERIC_KPROBE))
         | UPROBE \<Rightarrow> Some (mark_retprobe gx config (init (func_args gx) MSG_OP_GENERIC_UPROBE))
         | LSM \<Rightarrow> Some (init (raw_args gx) MSG_OP_GENERIC_LSM)
         | RAWTP \<Rightarrow> Some (init (raw_args gx) MSG_OP_GENERIC_TRACEPOINT)
         | USDT \<Rightarrow> Some (init (map (read_usdt_arg gx config) [0, 1, 2, 3, 4]) MSG_OP_GENERIC_USDT)
         | _ \<Rightarrow> Some s)"

definition generic_process_event_and_setup ::
  "flavour \<Rightarrow> (prog \<Rightarrow> bool) \<Rightarrow> gen_ctx \<Rightarrow> gen_state \<Rightarrow> gen_state \<times> outcome" where
  "generic_process_event_and_setup fl ok gx s =
     (case gs_e s of
        None \<Rightarrow> ret 0 s
      | Some e \<Rightarrow>
          (case gx_config_map gx (gk_idx e) of
             None \<Rightarrow> ret 0 s
           | Some config \<Rightarrow>
               (case setup_message fl gx config s of
                  None \<Rightarrow> ret 0 s
                | Some s1 \<Rightarrow>
                    let process = tail_call ok TAIL_CALL_PROCESS (ret 0)
                    in if arg_idx gx 0 s1 = - 1 then tail_call ok TAIL_CALL_ARGS process s1 else process s1)))"

section \<open>Tracepoints\<close>

definition nop_s64_ty :: u32 where [tg_consts]: "nop_s64_ty = - 10"
definition nop_u64_ty :: u32 where [tg_consts]: "nop_u64_ty = - 11"
definition nop_u32_ty :: u32 where [tg_consts]: "nop_u32_ty = - 12"
definition nop_s32_ty :: u32 where [tg_consts]: "nop_s32_ty = - 13"
definition IS_32BIT :: u64 where [tg_consts]: "IS_32BIT = 0x80000000"

text \<open>A flag that is set for system calls of 32-bit tasks (x86: \<^verbatim>\<open>TS_COMPAT\<close> in the thread's status).\<close>

definition syscall64_set_32bit :: "gen_ctx \<Rightarrow> u64 \<Rightarrow> u64" where
  "syscall64_set_32bit gx arg =
     (if bit (le_word (kread gx ''thread_info_status'' 4 (kt_current (gx_kt gx))) :: u32) 1 then arg OR IS_32BIT else arg)"

definition get_ctx_ul :: "gen_ctx \<Rightarrow> ptr \<Rightarrow> u32 \<Rightarrow> u64" where
  "get_ctx_ul gx src ty =
     (let rd = (\<lambda>n. fst (probe_read (gx_mem gx) n src))
      in if ty = syscall64_type then syscall64_set_32bit gx (le_word (rd 8))
         else if ty \<in> {nop_s64_ty, nop_u64_ty, s64_ty, u64_ty, size_type} then le_word (rd 8)
         else if ty \<in> {nop_s32_ty, s32_ty} then scast (le_word (rd 4) :: u32)
         else if ty \<in> {nop_u32_ty, u32_ty} then le_word (rd 4)
         else if ty = u16_ty then le_word (rd 2)
         else if ty = s16_ty then scast (le_word (rd 2) :: u16)
         else if ty = u8_ty then le_word (rd 1)
         else if ty = s8_ty then scast (le_word (rd 1) :: u8)
         else if ty \<in> {char_buf, string_type} then le_word (rd 8)
         else if ty = data_loc_type then le_word (rd 4)
         else if ty = const_buf_type then src
         else if ty \<in> {skb_type, sock_type, sockaddr_type, socket_type} then le_word (rd 8)
         else 0)"

definition tracepoint_args :: "gen_ctx \<Rightarrow> event_config \<Rightarrow> u64 list" where
  "tracepoint_args gx config =
     map (\<lambda>i. get_ctx_ul gx (gx_ctx gx + ucast (ec_off config ! i AND 0xffff)) (ec_arg config ! i)) [0, 1, 2, 3, 4]"

definition tracepoint_message :: "build \<Rightarrow> gen_ctx \<Rightarrow> event_config \<Rightarrow> msg_generic_kprobe \<Rightarrow> msg_generic_kprobe" where
  "tracepoint_message bd gx config msg =
     (let m1 = generic_process_init gx MSG_OP_GENERIC_TRACEPOINT
                 (msg\<lparr>gk_idx := 0, gk_func_id := ucast (ec_func_id config), gk_retprobe_id := 0, gk_a := tracepoint_args gx config\<rparr>)
      in m1\<lparr>gk_sel := reset_selectors (bd_large bd) (gk_sel m1),
           gk_tailcall_index_process := 0, gk_tailcall_index_selector := 0,
           gk_ns := get_namespaces (gx_kp gx) (gx_kt gx) (kt_current (gx_kt gx)) (gk_ns m1),
           gk_caps := get_current_subj_caps (gx_kp gx) (kt_current (gx_kt gx)) (gk_caps m1),
           gk_common := set_flags 0 (gk_common m1)\<rparr>)"

definition generic_tracepoint_event :: "build \<Rightarrow> (prog \<Rightarrow> bool) \<Rightarrow> gen_ctx \<Rightarrow> gen_state \<Rightarrow> gen_state \<times> outcome" where
  "generic_tracepoint_event bd ok gx s =
     (if gs_e s = None then ret 0 s
      else case gx_config_map gx 0 of
             None \<Rightarrow> ret 0 s
           | Some config \<Rightarrow>
               if \<not> policy_applies bd gx (ec_policy_id config) s then ret 0 s
               else tail_call ok TAIL_CALL_FILTER (ret 0) (upd_e (tracepoint_message bd gx config) s))"

section \<open>Return probes\<close>

text \<open>The action on the returned socket; the owner is the process the scratch message names at that moment.\<close>

definition return_action :: "flavour \<Rightarrow> build \<Rightarrow> event_config \<Rightarrow> u64 \<Rightarrow> gen_state \<Rightarrow> gen_state" where
  "return_action fl bd config rv s =
     (case gs_e s of
        None \<Rightarrow> s
      | Some e \<Rightarrow>
          if \<not> (bd_large bd \<and> fl = KRETPROBE) then s
          else if ec_argreturnaction config = ACTION_TRACKSOCK
          then s\<lparr>gs_sock := fst (lru_update_elem (gs_sock s) rv
                  \<lparr>so_pid = ek_pid (gk_current e), so_tid = gk_tid e, so_ktime = ek_ktime (gk_current e)\<rparr>)\<rparr>
          else if ec_argreturnaction config = ACTION_UNTRACKSOCK
          then s\<lparr>gs_sock := fst (map_delete_elem (gs_sock s) rv)\<rparr>
          else s)"

definition return_value :: "flavour \<Rightarrow> build \<Rightarrow> gen_ctx \<Rightarrow> event_config \<Rightarrow> u64 \<Rightarrow> gen_state \<Rightarrow> gen_state \<times> u64" where
  "return_value fl bd gx config rv s =
     (if ec_argreturn config = 0 then (s, 8)
      else case read_arg fl bd gx 0 (ec_argreturn config) 8 rv 0 s of
             (s1, n) \<Rightarrow> (return_action fl bd config rv s1, 8 + word_of_int n))"

text \<open>The buffer the entry probe left for the return probe; \<open>size\<close> bytes are in the event already.\<close>

definition return_copy :: "flavour \<Rightarrow> build \<Rightarrow> gen_ctx \<Rightarrow> event_config \<Rightarrow> retprobe_info \<Rightarrow> u64 \<Rightarrow> nat \<Rightarrow> gen_state \<Rightarrow> gen_state \<times> int" where
  "return_copy fl bd gx config info rv sz s =
     (case gs_e s of
        None \<Rightarrow> (s, 0)
      | Some e \<Rightarrow>
          if ec_argreturncopy config = char_buf
          then (case copy_bytes fl bd gx sz (ri_ptr info) rv False e s of ((e', s'), n) \<Rightarrow> (s'\<lparr>gs_e := Some e'\<rparr>, n))
          else if ec_argreturncopy config = char_iovec
          then (case copy_iovec gx sz (ri_ptr info) (ri_cnt info) rv e of (e', n) \<Rightarrow> (s\<lparr>gs_e := Some e'\<rparr>, n))
          else (s, 0))"

definition return_head :: "flavour \<Rightarrow> gen_ctx \<Rightarrow> execve_map_value option \<Rightarrow> u32 \<Rightarrow> msg_generic_kprobe \<Rightarrow> msg_generic_kprobe" where
  "return_head fl gx enter sz e =
     e\<lparr>gk_common := (gk_common e)\<lparr>mc_op := (if fl = KRETPROBE then MSG_OP_GENERIC_KPROBE else MSG_OP_GENERIC_UPROBE),
         mc_flags := MSG_COMMON_FLAG_RETURN, mc_size := sz, mc_ktime := gx_ktime gx\<rparr>,
       gk_current := (case enter of
                        None \<Rightarrow> gk_current e
                      | Some v \<Rightarrow> (gk_current e)\<lparr>ek_pid := ek_pid (ev_key v), ek_ktime := ek_ktime (ev_key v)\<rparr>)\<rparr>"

definition generic_retprobe :: "flavour \<Rightarrow> build \<Rightarrow> (prog \<Rightarrow> bool) \<Rightarrow> gen_ctx \<Rightarrow> u64 \<Rightarrow> gen_state \<Rightarrow> gen_state \<times> outcome" where
  "generic_retprobe fl bd ok gx rv s =
     (if gs_e s = None then ret 0 s
      else let s1 = upd_e (\<lambda>e. e\<lparr>gk_idx := gx_index gx\<rparr>) s
           in case gx_config_map gx (gx_index gx) of
                None \<Rightarrow> ret 0 s1
              | Some config \<Rightarrow>
                  let fid = ucast (ec_func_id config); retid = retprobe_map_get_key (gx_pid_tgid gx) (gx_fp gx);
                      s2 = upd_e (\<lambda>e. e\<lparr>gk_func_id := fid, gk_retprobe_id := retid, gk_tid := ucast (gx_pid_tgid gx)\<rparr>) s1
                  in case retprobe_map_get fid retid (gs_rp s2) of
                       (rp, None) \<Rightarrow> ret 0 (s2\<lparr>gs_rp := rp\<rparr>)
                     | (rp, Some info) \<Rightarrow>
                         let s3 = upd_e (put_args 0 (le_bytes 8 (ri_ktime_enter info))) (s2\<lparr>gs_rp := rp\<rparr>)
                         in case return_value fl bd gx config rv s3 of
                              (s4, size0) \<Rightarrow>
                                let size1 = size0 AND 0x1fff
                                in case return_copy fl bd gx config info rv (unat size1) s4 of
                                     (s5, n) \<Rightarrow>
                                       let enter = snd (snd (event_find_curr (gx_kt gx) (gs_x s5)));
                                           s6 = upd_e (return_head fl gx enter (ucast (size1 + word_of_int n))) s5
                                       in tail_call ok TAIL_CALL_ARGS (ret 1) s6)"

section \<open>Filtering on the arguments\<close>

definition filter_args :: "build \<Rightarrow> gen_ctx \<Rightarrow> msg_generic_kprobe \<Rightarrow> nat \<Rightarrow> bool \<Rightarrow> gen_state \<Rightarrow> gen_state \<times> int" where
  "filter_args bd gx e selidx is_entry s =
     (case gx_filter_map gx (gk_idx e) of
        None \<Rightarrow> (s, 1)
      | Some f \<Rightarrow>
          if \<not> sd_active (gk_sel e) ! SELECTORS_ACTIVE then (s, 1)
          else if selidx > SELECTORS_ACTIVE then filter_args_reject gx (gk_func_id e) s
          else if sd_active (gk_sel e) ! selidx
          then (s, int (selector_arg_offset bd (gx_am gx) f e (of_nat selidx) is_entry))
          else (s, 0))"

text \<open>The next active selector; the switch falls through its cases, 6 when there is none.\<close>

fun next_active :: "bool list \<Rightarrow> nat \<Rightarrow> nat \<Rightarrow> nat" where
  "next_active act 0 i = i"
| "next_active act (Suc k) i = (if act ! i then i else next_active act k (Suc i))"

definition next_selidx :: "msg_generic_kprobe \<Rightarrow> nat \<Rightarrow> nat" where
  "next_selidx e selidx = next_active (sd_active (gk_sel e)) (6 - Suc selidx) (Suc selidx)"

definition generic_filter_arg :: "build \<Rightarrow> (prog \<Rightarrow> bool) \<Rightarrow> gen_ctx \<Rightarrow> bool \<Rightarrow> gen_state \<Rightarrow> gen_state \<times> outcome" where
  "generic_filter_arg bd ok gx is_entry s =
     (case gs_e s of
        None \<Rightarrow> ret 0 s
      | Some e \<Rightarrow>
          let selidx = gk_tailcall_index_selector e;
              reject = (\<lambda>s. case filter_args_reject gx (gk_func_id e) s of (s', r) \<Rightarrow> (s', Ret r))
          in case filter_args bd gx e (unat (selidx AND 7)) is_entry s of
               (s1, pass) \<Rightarrow>
                 if pass = 0
                 then (let nxt = next_selidx e (unat selidx)
                       in if nxt \<le> 5
                          then tail_call ok TAIL_CALL_ARGS reject (upd_e (\<lambda>e. e\<lparr>gk_tailcall_index_selector := of_nat nxt\<rparr>) s1)
                          else reject s1)
                 else let send = tail_call ok TAIL_CALL_SEND (ret 0)
                      in if pass > 1
                         then tail_call ok TAIL_CALL_ACTIONS send (upd_e (\<lambda>e. e\<lparr>gk_pass := word_of_int pass\<rparr>) s1)
                         else send s1)"

section \<open>The Linux security module programs\<close>

text \<open>
  The hook runs the generic chain, then the sleepable program that computes the file's hash, then the output program. The kernel's
  answer to the hash request is a parameter: the algorithm and the 64 bytes.
\<close>

definition zero_ima_hash :: ima_hash where
  "zero_ima_hash = \<lparr>ih_state = 0, ih_algo = 0, ih_value = replicate 64 0\<rparr>"

definition generic_lsm_actions :: "(u32 \<Rightarrow> u32) \<Rightarrow> build \<Rightarrow> gen_ctx \<Rightarrow> gen_state \<Rightarrow> gen_state \<times> outcome" where
  "generic_lsm_actions stale bd gx s =
     (case generic_actions LSM bd gx s of
        (s1, postit) \<Rightarrow>
          (case gs_e s1 of
             None \<Rightarrow> ret 0 s1
           | Some e \<Rightarrow>
               let s2 = upd_e (\<lambda>e. e\<lparr>gk_lsm_post := postit\<rparr>) s1;
                   s3 = (if bd_v511 bd \<and> mc_flags (gk_common e) AND MSG_COMMON_FLAG_IMA_HASH \<noteq> 0 \<and> postit
                         then s2\<lparr>gs_ima := fst (map_update_elem (gs_ima s2) (gx_pid_tgid gx) (zero_ima_hash\<lparr>ih_state := 1\<rparr>) BPF_ANY)\<rparr>
                         else s2)
               in if \<not> postit then (case try_override stale gx s3 of (s4, r) \<Rightarrow> (s4, Ret r)) else ret 0 s3))"

definition ima_compute :: "(ptr \<Rightarrow> u8 \<times> byte list) \<Rightarrow> gen_ctx \<Rightarrow> ptr \<Rightarrow> gen_state \<Rightarrow> gen_state" where
  "ima_compute file_hash gx file s =
     (case map_lookup_elem (gs_ima s) (gx_pid_tgid gx) of
        None \<Rightarrow> s
      | Some dummy \<Rightarrow>
          if ih_state dummy = 1
          then s\<lparr>gs_ima := fst (map_update_elem (gs_ima s) (gx_pid_tgid gx)
                  \<lparr>ih_state = 2, ih_algo = fst (file_hash file), ih_value = snd (file_hash file)\<rparr> BPF_ANY)\<rparr>
          else s)"

definition ima_bytes :: "ima_hash \<Rightarrow> byte list" where
  "ima_bytes h = [ih_state h, ih_algo h] @ ih_value h"

definition append_hash :: "build \<Rightarrow> gen_ctx \<Rightarrow> msg_generic_kprobe \<Rightarrow> gen_state \<Rightarrow> gen_state" where
  "append_hash bd gx e s =
     (if bd_v511 bd \<and> mc_flags (gk_common e) AND MSG_COMMON_FLAG_IMA_HASH \<noteq> 0
      then (case map_lookup_elem (gs_ima s) (gx_pid_tgid gx) of
              None \<Rightarrow> s
            | Some h \<Rightarrow>
                if ih_state h = 2
                then (let sz = mc_size (gk_common e);
                          e' = (if (ucast sz :: u64) + 66 \<le> 16383
                                then set_size (sz + 66) (put_args (unat (sz AND 16383)) (ima_bytes h) e) else e)
                      in s\<lparr>gs_e := Some e', gs_ima := fst (map_delete_elem (gs_ima s) (gx_pid_tgid gx))\<rparr>)
                else s)
      else s)"

definition generic_lsm_output :: "(u32 \<Rightarrow> u32) \<Rightarrow> build \<Rightarrow> gen_ctx \<Rightarrow> gen_state \<Rightarrow> gen_state \<times> int" where
  "generic_lsm_output stale bd gx s =
     (case gs_e s of
        None \<Rightarrow> (s, 0)
      | Some e \<Rightarrow>
          let s1 = append_hash bd gx e s;
              s2 = (if gk_lsm_post e then generic_output LSM bd gx MSG_OP_GENERIC_LSM s1 else s1)
          in try_override stale gx s2)"

section \<open>The machine\<close>

text \<open>The programs in the tail-call map of each program type.\<close>

definition has_prog :: "flavour \<Rightarrow> build \<Rightarrow> prog \<Rightarrow> bool" where
  "has_prog fl bd p =
     (if fl = KRETPROBE \<or> fl = URETPROBE then p \<in> {TAIL_CALL_ARGS, TAIL_CALL_ACTIONS, TAIL_CALL_SEND}
      else if fl = TRACEPOINT then p \<noteq> TAIL_CALL_SETUP \<and> p \<noteq> TAIL_CALL_PATH
      else (p = TAIL_CALL_PATH \<longrightarrow> \<not> bd_v61 bd) \<and> (p = TAIL_CALL_SEND \<longrightarrow> fl \<noteq> LSM))"

definition op_of :: "flavour \<Rightarrow> u8" where
  "op_of fl = (case fl of
       KPROBE \<Rightarrow> MSG_OP_GENERIC_KPROBE | KRETPROBE \<Rightarrow> MSG_OP_GENERIC_KPROBE
     | UPROBE \<Rightarrow> MSG_OP_GENERIC_UPROBE | URETPROBE \<Rightarrow> MSG_OP_GENERIC_UPROBE
     | TRACEPOINT \<Rightarrow> MSG_OP_GENERIC_TRACEPOINT | RAWTP \<Rightarrow> MSG_OP_GENERIC_TRACEPOINT
     | LSM \<Rightarrow> MSG_OP_GENERIC_LSM | USDT \<Rightarrow> MSG_OP_GENERIC_USDT)"

definition kfilter_of :: "gen_ctx \<Rightarrow> kfilter" where
  "kfilter_of gx = \<lparr>fk_vf = gx_vf gx, fk_kt = gx_kt gx, fk_kp = gx_kp gx, fk_ktime = gx_ktime gx, fk_mbs = gx_mbs gx,
     fk_mm = gx_mm gx, fk_filter_map = gx_filter_map gx\<rparr>"

definition generic_filter_prog :: "flavour \<Rightarrow> build \<Rightarrow> (prog \<Rightarrow> bool) \<Rightarrow> gen_ctx \<Rightarrow> gen_state \<Rightarrow> gen_state \<times> outcome" where
  "generic_filter_prog fl bd ok gx s =
     (case generic_process_filter bd (kfilter_of gx) \<lparr>ps_x = gs_x s, ps_path = gs_path s, ps_msg = gs_e s\<rparr> of
        (ps, r) \<Rightarrow>
          let s1 = s\<lparr>gs_x := ps_x ps, gs_path := ps_path ps, gs_e := ps_msg ps\<rparr>
          in if r = PFILTER_CONTINUE then tail_call ok TAIL_CALL_FILTER (ret PFILTER_REJECT) s1
             else if r = PFILTER_ACCEPT
             then tail_call ok (if fl = TRACEPOINT then TAIL_CALL_PROCESS else TAIL_CALL_SETUP) (ret PFILTER_REJECT) s1
             else ret PFILTER_REJECT s1)"

definition actions_prog :: "(u32 \<Rightarrow> u32) \<Rightarrow> flavour \<Rightarrow> build \<Rightarrow> (prog \<Rightarrow> bool) \<Rightarrow> gen_ctx \<Rightarrow> gen_state \<Rightarrow> gen_state \<times> outcome" where
  "actions_prog stale fl bd ok gx s =
     (if fl = LSM then generic_lsm_actions stale bd gx s
      else case generic_actions fl bd gx s of
             (s1, postit) \<Rightarrow> if postit then tail_call ok TAIL_CALL_SEND (ret 0) s1 else ret 0 s1)"

definition run_prog :: "(u32 \<Rightarrow> u32) \<Rightarrow> flavour \<Rightarrow> build \<Rightarrow> (prog \<Rightarrow> bool) \<Rightarrow> gen_ctx \<Rightarrow> prog \<Rightarrow> gen_state \<Rightarrow> gen_state \<times> outcome" where
  "run_prog stale fl bd ok gx p s =
     (case p of
        TAIL_CALL_SETUP \<Rightarrow> generic_process_event_and_setup fl ok gx s
      | TAIL_CALL_PROCESS \<Rightarrow> generic_process_event fl bd ok gx s
      | TAIL_CALL_FILTER \<Rightarrow> generic_filter_prog fl bd ok gx s
      | TAIL_CALL_ARGS \<Rightarrow> generic_filter_arg bd ok gx (fl \<noteq> KRETPROBE \<and> fl \<noteq> URETPROBE) s
      | TAIL_CALL_ACTIONS \<Rightarrow> actions_prog stale fl bd ok gx s
      | TAIL_CALL_SEND \<Rightarrow> ret 0 (generic_output fl bd gx (op_of fl) s)
      | TAIL_CALL_PATH \<Rightarrow> generic_path bd ok gx s)"

definition start_prog :: "flavour \<Rightarrow> build \<Rightarrow> (prog \<Rightarrow> bool) \<Rightarrow> gen_ctx \<Rightarrow> u64 \<Rightarrow> gen_state \<Rightarrow> gen_state \<times> outcome" where
  "start_prog fl bd ok gx rv s =
     (if fl = TRACEPOINT then generic_tracepoint_event bd ok gx s
      else if fl = KRETPROBE \<or> fl = URETPROBE then generic_retprobe fl bd ok gx rv s
      else generic_start_process_filter bd ok gx s)"

definition generic_event :: "(u32 \<Rightarrow> u32) \<Rightarrow> flavour \<Rightarrow> build \<Rightarrow> gen_ctx \<Rightarrow> u64 \<Rightarrow> gen_state \<Rightarrow> gen_state \<times> int \<times> nat" where
  "generic_event stale fl bd gx rv s =
     run_chain (\<lambda>ok. run_prog stale fl bd ok gx) (has_prog fl bd) MAX_TAIL_CALL_CNT (start_prog fl bd (has_prog fl bd) gx rv s)"

end
