(* ===== verification/Generic_Frames.thy ===== *)
theory Generic_Frames
  imports Generic_Programs
begin

text \<open>
  What the programs of the generic sensors leave unchanged: the counters and selectors in the message that steer the chain while
  arguments are collected, and the enforcement state, the process table, the tracking maps and the list of sent events while no
  action or output runs.
\<close>

section \<open>What collecting arguments leaves alone\<close>

text \<open>
  The parts of the message that steer the chain, and the parts of the state that only actions and output change.
\<close>

definition is_generic :: "tg_event \<times> u64 \<Rightarrow> bool" where
  "is_generic ev = (case fst ev of Ev_generic _ \<Rightarrow> True | _ \<Rightarrow> False)"

definition generic_events :: "out_state \<Rightarrow> (tg_event \<times> u64) list" where
  "generic_events os = filter is_generic (os_sent os)"

text \<open>The messages about the life of processes, which only the base sensors send.\<close>

definition is_process :: "tg_event \<times> u64 \<Rightarrow> bool" where
  "is_process ev = (case fst ev of Ev_clone _ \<Rightarrow> True | Ev_execve _ \<Rightarrow> True | Ev_exit _ \<Rightarrow> True | _ \<Rightarrow> False)"

definition process_events :: "out_state \<Rightarrow> (tg_event \<times> u64) list" where
  "process_events os = filter is_process (os_sent os)"

lemmas sent_parts = generic_events_def is_generic_def process_events_def is_process_def

text \<open>What the argument readers keep of the output: the generic and process events and how the rings answer.\<close>

definition out_kept where
  "out_kept os = (generic_events os, process_events os, os_answer os)"

definition steering where
  "steering e = (gk_sel e, gk_idx e, gk_func_id e, gk_tailcall_index_process e, gk_tailcall_index_selector e, gk_common e,
     gk_pass e, gk_lsm_post e, gk_a e, gk_path e)"

definition kept where
  "kept s = (enforced s, gs_x s, gs_en s, gs_fd s, gs_sock s, gs_ratelimit s, gs_ima s, gs_write_offload s, out_kept (gs_os s))"

lemma steering_put_args [simp]: "steering (put_args off bs e) = steering e"
  by (simp add: steering_def put_args_def)

lemma steering_args [simp]:
  "steering (e\<lparr>gk_args := a\<rparr>) = steering e" "steering (e\<lparr>gk_argsoff := ao\<rparr>) = steering e"
  by (simp_all add: steering_def)

lemma steering_sock [simp]: "steering (update_pid_tid_from_sock bd s sk e) = steering e"
  by (simp add: update_pid_tid_from_sock_def steering_def split: option.split)

lemma kept_updates [simp]:
  "kept (s\<lparr>gs_e := x\<rparr>) = kept s" "kept (s\<lparr>gs_rp := rp\<rparr>) = kept s" "kept (s\<lparr>gs_path := p\<rparr>) = kept s"
  "kept (s\<lparr>gs_data := d\<rparr>) = kept s"
  by (simp_all add: kept_def enforced_def)

lemma kept_os: "out_kept os = out_kept (gs_os s) \<Longrightarrow> kept (s\<lparr>gs_os := os\<rparr>) = kept s"
  by (simp add: kept_def enforced_def)

lemma event_output_error_sent [simp]: "os_sent (event_output_update_error_metric op err os) = os_sent os"
  by (simp add: event_output_update_error_metric_def split: option.split)

lemma out_kept_error [simp]: "out_kept (event_output_update_error_metric op err os) = out_kept os"
  by (simp add: out_kept_def sent_parts event_output_update_error_metric_def split: option.split)

lemma event_output_data: "out_kept (fst (event_output bd (Ev_data m) sz os)) = out_kept os"
  by (simp add: event_output_def ring_output_def Let_def out_kept_def sent_parts)

lemma do_bytes1_generic: "out_kept (snd (fst (do_bytes1 bd mem p n st))) = out_kept (snd st)"
  by (cases st) (simp only: do_bytes1_def Let_def split_beta fst_conv snd_conv if_distrib [of fst] if_distrib [of snd]
      if_distrib [of out_kept] event_output_data if_cancel)

lemma do_bytes_generic: "out_kept (snd (fst (do_bytes_loop bd mem arg n k rd st))) = out_kept (snd st)"
proof (induction k arbitrary: rd st)
  case (Suc k)
  then show ?case
    using do_bytes1_generic [of bd mem "arg + rd" "n - rd" st]
    by (auto simp: Let_def split: prod.splits)
qed simp

lemma data_event_bytes_generic:
  "out_kept (fst (snd (data_event_bytes bd mem pid fp kt uptr n desc heap os))) = out_kept os"
proof (cases heap)
  case (Some msg)
  then show ?thesis
    using do_bytes_generic [of bd mem uptr n 10 0]
    by (simp add: data_event_bytes_def data_event_def do_bytes_def Let_def split_beta)
qed (simp add: data_event_bytes_def data_event_def)

lemma copy_bytes_frame:
  "steering (fst (fst (copy_bytes fl bd gx off arg n md e s))) = steering e"
  "kept (snd (fst (copy_bytes fl bd gx off arg n md e s))) = kept s"
  by (simp_all add: copy_bytes_def Let_def split_beta return_error_def kept_os data_event_bytes_generic)

lemma iovec_entries_frame: "steering (fst (iovec_entries gx arg cnt k i off mx tot e)) = steering e"
proof (induction k arbitrary: i off mx tot e)
  case (Suc k)
  have "steering (fst (parse_iovec_array gx off arg i mx e)) = steering e"
    by (simp add: parse_iovec_array_def Let_def split_beta)
  with Suc show ?case by (simp add: Let_def split_beta)
qed simp

lemma copy_iovec_frame: "steering (fst (copy_iovec gx off arg cnt mx e)) = steering e"
  using iovec_entries_frame [of gx arg cnt 7 0 "off + 8" mx 0 e]
  by (simp add: copy_iovec_def return_error_def split_beta split: sum.split)

lemma copy_strings_frame: "steering (fst (copy_strings gx off arg n e)) = steering e"
  by (simp add: copy_strings_def Let_def split_beta)

lemma read_fd_frame: "steering (fst (read_fd gx off arg s e)) = steering e"
  by (simp add: read_fd_def Let_def split: option.split)

lemma copy_path_frame:
  "steering (fst (fst (copy_path bd gx off pb ref e s))) = steering e" "kept (snd (fst (copy_path bd gx off pb ref e s))) = kept s"
  by (simp_all add: copy_path_def store_path_def Let_def split_beta split: option.split)

lemma copy_char_frame:
  "steering (fst (fst (copy_char_buf fl bd gx off arg argm e s))) = steering e"
  "kept (snd (fst (copy_char_buf fl bd gx off arg argm e s))) = kept s"
  "steering (fst (fst (copy_char_iovec gx off arg argm e s))) = steering e"
  "kept (snd (fst (copy_char_iovec gx off arg argm e s))) = kept s"
  "steering (fst (fst (copy_iov_iter fl bd gx off arg argm e s))) = steering e"
  "kept (snd (fst (copy_iov_iter fl bd gx off arg argm e s))) = kept s"
  by (simp_all add: copy_char_buf_def copy_char_iovec_def copy_iov_iter_def copy_bytes_frame copy_iovec_frame return_error_def Let_def split_beta)

lemma read_value_frame:
  "steering (fst (fst (read_value fl bd gx ty off arg argm e s))) = steering e"
  "kept (snd (fst (read_value fl bd gx ty off arg argm e s))) = kept s"
  unfolding read_value_def Let_def split_beta if_distrib [of fst] if_distrib [of snd] if_distrib [of steering] if_distrib [of kept]
    fst_conv snd_conv lift_copy_def
  by (simp_all only: copy_char_frame read_fd_frame copy_strings_frame steering_put_args steering_args steering_sock if_cancel)

text \<open>Reading an argument keeps what steers the chain and what is kept, and the scratch message is still there.\<close>

lemma read_arg_frame:
  assumes "gs_e s = Some e"
  shows "\<exists>e'. gs_e (fst (read_arg fl bd gx i ty off arg argm s)) = Some e' \<and> steering e' = steering e"
    and "kept (fst (read_arg fl bd gx i ty off arg argm s)) = kept s"
  using assms
  by (auto simp: read_arg_def Let_def split_beta copy_path_frame read_value_frame split: option.split)

section \<open>What the process filter leaves alone\<close>

lemma selector_process_filter_msg:
  "sd_curr (gk_sel (snd (fst (selector_process_filter bd kf f i pl enter sm)))) = sd_curr (gk_sel (snd sm))"
  "gk_tailcall_index_process (snd (fst (selector_process_filter bd kf f i pl enter sm))) = gk_tailcall_index_process (snd sm)"
  "gk_tailcall_index_selector (snd (fst (selector_process_filter bd kf f i pl enter sm))) = gk_tailcall_index_selector (snd sm)"
proof -
  have "sd_curr (fst (selector_sections bd kt s f i en n c sel)) = sd_curr sel" for kt s en n c sel
    using selector_sections_run [of bd kt s f i en n c sel] by (simp add: same_run_def)
  then show "sd_curr (gk_sel (snd (fst (selector_process_filter bd kf f i pl enter sm)))) = sd_curr (gk_sel (snd sm))"
    by (simp add: selector_process_filter_def put_enter_def split_beta split: option.split)
qed (simp_all add: selector_process_filter_def put_enter_def split_beta split: option.split)

lemma filter_selectors_msg:
  "gk_tailcall_index_process (snd (fst (filter_selectors bd kf f pl enter sm))) = gk_tailcall_index_process (snd sm)"
  "gk_tailcall_index_selector (snd (fst (filter_selectors bd kf f pl enter sm))) = gk_tailcall_index_selector (snd sm)"
  by (simp_all add: filter_selectors_def filter_done_def Let_def split_beta selector_process_filter_msg)

lemma filter_selectors_continue:
  assumes "snd (filter_selectors bd kf f pl enter sm) = PFILTER_CONTINUE"
  shows "sd_curr (gk_sel (snd sm)) \<le> MAX_SELECTORS"
    and "sd_curr (gk_sel (snd (fst (filter_selectors bd kf f pl enter sm)))) = sd_curr (gk_sel (snd sm)) + 1"
proof -
  have "snd (filter_done v x) \<noteq> PFILTER_CONTINUE" for v x
    by (simp add: filter_done_def process_filter_done_def tg_consts split_beta)
  with assms show "sd_curr (gk_sel (snd sm)) \<le> MAX_SELECTORS"
    "sd_curr (gk_sel (snd (fst (filter_selectors bd kf f pl enter sm)))) = sd_curr (gk_sel (snd sm)) + 1"
    by (auto simp: filter_selectors_def Let_def split_beta selector_process_filter_msg split: if_splits)
qed

lemma generic_process_filter_msg:
  assumes "ps_msg st = Some msg" and "generic_process_filter bd kf st = (st', r)"
  shows "\<exists>msg'. ps_msg st' = Some msg' \<and> gk_tailcall_index_process msg' = gk_tailcall_index_process msg
     \<and> gk_tailcall_index_selector msg' = gk_tailcall_index_selector msg
     \<and> (r = PFILTER_CONTINUE \<longrightarrow> sd_curr (gk_sel msg) \<le> MAX_SELECTORS \<and> sd_curr (gk_sel msg') = sd_curr (gk_sel msg) + 1)"
  using assms
  by (auto simp: generic_process_filter_def Let_def filter_selectors_msg PFILTER_CURR_NOT_FOUND_def PFILTER_CONTINUE_def PFILTER_ERROR_def
      filter_selectors_continue(2) [unfolded PFILTER_CONTINUE_def] split_beta split: option.splits prod.splits
      dest!: filter_selectors_continue(1) [unfolded PFILTER_CONTINUE_def])

end
