(* ===== verification/Generic_Run.thy ===== *)
theory Generic_Run
  imports Generic_Frames
begin

text \<open>
  A hit of a hook as a whole: the programs of each type form a chain of bounded length, which sends at most one event and, in
  monitor mode, enforces nothing.
\<close>

section \<open>The programs as a chain\<close>

lemma only_ok_filter_arg: "generic_filter_arg bd ok gx is_entry s = (s', Tail q) \<Longrightarrow> ok q"
  by (auto simp: generic_filter_arg_def Let_def split_beta tail_call_def ret_def split: option.splits if_splits)

lemma only_ok_path_offload: "snd (generic_path_offload bd ok gx ty a i off s) = Tail q \<Longrightarrow> ok q"
  by (auto simp: generic_path_offload_def Let_def split_beta tail_call_def ret_def split: option.splits if_splits prod.splits)

lemma only_ok_process: "generic_process_event fl bd ok gx s = (s', Tail q) \<Longrightarrow> ok q"
  by (auto simp: generic_process_event_def generic_read_arg_def next_argument_def Let_def tail_call_def ret_def split_beta
      dest: only_ok_path_offload split: option.splits if_splits outcome.splits)

lemma only_ok_path: "generic_path bd ok gx s = (s', Tail q) \<Longrightarrow> ok q"
  by (auto simp: generic_path_def path_init_def path_work_def Let_def tail_call_def ret_def split_beta
      split: option.splits if_splits path_state.splits)

lemma only_ok_prog: "run_prog stale fl bd ok gx p s = (s', Tail q) \<Longrightarrow> ok q"
  by (cases p)
    (auto simp: run_prog_def generic_process_event_and_setup_def generic_filter_prog_def actions_prog_def generic_lsm_actions_def
      Let_def tail_call_def ret_def split_beta dest: only_ok_process only_ok_filter_arg only_ok_path split: option.splits if_splits)

interpretation gen: chain "\<lambda>ok. run_prog stale fl bd ok gx" "has_prog fl bd" for stale fl bd gx
  by unfold_locales (rule only_ok_prog)

section \<open>The length of a chain\<close>

text \<open>How many tail calls a chain can still make from a call of a program on, that call included.\<close>

fun calls_bound :: "prog \<Rightarrow> msg_generic_kprobe \<Rightarrow> nat" where
  "calls_bound TAIL_CALL_FILTER e = 15 + (7 - unat (sd_curr (gk_sel e)))"
| "calls_bound TAIL_CALL_SETUP e = 15"
| "calls_bound TAIL_CALL_PROCESS e = 9 + (5 - unat (gk_tailcall_index_process e))"
| "calls_bound TAIL_CALL_ARGS e = 3 + (6 - unat (gk_tailcall_index_selector e))"
| "calls_bound TAIL_CALL_ACTIONS e = 2"
| "calls_bound TAIL_CALL_SEND e = 1"
| "calls_bound TAIL_CALL_PATH e = 1"

definition bound_of :: "prog \<Rightarrow> gen_state \<Rightarrow> nat" where
  "bound_of p s = (case gs_e s of None \<Rightarrow> 1 | Some e \<Rightarrow> calls_bound p e)"

text \<open>Where the counters of the message stand when a program is called; without path offloading the path program is not called.\<close>

fun in_phase :: "prog \<Rightarrow> msg_generic_kprobe \<Rightarrow> bool" where
  "in_phase TAIL_CALL_FILTER e \<longleftrightarrow> gk_tailcall_index_process e = 0 \<and> unat (sd_curr (gk_sel e)) \<le> 6"
| "in_phase TAIL_CALL_SETUP e \<longleftrightarrow> gk_tailcall_index_process e = 0"
| "in_phase TAIL_CALL_PROCESS e \<longleftrightarrow> unat (gk_tailcall_index_process e) \<le> 4"
| "in_phase TAIL_CALL_PATH e \<longleftrightarrow> False"
| "in_phase _ e \<longleftrightarrow> True"

definition phase_ok :: "prog \<Rightarrow> gen_state \<Rightarrow> bool" where
  "phase_ok p s = (case gs_e s of None \<Rightarrow> False | Some e \<Rightarrow> in_phase p e)"

definition shrinks :: "nat \<Rightarrow> gen_state \<times> outcome \<Rightarrow> bool" where
  "shrinks n so = ends (\<lambda>_. True) (\<lambda>q s. phase_ok q s \<and> bound_of q s < n) so"

lemma shrinks_simps [simp]:
  "shrinks n (ret r s)" "shrinks n (s, Ret r)" "shrinks n (s, Tail p) = (phase_ok p s \<and> bound_of p s < n)"
  by (simp_all add: shrinks_def)

lemma shrinks_tail_call [intro]:
  "(ok p \<Longrightarrow> phase_ok p s \<and> bound_of p s < n) \<Longrightarrow> shrinks n (rest s) \<Longrightarrow> shrinks n (tail_call ok p rest s)"
  by (simp add: tail_call_def)

lemma bound_pos: "phase_ok p s \<Longrightarrow> 0 < bound_of p s"
  by (cases p) (auto simp: bound_of_def phase_ok_def split: option.splits)

lemma upd_e_Some: "gs_e s = Some e \<Longrightarrow> gs_e (upd_e g s) = Some (g e)"
  by (simp add: upd_e_def)

lemma shrinks_filter:
  assumes "phase_ok TAIL_CALL_FILTER s" shows "shrinks (bound_of TAIL_CALL_FILTER s) (generic_filter_prog fl bd ok gx s)"
proof -
  obtain e where e: "gs_e s = Some e" "gk_tailcall_index_process e = 0" "unat (sd_curr (gk_sel e)) \<le> 6"
    using assms by (auto simp: phase_ok_def split: option.splits)
  obtain st r where st: "generic_process_filter bd (kfilter_of gx) \<lparr>ps_x = gs_x s, ps_path = gs_path s, ps_msg = gs_e s\<rparr> = (st, r)"
    by fastforce
  from generic_process_filter_msg [OF _ st, of e] e obtain e' where
    e': "ps_msg st = Some e'" "gk_tailcall_index_process e' = 0"
      "r = PFILTER_CONTINUE \<Longrightarrow> sd_curr (gk_sel e) \<le> MAX_SELECTORS \<and> sd_curr (gk_sel e') = sd_curr (gk_sel e) + 1" by auto
  have next_curr: "unat (sd_curr (gk_sel e')) = Suc (unat (sd_curr (gk_sel e)))" "unat (sd_curr (gk_sel e)) \<le> 5" if "r = PFILTER_CONTINUE"
    using e'(3) [OF that] by (auto simp: word_le_nat_alt tg_consts unat_word_ariths)
  show ?thesis
    unfolding generic_filter_prog_def st Let_def prod.case
    using e e' next_curr by (auto simp: phase_ok_def bound_of_def tg_consts)
qed

lemma shrinks_setup:
  assumes "phase_ok TAIL_CALL_SETUP s" shows "shrinks (bound_of TAIL_CALL_SETUP s) (generic_process_event_and_setup fl ok gx s)"
proof -
  obtain e where e: "gs_e s = Some e" "gk_tailcall_index_process e = 0"
    using assms by (auto simp: phase_ok_def split: option.splits)
  have "\<exists>e'. gs_e s1 = Some e' \<and> gk_tailcall_index_process e' = 0" if "setup_message fl gx config s = Some s1" for config s1
    using that e by (auto simp: setup_message_def mark_retprobe_def upd_e_Some generic_process_init_def Let_def split: flavour.splits if_splits)
  with e show ?thesis
    by (fastforce simp: generic_process_event_and_setup_def Let_def phase_ok_def bound_of_def split: option.split)
qed

lemma shrinks_filter_arg:
  assumes "phase_ok TAIL_CALL_ARGS s" shows "shrinks (bound_of TAIL_CALL_ARGS s) (generic_filter_arg bd ok gx is_entry s)"
proof -
  obtain e where e: "gs_e s = Some e" using assms by (auto simp: phase_ok_def split: option.splits)
  have st: "gs_e (fst (filter_args bd gx e i is_entry s)) = Some e" for i
    using e by (simp add: filter_args_def filter_args_reject_def split: option.split)
  have "i \<le> next_active act k i" for act k i
    by (induction k arbitrary: i) (auto intro: Suc_leD)
  then have nxt: "Suc (unat (gk_tailcall_index_selector e)) \<le> next_selidx e (unat (gk_tailcall_index_selector e))"
    by (simp add: next_selidx_def)
  show ?thesis
    using e st nxt
    by (auto simp: generic_filter_arg_def Let_def split_beta filter_args_reject_def tail_call_def ret_def upd_e_def phase_ok_def bound_of_def
        unsigned_of_nat take_bit_nat_eq_self)
qed

lemma shrinks_process:
  assumes "phase_ok TAIL_CALL_PROCESS s" and "bd_v61 bd \<or> fl = TRACEPOINT \<or> fl = USDT"
  shows "shrinks (bound_of TAIL_CALL_PROCESS s) (generic_process_event fl bd ok gx s)"
proof -
  obtain e where e: "gs_e s = Some e" "unat (gk_tailcall_index_process e) \<le> 4"
    using assms(1) by (auto simp: phase_ok_def split: option.splits)
  let ?w = "gk_tailcall_index_process e"
  have "?w <s 4 \<longleftrightarrow> uint ?w < 4" using sint_small_u32 [of ?w] e(2) by (simp add: word_sless_alt)
  then have idx: "?w <s 4 \<longleftrightarrow> unat ?w < 4" using uint_nat [of ?w] by linarith
  have idx1: "unat (?w + 1) = Suc (unat ?w)" using e(2) by (subst unat_u32_plus1) simp_all
  have step: "shrinks (bound_of TAIL_CALL_PROCESS s) (next_argument ok gx (gk_tailcall_index_process e) (upd_e (set_size n) s1))"
    if "gs_e s1 = Some e1" "steering e1 = steering e" for n s1 e1
    using that e idx idx1
    by (auto simp: next_argument_def Let_def tail_call_def ret_def upd_e_def set_size_def phase_ok_def bound_of_def)
  have no_off: "\<not> (fl \<noteq> TRACEPOINT \<and> fl \<noteq> USDT \<and> should_offload_path bd ty)" for ty
    using assms(2) by (auto simp: should_offload_path_def)
  define so where "so = generic_read_arg fl bd ok gx (unat (gk_tailcall_index_process e)) (unat (mc_size (gk_common e))) s"
  have "\<exists>s1 e1 n. so = (s1, Ret n) \<and> gs_e s1 = Some e1 \<and> steering e1 = steering e"
  proof (cases "gx_config_map gx (gk_idx e)")
    case None
    then show ?thesis using e(1) by (simp add: so_def generic_read_arg_def ret_def)
  next
    case (Some config)
    let ?i = "unat (gk_tailcall_index_process e) mod 8"
    from read_arg_frame(1) [OF e(1), of fl bd gx ?i "ec_arg config ! ?i" "of_nat (unat (mc_size (gk_common e)))"] Some e(1) no_off show ?thesis
      by (auto simp: so_def generic_read_arg_def Let_def split_beta)
  qed
  then obtain s1 e1 n where so: "so = (s1, Ret n)" "gs_e s1 = Some e1" "steering e1 = steering e" by blast
  show ?thesis
    using e(1) step [OF so(2,3)] step [OF e(1) refl] so(1)
    by (simp add: generic_process_event_def Let_def so_def [symmetric] filter_args_reject_def)
qed

lemma do_action_e: "gs_e (fst sp) \<noteq> None \<Longrightarrow> gs_e (fst (fst (do_action fl bd gx f base en i sp))) \<noteq> None"
proof (cases "gs_e (fst sp)")
  case (Some e)
  then show ?thesis
    using action_effect_e [OF Some, of fl bd gx en "act_word f base i" "\<lambda>k. act_word f base (i + k)" "snd sp"]
    by (simp add: do_action_def Let_def split_beta split: option.split)
qed simp

lemma generic_actions_e:
  assumes "gs_e s = Some e" shows "\<exists>e'. gs_e (fst (generic_actions fl bd gx s)) = Some e'"
proof -
  have "gs_e (fst (do_actions_loop fl bd gx f base en n i sp)) \<noteq> None" if "gs_e (fst sp) \<noteq> None" for f base en n i sp
    using that by (induction n arbitrary: i sp) (simp_all add: split_beta do_action_e del: not_None_eq)
  with assms show ?thesis
    by (simp add: generic_actions_def do_actions_def Let_def split: option.split)
qed

definition offloads :: "flavour \<Rightarrow> build \<Rightarrow> bool" where
  "offloads fl bd \<longleftrightarrow> \<not> bd_v61 bd \<and> fl \<noteq> TRACEPOINT \<and> fl \<noteq> USDT"

lemma shrinks_prog:
  assumes "phase_ok p s" and "\<not> offloads fl bd"
  shows "shrinks (bound_of p s) (run_prog stale fl bd ok gx p s)"
proof (cases p)
  case TAIL_CALL_PROCESS
  with assms shrinks_process [of s bd fl] show ?thesis by (auto simp: run_prog_def offloads_def)
next
  case TAIL_CALL_ACTIONS
  obtain e where e: "gs_e s = Some e" using assms(1) by (auto simp: phase_ok_def split: option.splits)
  obtain e' where "gs_e (fst (generic_actions fl bd gx s)) = Some e'" using generic_actions_e [OF e] by blast
  with e TAIL_CALL_ACTIONS show ?thesis
    by (auto simp: run_prog_def actions_prog_def generic_lsm_actions_def Let_def split_beta phase_ok_def bound_of_def split: option.split)
qed (use assms shrinks_filter shrinks_setup shrinks_filter_arg in \<open>auto simp: run_prog_def phase_ok_def split: option.splits\<close>)

lemma return_value_e: "gs_e s = Some e \<Longrightarrow> \<exists>e'. gs_e (fst (return_value fl bd gx config rv s)) = Some e' \<and> steering e' = steering e"
  using read_arg_frame(1) [of s e fl bd gx 0 "ec_argreturn config" 8 rv 0]
  by (auto simp: return_value_def return_action_def split_beta split: option.split)

lemma return_copy_e: "gs_e s = Some e \<Longrightarrow> \<exists>e'. gs_e (fst (return_copy fl bd gx config info rv sz s)) = Some e' \<and> steering e' = steering e"
  by (auto simp: return_copy_def split_beta copy_bytes_frame copy_iovec_frame)

lemma retprobe_shrinks: "shrinks 23 (generic_retprobe fl bd ok gx rv s)"
proof (cases "gs_e s")
  case (Some e)
  have "shrinks 23 (tail_call ok TAIL_CALL_ARGS (ret 1) s6)" if "gs_e s6 \<noteq> None" for s6
    using that by (auto simp: phase_ok_def bound_of_def)
  moreover have "gs_e (upd_e g (fst (return_copy fl bd gx config info rv sz (fst (return_value fl bd gx config rv
      (upd_e h (s\<lparr>gs_e := Some e', gs_rp := rp\<rparr>))))))) \<noteq> None" for g h config info sz rp e'
    using return_value_e [of "upd_e h (s\<lparr>gs_e := Some e', gs_rp := rp\<rparr>)" "h e'" fl bd gx config rv]
      return_copy_e by (fastforce simp: upd_e_def)
  ultimately show ?thesis using Some
    by (simp add: generic_retprobe_def upd_e_def [of _ s] upd_e_def [of _ "_\<lparr>gs_e := _\<rparr>"] Let_def split_beta split: option.split)
qed (simp add: generic_retprobe_def)

lemma start_shrinks: "shrinks 23 (start_prog fl bd ok gx rv s)"
proof -
  have "shrinks 23 (generic_start_process_filter bd ok gx s)"
    by (cases "gs_e s") (auto simp: generic_start_process_filter_def start_message_def reset_selectors_def upd_e_def phase_ok_def bound_of_def
        Let_def split: option.split)
  moreover have "shrinks 23 (generic_tracepoint_event bd ok gx s)"
    by (cases "gs_e s") (auto simp: generic_tracepoint_event_def tracepoint_message_def generic_process_init_def reset_selectors_def upd_e_def
        phase_ok_def bound_of_def Let_def split: option.split)
  ultimately show ?thesis by (simp add: start_prog_def retprobe_shrinks)
qed

text \<open>
  C13. The chain of tail calls ends by itself. Unless paths are resolved by tail calls (which only builds for kernels before 6.1 do),
  one hit of a hook makes at most 22 of the 33 tail calls that the kernel allows, whatever the policy, the arguments and
  the state of the maps: at least eleven calls are left when the chain returns.
\<close>

theorem chain_within_limit:
  assumes "\<not> offloads fl bd"
  shows "11 \<le> snd (snd (generic_event stale fl bd gx rv s))"
proof -
  have "MAX_TAIL_CALL_CNT - 22 \<le> snd (snd (generic_event stale fl bd gx rv s))"
    unfolding generic_event_def
  proof (rule gen.run_chain_left [where J = phase_ok and m = bound_of])
    show "ends (\<lambda>_. True) (\<lambda>q s'. phase_ok q s' \<and> bound_of q s' < bound_of p s) (run_prog stale fl bd ok gx p s)" if "phase_ok p s" for ok p s
      using shrinks_prog [OF that assms] by (simp add: shrinks_def)
    show "ends (\<lambda>_. True) (\<lambda>q s'. phase_ok q s' \<and> bound_of q s' \<le> 22) (start_prog fl bd (has_prog fl bd) gx rv s)"
      using start_shrinks [of fl bd "has_prog fl bd" gx rv s] by (auto simp: shrinks_def ends_def)
    show "has_prog fl bd p" if "snd (start_prog fl bd (has_prog fl bd) gx rv s) = Tail p" for p
      using that by (auto simp: start_prog_def generic_tracepoint_event_def generic_retprobe_def generic_start_process_filter_def
          tail_call_def ret_def Let_def split_beta split: option.splits if_splits)
  qed (simp_all add: bound_pos MAX_TAIL_CALL_CNT_def)
  then show ?thesis by (simp add: MAX_TAIL_CALL_CNT_def)
qed

section \<open>Enforcement and output\<close>

text \<open>What enforcement has left behind, and what the sensors share: the process table and the events that were sent.\<close>

definition quiet where
  "quiet s = (enforced s, out_kept (gs_os s))"

definition shared where
  "shared s = (gs_x s, gs_os s)"

lemma quiet_kept: "kept s = kept s' \<Longrightarrow> quiet s = quiet s'" "kept s = kept s' \<Longrightarrow> gs_x s = gs_x s'"
  by (simp_all add: kept_def quiet_def)

lemma quiet_updates [simp]:
  "quiet (s\<lparr>gs_e := x\<rparr>) = quiet s" "quiet (s\<lparr>gs_rp := rp\<rparr>) = quiet s" "quiet (s\<lparr>gs_path := p\<rparr>) = quiet s" "quiet (s\<lparr>gs_x := y\<rparr>) = quiet s"
  "quiet (s\<lparr>gs_sock := so\<rparr>) = quiet s" "quiet (s\<lparr>gs_ima := im\<rparr>) = quiet s" "quiet (upd_e g s) = quiet s"
  by (simp_all add: quiet_def enforced_def upd_e_def)

lemma table_upd_e [simp]: "gs_x (upd_e g s) = gs_x s"
  by (simp add: upd_e_def)

lemma quiet_tail_call [simp]: "fst (tail_call ok p (ret r) s) = s" "fst (ret r s) = s"
  by (simp_all add: tail_call_def ret_def)

lemma quiet_filter_arg:
  "quiet (fst (generic_filter_arg bd ok gx is_entry s)) = quiet s" "gs_x (fst (generic_filter_arg bd ok gx is_entry s)) = gs_x s"
  by (simp_all add: generic_filter_arg_def filter_args_def filter_args_reject_def tail_call_def ret_def Let_def split_beta split: option.split)

lemma quiet_setup:
  "quiet (fst (generic_process_event_and_setup fl ok gx s)) = quiet s" "gs_x (fst (generic_process_event_and_setup fl ok gx s)) = gs_x s"
  by (auto simp: generic_process_event_and_setup_def setup_message_def mark_retprobe_def tail_call_def ret_def Let_def
      split: option.split flavour.splits if_splits)

lemma quiet_path: "quiet (fst (generic_path bd ok gx s)) = quiet s" "gs_x (fst (generic_path bd ok gx s)) = gs_x s"
  by (simp_all add: generic_path_def path_init_def path_work_def upd_path_def Let_def split_beta split: option.split path_state.split)

lemma quiet_path_offload:
  "quiet (fst (generic_path_offload bd ok gx ty a i off s)) = quiet s" "gs_x (fst (generic_path_offload bd ok gx ty a i off s)) = gs_x s"
  by (simp_all add: generic_path_offload_def upd_path_def Let_def split_beta split: option.split prod.split)

lemma quiet_read_arg:
  "quiet (fst (read_arg fl bd gx i ty off arg argm s)) = quiet s" "gs_x (fst (read_arg fl bd gx i ty off arg argm s)) = gs_x s"
proof -
  have "kept (fst (read_arg fl bd gx i ty off arg argm s)) = kept s"
  proof (cases "gs_e s")
    case (Some e)
    then show ?thesis by (rule read_arg_frame(2))
  qed (simp add: read_arg_def)
  then show "quiet (fst (read_arg fl bd gx i ty off arg argm s)) = quiet s" "gs_x (fst (read_arg fl bd gx i ty off arg argm s)) = gs_x s"
    by (rule quiet_kept)+
qed

lemma quiet_process:
  "quiet (fst (generic_process_event fl bd ok gx s)) = quiet s" "gs_x (fst (generic_process_event fl bd ok gx s)) = gs_x s"
proof -
  have "quiet (fst (generic_read_arg fl bd ok gx i off s)) = quiet s" "gs_x (fst (generic_read_arg fl bd ok gx i off s)) = gs_x s" for i off
    by (simp_all add: generic_read_arg_def Let_def split_beta quiet_read_arg quiet_path_offload split: option.split)
  moreover have "quiet (fst (next_argument ok gx i s)) = quiet s" "gs_x (fst (next_argument ok gx i s)) = gs_x s" for i s
    by (simp_all add: next_argument_def tail_call_def ret_def Let_def)
  ultimately show "quiet (fst (generic_process_event fl bd ok gx s)) = quiet s" "gs_x (fst (generic_process_event fl bd ok gx s)) = gs_x s"
    by (simp_all add: generic_process_event_def filter_args_reject_def Let_def split_beta split: option.split outcome.split)
qed

lemma quiet_filter: "quiet (fst (generic_filter_prog fl bd ok gx s)) = quiet s"
  by (simp add: generic_filter_prog_def Let_def split_beta)

text \<open>Actions send nothing, whatever they enforce.\<close>

lemma policy_stats_out [simp]: "out_kept (policy_stats_update bd p os) = out_kept os"
  by (simp add: policy_stats_update_def out_kept_def sent_parts)

lemma shared_kept:
  "shared (fst (installfd gx e fd name follow s)) = shared s" "shared (fst (copyfd gx e fd name s)) = shared s"
  "shared (fst (tracksock bd gx e i t s)) = shared s" "shared (do_set_action fl bd gx i v s) = shared s"
  "shared (fst (action_post bd gx arg e s post)) = shared s" "shared (do_action_signal bd n s) = shared s"
  "shared (do_uprobe_override gx v s) = shared s" "shared (do_override_action fl gx v s) = shared s"
  "shared (do_action_notify_enforcer fl gx e a b c s) = shared s" "shared (s\<lparr>gs_e := x\<rparr>) = shared s" "shared (s\<lparr>gs_en := en\<rparr>) = shared s"
  by (simp_all add: shared_def installfd_def copyfd_def tracksock_def do_set_action_def write_user_arg_def action_post_def rate_limit_def do_action_signal_def
      do_uprobe_override_def do_override_action_def do_action_notify_enforcer_def Let_def split_beta split: option.split)

lemma action_effect_shared: "shared (fst (action_effect fl bd gx en action arg e s post)) = shared s"
  unfolding action_effect_def split_beta if_distrib [of fst] if_distrib [of shared] fst_conv
  by (simp only: shared_kept if_cancel)

lemma generic_actions_out:
  "gs_x (fst (generic_actions fl bd gx s)) = gs_x s" "out_kept (gs_os (fst (generic_actions fl bd gx s))) = out_kept (gs_os s)"
proof -
  let ?P = "\<lambda>s. (gs_x s, out_kept (gs_os s))"
  have eff: "gs_x (fst (action_effect fl bd gx en action arg e s post)) = gs_x s" "gs_os (fst (action_effect fl bd gx en action arg e s post)) = gs_os s"
    for en action arg e s post
    using action_effect_shared [of fl bd gx en action arg e s post] by (simp_all add: shared_def)
  have act: "?P (fst (fst (do_action fl bd gx f base en i sp))) = ?P (fst sp)" for f base en i sp
    by (simp add: do_action_def Let_def split_beta eff split: option.split)
  have "?P (fst (do_actions_loop fl bd gx f base en n i sp)) = ?P (fst sp)" for f base en n i sp
    by (induction n arbitrary: i sp) (use act in \<open>simp_all add: split_beta\<close>)
  then show "gs_x (fst (generic_actions fl bd gx s)) = gs_x s" "out_kept (gs_os (fst (generic_actions fl bd gx s))) = out_kept (gs_os s)"
    by (simp_all add: generic_actions_def do_actions_def Let_def split: option.split)
qed

lemma try_override_shared [simp]: "shared (fst (try_override stale gx s)) = shared s"
  by (simp add: try_override_def shared_def split: option.split)

lemma try_override_out [simp]:
  "gs_x (fst (try_override stale gx s)) = gs_x s" "gs_os (fst (try_override stale gx s)) = gs_os s"
  using try_override_shared [of stale gx s] by (simp_all add: shared_def)

lemma actions_prog_out:
  "gs_x (fst (actions_prog stale fl bd ok gx s)) = gs_x s" "out_kept (gs_os (fst (actions_prog stale fl bd ok gx s))) = out_kept (gs_os s)"
  by (simp_all add: actions_prog_def generic_lsm_actions_def Let_def split_beta generic_actions_out upd_e_def split: option.split)

lemma generic_output_events:
  "\<exists>evs. generic_events (gs_os (generic_output fl bd gx op s)) = generic_events (gs_os s) @ evs \<and> length evs \<le> 1"
proof (cases "gs_e s")
  case (Some e)
  have "\<exists>evs. generic_events (event_output_metric bd op ev sz os) = generic_events os @ evs \<and> length evs \<le> 1" for ev sz os
    by (simp add: event_output_metric_def perf_event_output_metric_def ring_output_def Let_def generic_events_def policy_stats_update_def)
  with Some show ?thesis by (simp add: generic_output_def Let_def)
qed (simp add: generic_output_def)

text \<open>Everything before the actions is quiet, and so is the start of a chain.\<close>

lemma quiet_prog: "p \<noteq> TAIL_CALL_ACTIONS \<Longrightarrow> p \<noteq> TAIL_CALL_SEND \<Longrightarrow> quiet (fst (run_prog stale fl bd ok gx p s)) = quiet s"
  by (cases p) (simp_all add: run_prog_def quiet_setup quiet_process quiet_filter quiet_filter_arg quiet_path)

lemma table_prog:
  "p \<notin> {TAIL_CALL_FILTER, TAIL_CALL_ACTIONS, TAIL_CALL_SEND} \<Longrightarrow> gs_x (fst (run_prog stale fl bd ok gx p s)) = gs_x s"
  by (cases p) (simp_all add: run_prog_def quiet_setup quiet_process quiet_filter_arg quiet_path)

lemma quiet_retprobe:
  "quiet (fst (generic_retprobe fl bd ok gx rv s)) = quiet s" "gs_x (fst (generic_retprobe fl bd ok gx rv s)) = gs_x s"
proof -
  have "quiet (fst (return_value fl bd gx config rv s)) = quiet s" "gs_x (fst (return_value fl bd gx config rv s)) = gs_x s" for config s
    by (simp_all add: return_value_def return_action_def split_beta quiet_read_arg split: option.split)
  moreover have "quiet (fst (return_copy fl bd gx config info rv sz s)) = quiet s" "gs_x (fst (return_copy fl bd gx config info rv sz s)) = gs_x s"
    for config info sz s
    using quiet_kept [OF copy_bytes_frame(2)] by (simp_all add: return_copy_def split_beta split: option.split)
  ultimately show "quiet (fst (generic_retprobe fl bd ok gx rv s)) = quiet s" "gs_x (fst (generic_retprobe fl bd ok gx rv s)) = gs_x s"
    by (simp_all add: generic_retprobe_def Let_def split_beta split: option.split)
qed

lemma quiet_start: "quiet (fst (start_prog fl bd ok gx rv s)) = quiet s" "gs_x (fst (start_prog fl bd ok gx rv s)) = gs_x s"
  by (simp_all add: start_prog_def generic_tracepoint_event_def generic_start_process_filter_def quiet_retprobe Let_def split: option.split)

lemma start_has: "snd (start_prog fl bd (has_prog fl bd) gx rv s) = Tail p \<Longrightarrow> has_prog fl bd p"
  by (auto simp: start_prog_def generic_tracepoint_event_def generic_retprobe_def generic_start_process_filter_def
      tail_call_def ret_def Let_def split_beta split: option.splits if_splits)

lemma actions_prog_monitor:
  assumes "enforce_mode gx = False" and "fl = LSM \<Longrightarrow> map_lookup_elem (gs_override s) (gx_pid_tgid gx) = None"
  shows "enforced (fst (actions_prog stale fl bd ok gx s)) = enforced s"
proof -
  have "gs_override (fst (generic_actions fl bd gx s)) = gs_override s"
    using generic_actions_monitor [OF assms(1), of fl bd s] by (simp add: enforced_def)
  with assms(2) have none: "fl = LSM \<Longrightarrow> map_lookup_elem (gs_override (fst (generic_actions fl bd gx s))) (gx_pid_tgid gx) = None" by simp
  have upd: "enforced (t\<lparr>gs_ima := im\<rparr>) = enforced t" "enforced (upd_e g t) = enforced t" "gs_override (upd_e g t) = gs_override t" for t im g
    by (simp_all add: enforced_def upd_e_def)
  show ?thesis
  proof (cases "fl = LSM")
    case True
    with none show ?thesis
      by (simp add: actions_prog_def generic_lsm_actions_def try_override_def Let_def split_beta upd generic_actions_monitor [OF assms(1)]
          split: option.split)
  qed (simp add: actions_prog_def split_beta generic_actions_monitor [OF assms(1)])
qed

text \<open>
  C7. In monitor mode nothing is enforced: a complete run of a hook, from the first program to the last, for every program type,
  policy, argument and state, sends no signal, leaves no return value to override and no register write to do (for
  the security module programs, when none was pending for the task before).
\<close>

theorem monitor_mode_harmless:
  assumes "gx_policy_mode gx = Some mode" and "mode \<noteq> POLICY_MODE_ENFORCE"
    and "fl = LSM \<Longrightarrow> map_lookup_elem (gs_override s) (gx_pid_tgid gx) = None"
  shows "enforced (fst (generic_event stale fl bd gx rv s)) = enforced s"
proof -
  have mode: "enforce_mode gx = False" using assms(1,2) by (simp add: enforce_mode_def)
  let ?I = "\<lambda>t. enforced t = enforced s"
  have pend: "fl = LSM \<Longrightarrow> map_lookup_elem (gs_override t) (gx_pid_tgid gx) = None" if "?I t" for t
    using assms(3) that by (simp add: enforced_def)
  have "?I (fst (run_prog stale fl bd ok gx p t))" if "?I t" for ok p t
  proof (cases "p = TAIL_CALL_ACTIONS \<or> p = TAIL_CALL_SEND")
    case True
    then show ?thesis using that actions_prog_monitor [OF mode pend [OF that]] by (auto simp: run_prog_def)
  next
    case False
    then show ?thesis using quiet_prog [of p stale fl bd ok gx t] that by (simp add: quiet_def)
  qed
  moreover have "?I (fst (start_prog fl bd (has_prog fl bd) gx rv s))"
    using quiet_start [of fl bd "has_prog fl bd" gx rv s] by (simp add: quiet_def)
  ultimately show ?thesis
    unfolding generic_event_def
    by (intro gen.run_chain_inv [where J = "\<lambda>_ _. True" and I = ?I]) (auto simp: ends_def start_has)
qed

text \<open>
  C8. One hit of a hook sends at most one event of a generic sensor, in addition to the data messages of its arguments:
  the list of sent generic events is the old one with at most one event behind it.
\<close>

theorem one_event_per_hit:
  "\<exists>evs. generic_events (gs_os (fst (generic_event stale fl bd gx rv s))) = generic_events (gs_os s) @ evs \<and> length evs \<le> 1"
proof -
  let ?I = "\<lambda>t. \<exists>evs. generic_events (gs_os t) = generic_events (gs_os s) @ evs \<and> length evs \<le> 1"
  let ?J = "\<lambda>(p :: prog) t. generic_events (gs_os t) = generic_events (gs_os s)"
  have "ends ?I ?J (run_prog stale fl bd ok gx p t)" if "?J p t" for ok p t
  proof (cases "p = TAIL_CALL_SEND")
    case True
    then show ?thesis using generic_output_events [of fl bd gx "op_of fl" t] that by (simp add: run_prog_def)
  next
    case False
    then have "out_kept (gs_os (fst (run_prog stale fl bd ok gx p t))) = out_kept (gs_os t)"
      using quiet_prog [of p stale fl bd ok gx t] by (cases "p = TAIL_CALL_ACTIONS") (auto simp: run_prog_def actions_prog_out quiet_def)
    with that show ?thesis by (simp add: ends_def out_kept_def)
  qed
  moreover have "generic_events (gs_os (fst (start_prog fl bd (has_prog fl bd) gx rv s))) = generic_events (gs_os s)"
    using quiet_start(1) [of fl bd "has_prog fl bd" gx rv s] by (simp add: quiet_def out_kept_def)
  then have "ends ?I ?J (start_prog fl bd (has_prog fl bd) gx rv s)" by (simp add: ends_def)
  ultimately show ?thesis
    unfolding generic_event_def by (intro gen.run_chain_inv [where J = ?J and I = ?I]) (auto simp: start_has)
qed

section \<open>Concrete runs\<close>

theorem chain_within_limit_witness: "11 \<le> snd (snd (generic_event id KPROBE build_v61 gx_example 0 gs_example))"
  by (rule chain_within_limit) (simp add: offloads_def build_v61_def)

theorem monitor_mode_harmless_witness:
  "enforced (fst (generic_event id KPROBE build_v61 (gx_example\<lparr>gx_policy_mode := Some 1\<rparr>) 0 gs_example)) = enforced gs_example"
  by (rule monitor_mode_harmless [of _ 1]) (simp_all add: POLICY_MODE_ENFORCE_def)

end
