(* ===== verification/Loader.thy ===== *)
theory Loader
  imports Kernel_Args
begin

text \<open>
  The loader sensor (\<^verbatim>\<open>process/bpf_loader.c\<close>): a probe on the kernel function that reports new executable mappings to a perf event of the
  agent, which sends the build id and the path of the mapped file. The arguments of the probed function and the
  kernel's structures are parameters; their fields are read as in \<^verbatim>\<open>Kernel_Args\<close>.
\<close>

section \<open>Model\<close>

text \<open>
  \<open>ls_heap\<close> is the scratch message of this CPU and \<open>ls_ids\<close> the id of the agent's own perf event on it.
\<close>

record loader_state =
  ls_heap :: "msg_loader option"
  ls_ids :: "u64 option"
  ls_x :: exec_state
  ls_os :: out_state

text \<open>The test whether the mapping was reported to the agent's own event; the event is remembered in the scratch message.\<close>

definition own_event :: "gen_ctx \<Rightarrow> u64 option \<Rightarrow> ptr \<Rightarrow> msg_loader \<Rightarrow> msg_loader option" where
  "own_event gx ids pe msg =
     (if ml_pe msg = 0
      then (case ids of
              None \<Rightarrow> None
            | Some id_map \<Rightarrow> if id_map \<noteq> kread_ptr gx ''perf_event_id'' pe then None else Some (msg\<lparr>ml_pe := pe\<rparr>))
      else if ml_pe msg \<noteq> pe then None else Some msg)"

definition loader_message :: "gen_ctx \<Rightarrow> ptr \<Rightarrow> u32 \<Rightarrow> msg_loader \<Rightarrow> msg_loader" where
  "loader_message gx mmap_event tgid msg =
     (case probe_read_str (gx_mem gx) 4096 (kread_ptr gx ''mmap_file_name'' mmap_event) of
        (path, len) \<Rightarrow>
          msg\<lparr>ml_buildid := kread gx ''mmap_build_id'' 20 mmap_event, ml_path := blit 0 path (ml_path msg),
              ml_path_size := word_of_int len, ml_pid := tgid,
              ml_common := (ml_common msg)\<lparr>mc_size := of_nat SIZEOF_MSG_LOADER, mc_ktime := gx_ktime gx, mc_op := MSG_OP_LOADER, mc_flags := 0\<rparr>\<rparr>)"

definition loader_kprobe :: "build \<Rightarrow> gen_ctx \<Rightarrow> ptr \<Rightarrow> ptr \<Rightarrow> loader_state \<Rightarrow> loader_state" where
  "loader_kprobe bd gx pe mmap_event s =
     (case ls_heap s of
        None \<Rightarrow> s
      | Some msg \<Rightarrow>
          (case own_event gx (ls_ids s) pe msg of
             None \<Rightarrow> s
           | Some msg1 \<Rightarrow>
               let tgid = kt_tgid (gx_kt gx) (kt_current (gx_kt gx))
               in case execve_map_get_noinit tgid (ls_x s) of
                    None \<Rightarrow> s\<lparr>ls_heap := Some msg1\<rparr>
                  | Some v \<Rightarrow>
                      let msg2 = msg1\<lparr>ml_current := (ml_current msg1)\<lparr>ek_pid := ek_pid (ev_key v), ek_ktime := ek_ktime (ev_key v)\<rparr>,
                                      ml_buildid_size := le_word (kread gx ''mmap_build_id_size'' 4 mmap_event)\<rparr>
                      in if ml_buildid_size msg2 = 0 then s\<lparr>ls_heap := Some msg2\<rparr>
                         else let msg3 = loader_message gx mmap_event tgid msg2
                              in s\<lparr>ls_heap := Some msg3,
                                   ls_os := event_output_metric bd MSG_OP_LOADER (Ev_loader msg3) (of_nat SIZEOF_MSG_LOADER) (ls_os s)\<rparr>))"

section \<open>Which mappings are reported\<close>

text \<open>A run of the probe for every mapping of a list: the perf event, the mapping and the context of each.\<close>

fun loader_run :: "build \<Rightarrow> (gen_ctx \<times> ptr \<times> ptr) list \<Rightarrow> loader_state \<Rightarrow> loader_state" where
  "loader_run bd [] s = s"
| "loader_run bd ((gx, pe, mm) # hs) s = loader_run bd hs (loader_kprobe bd gx pe mm s)"

definition bound_to :: "ptr \<Rightarrow> loader_state \<Rightarrow> bool" where
  "bound_to pe s \<longleftrightarrow> (\<exists>msg. ls_heap s = Some msg \<and> ml_pe msg = pe)"

definition reported :: "gen_ctx \<Rightarrow> ptr \<Rightarrow> loader_state \<Rightarrow> bool" where
  "reported gx mm s \<longleftrightarrow> execve_map_get_noinit (kt_tgid (gx_kt gx) (kt_current (gx_kt gx))) (ls_x s) \<noteq> None
     \<and> (le_word (kread gx ''mmap_build_id_size'' 4 mm) :: u32) \<noteq> 0"

lemma loader_message_fields [simp]:
  "ml_pe (loader_message gx mm tgid msg) = ml_pe msg" "ml_current (loader_message gx mm tgid msg) = ml_current msg"
  "ml_pid (loader_message gx mm tgid msg) = tgid" "ml_buildid_size (loader_message gx mm tgid msg) = ml_buildid_size msg"
  "ml_buildid (loader_message gx mm tgid msg) = kread gx ''mmap_build_id'' 20 mm"
  by (simp_all add: loader_message_def split_beta)

lemma loader_other_event:
  assumes "bound_to pe0 s" and "pe0 \<noteq> 0" and "pe \<noteq> pe0"
  shows "loader_kprobe bd gx pe mm s = s"
  using assms by (auto simp: loader_kprobe_def bound_to_def own_event_def)

lemma loader_own_event:
  assumes "bound_to pe s" and "pe \<noteq> 0" and "s' = loader_kprobe bd gx pe mm s"
  shows "bound_to pe s'" and "ls_x s' = ls_x s" and "ls_ids s' = ls_ids s"
    and "\<not> reported gx mm s \<Longrightarrow> ls_os s' = ls_os s"
  using assms by (auto simp: loader_kprobe_def bound_to_def own_event_def reported_def Let_def split: option.splits)

text \<open>What user space reads from a message, and what a mapping is to be reported with.\<close>

record loaded =
  ld_pid :: u32
  ld_process :: "u32 \<times> u64"
  ld_buildid :: "u32 \<times> byte list"
  ld_path :: "byte list option"

definition loader_view :: "msg_loader \<Rightarrow> loaded" where
  "loader_view m =
     \<lparr>ld_pid = ml_pid m, ld_process = (ek_pid (ml_current m), ek_ktime (ml_current m)), ld_buildid = (ml_buildid_size m, ml_buildid m),
      ld_path = (if ml_path_size m <s 0 then None else Some (take (unat (ml_path_size m)) (ml_path m)))\<rparr>"

definition mapping_of :: "gen_ctx \<Rightarrow> ptr \<Rightarrow> execve_map_value \<Rightarrow> loaded" where
  "mapping_of gx mm v =
     (case probe_read_str (gx_mem gx) 4096 (kread_ptr gx ''mmap_file_name'' mm) of
        (path, len) \<Rightarrow>
          \<lparr>ld_pid = kt_tgid (gx_kt gx) (kt_current (gx_kt gx)), ld_process = (ek_pid (ev_key v), ek_ktime (ev_key v)),
           ld_buildid = (le_word (kread gx ''mmap_build_id_size'' 4 mm), kread gx ''mmap_build_id'' 20 mm),
           ld_path = (if len < 0 then None else Some path)\<rparr>)"

definition expected :: "exec_state \<Rightarrow> ptr \<Rightarrow> gen_ctx \<times> ptr \<times> ptr \<Rightarrow> loaded list" where
  "expected x pe0 h =
     (case h of (gx, pe, mm) \<Rightarrow>
        (case execve_map_get_noinit (kt_tgid (gx_kt gx) (kt_current (gx_kt gx))) x of
           None \<Rightarrow> []
         | Some v \<Rightarrow> if pe = pe0 \<and> (le_word (kread gx ''mmap_build_id_size'' 4 mm) :: u32) \<noteq> 0 then [mapping_of gx mm v] else []))"

definition views :: "out_state \<Rightarrow> loaded list" where
  "views os = concat (map (\<lambda>(ev, _). case ev of Ev_loader m \<Rightarrow> [loader_view m] | _ \<Rightarrow> []) (os_sent os))"

definition takes_all :: "out_state \<Rightarrow> bool" where
  "takes_all os \<longleftrightarrow> (\<forall>ring sent sz. 0 \<le> os_answer os ring sent sz)"

lemma path_size_signed:
  assumes "- 14 \<le> len" and "len \<le> 4096"
  shows "((word_of_int len :: u32) <s 0) = (len < 0)" and "0 \<le> len \<Longrightarrow> unat (word_of_int len :: u32) = nat len"
proof -
  have "sint (word_of_int len :: u32) = len"
    using assms by (simp add: signed_of_int signed_take_bit_int_eq_self)
  then show "((word_of_int len :: u32) <s 0) = (len < 0)" by (simp add: word_sless_alt)
  show "0 \<le> len \<Longrightarrow> unat (word_of_int len :: u32) = nat len"
    using assms by (simp add: unat_eq_nat_uint unsigned_of_int take_bit_int_eq_self)
qed

lemma loader_view_message:
  assumes "ml_buildid_size msg = le_word (kread gx ''mmap_build_id_size'' 4 mm)"
    and "ek_pid (ml_current msg) = ek_pid (ev_key v)" and "ek_ktime (ml_current msg) = ek_ktime (ev_key v)"
  shows "loader_view (loader_message gx mm (kt_tgid (gx_kt gx) (kt_current (gx_kt gx))) msg) = mapping_of gx mm v"
proof -
  obtain path len where r: "probe_read_str (gx_mem gx) 4096 (kread_ptr gx ''mmap_file_name'' mm) = (path, len)" by (cases "probe_read_str (gx_mem gx) 4096 (kread_ptr gx ''mmap_file_name'' mm)")
  from probe_read_str_bounds [OF r] have b: "- 14 \<le> len" "len \<le> 4096" "0 \<le> len \<Longrightarrow> nat len = length path"
    by (cases "len < 0"; simp add: EFAULT_def)+
  have "take (length path) (blit 0 path (ml_path msg)) = path" by (simp add: blit_def)
  with b path_size_signed [OF b(1,2)] r assms show ?thesis
    by (simp add: loader_view_def mapping_of_def loader_message_def)
qed

lemma views_output:
  "takes_all os \<Longrightarrow> views (event_output_metric bd op (Ev_loader m) sz os) = views os @ [loader_view m]"
  by (auto simp: views_def takes_all_def event_output_metric_def perf_event_output_metric_def ring_output_def Let_def policy_stats_update_def
      not_less [symmetric])

lemma loader_step:
  assumes "bound_to pe0 s" and "pe0 \<noteq> 0" and "takes_all (ls_os s)"
  shows "views (ls_os (loader_kprobe bd gx pe mm s)) = views (ls_os s) @ expected (ls_x s) pe0 (gx, pe, mm)"
proof (cases "pe = pe0")
  case True
  obtain msg where msg: "ls_heap s = Some msg" "ml_pe msg = pe0" using assms(1) by (auto simp: bound_to_def)
  show ?thesis
    using True msg assms(2,3)
    by (simp add: loader_kprobe_def own_event_def expected_def Let_def views_output loader_view_message split: option.split)
next
  case False
  then show ?thesis using loader_other_event [OF assms(1,2)] by (simp add: expected_def split: option.split)
qed

text \<open>
  C35. The loader sensor reports exactly the mappings of tracked processes: over any sequence of mappings, of any perf events, with
  the scratch message bound to the agent's event and a ring that takes all messages, the messages sent are those of the mappings that were
  reported to that event, made by a process in the process table and have a build id, in order, each with
  the key of the process, the build id and the path of the file.
\<close>

theorem loader_reports_mappings:
  assumes "bound_to pe0 s" and "pe0 \<noteq> 0" and "takes_all (ls_os s)"
  shows "views (ls_os (loader_run bd hs s)) = views (ls_os s) @ concat (map (expected (ls_x s) pe0) hs)"
  using assms
proof (induction hs arbitrary: s)
  case (Cons h hs)
  obtain gx pe mm where h: "h = (gx, pe, mm)" by (cases h)
  let ?s = "loader_kprobe bd gx pe mm s"
  have "bound_to pe0 ?s \<and> ls_x ?s = ls_x s"
    using loader_own_event(1,2) [OF _ Cons.prems(2) refl] loader_other_event [OF Cons.prems(1,2)] Cons.prems(1) by (cases "pe = pe0") simp_all
  moreover have "takes_all (ls_os ?s)"
    using Cons.prems(3) by (auto simp: loader_kprobe_def takes_all_def Let_def split: option.split)
  ultimately show ?case
    using Cons.IH [of ?s] Cons.prems(2) loader_step [OF Cons.prems, of bd gx pe mm] by (simp add: h)
qed simp

text \<open>The first report to the event whose id user space stored binds the scratch message to it, for good.\<close>

lemma loader_binds:
  assumes "ls_heap s = Some msg" and "ml_pe msg = 0" and "pe \<noteq> 0"
  shows "bound_to pe (loader_kprobe bd gx pe mm s) \<longleftrightarrow> ls_ids s = Some (kread_ptr gx ''perf_event_id'' pe)"
  using assms by (auto simp: loader_kprobe_def bound_to_def own_event_def Let_def split: option.split)

section \<open>A concrete run\<close>

definition msg_loader_example :: msg_loader where
  "msg_loader_example = \<lparr>ml_common = zero_common, ml_current = \<lparr>ek_pid = 0, ek_ktime = 0\<rparr>, ml_pid = 0, ml_buildid_size = 0, ml_path_size = 0,
     ml_buildid = replicate 20 0, ml_path = replicate 4096 0, ml_pe = 500\<rparr>"

definition ls_example :: loader_state where
  "ls_example = \<lparr>ls_heap = Some msg_loader_example, ls_ids = Some 3, ls_x = xs_current, ls_os = gs_os gs_example\<rparr>"

theorem loader_reports_mappings_witness:
  "length (views (ls_os (loader_run build_v61 [(gx_example\<lparr>gx_mem := \<lambda>_. Some 1\<rparr>, 500, 600), (gx_example, 501, 600)] ls_example))) = 1"
proof -
  have "bound_to 500 ls_example" "takes_all (ls_os ls_example)"
    by (simp_all add: bound_to_def ls_example_def msg_loader_example_def takes_all_def gs_example_def)
  moreover have "views (ls_os ls_example) = []" by (simp add: ls_example_def gs_example_def views_def)
  moreover have "execve_map_get_noinit (kt_tgid (gx_kt gx_example) (kt_current (gx_kt gx_example))) (ls_x ls_example) = Some v_example"
    by (simp add: ls_example_def gx_example_def execve_map_get_noinit_def xs_current_def kt_example_def map_lookup_elem_def)
  moreover have "(le_word (kread (gx_example\<lparr>gx_mem := \<lambda>_. Some 1\<rparr>) ''mmap_build_id_size'' 4 600) :: u32) \<noteq> 0"
    by (simp add: kread_def probe_read_def upt_rec)
  ultimately show ?thesis
    using loader_reports_mappings [of 500 ls_example build_v61 "[(gx_example\<lparr>gx_mem := \<lambda>_. Some 1\<rparr>, 500, 600), (gx_example, 501, 600)]"]
    by (simp add: expected_def)
qed

end
