(* ===== verification/Lifecycle.thy ===== *)
theory Lifecycle
  imports Fork_Exit Generic_Run Loader
begin

text \<open>
  The hooks together: the process table is shared by the fork, exec, credential, exit and map-update programs, the
  generic sensors and the loader sensor, and all of them and the cgroup programs send on one ring. \<open>hook\<close> is one run of one program,
  with its tail calls; the theorems are about any sequence of runs, that is, any interleaving of whole runs.
\<close>

section \<open>Messages beside the process events\<close>

text \<open>Messages other than clone, exec and exit say nothing about the life of a process.\<close>

definition aux_event :: "tg_event \<Rightarrow> bool" where
  "aux_event ev \<longleftrightarrow> \<not> is_process (ev, 0)"

definition aux_out :: "out_state \<Rightarrow> out_state \<Rightarrow> bool" where
  "aux_out os os' \<longleftrightarrow> os_answer os' = os_answer os \<and> process_events os' = process_events os"

lemma aux_out_refl [simp, intro]: "aux_out os os"
  by (simp add: aux_out_def)

lemma aux_out_trans [trans]: "aux_out a b \<Longrightarrow> aux_out b c \<Longrightarrow> aux_out a c"
  by (simp add: aux_out_def)

lemma aux_out_kept: "out_kept os' = out_kept os \<Longrightarrow> aux_out os os'"
  by (simp add: aux_out_def out_kept_def)

lemma sent_policy_stats [simp]: "os_sent (policy_stats_update bd a s) = os_sent s"
  "os_answer (policy_stats_update bd a s) = os_answer s"
  by (simp_all add: policy_stats_update_def)

lemma answer_error_metric [simp]: "os_answer (event_output_update_error_metric op err s) = os_answer s"
  by (simp add: event_output_update_error_metric_def)

lemma aux_out_metric: "aux_event ev \<Longrightarrow> aux_out os (event_output_metric bd op ev sz os)"
  by (cases rule: event_output_metric_cases [of os ev sz bd op]) (simp_all add: aux_out_def process_events_def aux_event_def is_process_def)

lemma aux_event_simps [simp]: "aux_event (Ev_data m)" "aux_event (Ev_throttle t)" "aux_event (Ev_cgroup c)"
  "aux_event (Ev_generic g)" "aux_event (Ev_loader d)"
  "\<not> aux_event (Ev_exit x)" "\<not> aux_event (Ev_clone l)" "\<not> aux_event (Ev_execve e)"
  by (simp_all add: aux_event_def is_process_def)

lemma do_str1_aux: "do_str1 bd mem a d (msg, os) = ((msg', os'), r, d') \<Longrightarrow> aux_out os os'"
  by (auto simp: do_str1_def Let_def split: prod.splits if_splits intro: aux_out_metric)

lemma do_str_loop_aux:
  "do_str_loop bd mem a k rd d (msg, os) = ((msg', os'), r) \<Longrightarrow> aux_out os os'"
proof (induction k arbitrary: rd d msg os)
  case (Suc k)
  obtain msg1 os1 e d1 where 1: "do_str1 bd mem (a + rd) d (msg, os) = ((msg1, os1), e, d1)" by (metis prod.exhaust)
  note A = do_str1_aux [OF 1]
  show ?case
    using Suc.prems Suc.IH [of "rd + word_of_int e" d1 msg1 os1] A
    by (auto simp: 1 Let_def split: if_splits intro: aux_out_trans)
qed simp

text \<open>A data-event call as the exec sensor makes it.\<close>

definition aux_call ::
  "(data_event_desc \<Rightarrow> msg_data option \<Rightarrow> out_state \<Rightarrow> msg_data option \<times> out_state \<times> data_event_desc \<times> u64) \<Rightarrow> bool" where
  "aux_call call \<longleftrightarrow> (\<forall>d h os h' os' d' n. call d h os = (h', os', d', n) \<longrightarrow> aux_out os os')"

lemma data_event_calls_aux [simp]:
  "aux_call (data_event_bytes bd mem a b c d e)" "aux_call (data_event_str bd mem a b c d)"
proof -
  show "aux_call (data_event_bytes bd mem a b c d e)"
    unfolding aux_call_def by (metis aux_out_kept data_event_bytes_generic fst_conv snd_conv)
  have "aux_call (data_event (do_str bd mem) a b c d (- 1))"
    by (auto simp: aux_call_def data_event_def do_str_def Let_def split: option.splits prod.splits dest: do_str_loop_aux)
  then show "aux_call (data_event_str bd mem a b c d)" by (simp add: aux_call_def data_event_str_def)
qed

section \<open>What collecting an exec event leaves alone\<close>

definition collects :: "msg_execve_event \<times> sensor \<Rightarrow> msg_execve_event \<times> sensor \<Rightarrow> bool" where
  "collects = (\<lambda>(ev, se) (ev', se'). aux_out (se_os se) (se_os se')
     \<and> mp_pid (ee_process ev') = mp_pid (ee_process ev) \<and> mp_ktime (ee_process ev') = mp_ktime (ee_process ev))"

lemma collects_iff [simp]:
  "collects (ev, se) (ev', se') \<longleftrightarrow> aux_out (se_os se) (se_os se')
     \<and> mp_pid (ee_process ev') = mp_pid (ee_process ev) \<and> mp_ktime (ee_process ev') = mp_ktime (ee_process ev)"
  by (simp add: collects_def)

lemma collects_trans: "collects a b \<Longrightarrow> collects b c \<Longrightarrow> collects a c"
  by (cases a; cases b; cases c) (auto intro: aux_out_trans)

lemma collect_frame [simp]:
  "mp_pid (ee_process (add_flags fl ev)) = mp_pid (ee_process ev)"
  "mp_ktime (ee_process (add_flags fl ev)) = mp_ktime (ee_process ev)"
  "se_os (em_exec l e se) = se_os se"
  "ee_process (set_arg_start bd m ev) = ee_process ev" "ee_process (set_arg_len bd m ev) = ee_process ev"
  by (simp_all add: add_flags_def em_exec_def set_arg_start_def set_arg_len_def)

lemma data_event_at_collects:
  "aux_call call \<Longrightarrow> data_event_at call off (ev, se) = ((ev', se'), n) \<Longrightarrow> collects (ev, se) (ev', se')"
  by (auto simp: data_event_at_def aux_call_def split: prod.splits if_splits) blast+

lemma read_path_collects: "read_path bd ke (ev, se) = ((ev', se'), n) \<Longrightarrow> collects (ev, se) (ev', se')"
  by (auto simp: read_path_def Let_def split: prod.splits if_splits dest!: data_event_at_collects [rotated])

lemma copy_args_collects: "copy_args bd ke a z off (ev, se) = ((ev', se'), n) \<Longrightarrow> collects (ev, se) (ev', se')"
  by (auto simp: copy_args_def Let_def split: prod.splits if_splits dest!: data_event_at_collects [rotated])

lemma read_args_collects: "read_args bd ke (ev, se) = ((ev', se'), n) \<Longrightarrow> collects (ev, se) (ev', se')"
  by (auto simp: read_args_def end_args_def Let_def split: prod.splits if_splits dest!: copy_args_collects)

lemma read_cwd_collects: "read_cwd bd ke (ev, se) = ((ev', se'), n) \<Longrightarrow> collects (ev, se) (ev', se')"
  by (auto simp: read_cwd_def getcwd_def Let_def split: prod.splits if_splits option.splits)

lemma copy_envs_collects: "copy_envs bd ke a z off (ev, se) = ((ev', se'), n, fl) \<Longrightarrow> collects (ev, se) (ev', se')"
  by (auto simp: copy_envs_def Let_def split: prod.splits if_splits dest!: data_event_at_collects [rotated])

lemma read_envs_collects: "read_envs bd ke (ev, se) = ((ev', se'), n) \<Longrightarrow> collects (ev, se) (ev', se')"
  by (auto simp: read_envs_def Let_def split: prod.splits if_splits dest!: copy_envs_collects)

lemma grow_collects:
  assumes "grow r = st'" and "\<And>ev' se' n. r = ((ev', se'), n) \<Longrightarrow> collects st (ev', se')"
  shows "collects st st'"
  using assms by (cases st) (auto simp: grow_def split: prod.splits)

lemma sections_collect: "collects st (event_execve_sections bd ke st)"
proof -
  have rd: "collects st (grow (rd st))"
    if "\<And>ev se ev' se' n. rd (ev, se) = ((ev', se'), n) \<Longrightarrow> collects (ev, se) (ev', se')" for rd st
    by (rule grow_collects [OF refl]) (metis that prod.exhaust)
  note steps = rd [of "read_path bd ke", OF read_path_collects] rd [of "read_args bd ke", OF read_args_collects]
    rd [of "read_cwd bd ke", OF read_cwd_collects] rd [of "read_envs bd ke", OF read_envs_collects]
  show ?thesis
    unfolding event_execve_sections_def by (intro collects_trans [OF _ steps(4)] collects_trans [OF _ steps(3)]
        collects_trans [OF _ steps(2)] steps(1))
qed

section \<open>The keys of the table\<close>

definition keys :: "exec_state \<Rightarrow> u32 \<Rightarrow> msg_execve_key option" where
  "keys x pid = map_option ev_key (table x pid)"

text \<open>Two tables with the same keys, and the same statistics.\<close>

definition same_keys :: "exec_state \<Rightarrow> exec_state \<Rightarrow> bool" where
  "same_keys x x' \<longleftrightarrow> keys x' = keys x \<and> xs_stats x' = xs_stats x"

lemma same_keys_refl [simp]: "same_keys x x"
  by (simp add: same_keys_def)

lemma same_keys_trans: "same_keys x y \<Longrightarrow> same_keys y z \<Longrightarrow> same_keys x z"
  by (simp add: same_keys_def)

lemma same_keys_write: "(\<And>v. table x pid = Some v \<Longrightarrow> ev_key (f v) = ev_key v) \<Longrightarrow> same_keys x (execve_map_write pid f x)"
  by (auto simp: same_keys_def keys_def fun_eq_iff option.map_comp comp_def intro!: option.map_cong)

lemma same_keys_dom: "same_keys x x' \<Longrightarrow> dom (table x') = dom (table x)"
  unfolding same_keys_def keys_def fun_eq_iff dom_def by (metis map_option_is_None)

lemma same_keys_drift: "same_keys x x' \<Longrightarrow> drift x' = drift x"
  using same_keys_dom [of x x'] by (simp add: drift_def same_keys_def)

lemma update_mb_task_key [simp]: "ev_key (update_mb_task bd mbs x v) = ev_key v"
  by (simp add: update_mb_task_def split: option.split)

lemma joined_clear_keys: "same_keys x (execve_joined_info_map_clear t x)"
  by (simp add: same_keys_def keys_def fun_eq_iff execve_joined_info_map_clear_def Let_def split_beta)

lemma header_keys: "same_keys x (snd (event_execve_header ke (p, x)))"
  by (auto simp: event_execve_header_def read_execve_shared_info_def Let_def split: option.split intro: joined_clear_keys)

lemma header_process:
  "mp_pid (fst (event_execve_header ke (p, x))) = current_tgid (ke_kt ke)"
  "mp_ktime (fst (event_execve_header ke (p, x))) = ke_ktime ke"
  by (simp_all add: event_execve_header_def read_execve_shared_info_def Let_def current_tgid_def split: option.split)

lemma parent_keys: "same_keys x (snd (event_execve_parent bd ke (ev, x)))"
  by (auto simp: event_execve_parent_def split: option.split prod.split intro: same_keys_write)

lemma finish_process:
  "mp_pid (ee_process (event_execve_finish bd ke (ev, se))) = mp_pid (ee_process ev)"
  "mp_ktime (ee_process (event_execve_finish bd ke (ev, se))) = mp_ktime (ee_process ev)"
  by (simp_all add: event_execve_finish_def Let_def split: prod.split)

lemma event_execve_collects:
  assumes "se_event se = Some ev0"
  obtains ev where "se_event (event_execve bd ke se) = Some ev"
    "mp_pid (ee_process ev) = current_tgid (ke_kt ke)" "mp_ktime (ee_process ev) = ke_ktime ke"
    "aux_out (se_os se) (se_os (event_execve bd ke se))" "same_keys (se_x se) (se_x (event_execve bd ke se))"
proof -
  obtain ev1 x1 where 1: "event_execve_parent bd ke (ev0, se_x se) = (ev1, x1)" by fastforce
  obtain p2 x2 where 2: "event_execve_header ke (ee_process ev1, x1) = (p2, x2)" by fastforce
  obtain ev3 se3 where 3: "event_execve_sections bd ke (ev1\<lparr>ee_process := p2\<rparr>, se\<lparr>se_x := x2\<rparr>) = (ev3, se3)" by fastforce
  have run: "event_execve bd ke se = se3\<lparr>se_event := Some (event_execve_finish bd ke (ev3, se3))\<rparr>"
    by (simp add: event_execve_def assms 1 2 3)
  have c: "collects (ev1\<lparr>ee_process := p2\<rparr>, se\<lparr>se_x := x2\<rparr>) (ev3, se3)"
    using sections_collect [of "(ev1\<lparr>ee_process := p2\<rparr>, se\<lparr>se_x := x2\<rparr>)" bd ke] 3 by simp
  have x: "se_x (event_execve bd ke se) = x2" using event_execve_state [OF assms, of bd ke] by (simp add: 1 2)
  have "same_keys (se_x se) x2"
    using same_keys_trans [OF parent_keys [of "se_x se" bd ke ev0] header_keys [of _ ke "ee_process ev1"]] by (simp add: 1 2)
  with that [of "event_execve_finish bd ke (ev3, se3)"] run c x header_process [of ke "ee_process ev1" x1]
  show ?thesis by (simp add: finish_process 2)
qed

lemma send_curr_process:
  assumes "send_curr bd ke ev cur = (ev', v)"
  shows "mp_pid (ee_process ev') = mp_pid (ee_process ev)" "mp_ktime (ee_process ev') = mp_ktime (ee_process ev)"
  using assms by (auto simp: send_curr_def Let_def event_set_clone_def split: if_splits)

text \<open>Sending the collected event: the entry of the process gets the key of the message.\<close>

lemma execve_send_effect:
  assumes "se_event se = Some ev0" and "pid = current_tgid (ke_kt ke)" and "mp_pid (ee_process ev0) = pid"
  obtains ev sz where
    "se_os (execve_send bd ke se) = event_output_metric bd MSG_OP_EXECVE (Ev_execve ev) sz (se_os se)"
    "mp_pid (ee_process ev) = pid" "mp_ktime (ee_process ev) = mp_ktime (ee_process ev0)"
    "xs_stats (se_x (execve_send bd ke se)) = xs_stats (se_x se)"
    "keys (se_x (execve_send bd ke se)) =
       (if table (se_x se) pid = None then keys (se_x se)
        else (keys (se_x se))(pid \<mapsto> \<lparr>ek_pid = pid, ek_ktime = mp_ktime (ee_process ev0)\<rparr>))"
proof (rule execve_send_cases [OF assms(1,2), of bd])
  have st: "xs_stats (se_x (execve_send bd ke se)) = xs_stats (se_x se)"
    by (simp add: execve_send_def assms(1) Let_def split: option.split prod.split)
  fix ev1
  assume a: "ee_process ev1 = ee_process ev0" "table (se_x se) pid = None" "se_x (execve_send bd ke se) = se_x se"
    "se_event (execve_send bd ke se) = Some (ev1\<lparr>ee_common := (ee_common ev1)\<lparr>mc_flags := 0\<rparr>\<rparr>)"
  from that [OF execve_send_output(4) [OF assms(1) a(4)]] a st show thesis using assms(3) by simp
next
  have st: "xs_stats (se_x (execve_send bd ke se)) = xs_stats (se_x se)"
    by (simp add: execve_send_def assms(1) Let_def split: option.split prod.split)
  fix ev1 cur ev2 v bin
  assume a: "ee_process ev1 = ee_process ev0" "table (se_x se) pid = Some cur" "send_curr bd ke ev1 cur = (ev2, v)"
    "table (se_x (execve_send bd ke se)) = (table (se_x se))(pid \<mapsto> v\<lparr>ev_bin := bin\<rparr>)"
    "se_event (execve_send bd ke se) = Some (ev2\<lparr>ee_common := (ee_common ev2)\<lparr>mc_flags := 0\<rparr>\<rparr>)"
  have "keys (se_x (execve_send bd ke se)) = (keys (se_x se))(pid \<mapsto> \<lparr>ek_pid = pid, ek_ktime = mp_ktime (ee_process ev0)\<rparr>)"
    using a(1,4) send_curr_facts(3) [OF a(3)] assms(3) by (auto simp: keys_def fun_eq_iff)
  with that [OF execve_send_output(4) [OF assms(1) a(5)]] a(1,2) st send_curr_process [OF a(3)]
  show thesis using assms(3) by simp
qed

text \<open>
  The whole exec hook, as the two things that can happen to the output and to the keys; \<open>sent\<close> says
  whether the event got through the rate limit.
\<close>

lemma cgroup_rate_aux:
  assumes "cgroup_rate bd kube time rs os = ((rs', os'), go)"
  shows "aux_out os os'" and "rs_options rs = None \<Longrightarrow> go \<and> rs' = rs" and "rs_options rs' = rs_options rs"
proof -
  show "aux_out os os'" "rs_options rs' = rs_options rs"
    using assms by (auto simp: cgroup_rate_def send_throttle_def Let_def split: option.splits if_splits intro: aux_out_metric)
  show "rs_options rs = None \<Longrightarrow> go \<and> rs' = rs" using assms by (auto simp: cgroup_rate_def)
qed

lemma exec_hook_cases:
  assumes "se' = tracepoint_execve bd ke se" and "pid = current_tgid (ke_kt ke)"
  obtains (quiet) "aux_out (se_os se) (se_os se')" "same_keys (se_x se) (se_x se')"
      "se_event se = None \<or> rs_options (se_rate se) \<noteq> None" "rs_options (se_rate se') = rs_options (se_rate se)"
    | (sent) os ev sz where "aux_out (se_os se) os" "se_os se' = event_output_metric bd MSG_OP_EXECVE (Ev_execve ev) sz os"
      "mp_pid (ee_process ev) = pid" "mp_ktime (ee_process ev) = ke_ktime ke" "xs_stats (se_x se') = xs_stats (se_x se)"
      "keys (se_x se') = (if keys (se_x se) pid = None then keys (se_x se)
         else (keys (se_x se))(pid \<mapsto> \<lparr>ek_pid = pid, ek_ktime = ke_ktime ke\<rparr>))"
      "rs_options (se_rate se') = rs_options (se_rate se)"
proof (cases "se_event se")
  case None
  then show ?thesis using assms by (intro quiet) (simp_all add: tracepoint_execve_def)
next
  case (Some ev0)
  obtain ev1 where E: "se_event (event_execve bd ke se) = Some ev1" "mp_pid (ee_process ev1) = current_tgid (ke_kt ke)"
    "mp_ktime (ee_process ev1) = ke_ktime ke" "aux_out (se_os se) (se_os (event_execve bd ke se))"
    "same_keys (se_x se) (se_x (event_execve bd ke se))"
    by (rule event_execve_collects [OF Some])
  let ?se1 = "event_execve bd ke se"
  obtain rs os go where r: "cgroup_rate bd (ee_kube ev1) (mc_ktime (ee_common ev1)) (se_rate ?se1) (se_os ?se1) = ((rs, os), go)"
    by (metis prod.exhaust)
  note R = cgroup_rate_aux [OF r]
  have rate: "rs_options rs = rs_options (se_rate se)" using R(3) by (simp add: event_execve_rate)
  define se2 where "se2 = ?se1\<lparr>se_rate := rs, se_os := os\<rparr>"
  have run: "se' = (if go then execve_send bd ke se2 else se2)"
    using assms(1) Some E(1) r by (simp add: tracepoint_execve_def execve_rate_def se2_def)
  have out: "aux_out (se_os se) os" using E(4) R(1) by (rule aux_out_trans)
  show ?thesis
  proof (cases go)
    case False
    then show ?thesis using run out E(5) R(2) rate by (intro quiet) (auto simp: se2_def event_execve_rate)
  next
    case True
    have e2: "se_event se2 = Some ev1" "mp_pid (ee_process ev1) = pid" using E(1,2) assms(2) by (simp_all add: se2_def)
    have sr: "se_rate (execve_send bd ke se2) = se_rate se2"
      by (simp add: execve_send_def e2(1) Let_def split: option.split prod.split)
    obtain ev sz where S: "se_os (execve_send bd ke se2) = event_output_metric bd MSG_OP_EXECVE (Ev_execve ev) sz (se_os se2)"
      "mp_pid (ee_process ev) = pid" "mp_ktime (ee_process ev) = mp_ktime (ee_process ev1)"
      "xs_stats (se_x (execve_send bd ke se2)) = xs_stats (se_x se2)"
      "keys (se_x (execve_send bd ke se2)) =
         (if table (se_x se2) pid = None then keys (se_x se2)
          else (keys (se_x se2))(pid \<mapsto> \<lparr>ek_pid = pid, ek_ktime = mp_ktime (ee_process ev1)\<rparr>))"
      by (rule execve_send_effect [OF e2(1) assms(2) e2(2)])
    have k: "keys (se_x se2) = keys (se_x se)" "xs_stats (se_x se2) = xs_stats (se_x se)"
      using E(5) by (simp_all add: se2_def same_keys_def)
    have "(table (se_x se2) pid = None) \<longleftrightarrow> (keys (se_x se) pid = None)" unfolding k(1) [symmetric] by (simp add: keys_def)
    with True run S E(3) k out rate sr show ?thesis by (intro sent [of os ev sz]) (auto simp: se2_def)
  qed
qed

section \<open>Fork and exit\<close>

lemma clone_entry_key: "ev_key (clone_entry kf tgid parent cur) = \<lparr>ek_pid = tgid, ek_ktime = kf_ktime kf\<rparr>"
  by (simp add: clone_entry_def Let_def set_in_init_tree_def)

lemma fork_hook_cases:
  assumes "se' = event_wake_up_new_task bd kf se" and "tgid = kt_tgid (kf_kt kf) (kf_task kf)"
  obtains (idle) "se_os se' = se_os se" "se_rate se' = se_rate se" "keys (se_x se') = keys (se_x se)"
    | (created) os msg where "aux_out (se_os se) os" "ce_tgid msg = tgid" "ce_ktime msg = kf_ktime kf"
      "se_os se' = event_output_metric bd MSG_OP_CLONE (Ev_clone msg) (of_nat SIZEOF_MSG_CLONE_EVENT) os
       \<or> rs_options (se_rate se) \<noteq> None \<and> se_os se' = os"
      "keys (se_x se') = (keys (se_x se))(tgid \<mapsto> \<lparr>ek_pid = tgid, ek_ktime = kf_ktime kf\<rparr>)"
      "rs_options (se_rate se') = rs_options (se_rate se)"
proof -
  obtain x1 r where g: "execve_map_get tgid (se_x se) = (x1, r)" by fastforce
  note G = execve_map_get_table [OF g]
  let ?find = "event_find_parent_of (kf_kt kf) (se_x se) (kf_task kf)"
  show ?thesis
  proof (cases "kf_task kf = 0 \<or> ?find = None")
    case True
    then have "se' = se" using assms(1) by (auto simp: event_wake_up_new_task_def Let_def)
    then show ?thesis by (intro idle) simp_all
  next
    case False
    then obtain ppid parent where t: "kf_task kf \<noteq> 0" "?find = Some (ppid, parent)" by auto
    show ?thesis
    proof (cases "r = None \<or> (\<exists>cur. r = Some cur \<and> ek_ktime (ev_key cur) \<noteq> 0)")
      case True
      have "se' = se\<lparr>se_x := x1\<rparr>"
        using assms t g True by (auto simp: event_wake_up_new_task_def Let_def)
      moreover have "table x1 j = table (se_x se) j" for j
        using G True by (cases "j = tgid"; cases "table (se_x se) tgid")
          (auto simp: zero_execve_map_value_def zero_key_def)
      ultimately show ?thesis by (intro idle) (simp_all add: keys_def fun_eq_iff)
    next
      case False
      then obtain cur where cur: "r = Some cur" "ek_ktime (ev_key cur) = 0" by auto
      let ?v = "clone_entry kf tgid parent cur"
      define msg where "msg = clone_message kf ?v"
      have k: "keys (se_x se') = (keys (se_x se))(tgid \<mapsto> \<lparr>ek_pid = tgid, ek_ktime = kf_ktime kf\<rparr>)"
        using fork_creates [OF t(1) assms(2) t(2), of x1 cur bd] g cur assms(1)
        by (simp add: keys_def fun_eq_iff clone_entry_key)
      have m: "ce_tgid msg = tgid" "ce_ktime msg = kf_ktime kf"
        by (simp_all add: msg_def clone_message_def clone_entry_key)
      obtain rs os go where
        rate: "cgroup_rate bd (fst (event_get_cgroup_info bd (kf_kc kf) (kf_task kf) (os_conf (se_os se)) (se_cg se) zero_k8s))
            (ce_ktime msg) (se_rate se) (se_os se) = ((rs, os), go)" by (metis prod.exhaust)
      note R = cgroup_rate_aux [OF rate]
      have run: "se_os se' = (if bd_rhel7 bd
          then event_output_metric bd MSG_OP_CLONE (Ev_clone msg) (of_nat SIZEOF_MSG_CLONE_EVENT) (se_os se)
          else if go then event_output_metric bd MSG_OP_CLONE (Ev_clone msg) (of_nat SIZEOF_MSG_CLONE_EVENT) os else os)"
        "se_rate se' = (if bd_rhel7 bd then se_rate se else rs)"
        using t g cur rate by (simp_all add: assms event_wake_up_new_task_def Let_def msg_def)
      have rs: "rs_options (se_rate se') = rs_options (se_rate se)" using run(2) R(3) by simp
      show ?thesis
      proof (cases "bd_rhel7 bd")
        case True
        with run show ?thesis by (intro created [OF aux_out_refl m _ k rs]) simp
      next
        case False
        with run(1) R(2) show ?thesis by (intro created [OF R(1) m _ k rs]) auto
      qed
    qed
  qed
qed

lemma exit_hook_cases:
  assumes "se' = event_exit_send bd tgid ktime code se"
  obtains (idle) "se' = se"
    | (dropped) "se' = se\<lparr>se_x := execve_map_delete tgid (se_x se)\<rparr>"
    | (reported) k where "keys (se_x se) tgid = Some k" "ek_ktime k \<noteq> 0" "se_rate se' = se_rate se"
      "se_os se' = event_output_metric bd MSG_OP_EXIT
         (Ev_exit (exit_message tgid ktime code (the (table (se_x se) tgid)))) (of_nat SIZEOF_MSG_EXIT) (se_os se)"
      "me_current (exit_message tgid ktime code (the (table (se_x se) tgid))) = \<lparr>ek_pid = tgid, ek_ktime = ek_ktime k\<rparr>"
      "se_x se' = execve_map_delete tgid (se_x se)"
proof (cases "table (se_x se) tgid")
  case None
  then show ?thesis using assms by (intro idle) (simp add: exit_none)
next
  case (Some v)
  show ?thesis
  proof (cases "ek_ktime (ev_key v) = 0 \<or> se_exit se = None")
    case True
    then have "se' = se \<or> se' = se\<lparr>se_x := execve_map_delete tgid (se_x se)\<rparr>"
      using assms Some by (auto simp: event_exit_send_def execve_map_get_noinit_def)
    then show ?thesis using idle dropped by blast
  next
    case False
    then have v: "ek_ktime (ev_key v) \<noteq> 0" "se_exit se \<noteq> None" by auto
    from exit_cases [OF Some v, of bd ktime code] assms Some v(1) show ?thesis
      by (intro reported [of "ev_key v"]) (simp_all add: keys_def exit_message_def)
  qed
qed

section \<open>The other programs\<close>

lemma match_binaries_key [simp]: "ev_key (fst (match_binaries bd mbs mm x i v)) = ev_key v"
  by (auto simp: match_binaries_def mb_in_def mb_postfix_def Let_def split: option.split prod.split)

lemma put_enter_keys:
  assumes "put_enter pl v' (x, msg) = (x', msg')" and "\<And>pid v. pl = Some pid \<Longrightarrow> table x pid = Some v \<Longrightarrow> ev_key v' = ev_key v"
  shows "same_keys x x'"
  using assms by (auto simp: put_enter_def split: option.splits intro!: same_keys_write)

lemma filter_selectors_keys:
  assumes "filter_selectors bd fk f pl enter (x, msg) = ((x', msg'), r)"
    and "\<And>pid v. pl = Some pid \<Longrightarrow> table x pid = Some v \<Longrightarrow> ev_key enter = ev_key v"
  shows "same_keys x x'"
proof -
  obtain s1 m1 where p: "put_enter pl (fst (match_binaries bd (fk_mbs fk) (fk_mm fk) x (ucast (sd_curr (gk_sel msg))) enter)) (x, msg) = (s1, m1)"
    by fastforce
  have "same_keys x s1" by (rule put_enter_keys [OF p]) (use assms(2) in simp)
  moreover have "x' = x \<or> x' = s1"
    using assms(1) p
    by (auto simp: filter_selectors_def filter_done_def selector_process_filter_def Let_def split_beta split: if_splits)
  ultimately show ?thesis by auto
qed

lemma generic_process_filter_keys:
  assumes "generic_process_filter bd fk st = (st', r)"
  shows "same_keys (ps_x st) (ps_x st')"
proof -
  obtain pid w res where find: "event_find_curr (fk_kt fk) (ps_x st) = (pid, w, res)" by (metis prod.exhaust)
  have tab: "res = Some v \<Longrightarrow> table (ps_x st) pid = Some v" for v
    using find find_curr_loop_table by (auto simp: event_find_curr_def)
  show ?thesis
    using assms tab
    by (auto simp: generic_process_filter_def find Let_def split: option.splits prod.splits)
      (erule filter_selectors_keys; simp)+
qed

lemma committing_creds_keys: "same_keys x (tg_kp_bprm_committing_creds kt h bv x)"
  by (simp add: same_keys_def keys_def fun_eq_iff)

lemma execve_map_update_loop_keys: "same_keys x (execve_map_update_loop us d n i x)"
proof (induction n arbitrary: i x)
  case (Suc n)
  have w: "same_keys x (execve_map_write pid (\<lambda>v. v\<lparr>ev_bin := b v\<rparr>) x)" for pid b
    by (rule same_keys_write) simp
  show ?case
    by (auto simp: Let_def split: option.split intro!: Suc same_keys_trans [OF w Suc])
qed simp

lemma execve_map_update_keys: "same_keys x (fst (execve_map_update bd us d x))"
  by (simp add: execve_map_update_def execve_map_update_loop_keys split: option.split)

lemma send_cgrp_event_aux: "aux_out os (snd (send_cgrp_event bd kc kt xs p t c op (cs, os)))"
  by (auto simp: send_cgrp_event_def Let_def split: option.split intro: aux_out_metric)

lemma cg_step_aux: "cg_step st st' \<Longrightarrow> aux_out (snd st) (snd st')"
proof (induction rule: cg_step.induct)
  case (cg_mkdir st bd kc kt xs cgrp path)
  show ?case
    by (cases st) (auto simp: tg_tp_cgrp_mkdir_def Let_def split: option.split prod.split intro!: send_cgrp_event_aux)
next
  case (cg_rmdir st stale bd kc kt xs cgrp path)
  show ?case
    by (cases st) (auto simp: tg_tp_cgrp_rmdir_def cgrp_forget_def Let_def split: option.split intro!: send_cgrp_event_aux)
next
  case (cg_release st stale bd kc kt xs cgrp path)
  show ?case
    by (cases st) (auto simp: tg_tp_cgrp_release_def cgrp_forget_def Let_def split: option.split intro!: send_cgrp_event_aux)
qed auto

section \<open>A hit of a generic sensor\<close>

text \<open>Whatever the policy, a complete run keeps the keys of the table and sends nothing about the life of processes.\<close>

definition life_kept :: "gen_state \<Rightarrow> gen_state \<Rightarrow> bool" where
  "life_kept s t \<longleftrightarrow> same_keys (gs_x s) (gs_x t) \<and> aux_out (gs_os s) (gs_os t)"

lemma life_kept_trans: "life_kept a b \<Longrightarrow> life_kept b c \<Longrightarrow> life_kept a c"
  by (auto simp: life_kept_def intro: same_keys_trans aux_out_trans)

lemma life_kept_refl [simp]: "life_kept s s"
  by (simp add: life_kept_def)

lemma life_kept_out: "gs_x t = gs_x s \<Longrightarrow> out_kept (gs_os t) = out_kept (gs_os s) \<Longrightarrow> life_kept s t"
  by (simp add: life_kept_def aux_out_kept)

lemma refresh_entry_keys: "same_keys x (refresh_entry fl bd gx e x)"
  unfolding refresh_entry_def Let_def by (auto intro!: same_keys_trans [OF same_keys_write same_keys_write] same_keys_write)

lemma generic_output_life: "life_kept s (generic_output fl bd gx op s)"
  by (simp add: life_kept_def generic_output_def Let_def refresh_entry_keys aux_out_metric split: option.split)

lemma generic_prog_life: "life_kept s (fst (run_prog stale fl bd ok gx p s))"
proof (cases "p \<in> {TAIL_CALL_FILTER, TAIL_CALL_ACTIONS, TAIL_CALL_SEND}")
  case False
  with quiet_prog [of p stale fl bd ok gx s] table_prog [of p stale fl bd ok gx s] show ?thesis
    by (intro life_kept_out) (simp_all add: quiet_def)
next
  case True
  obtain ps r where f: "generic_process_filter bd (kfilter_of gx) \<lparr>ps_x = gs_x s, ps_path = gs_path s, ps_msg = gs_e s\<rparr> = (ps, r)" by fastforce
  from generic_process_filter_keys [OF f] have "life_kept s (fst (generic_filter_prog fl bd ok gx s))"
    by (simp add: generic_filter_prog_def f life_kept_def Let_def)
  with True show ?thesis
    by (auto simp: run_prog_def generic_output_life intro: life_kept_out [OF actions_prog_out])
qed

lemma generic_event_life: "life_kept s (fst (generic_event stale fl bd gx rv s))"
proof -
  have "life_kept s (fst (start_prog fl bd (has_prog fl bd) gx rv s))"
    using quiet_start [of fl bd "has_prog fl bd" gx rv s] by (intro life_kept_out) (simp_all add: quiet_def)
  then show ?thesis
    unfolding generic_event_def
    by (intro gen.run_chain_inv [where J = "\<lambda>_ _. True" and I = "life_kept s"])
      (auto simp: ends_def start_has intro: life_kept_trans [OF _ generic_prog_life])
qed

lemma lsm_output_life: "life_kept s (fst (generic_lsm_output stale bd gx s))"
proof -
  have hash: "life_kept s (append_hash bd gx e s)" for e
    by (rule life_kept_out) (simp_all add: append_hash_def Let_def split: option.split)
  have "life_kept t (fst (try_override stale gx t))" for t
    by (rule life_kept_out) simp_all
  from life_kept_trans [OF hash this] life_kept_trans [OF life_kept_trans [OF hash generic_output_life] this] show ?thesis
    by (simp add: generic_lsm_output_def Let_def split: option.split)
qed

lemma loader_life: "ls_x (loader_kprobe bd gx pe mm s) = ls_x s" "aux_out (ls_os s) (ls_os (loader_kprobe bd gx pe mm s))"
  by (auto simp: loader_kprobe_def Let_def split: option.split intro: aux_out_metric)

section \<open>Runs of the hooks\<close>

inductive hook :: "build \<Rightarrow> sensor \<Rightarrow> sensor \<Rightarrow> bool" for bd where
  hook_fork: "hook bd se (event_wake_up_new_task bd kf se)"
| hook_creds: "hook bd se (se\<lparr>se_x := tg_kp_bprm_committing_creds kt h bv (se_x se)\<rparr>)"
| hook_exec: "hook bd se (tracepoint_execve bd ke se)"
| hook_exit: "hook bd se (event_exit_acct_process bd kt ktime code se)"
| hook_ctty: "hook bd se (event_exit_disassociate_ctty bd kt on_exit ktime code se)"
| hook_update: "hook bd se (se\<lparr>se_x := fst (execve_map_update bd us d (se_x se))\<rparr>)"
| hook_generic: "gs_x gs = se_x se \<Longrightarrow> gs_os gs = se_os se \<Longrightarrow> gs' = fst (generic_event stale fl bd gx rv gs) \<Longrightarrow>
    hook bd se (se\<lparr>se_x := gs_x gs', se_os := gs_os gs'\<rparr>)"
| hook_lsm: "gs_x gs = se_x se \<Longrightarrow> gs_os gs = se_os se \<Longrightarrow> gs' = fst (generic_lsm_output stale bd gx gs) \<Longrightarrow>
    hook bd se (se\<lparr>se_x := gs_x gs', se_os := gs_os gs'\<rparr>)"
| hook_loader: "ls_x ls = se_x se \<Longrightarrow> ls_os ls = se_os se \<Longrightarrow>
    hook bd se (se\<lparr>se_os := ls_os (loader_kprobe bd gx pe mm ls)\<rparr>)"
| hook_cgroup: "cg_step (se_cg se, se_os se) (cs, os) \<Longrightarrow> hook bd se (se\<lparr>se_cg := cs, se_os := os\<rparr>)"

inductive_cases hookE: "hook bd se se'"

abbreviation hooks :: "build \<Rightarrow> sensor \<Rightarrow> sensor \<Rightarrow> bool" where
  "hooks bd \<equiv> (hook bd)\<^sup>*\<^sup>*"

text \<open>The keys after a hook: unchanged, one entry keyed by its own pid, or one entry gone.\<close>

lemma hook_keys:
  assumes "hook bd se se'"
  obtains (same) "keys (se_x se') = keys (se_x se)"
    | (new) pid kt where "keys (se_x se') = (keys (se_x se))(pid \<mapsto> \<lparr>ek_pid = pid, ek_ktime = kt\<rparr>)"
    | (gone) pid where "keys (se_x se') = (keys (se_x se))(pid := None)"
proof -
  have del: "keys (execve_map_delete pid x) = (keys x)(pid := None)" for pid x
    by (auto simp: keys_def fun_eq_iff)
  have exit: thesis if "se' = event_exit_send bd pid ktime code se" for pid ktime code
    by (rule exit_hook_cases [OF that]) (use same gone del in auto)
  from assms show ?thesis
  proof cases
    case (hook_fork kf)
    then show ?thesis by (cases rule: fork_hook_cases [OF hook_fork refl]) (use same new in auto)
  next
    case (hook_exec ke)
    then show ?thesis
      by (cases rule: exec_hook_cases [OF hook_exec refl]) (use same new in \<open>auto simp: same_keys_def split: if_splits\<close>)
  next
    case (hook_exit kt ktime code)
    then show ?thesis by (intro exit) (simp add: event_exit_acct_process_def)
  next
    case (hook_ctty kt on_exit ktime code)
    then show ?thesis using exit same by (auto simp: event_exit_disassociate_ctty_def split: if_splits)
  next
    case (hook_generic gs gs' stale fl gx rv)
    then show ?thesis using generic_event_life same by (fastforce simp: same_keys_def life_kept_def)
  next
    case (hook_lsm gs gs' stale gx)
    then show ?thesis using lsm_output_life same by (fastforce simp: same_keys_def life_kept_def)
  qed (use same committing_creds_keys execve_map_update_keys in \<open>auto simp: same_keys_def\<close>)
qed

definition keyed :: "sensor \<Rightarrow> bool" where
  "keyed se \<longleftrightarrow> (\<forall>pid k. keys (se_x se) pid = Some k \<and> ek_ktime k \<noteq> 0 \<longrightarrow> ek_pid k = pid)"

lemma hook_keyed: "hook bd se se' \<Longrightarrow> keyed se \<Longrightarrow> keyed se'"
  by (erule hook_keys) (auto simp: keyed_def split: if_splits)

section \<open>Properties of all runs\<close>

text \<open>
  C12. Every live entry is filed under its own pid: from a table with this property (the empty one, or what
  user space puts there at startup), after any sequence of program runs, an entry with a nonzero time found
  under a pid carries this pid in its key, so a key read from the table names the process it was read for.
\<close>

theorem table_keyed_by_pid:
  assumes "hooks bd se se'"
    and "\<forall>pid v. table (se_x se) pid = Some v \<and> ek_ktime (ev_key v) \<noteq> 0 \<longrightarrow> ek_pid (ev_key v) = pid"
    and "table (se_x se') pid = Some v" and "ek_ktime (ev_key v) \<noteq> 0"
  shows "ek_pid (ev_key v) = pid"
proof -
  have "keyed se" unfolding keyed_def keys_def
  proof (intro allI impI, elim conjE)
    fix pid k assume "map_option ev_key (table (se_x se) pid) = Some k" and k: "ek_ktime k \<noteq> 0"
    then obtain v where "table (se_x se) pid = Some v" "k = ev_key v" by blast
    with assms(2) k show "ek_pid k = pid" by blast
  qed
  with assms(1) have "keyed se'" by (induction rule: rtranclp_induct) (assumption, rule hook_keyed)
  moreover have "keys (se_x se') pid = Some (ev_key v)" using assms(3) by (simp add: keys_def)
  ultimately show ?thesis using assms(4) by (simp add: keyed_def)
qed

lemma fork_drift:
  assumes "finite (dom (table (se_x se)))"
  shows "finite (dom (table (se_x (event_wake_up_new_task bd kf se)))) \<and> drift (se_x (event_wake_up_new_task bd kf se)) = drift (se_x se)"
proof -
  define tgid where "tgid = kt_tgid (kf_kt kf) (kf_task kf)"
  obtain x1 r where g: "execve_map_get tgid (se_x se) = (x1, r)" by fastforce
  note D = drift_get [OF assms g]
  have "se_x (event_wake_up_new_task bd kf se) \<in> {se_x se, x1} \<union> range (\<lambda>v. execve_map_write tgid (\<lambda>_. v) x1)"
  proof (cases "kf_task kf = 0 \<or> event_find_parent_of (kf_kt kf) (se_x se) (kf_task kf) = None \<or> r = None")
    case True
    then consider "kf_task kf = 0 \<or> event_find_parent_of (kf_kt kf) (se_x se) (kf_task kf) = None"
      | p where "kf_task kf \<noteq> 0" "event_find_parent_of (kf_kt kf) (se_x se) (kf_task kf) = Some p" "r = None"
      by (cases "event_find_parent_of (kf_kt kf) (se_x se) (kf_task kf)") auto
    then show ?thesis
      by cases (use g in \<open>auto simp: event_wake_up_new_task_def Let_def tgid_def split_beta\<close>)
  next
    case False
    then obtain ppid parent cur where t: "kf_task kf \<noteq> 0"
      "event_find_parent_of (kf_kt kf) (se_x se) (kf_task kf) = Some (ppid, parent)" "r = Some cur" by auto
    with g show ?thesis
      by (cases "ek_ktime (ev_key cur) \<noteq> 0") (simp_all add: event_wake_up_new_task_def Let_def tgid_def split_beta)
  qed
  then show ?thesis using assms D drift_write [of x1 tgid] by auto
qed

lemma hook_drift:
  assumes "hook bd se se'" and fin: "finite (dom (table (se_x se)))"
  shows "finite (dom (table (se_x se'))) \<and> drift (se_x se') = drift (se_x se)"
proof -
  have same: ?thesis if "same_keys (se_x se) (se_x se')"
    using same_keys_dom [OF that] same_keys_drift [OF that] fin by simp
  have exit: ?thesis if "se' = event_exit_send bd pid ktime code se" for pid ktime code
    by (rule exit_hook_cases [OF that]) (use fin drift_delete [OF fin] in simp_all)
  from assms(1) show ?thesis
  proof cases
    case (hook_fork kf)
    then show ?thesis using fork_drift [OF fin] by simp
  next
    case (hook_exec ke)
    show ?thesis
    proof (cases rule: exec_hook_cases [OF hook_exec refl])
      case 1
      then show ?thesis by (intro same)
    next
      case sent: (2 os ev sz)
      then have "dom (keys (se_x se')) = dom (keys (se_x se))" by auto
      then have "dom (table (se_x se')) = dom (table (se_x se))" by (simp add: keys_def dom_def)
      with sent(5) fin show ?thesis by (simp add: drift_def)
    qed
  next
    case (hook_exit kt ktime code)
    then show ?thesis by (intro exit) (simp add: event_exit_acct_process_def)
  next
    case (hook_ctty kt on_exit ktime code)
    then show ?thesis using exit fin by (auto simp: event_exit_disassociate_ctty_def split: if_splits)
  next
    case (hook_generic gs gs' stale fl gx rv)
    then show ?thesis using generic_event_life [of gs stale fl bd gx rv] by (intro same) (simp add: life_kept_def)
  next
    case (hook_lsm gs gs' stale gx)
    then show ?thesis using lsm_output_life [of gs stale bd gx] by (intro same) (simp add: life_kept_def)
  next
    case (hook_loader ls gx pe mm)
    then show ?thesis by (intro same) simp
  next
    case (hook_creds kt h bv)
    then show ?thesis by (intro same) (simp add: committing_creds_keys)
  next
    case (hook_update us d)
    then show ?thesis by (intro same) (simp add: execve_map_update_keys)
  next
    case (hook_cgroup cs os)
    then show ?thesis by (intro same) simp
  qed
qed

text \<open>
  C11. The entry counter stays right: from any finite table, after any sequence of program runs the table is
  finite and the difference between the counter that user space reads and the number of entries is
  what it was at the start (modulo the counter's width), whatever stores the kernel refused.
\<close>

theorem entry_counter_exact:
  assumes "hooks bd se se'" and "finite (dom (table (se_x se)))"
    and "xs_stats (se_x se) = Some c" and "c MAP_STATS_COUNT = of_nat (card (dom (table (se_x se))))"
  shows "\<exists>c'. xs_stats (se_x se') = Some c' \<and> c' MAP_STATS_COUNT = of_nat (card (dom (table (se_x se'))))"
proof -
  from assms(1,2) have "finite (dom (table (se_x se'))) \<and> drift (se_x se') = drift (se_x se)"
    by (induction rule: rtranclp_induct) (auto dest: hook_drift)
  then show ?thesis using assms(3,4) by (auto simp: drift_def)
qed

section \<open>Every exit belongs to a process that was announced\<close>

text \<open>The keys that clone and exec messages announce, and the exits they explain.\<close>

definition told :: "(tg_event \<times> u64) list \<Rightarrow> msg_execve_key set" where
  "told ms = (\<Union>m \<in> set ms. case fst m of
     Ev_clone c \<Rightarrow> {\<lparr>ek_pid = ce_tgid c, ek_ktime = ce_ktime c\<rparr>}
   | Ev_execve e \<Rightarrow> {\<lparr>ek_pid = mp_pid (ee_process e), ek_ktime = mp_ktime (ee_process e)\<rparr>}
   | _ \<Rightarrow> {})"

fun matched :: "msg_execve_key set \<Rightarrow> (tg_event \<times> u64) list \<Rightarrow> bool" where
  "matched K [] = True"
| "matched K (m # ms) = ((case fst m of Ev_exit x \<Rightarrow> me_current x \<in> K | _ \<Rightarrow> True) \<and> matched (K \<union> told [m]) ms)"

lemma told_append: "told (xs @ ys) = told xs \<union> told ys"
  by (simp add: told_def)

lemma matched_append: "matched K (xs @ ys) \<longleftrightarrow> matched K xs \<and> matched (K \<union> told xs) ys"
proof (induction xs arbitrary: K)
  case (Cons x xs)
  have "K \<union> told [x] \<union> told xs = K \<union> told (x # xs)" using told_append [of "[x]" xs] by auto
  then show ?case by (simp add: Cons.IH)
qed (simp add: told_def)

text \<open>Only the messages about processes count.\<close>

lemma told_process: "told (filter is_process ms) = told ms"
  by (auto simp: told_def is_process_def split: tg_event.splits)

lemma matched_process: "matched K (filter is_process ms) = matched K ms"
proof (induction ms arbitrary: K)
  case (Cons m ms)
  have "told [m] = {}" if "\<not> is_process m" using that by (auto simp: told_def is_process_def split: tg_event.splits)
  with Cons show ?case by (auto simp: is_process_def split: tg_event.splits)
qed simp

definition accepting :: "out_state \<Rightarrow> bool" where
  "accepting os \<longleftrightarrow> (\<forall>r ms sz. 0 \<le> os_answer os r ms sz)"

definition own_key :: "u32 \<Rightarrow> msg_execve_key \<Rightarrow> bool" where
  "own_key pid k \<longleftrightarrow> ek_pid k = pid"

definition lifecycle_ok :: "msg_execve_key set \<Rightarrow> sensor \<Rightarrow> bool" where
  "lifecycle_ok K se \<longleftrightarrow> rs_options (se_rate se) = None \<and> accepting (se_os se) \<and> matched K (os_sent (se_os se))
     \<and> (\<forall>pid k. keys (se_x se) pid = Some k \<and> ek_ktime k \<noteq> 0 \<longrightarrow> own_key pid k \<and> k \<in> K \<union> told (os_sent (se_os se)))"

lemma sent_accepted:
  assumes "accepting os"
  shows "os_sent (event_output_metric bd op ev sz os) = os_sent os @ [(ev, sz)]"
proof -
  have "\<not> os_answer os r ms sz < 0" for r ms sz using assms by (simp add: accepting_def not_less)
  then show ?thesis
    by (simp add: event_output_metric_def perf_event_output_metric_def ring_output_def Let_def)
qed

lemma accepting_frame: "accepting (event_output_metric bd op ev sz os) = accepting os"
  by (simp add: accepting_def)

lemma aux_out_matched:
  assumes "aux_out os os'"
  shows "accepting os \<Longrightarrow> accepting os'" "matched K (os_sent os) \<Longrightarrow> matched K (os_sent os')"
    and "told (os_sent os) \<subseteq> told (os_sent os')"
  using assms matched_process [of K "os_sent os"] matched_process [of K "os_sent os'"] told_process [of "os_sent os"] told_process [of "os_sent os'"]
  by (simp_all add: aux_out_def accepting_def process_events_def)

text \<open>The three ways a run extends the messages.\<close>

lemma ok_quiet:
  assumes "lifecycle_ok K se" and "aux_out (se_os se) (se_os se')" and "rs_options (se_rate se') = None"
    and "\<And>pid k. keys (se_x se') pid = Some k \<Longrightarrow> keys (se_x se) pid = Some k"
  shows "lifecycle_ok K se'"
  using assms(1) aux_out_matched [OF assms(2)] assms(3,4) unfolding lifecycle_ok_def by blast

lemma ok_announce:
  assumes "lifecycle_ok K se" and "aux_out (se_os se) os" and "rs_options (se_rate se') = None"
    and "se_os se' = event_output_metric bd op ev sz os" and "told [(ev, sz)] = {\<lparr>ek_pid = pid, ek_ktime = kt\<rparr>}"
    and "\<forall>x. ev \<noteq> Ev_exit x"
    and "keys (se_x se') = keys (se_x se) \<or> keys (se_x se') = (keys (se_x se))(pid \<mapsto> \<lparr>ek_pid = pid, ek_ktime = kt\<rparr>)"
  shows "lifecycle_ok K se'"
proof -
  note A = aux_out_matched [OF assms(2)]
  have acc: "accepting os" using A(1) assms(1) by (simp add: lifecycle_ok_def)
  have sent: "os_sent (se_os se') = os_sent os @ [(ev, sz)]" using sent_accepted [OF acc] assms(4) by simp
  have "matched (K \<union> told (os_sent os)) [(ev, sz)]" using assms(6) by (auto split: tg_event.split)
  then have "matched K (os_sent (se_os se'))"
    using A(2) assms(1) by (simp add: lifecycle_ok_def sent matched_append)
  moreover have "told (os_sent (se_os se')) = told (os_sent os) \<union> {\<lparr>ek_pid = pid, ek_ktime = kt\<rparr>}"
    by (simp add: sent told_append assms(5))
  moreover have "own_key p k \<and> k \<in> K \<union> told (os_sent (se_os se'))"
    if "keys (se_x se') p = Some k" "ek_ktime k \<noteq> 0" for p k
  proof (cases "keys (se_x se) p = Some k")
    case True
    with that assms(1) A(3) calculation(2) show ?thesis unfolding lifecycle_ok_def by blast
  next
    case False
    with that assms(7) have "p = pid" "k = \<lparr>ek_pid = pid, ek_ktime = kt\<rparr>" by (auto split: if_splits)
    with calculation(2) show ?thesis by (simp add: own_key_def)
  qed
  ultimately show ?thesis
    using assms(3) acc unfolding lifecycle_ok_def by (auto simp: assms(4) accepting_frame)
qed

lemma ok_exit:
  assumes "lifecycle_ok K se" and "se' = event_exit_send bd pid ktime code se"
  shows "lifecycle_ok K se'"
proof (rule exit_hook_cases [OF assms(2)])
  have del: "keys (execve_map_delete pid x) = (keys x)(pid := None)" for x
    by (auto simp: keys_def fun_eq_iff)
  assume "se' = se" then show ?thesis using assms(1) by simp
next
  assume "se' = se\<lparr>se_x := execve_map_delete pid (se_x se)\<rparr>"
  then show ?thesis
    using assms(1) by (intro ok_quiet [OF assms(1)]) (auto simp: lifecycle_ok_def keys_def split: if_splits)
next
  fix k
  assume a: "keys (se_x se) pid = Some k" "ek_ktime k \<noteq> 0" "se_rate se' = se_rate se"
    "se_os se' = event_output_metric bd MSG_OP_EXIT
       (Ev_exit (exit_message pid ktime code (the (table (se_x se) pid)))) (of_nat SIZEOF_MSG_EXIT) (se_os se)"
    "me_current (exit_message pid ktime code (the (table (se_x se) pid))) = \<lparr>ek_pid = pid, ek_ktime = ek_ktime k\<rparr>"
    "se_x se' = execve_map_delete pid (se_x se)"
  have ok: "accepting (se_os se)" "matched K (os_sent (se_os se))" "own_key pid k" "k \<in> K \<union> told (os_sent (se_os se))"
    using assms(1) a(1,2) by (auto simp: lifecycle_ok_def)
  have "\<lparr>ek_pid = pid, ek_ktime = ek_ktime k\<rparr> = k" using ok(3) by (cases k) (simp add: own_key_def)
  with ok a(4,5) sent_accepted [OF ok(1)] have "matched K (os_sent (se_os se'))" by (simp add: matched_append)
  moreover have "told (os_sent (se_os se')) = told (os_sent (se_os se))"
    by (simp add: a(4) sent_accepted [OF ok(1)] told_append) (simp add: told_def)
  moreover have "keys (se_x se') = (keys (se_x se))(pid := None)" by (auto simp: a(6) keys_def fun_eq_iff)
  ultimately show ?thesis
    using assms(1) a(3,4) by (auto simp: lifecycle_ok_def accepting_frame split: if_splits)
qed

lemma hook_lifecycle_ok:
  assumes "hook bd se se'" and ok: "lifecycle_ok K se"
  shows "lifecycle_ok K se'"
proof -
  have rate: "rs_options (se_rate se) = None" using ok by (simp add: lifecycle_ok_def)
  have same: ?thesis if "same_keys (se_x se) (se_x se')" "se_os se' = se_os se" "se_rate se' = se_rate se"
    using that rate by (intro ok_quiet [OF ok]) (auto simp: same_keys_def)
  from assms(1) show ?thesis
  proof cases
    case (hook_fork kf)
    show ?thesis
    proof (cases rule: fork_hook_cases [OF hook_fork refl])
      case 1
      then show ?thesis using rate by (intro ok_quiet [OF ok]) auto
    next
      case (2 os msg)
      with rate show ?thesis by (intro ok_announce [OF ok 2(1)]) (auto simp: told_def)
    qed
  next
    case (hook_exec ke)
    show ?thesis
    proof (cases rule: exec_hook_cases [OF hook_exec refl])
      case 1
      then show ?thesis using rate by (intro ok_quiet [OF ok]) (auto simp: same_keys_def)
    next
      case (2 os ev sz)
      with rate show ?thesis by (intro ok_announce [OF ok 2(1) _ 2(2)]) (auto simp: told_def)
    qed
  next
    case (hook_exit kt ktime code)
    then show ?thesis by (intro ok_exit [OF ok]) (simp add: event_exit_acct_process_def)
  next
    case (hook_ctty kt on_exit ktime code)
    then show ?thesis using ok_exit [OF ok] ok by (auto simp: event_exit_disassociate_ctty_def split: if_splits)
  next
    case (hook_generic gs gs' stale fl gx rv)
    then show ?thesis
      using generic_event_life [of gs stale fl bd gx rv] rate by (intro ok_quiet [OF ok]) (simp_all add: life_kept_def same_keys_def)
  next
    case (hook_lsm gs gs' stale gx)
    then show ?thesis
      using lsm_output_life [of gs stale bd gx] rate by (intro ok_quiet [OF ok]) (simp_all add: life_kept_def same_keys_def)
  next
    case (hook_loader ls gx pe mm)
    then show ?thesis using loader_life(2) [of ls bd gx pe mm] rate by (intro ok_quiet [OF ok]) simp_all
  next
    case (hook_cgroup cs os)
    then show ?thesis using cg_step_aux rate by (intro ok_quiet [OF ok]) fastforce+
  next
    case (hook_creds kt h bv)
    then show ?thesis by (intro same) (simp_all add: committing_creds_keys)
  next
    case (hook_update us d)
    then show ?thesis by (intro same) (simp_all add: execve_map_update_keys)
  qed
qed

lemma hooks_lifecycle_ok:
  assumes "hooks bd se se'" and "os_sent (se_os se) = []"
    and "rs_options (se_rate se) = None" and "\<forall>r ms sz. 0 \<le> os_answer (se_os se) r ms sz"
    and "\<forall>pid v. table (se_x se) pid = Some v \<and> ek_ktime (ev_key v) \<noteq> 0 \<longrightarrow> ek_pid (ev_key v) = pid"
  shows "lifecycle_ok {ev_key v |pid v. table (se_x se) pid = Some v} se'" (is "lifecycle_ok ?K se'")
proof -
  have "own_key pid k \<and> k \<in> ?K" if key: "keys (se_x se) pid = Some k" and k: "ek_ktime k \<noteq> 0" for pid k
  proof -
    obtain v where v: "table (se_x se) pid = Some v" "k = ev_key v" using key by (auto simp: keys_def)
    with assms(5) k have "own_key pid k" unfolding own_key_def by blast
    with v show ?thesis by auto
  qed
  then have "lifecycle_ok ?K se" using assms(2-4) unfolding lifecycle_ok_def accepting_def by auto
  with assms(1) show ?thesis by (induction rule: rtranclp_induct) (assumption, rule hook_lifecycle_ok)
qed

text \<open>
  C1. User space can always tell whose exit it hears of: when events are not rate limited and the ring takes
  every message, in any sequence of program runs that starts with no message sent, each exit message carries
  the key of a process that an earlier clone or exec message announced, or that was in the table at the start.
\<close>

theorem exits_are_announced:
  assumes "hooks bd se se'" and "os_sent (se_os se) = []"
    and "rs_options (se_rate se) = None" and "\<forall>r ms sz. 0 \<le> os_answer (se_os se) r ms sz"
    and "\<forall>pid v. table (se_x se) pid = Some v \<and> ek_ktime (ev_key v) \<noteq> 0 \<longrightarrow> ek_pid (ev_key v) = pid"
    and "os_sent (se_os se') = before @ (Ev_exit msg, n) # rest"
  shows "me_current msg \<in> told before \<or> (\<exists>pid v. table (se_x se) pid = Some v \<and> ev_key v = me_current msg)"
proof -
  have "lifecycle_ok {ev_key v |pid v. table (se_x se) pid = Some v} se'" by (rule hooks_lifecycle_ok [OF assms(1-5)])
  then have "me_current msg \<in> {ev_key v |pid v. table (se_x se) pid = Some v} \<union> told before"
    using assms(6) by (simp add: lifecycle_ok_def matched_append)
  then show ?thesis by (elim UnE CollectE exE conjE) (metis, simp)
qed

section \<open>Concrete runs\<close>

text \<open>A sensor that accepts every message, one tracked process, and the run in which it exits.\<close>

definition se_open :: sensor where
  "se_open = se_example\<lparr>se_os := busy_out\<lparr>os_answer := (\<lambda>_ _ _. 0)\<rparr>, se_rate := (se_rate se_example)\<lparr>rs_options := None\<rparr>\<rparr>"

lemma se_open_table: "table (se_x se_open) 8 = Some (tracked_value 8 5)"
  by (simp add: se_open_def se_example_table)

lemma se_open_keyed: "table (se_x se_open) pid = Some v \<and> ek_ktime (ev_key v) \<noteq> 0 \<longrightarrow> ek_pid (ev_key v) = pid"
  by (auto simp: se_open_def se_example_def xs_example_def map_lookup_elem_def tracked_value_def zero_execve_map_value_def
      zero_key_def split: if_splits)

lemma se_open_exit: "hooks build_v61 se_open (event_exit_send build_v61 8 90 0 se_open)"
proof -
  have "event_exit_acct_process build_v61 (kt_example\<lparr>kt_pid_tgid := push_bit 32 8\<rparr>) 90 0 se_open
      = event_exit_send build_v61 8 90 0 se_open"
    by (simp add: event_exit_acct_process_def current_tgid_def)
  then show ?thesis by (metis hook_exit r_into_rtranclp)
qed

theorem exits_are_announced_witness:
  "\<exists>msg. os_sent (se_os (event_exit_send build_v61 8 90 0 se_open)) = [(Ev_exit msg, of_nat SIZEOF_MSG_EXIT)]
     \<and> (\<exists>pid v. table (se_x se_open) pid = Some v \<and> ev_key v = me_current msg)"
proof -
  let ?msg = "exit_message 8 90 0 (tracked_value 8 5)"
  have acc: "\<forall>r ms sz. 0 \<le> os_answer (se_os se_open) r ms sz" by (simp add: se_open_def)
  have nil: "os_sent (se_os se_open) = []" by (simp add: se_open_def busy_out_def)
  have "ek_ktime (ev_key (tracked_value 8 5)) \<noteq> 0" "se_exit se_open \<noteq> None"
    by (simp_all add: tracked_value_def se_open_def se_example_def)
  then have sent: "os_sent (se_os (event_exit_send build_v61 8 90 0 se_open)) = [] @ (Ev_exit ?msg, of_nat SIZEOF_MSG_EXIT) # []"
    using exit_cases [OF se_open_table, of build_v61 90 0] sent_accepted [of "se_os se_open"] acc nil
    by (simp add: accepting_def)
  have "rs_options (se_rate se_open) = None" by (simp add: se_open_def)
  from exits_are_announced [OF se_open_exit nil this acc _ sent] se_open_keyed sent
  show ?thesis by (auto simp: told_def)
qed

theorem entry_counter_exact_witness:
  "\<exists>c'. xs_stats (se_x (event_exit_send build_v61 8 90 0 (se_open\<lparr>se_x := (se_x se_open)\<lparr>xs_stats := Some (\<lambda>_. 2)\<rparr>\<rparr>))) = Some c'"
proof -
  let ?se = "se_open\<lparr>se_x := (se_x se_open)\<lparr>xs_stats := Some (\<lambda>_. 2)\<rparr>\<rparr>"
  have dom: "dom (table (se_x ?se)) = {8, 10}"
    by (auto simp: se_open_def se_example_def xs_example_def map_lookup_elem_def split: if_splits)
  have "event_exit_acct_process build_v61 (kt_example\<lparr>kt_pid_tgid := push_bit 32 8\<rparr>) 90 0 ?se
      = event_exit_send build_v61 8 90 0 ?se"
    by (simp add: event_exit_acct_process_def current_tgid_def)
  then have "hooks build_v61 ?se (event_exit_send build_v61 8 90 0 ?se)" by (metis hook_exit r_into_rtranclp)
  from entry_counter_exact [OF this, of "\<lambda>_. 2"] dom show ?thesis by auto
qed

theorem table_keyed_by_pid_witness:
  "ek_pid (ev_key (the (table (se_x se_open) 8))) = 8"
proof -
  have "ek_ktime (ev_key (tracked_value 8 5)) \<noteq> 0" by (simp add: tracked_value_def)
  with table_keyed_by_pid [of build_v61 se_open se_open 8 "tracked_value 8 5"] se_open_keyed se_open_table
  show ?thesis by simp
qed

end
