(* ===== verification/Generic_Selection.thy ===== *)
theory Generic_Selection
  imports Generic_Run
begin

text \<open>
  Which selector decides what happens on a hit of a hook: the process filter and the argument filters as phases of the chain of tail
  calls.
\<close>

section \<open>The selector that decides\<close>

lemma next_active_find:
  "next_active act k i = (case find (\<lambda>j. act ! j) [i..<i + k] of Some j \<Rightarrow> j | None \<Rightarrow> i + k)"
proof (induction k arbitrary: i)
  case (Suc k)
  have "[i..<i + Suc k] = i # [Suc i..<Suc i + k]" by (simp add: upt_conv_Cons)
  with Suc show ?case by (simp del: upt_Suc split: option.split)
qed simp

lemma find_upt_skip: "(\<And>m. i \<le> m \<Longrightarrow> m < j \<Longrightarrow> \<not> P m) \<Longrightarrow> i \<le> j \<Longrightarrow> j \<le> n \<Longrightarrow> find P [i..<n] = find P [j..<n]"
proof (induction j)
  case (Suc j)
  show ?case
  proof (cases "i = Suc j")
    case False
    then have "find P [i..<n] = find P [j..<n]" using Suc by auto
    also have "\<dots> = find P [Suc j..<n]" using Suc.prems False by (simp add: upt_conv_Cons)
    finally show ?thesis .
  qed simp
qed simp

lemma selector_arg_offset_cong [simp]:
  "selector_arg_offset bd am f (e\<lparr>gk_tailcall_index_selector := x\<rparr>) i en = selector_arg_offset bd am f e i en"
proof -
  have p: "arg_passes bd am (e\<lparr>gk_tailcall_index_selector := x\<rparr>) flt b = arg_passes bd am e flt b" for flt b
  proof -
    have g: "get_arg (e\<lparr>gk_tailcall_index_selector := x\<rparr>) i = get_arg e i" for i by (simp add: get_arg_def argsoff_at_def)
    have c: "gk_caps (e\<lparr>gk_tailcall_index_selector := x\<rparr>) = gk_caps e" by simp
    show ?thesis unfolding arg_passes_def g c ..
  qed
  have "arg_filters_loop bd am (e\<lparr>gk_tailcall_index_selector := x\<rparr>) f off k j b = arg_filters_loop bd am e f off k j b" for off k j b
    by (induction k arbitrary: j b) (simp_all add: p Let_def)
  then show ?thesis by (simp add: selector_arg_offset_def Let_def)
qed

text \<open>Whether the argument filters of an active selector pass, and the first selector for which they do.\<close>

definition selector_accepts :: "build \<Rightarrow> gen_ctx \<Rightarrow> byte list \<Rightarrow> bool \<Rightarrow> msg_generic_kprobe \<Rightarrow> nat \<Rightarrow> bool" where
  "selector_accepts bd gx f is_entry e i \<longleftrightarrow>
     sd_active (gk_sel e) ! i \<and> selector_arg_offset bd (gx_am gx) f e (of_nat i) is_entry \<noteq> 0"

definition entry_flavour :: "flavour \<Rightarrow> bool" where
  "entry_flavour fl \<longleftrightarrow> fl \<noteq> KRETPROBE \<and> fl \<noteq> URETPROBE"

text \<open>The result of the argument phase: the state with which the actions are run, or the rejection.\<close>

definition accept_state :: "build \<Rightarrow> gen_ctx \<Rightarrow> byte list \<Rightarrow> bool \<Rightarrow> msg_generic_kprobe \<Rightarrow> nat \<Rightarrow> gen_state \<Rightarrow> gen_state" where
  "accept_state bd gx f is_entry e i s =
     s\<lparr>gs_e := Some (e\<lparr>gk_tailcall_index_selector := of_nat i,
        gk_pass := of_nat (selector_arg_offset bd (gx_am gx) f e (of_nat i) is_entry)\<rparr>)\<rparr>"

definition reject_state :: "gen_ctx \<Rightarrow> msg_generic_kprobe \<Rightarrow> nat \<Rightarrow> gen_state \<Rightarrow> gen_state" where
  "reject_state gx e i s =
     s\<lparr>gs_e := Some (e\<lparr>gk_tailcall_index_selector := of_nat i\<rparr>), gs_rp := retprobe_map_clear (gk_func_id e) (gx_pid_tgid gx) (gs_rp s)\<rparr>"

lemma filter_arg_step:
  assumes "gs_e s = Some e" and "gx_filter_map gx (gk_idx e) = Some f" and "sd_active (gk_sel e) ! SELECTORS_ACTIVE"
    and "gk_tailcall_index_selector e = of_nat i" and "i \<le> 5" and "\<forall>j \<le> 5. sd_active (gk_sel e) ! j \<longrightarrow> selector_arg_offset bd (gx_am gx) f e (of_nat j) en \<noteq> 1"
    and "ok TAIL_CALL_ARGS" and "ok TAIL_CALL_ACTIONS"
  shows "generic_filter_arg bd ok gx en s =
    (if selector_accepts bd gx f en e i then (accept_state bd gx f en e i s, Tail TAIL_CALL_ACTIONS)
     else let n = next_selidx e i
          in if n \<le> 5 then (s\<lparr>gs_e := Some (e\<lparr>gk_tailcall_index_selector := of_nat n\<rparr>)\<rparr>, Tail TAIL_CALL_ARGS)
             else (reject_state gx e i s, Ret 0))"
proof -
  have i: "unat (gk_tailcall_index_selector e AND 7) = i" "unat (gk_tailcall_index_selector e) = i"
    using assms(4,5) unat_and_mask [of "of_nat i :: u32" 3] by (simp_all add: mask_eq_exp_minus_1 unsigned_of_nat take_bit_nat_eq_self)
  have "e = e\<lparr>gk_tailcall_index_selector := of_nat i\<rparr>" using assms(4) by simp
  moreover have "selector_arg_offset bd (gx_am gx) f e (of_nat i) en > 1" if "selector_accepts bd gx f en e i"
    using that assms(5,6) by (simp add: selector_accepts_def) (metis One_nat_def Suc_lessI gr0I)
  ultimately show ?thesis
    using assms(1-5,7,8) i
    by (auto simp: generic_filter_arg_def filter_args_def filter_args_reject_def selector_accepts_def accept_state_def reject_state_def
        tail_call_def upd_e_def Let_def SELECTORS_ACTIVE_def)
qed

lemma next_selidx_skips:
  assumes "n = next_selidx e i" and "i \<le> 5"
  shows "i < n" and "n \<le> 6" and "\<And>m. i < m \<Longrightarrow> m < n \<Longrightarrow> \<not> sd_active (gk_sel e) ! m"
proof -
  let ?a = "\<lambda>j. sd_active (gk_sel e) ! j"
  have n: "n = (case find ?a [Suc i..<6] of Some j \<Rightarrow> j | None \<Rightarrow> 6)"
    unfolding assms(1) next_selidx_def next_active_find using assms(2) by (simp add: numeral_eq_Suc)
  show "i < n" "n \<le> 6" unfolding n using assms(2) by (auto simp: find_Some_iff split: option.splits)
  show "\<not> sd_active (gk_sel e) ! m" if "i < m" "m < n" for m
  proof (cases "find ?a [Suc i..<6]")
    case None
    with n that show ?thesis by (auto simp: find_None_iff)
  next
    case (Some j)
    then obtain k where k: "k < length [Suc i..<6]" "j = [Suc i..<6] ! k" "\<forall>l<k. \<not> ?a ([Suc i..<6] ! l)" by (auto simp: find_Some_iff)
    have "n = j" using n Some by simp
    with k that have "m - Suc i < k" "[Suc i..<6] ! (m - Suc i) = m" by auto
    with k(3) show ?thesis by metis
  qed
qed

definition at_selector :: "msg_generic_kprobe \<Rightarrow> nat \<Rightarrow> gen_state \<Rightarrow> gen_state" where
  "at_selector e i s = s\<lparr>gs_e := Some (e\<lparr>gk_tailcall_index_selector := of_nat i\<rparr>)\<rparr>"

lemma filter_arg_step_at:
  assumes "gx_filter_map gx (gk_idx e) = Some f" and "sd_active (gk_sel e) ! SELECTORS_ACTIVE" and "i \<le> 5"
    and "\<forall>j \<le> 5. sd_active (gk_sel e) ! j \<longrightarrow> selector_arg_offset bd (gx_am gx) f e (of_nat j) en \<noteq> 1" and "ok TAIL_CALL_ARGS" and "ok TAIL_CALL_ACTIONS"
  shows "generic_filter_arg bd ok gx en (at_selector e i s) =
    (if selector_accepts bd gx f en e i then (accept_state bd gx f en e i s, Tail TAIL_CALL_ACTIONS)
     else if next_selidx e i \<le> 5 then (at_selector e (next_selidx e i) s, Tail TAIL_CALL_ARGS)
     else (reject_state gx e i s, Ret 0))"
  using filter_arg_step [of "at_selector e i s" "e\<lparr>gk_tailcall_index_selector := of_nat i\<rparr>" gx f i bd en ok] assms
  by (simp add: at_selector_def accept_state_def reject_state_def selector_accepts_def next_selidx_def Let_def)

lemma argument_phase:
  assumes "gx_filter_map gx (gk_idx e) = Some f" and "sd_active (gk_sel e) ! SELECTORS_ACTIVE" and "en = entry_flavour fl"
    and "\<forall>j \<le> 5. sd_active (gk_sel e) ! j \<longrightarrow> selector_arg_offset bd (gx_am gx) f e (of_nat j) en \<noteq> 1"
    and "has TAIL_CALL_ARGS" and "has TAIL_CALL_ACTIONS" and "step = (\<lambda>ok. run_prog stale fl bd ok gx)" and "i \<le> 5" and "8 - i \<le> n"
  shows "\<exists>k. 1 \<le> k \<and> k \<le> 6 - i \<and>
     (case find (selector_accepts bd gx f en e) [i..<6] of
        Some j \<Rightarrow> run_chain step has n (at_selector e i s, Tail TAIL_CALL_ARGS)
                  = run_chain step has (n - k) (accept_state bd gx f en e j s, Tail TAIL_CALL_ACTIONS)
      | None \<Rightarrow> \<exists>j. run_chain step has n (at_selector e i s, Tail TAIL_CALL_ARGS) = (reject_state gx e j s, 0, n - k))"
  using assms(8,9)
proof (induction "6 - i" arbitrary: i n rule: less_induct)
  case less
  obtain m where n: "n = Suc m" "0 < m" using less.prems by (cases n) auto
  let ?nx = "next_selidx e i" and ?P = "selector_accepts bd gx f en e"
  note skips = next_selidx_skips [of "next_selidx e i" e i, OF refl less.prems(1)]
  have start: "run_chain step has n (at_selector e i s, Tail TAIL_CALL_ARGS) =
     run_chain step has m (generic_filter_arg bd (\<lambda>q. has q \<and> 0 < m) gx en (at_selector e i s))"
    by (simp add: n(1) assms(3,7) run_prog_def entry_flavour_def)
  note step1 = filter_arg_step_at [OF assms(1,2) less.prems(1) assms(4), of "\<lambda>q. has q \<and> 0 < m" s, simplified assms(5,6) n(2) simp_thms]
  have upt: "[i..<6] = i # [Suc i..<6]" using less.prems(1) by (simp add: upt_conv_Cons)
  consider (acc) "?P i" | (nxt) "\<not> ?P i" "?nx \<le> 5" | (rej) "\<not> ?P i" "\<not> ?nx \<le> 5" by blast
  then show ?case
  proof cases
    case acc
    with start step1 n upt less.prems show ?thesis by (intro exI [of _ 1]) simp
  next
    case nxt
    have same: "find ?P [i..<6] = find ?P [?nx..<6]"
      by (rule find_upt_skip) (use nxt skips in \<open>auto simp: selector_accepts_def le_eq_less_or_eq\<close>)
    have "6 - ?nx < 6 - i" "8 - ?nx \<le> m" using nxt(2) skips(1) less.prems n by auto
    from less.hyps [OF this(1) nxt(2) this(2)] obtain k where "1 \<le> k" "k \<le> 6 - ?nx" and
      k: "case find ?P [?nx..<6] of
        Some j \<Rightarrow> run_chain step has m (at_selector e ?nx s, Tail TAIL_CALL_ARGS)
                  = run_chain step has (m - k) (accept_state bd gx f en e j s, Tail TAIL_CALL_ACTIONS)
      | None \<Rightarrow> \<exists>j. run_chain step has m (at_selector e ?nx s, Tail TAIL_CALL_ARGS) = (reject_state gx e j s, 0, m - k)"
      by blast
    then show ?thesis using start step1 nxt same n skips by (intro exI [of _ "Suc k"]) (simp split: option.splits)
  next
    case rej
    then have "find ?P [i..<6] = None"
      using skips by (auto simp: find_None_iff selector_accepts_def le_eq_less_or_eq)
    with rej start step1 n less.prems show ?thesis by (intro exI [of _ 1]) auto
  qed
qed

text \<open>
  C6. The first selector whose argument filters pass decides. When the arguments are collected and some selectors are active,
  the chain tries the active selectors in order, with at most six tail calls; it goes on to the actions of the first
  one whose filters accept the arguments, and when there is none it forgets the return probe of the call and returns without an event.
\<close>

theorem first_selector_decides:
  assumes "gs_e s = Some e" and "gk_tailcall_index_selector e = 0"
    and "gx_filter_map gx (gk_idx e) = Some f" and "sd_active (gk_sel e) ! SELECTORS_ACTIVE" and "en = entry_flavour fl"
    and "\<forall>j \<le> 5. sd_active (gk_sel e) ! j \<longrightarrow> selector_arg_offset bd (gx_am gx) f e (of_nat j) en \<noteq> 1"
    and "step = (\<lambda>ok. run_prog stale fl bd ok gx)" and "8 \<le> n"
  shows "\<exists>k. 1 \<le> k \<and> k \<le> 6 \<and>
     (case find (selector_accepts bd gx f en e) [0..<6] of
        Some j \<Rightarrow> run_chain step (has_prog fl bd) n (s, Tail TAIL_CALL_ARGS)
                  = run_chain step (has_prog fl bd) (n - k) (accept_state bd gx f en e j s, Tail TAIL_CALL_ACTIONS)
      | None \<Rightarrow> \<exists>j. run_chain step (has_prog fl bd) n (s, Tail TAIL_CALL_ARGS) = (reject_state gx e j s, 0, n - k))"
proof -
  have "e\<lparr>gk_tailcall_index_selector := of_nat 0\<rparr> = e" using assms(2) by simp
  then have at: "at_selector e 0 s = s" using assms(1) by (simp add: at_selector_def)
  have "has_prog fl bd TAIL_CALL_ARGS" "has_prog fl bd TAIL_CALL_ACTIONS" "(0 :: nat) \<le> 5" "8 - 0 \<le> n" using assms(8) by (simp_all add: has_prog_def)
  from argument_phase [OF assms(3-6) this(1,2) assms(7) this(3,4), of s] show ?thesis unfolding at diff_zero .
qed

definition e_active :: msg_generic_kprobe where
  "e_active = e_example\<lparr>gk_sel := (gk_sel e_example)\<lparr>sd_active := True # replicate 30 False @ [True]\<rparr>, gk_tailcall_index_selector := 0\<rparr>"

lemma e_active_accepts: "selector_accepts build_v61 gx_example g_example True e_active 0" "sd_active (gk_sel e_active) ! SELECTORS_ACTIVE"
  "j \<le> 5 \<Longrightarrow> sd_active (gk_sel e_active) ! j \<Longrightarrow> j = 0"
proof -
  have "rd32 (get_arg e_active 0) 0 = 7"
    using e_arg by (simp add: e_active_def get_arg_def argsoff_at_def e_example_def msg_example_def)
  then show "selector_accepts build_v61 gx_example g_example True e_active 0"
    by (simp add: selector_accepts_def g_offset gx_example_def) (simp add: e_active_def)
  show "sd_active (gk_sel e_active) ! SELECTORS_ACTIVE" by (simp add: e_active_def SELECTORS_ACTIVE_def nth_Cons' nth_append)
  show "j \<le> 5 \<Longrightarrow> sd_active (gk_sel e_active) ! j \<Longrightarrow> j = 0" by (cases j) (simp_all add: e_active_def nth_append)
qed

theorem first_selector_decides_witness:
  "\<exists>n s'. run_chain (\<lambda>ok. run_prog id KPROBE build_v61 ok gx_example) (has_prog KPROBE build_v61) 8 (gs_example\<lparr>gs_e := Some e_active\<rparr>, Tail TAIL_CALL_ARGS)
   = run_chain (\<lambda>ok. run_prog id KPROBE build_v61 ok gx_example) (has_prog KPROBE build_v61) n (s', Tail TAIL_CALL_ACTIONS)"
proof -
  let ?s = "gs_example\<lparr>gs_e := Some e_active\<rparr>"
  have "gs_e ?s = Some e_active" "gk_tailcall_index_selector e_active = 0" "gx_filter_map gx_example (gk_idx e_active) = Some g_example"
    "True = entry_flavour KPROBE"
    by (simp_all add: e_active_def e_example_def msg_example_def gx_example_def entry_flavour_def)
  moreover have "selector_arg_offset build_v61 (gx_am gx_example) g_example e_active (of_nat j) True \<noteq> 1" if "j = 0" for j
    using that by (simp add: gx_example_def g_offset)
  then have "\<forall>j \<le> 5. sd_active (gk_sel e_active) ! j \<longrightarrow> selector_arg_offset build_v61 (gx_am gx_example) g_example e_active (of_nat j) True \<noteq> 1"
    using e_active_accepts(3) by blast
  moreover have "find (selector_accepts build_v61 gx_example g_example True e_active) [0..<6] = Some 0"
    using e_active_accepts(1) by (simp add: upt_conv_Cons)
  ultimately show ?thesis
    using first_selector_decides [of ?s e_active gx_example g_example True KPROBE build_v61 _ id 8, OF _ _ _ e_active_accepts(2) _ _ refl] by auto
qed

section \<open>The process filter in the chain\<close>

definition ps_of :: "gen_state \<Rightarrow> pf_state" where
  "ps_of s = \<lparr>ps_x = gs_x s, ps_path = gs_path s, ps_msg = gs_e s\<rparr>"

definition put_ps :: "pf_state \<Rightarrow> gen_state \<Rightarrow> gen_state" where
  "put_ps ps s = s\<lparr>gs_x := ps_x ps, gs_path := ps_path ps, gs_e := ps_msg ps\<rparr>"

lemma put_ps_simps [simp]: "ps_of (put_ps ps s) = ps" "put_ps ps (put_ps ps' s) = put_ps ps s"
  by (simp_all add: ps_of_def put_ps_def)

lemma generic_filter_prog_ps:
  "generic_filter_prog fl bd ok gx s =
     (case generic_process_filter bd (kfilter_of gx) (ps_of s) of
        (ps, r) \<Rightarrow>
          if r = PFILTER_CONTINUE then tail_call ok TAIL_CALL_FILTER (ret PFILTER_REJECT) (put_ps ps s)
          else if r = PFILTER_ACCEPT
          then tail_call ok (if fl = TRACEPOINT then TAIL_CALL_PROCESS else TAIL_CALL_SETUP) (ret PFILTER_REJECT) (put_ps ps s)
          else ret PFILTER_REJECT (put_ps ps s))"
  unfolding generic_filter_prog_def ps_of_def put_ps_def Let_def ..

text \<open>The loop of the process filter, as a part of the chain of a program type with a set-up program.\<close>

lemma filter_phase:
  assumes "generic_kprobe_process_filter bd (kfilter_of gx) m (ps_of s) = Some (ps, b)" and "m < n"
    and "step = (\<lambda>ok. run_prog stale fl bd ok gx)" and "has TAIL_CALL_FILTER" and "has TAIL_CALL_SETUP" and "fl \<noteq> TRACEPOINT"
  shows "\<exists>k. 1 \<le> k \<and> k \<le> m \<and> run_chain step has n (s, Tail TAIL_CALL_FILTER) =
     (if b then run_chain step has (n - k) (put_ps ps s, Tail TAIL_CALL_SETUP) else (put_ps ps s, PFILTER_REJECT, n - k))"
  using assms(1,2)
proof (induction m arbitrary: s n)
  case (Suc m)
  obtain n' where n: "n = Suc n'" "0 < n'" using Suc.prems(2) by (cases n) auto
  obtain ps1 r where f: "generic_process_filter bd (kfilter_of gx) (ps_of s) = (ps1, r)" by fastforce
  have start: "run_chain step has n (s, Tail TAIL_CALL_FILTER) = run_chain step has n' (generic_filter_prog fl bd (\<lambda>q. has q \<and> 0 < n') gx s)"
    by (simp add: n(1) assms(3) run_prog_def)
  show ?case
  proof (cases "r = PFILTER_CONTINUE")
    case True
    then have "generic_kprobe_process_filter bd (kfilter_of gx) m (ps_of (put_ps ps1 s)) = Some (ps, b)" using Suc.prems(1) f by simp
    from Suc.IH [OF this, of n'] Suc.prems(2) n obtain k where
      "1 \<le> k" "k \<le> m" "run_chain step has n' (put_ps ps1 s, Tail TAIL_CALL_FILTER) =
         (if b then run_chain step has (n' - k) (put_ps ps s, Tail TAIL_CALL_SETUP) else (put_ps ps s, PFILTER_REJECT, n' - k))" by auto
    then show ?thesis
      using start True f n assms(4) by (intro exI [of _ "Suc k"]) (simp add: generic_filter_prog_ps tail_call_def)
  next
    case False
    then have "ps = ps1" "b = (r = PFILTER_ACCEPT)" using Suc.prems(1) f by simp_all
    then show ?thesis
      using start False f n assms(5,6) by (intro exI [of _ 1]) (auto simp: generic_filter_prog_ps tail_call_def ret_def)
  qed
qed simp

text \<open>
  C20. A process that no selector matches is left alone: for a tracked process and a policy of one to five selectors without binary filters
  (a binary filter may refresh the match set of the process in the table), a hit of a kernel, user or static probe, a raw tracepoint or a security module hook,
  with the selectors' pid, namespace and capability filters all failing, collects no arguments,
  sends nothing, enforces nothing, registers no return probe and changes nothing but the scratch message. The same holds when the policy does not apply to the process's cgroup.
\<close>

theorem unmatched_process_silent:
  assumes "fl \<in> {KPROBE, UPROBE, LSM, USDT, RAWTP}" and "gs_e s = Some e" and "gx_config_map gx (gx_index gx) = Some config"
    and "event_find_curr (gx_kt gx) (gs_x s) = (pid, walked, Some enter)" and "gx_filter_map gx (gx_index gx) = Some f"
    and "mm_sel_opts (gx_mm gx) = (\<lambda>_. None)" and "rd32 f 0 = of_nat n" and "1 \<le> n" and "n \<le> 5"
    and "msg = start_message bd gx config e"
    and "\<forall>j < n. \<not> selector_passes bd (kfilter_of gx) (gs_x s) f enter (gk_ns msg) (gk_caps msg) j"
  shows "\<exists>e' left. generic_event stale fl bd gx rv s = (s\<lparr>gs_e := Some e'\<rparr>, 0, left)"
proof (cases "policy_applies bd gx (ec_policy_id config) (upd_e (\<lambda>msg. msg\<lparr>gk_idx := gx_index gx\<rparr>) s)")
  case False
  with assms(1-3) show ?thesis
    by (auto simp: generic_event_def start_prog_def generic_start_process_filter_def ret_def upd_e_def Let_def)
next
  case True
  let ?s = "s\<lparr>gs_e := Some msg\<rparr>" and ?kf = "kfilter_of gx"
  have has: "has_prog fl bd TAIL_CALL_FILTER" "has_prog fl bd TAIL_CALL_SETUP" using assms(1) by (auto simp: has_prog_def)
  have "start_message bd gx config (e\<lparr>gk_idx := gx_index gx\<rparr>) = msg" by (simp add: assms(10) start_message_def)
  with True assms(1-3) has have start: "start_prog fl bd (has_prog fl bd) gx rv s = (?s, Tail TAIL_CALL_FILTER)"
    by (auto simp: start_prog_def generic_start_process_filter_def tail_call_def upd_e_def Let_def)
  let ?P = "selector_passes bd ?kf (gs_x s) f enter (gk_ns msg) (gk_caps msg)"
  have run: "run_at ?P 0 msg msg" by (simp add: run_at_def assms(10) start_message_def reset_selectors_def Let_def)
  have "gk_idx msg = gx_index gx" by (simp add: assms(10) start_message_def)
  then obtain msg' where
    "generic_kprobe_process_filter bd ?kf (Suc n) (ps_of ?s) = Some ((ps_of ?s)\<lparr>ps_msg := Some msg'\<rparr>, \<exists>j < n. ?P j)"
    using process_filter_run_from [of ?kf "gs_x s" pid walked enter msg f n ?P bd 0 n "ps_of ?s" msg, OF _ _ _ assms(7-9) refl _ _ _ run] assms(4-6)
    by (auto simp: kfilter_of_def ps_of_def)
  moreover have "(\<exists>j < n. ?P j) = False" using assms(11) by blast
  moreover have "put_ps ((ps_of ?s)\<lparr>ps_msg := Some msg'\<rparr>) ?s = s\<lparr>gs_e := Some msg'\<rparr>" by (simp add: put_ps_def ps_of_def)
  ultimately show ?thesis
    using filter_phase [of bd gx "Suc n" ?s _ False MAX_TAIL_CALL_CNT _ stale fl "has_prog fl bd", OF _ _ refl has] assms(1,9)
    by (auto simp: generic_event_def start MAX_TAIL_CALL_CNT_def PFILTER_REJECT_def)
qed

section \<open>Concrete runs\<close>

definition ec_example :: event_config where
  "ec_example = \<lparr>ec_func_id = 1, ec_arg = replicate 5 int_type, ec_arm = replicate 5 0, ec_off = replicate 5 0,
     ec_idx = [0, - 1, - 1, - 1, - 1], ec_syscall = 0, ec_argreturncopy = 0, ec_argreturn = 0, ec_argreturnaction = 0, ec_policy_id = 0,
     ec_btf_arg = replicate 5 (replicate 10 \<lparr>cb_offset = 0, cb_is_pointer = 0, cb_is_initialized = 0\<rparr>),
     ec_usdt_arg = [], ec_reg_arg = []\<rparr>"

definition gx_pid8 :: gen_ctx where
  "gx_pid8 = gx_example\<lparr>gx_filter_map := [0 \<mapsto> f_example], gx_config_map := [0 \<mapsto> ec_example]\<rparr>"

lemma pid8_rejects: "\<not> selector_passes build_v61 (kfilter_of gx_pid8) xs_current f_example v_example ns caps 0"
proof -
  have off: "selector_offset f_example 0 = 12"
    by (simp add: selector_offset_def Let_def rd32_f_simps f_words_def INDEX_MASK_def)
  have "selector_match build_v61 (process_filter_pid xs_current f_example v_example) sf_example = PFILTER_REJECT"
    unfolding sf_example_def
    by (simp add: selector_match_def build_v61_def process_filter_pid_def process_filter_pid1_def filter_value_def
        rd32_f_simps f_words_def v_example_def tracked_value_def tg_consts)
  then have "match_pid build_v61 xs_current f_example v_example 12 = (32, PFILTER_REJECT)"
    by (simp add: match_pid_def Let_def rd32_f_simps f_words_def INDEX_MASK_def VALUES_MASK_def sf_example_def type_in_def)
  then show ?thesis by (simp add: selector_passes_def selector_sections_def off Let_def PFILTER_ACCEPT_def PFILTER_REJECT_def)
qed

lemma current_find: "event_find_curr kt_example xs_current = (10, False, Some v_example)"
proof -
  have "execve_map_get_noinit 10 xs_current = Some v_example"
    by (simp add: execve_map_get_noinit_def xs_current_def map_lookup_elem_def)
  then show ?thesis
    by (simp add: event_find_curr_def walk_numeral Let_def v_example_def tracked_value_def)
qed

theorem unmatched_process_silent_witness:
  "\<exists>e' left. generic_event id KPROBE build_v61 gx_pid8 0 gs_example = (gs_example\<lparr>gs_e := Some e'\<rparr>, 0, left)"
  by (rule unmatched_process_silent [where n = 1 and pid = 10 and walked = False and config = ec_example and enter = v_example and f = f_example, OF _ _ _ _ _ _ _ _ _ refl])
    (use pid8_rejects current_find in \<open>simp_all add: gx_pid8_def gx_example_def gs_example_def fk_example_def rd32_f_simps f_words_def\<close>)

end
