(* ===== verification/Generic_Report.thy ===== *)
theory Generic_Report
  imports Generic_Selection
begin

text \<open>
  That hits are reported: a hook of a policy without selectors makes exactly one event for every hit by a tracked process, whatever its
  arguments are, as long as none of them is of a kind that can suppress the event or attribute it to another process.
\<close>

section \<open>Arguments that always can be read\<close>

definition plain_ty :: "u32 \<Rightarrow> bool" where
  "plain_ty ty \<longleftrightarrow> ty \<notin> {fd_ty, filename_ty, string_type, net_dev_ty, data_loc_type, sock_type, socket_type}"

lemma current_put [simp]: "gk_current (put_args off bs e) = gk_current e"
  by (simp add: put_args_def)

lemma copy_bytes_plain:
  "0 \<le> snd (copy_bytes fl bd gx off arg n md e s)" "gk_current (fst (fst (copy_bytes fl bd gx off arg n md e s))) = gk_current e"
  by (simp_all add: copy_bytes_def Let_def split_beta return_error_def)

lemma iovec_entries_current: "gk_current (fst (iovec_entries gx arg cnt k i off mx tot e)) = gk_current e"
proof (induction k arbitrary: i off mx tot e)
  case (Suc k)
  have "gk_current (fst (parse_iovec_array gx off arg i mx e)) = gk_current e"
    by (simp add: parse_iovec_array_def Let_def split_beta)
  with Suc show ?case by (simp add: Let_def split_beta)
qed simp

lemma iovec_entries_nonneg: "0 \<le> tot \<Longrightarrow> snd (iovec_entries gx arg cnt k i off mx tot e) = Inr n \<Longrightarrow> 0 \<le> n"
proof (induction k arbitrary: i off mx tot e)
  case (Suc k)
  obtain e1 c where p: "parse_iovec_array gx off arg i mx e = (e1, c)" by (cases "parse_iovec_array gx off arg i mx e")
  show ?case
    using Suc.prems Suc.IH [of "tot + c" "Suc i" "off + nat c" _ e1] by (auto simp: p Let_def split: if_splits)
qed simp

lemma copy_iovec_plain: "0 \<le> snd (copy_iovec gx off arg cnt mx e)" "gk_current (fst (copy_iovec gx off arg cnt mx e)) = gk_current e"
  using iovec_entries_current [of gx arg cnt 7 0 "off + 8" mx 0 e] iovec_entries_nonneg [of 0 gx arg cnt 7 0 "off + 8" mx e]
  by (auto simp: copy_iovec_def return_error_def split_beta split: sum.split)

lemma copy_char_plain:
  "0 \<le> snd (copy_char_buf fl bd gx off arg argm e s)" "gk_current (fst (fst (copy_char_buf fl bd gx off arg argm e s))) = gk_current e"
  "0 \<le> snd (copy_char_iovec gx off arg argm e s)" "gk_current (fst (fst (copy_char_iovec gx off arg argm e s))) = gk_current e"
  "0 \<le> snd (copy_iov_iter fl bd gx off arg argm e s)" "gk_current (fst (fst (copy_iov_iter fl bd gx off arg argm e s))) = gk_current e"
  by (simp_all add: copy_char_buf_def copy_char_iovec_def copy_iov_iter_def copy_bytes_plain copy_iovec_plain return_error_def Let_def split_beta)

lemma copy_plain:
  "0 \<le> snd (copy_skb gx off arg buf)" "0 \<le> snd (copy_sockaddr gx off arg buf)" "0 \<le> snd (copy_cred gx off arg buf)"
  "0 \<le> snd (copy_bpf_attr gx off arg buf)" "0 \<le> snd (copy_bpf_prog gx off arg buf)" "0 \<le> snd (copy_perf_event gx off arg buf)"
  "0 \<le> snd (copy_bpf_map gx off arg buf)" "0 \<le> snd (copy_user_ns gx off arg buf)" "0 \<le> snd (copy_capability off arg buf)"
  "0 \<le> snd (copy_load_module gx off arg buf)" "0 \<le> snd (copy_kernel_module gx off arg buf)"
  by (simp_all add: copy_skb_def copy_sockaddr_def copy_cred_def copy_bpf_attr_def copy_bpf_prog_def copy_perf_event_def copy_bpf_map_def
      copy_user_ns_def copy_capability_def copy_load_module_def copy_kernel_module_def Let_def split_beta)

lemma read_value_plain:
  assumes "plain_ty ty"
  shows "0 \<le> snd (read_value fl bd gx ty off arg argm e s)"
    and "gk_current (fst (fst (read_value fl bd gx ty off arg argm e s))) = gk_current e"
proof -
  have ty: "ty \<noteq> fd_ty" "ty \<noteq> filename_ty" "ty \<noteq> string_type" "ty \<noteq> net_dev_ty" "ty \<noteq> data_loc_type" "ty \<noteq> sock_type" "ty \<noteq> socket_type"
    using assms by (simp_all add: plain_ty_def)
  show "0 \<le> snd (read_value fl bd gx ty off arg argm e s)"
    unfolding read_value_def Let_def split_beta if_distrib [of snd] if_distrib [of "(\<le>) 0"] snd_conv lift_copy_def
    by (simp add: ty copy_char_plain copy_plain)
  show "gk_current (fst (fst (read_value fl bd gx ty off arg argm e s))) = gk_current e"
    unfolding read_value_def Let_def split_beta if_distrib [of fst] if_distrib [of gk_current] fst_conv lift_copy_def
    by (simp add: ty copy_char_plain)
qed

lemma read_arg_plain:
  assumes "gs_e s = Some e" and "plain_ty ty"
  shows "0 \<le> snd (read_arg fl bd gx i ty off arg argm s)"
    and "\<And>e'. gs_e (fst (read_arg fl bd gx i ty off arg argm s)) = Some e' \<Longrightarrow> gk_current e' = gk_current e"
proof -
  have p: "0 \<le> snd (copy_path bd gx o1 pb ref e1 s)" "gk_current (fst (fst (copy_path bd gx o1 pb ref e1 s))) = gk_current e1" for o1 pb ref e1
    by (simp_all add: copy_path_def store_path_def Let_def split_beta split: option.split)
  show "0 \<le> snd (read_arg fl bd gx i ty off arg argm s)"
    using assms by (simp add: read_arg_def Let_def split_beta read_value_plain p split: option.split)
  show "gs_e (fst (read_arg fl bd gx i ty off arg argm s)) = Some e' \<Longrightarrow> gk_current e' = gk_current e" for e'
    using assms by (auto simp: read_arg_def Let_def split_beta read_value_plain p split: option.splits if_splits)
qed

section \<open>The way to the output program\<close>

text \<open>
  What holds when a program of the chain is called, for a hit by the process of the entry \<open>enter\<close>: \<open>s0\<close> is the state at the start, and \<open>A\<close>
  says which selectors are active.
\<close>

definition on_track ::
  "(bool list \<Rightarrow> bool) \<Rightarrow> flavour \<Rightarrow> gen_ctx \<Rightarrow> event_config \<Rightarrow> execve_map_value \<Rightarrow> gen_state \<Rightarrow> prog \<Rightarrow> gen_state \<Rightarrow> bool" where
  "on_track A fl gx config enter s0 p s \<longleftrightarrow>
     phase_ok p s \<and> kept s = kept s0
     \<and> (\<forall>e. gs_e s = Some e \<longrightarrow> gk_idx e = gx_index gx \<and> gk_func_id e = ucast (ec_func_id config) \<and> A (sd_active (gk_sel e))
          \<and> gk_tailcall_index_selector e = 0 \<and> \<not> gk_lsm_post e
          \<and> (p = TAIL_CALL_FILTER \<longrightarrow> sd_curr (gk_sel e) = 0)
          \<and> (p \<noteq> TAIL_CALL_FILTER \<longrightarrow> gk_current e = \<lparr>ek_pid = ek_pid (ev_key enter), ek_ktime = ek_ktime (ev_key enter)\<rparr>)
          \<and> (p \<in> {TAIL_CALL_PROCESS, TAIL_CALL_ARGS, TAIL_CALL_SEND} \<longrightarrow> mc_op (gk_common e) = op_of fl))"

lemma on_track_e: "on_track A fl gx config enter s0 p s \<Longrightarrow> \<exists>e. gs_e s = Some e"
  by (auto simp: on_track_def phase_ok_def split: option.splits)

lemma filter_on_track:
  assumes "on_track A fl gx config enter s0 TAIL_CALL_FILTER s" and "event_find_curr (gx_kt gx) (gs_x s0) = (pid, walked, Some enter)"
    and "gx_filter_map gx (gx_index gx) = Some f" and "rd32 f 0 = 0" and "ok TAIL_CALL_SETUP" and "fl \<noteq> TRACEPOINT"
    and "\<not> offloads fl bd"
  shows "\<exists>s'. generic_filter_prog fl bd ok gx s = (s', Tail TAIL_CALL_SETUP) \<and> on_track A fl gx config enter s0 TAIL_CALL_SETUP s' \<and> gs_rp s' = gs_rp s"
proof -
  obtain e where e: "gs_e s = Some e" using on_track_e [OF assms(1)] by blast
  let ?key = "\<lparr>ek_pid = ek_pid (ev_key enter), ek_ktime = ek_ktime (ev_key enter)\<rparr>"
  let ?s = "s\<lparr>gs_e := Some (e\<lparr>gk_sel := (gk_sel e)\<lparr>sd_pass := True\<rparr>, gk_current := ?key\<rparr>)\<rparr>"
  have "gs_x s = gs_x s0" using assms(1) by (simp add: on_track_def kept_def)
  then have "generic_filter_prog fl bd ok gx s = (?s, Tail TAIL_CALL_SETUP)"
    using assms e
    by (simp add: generic_filter_prog_def generic_process_filter_def filter_selectors_def filter_done_def process_filter_done_def kfilter_of_def
        on_track_def tail_call_def tg_consts)
  moreover have "on_track A fl gx config enter s0 TAIL_CALL_SETUP ?s"
    using assms(1) e by (auto simp: on_track_def phase_ok_def)
  moreover have "gs_rp ?s = gs_rp s" by simp
  ultimately show ?thesis by blast
qed

lemma setup_on_track:
  assumes "on_track A fl gx config enter s0 TAIL_CALL_SETUP s"
    and "fl \<in> {KPROBE, UPROBE, USDT, RAWTP, LSM}" and "fl = KPROBE \<Longrightarrow> ec_syscall config \<noteq> 0 \<Longrightarrow> gx_syscall_regs gx \<noteq> 0"
  obtains s1 where "setup_message fl gx config s = Some s1"
    and "on_track A fl gx config enter s0 TAIL_CALL_PROCESS s1" and "on_track A fl gx config enter s0 TAIL_CALL_ARGS s1"
    and "unat (gk_tailcall_index_process (the (gs_e s1))) = 0"
proof -
  obtain e where e: "gs_e s = Some e" using on_track_e [OF assms(1)] by blast
  let ?T = "\<lambda>t. on_track A fl gx config enter s0 TAIL_CALL_PROCESS t \<and> on_track A fl gx config enter s0 TAIL_CALL_ARGS t
      \<and> unat (gk_tailcall_index_process (the (gs_e t))) = 0"
  have mark: "?T (mark_retprobe gx config t) = ?T t" for t
    by (cases "gs_e t") (simp_all add: on_track_def mark_retprobe_def upd_e_def phase_ok_def Let_def)
  have init: "?T (upd_e (\<lambda>e. generic_process_init gx op (e\<lparr>gk_a := as\<rparr>)) s)" if "op = op_of fl" for op as
    using assms(1) e that by (auto simp: on_track_def upd_e_def phase_ok_def generic_process_init_def)
  have "\<exists>s1. setup_message fl gx config s = Some s1 \<and> ?T s1"
    using assms(2,3) mark init by (cases fl) (auto simp: setup_message_def op_of_def Let_def)
  then show ?thesis using that by blast
qed

text \<open>
  Collecting the arguments, written as a loop: one argument is read behind the others and the size grows; the next one follows
  unless it was the fifth or the configuration has no further argument.
\<close>

definition read_one :: "flavour \<Rightarrow> build \<Rightarrow> gen_ctx \<Rightarrow> event_config \<Rightarrow> nat \<Rightarrow> gen_state \<Rightarrow> gen_state" where
  "read_one fl bd gx config i s =
     (case gs_e s of
        None \<Rightarrow> s
      | Some e \<Rightarrow>
          let total = mc_size (gk_common e)
          in if total < MAX_TOTAL
             then case read_arg fl bd gx i (ec_arg config ! i) (ucast total) (extract_arg bd gx config i (arg_value fl gx config i e)) (ec_arm config ! i) s of
                    (s1, r) \<Rightarrow> upd_e (set_size (total + word_of_int r)) s1
             else upd_e (set_size total) s)"

fun collect_args :: "flavour \<Rightarrow> build \<Rightarrow> gen_ctx \<Rightarrow> event_config \<Rightarrow> nat \<Rightarrow> nat \<Rightarrow> gen_state \<Rightarrow> gen_state" where
  "collect_args fl bd gx config 0 i s = s"
| "collect_args fl bd gx config (Suc k) i s =
     (let s1 = read_one fl bd gx config i s
      in if i < 4 \<and> arg_idx gx (Suc i) s1 \<noteq> - 1
         then collect_args fl bd gx config k (Suc i) (upd_e (\<lambda>e. e\<lparr>gk_tailcall_index_process := of_nat (Suc i)\<rparr>) s1)
         else upd_e (\<lambda>e. e\<lparr>gk_tailcall_index_process := 0\<rparr>) s1)"

definition collect_event :: "flavour \<Rightarrow> build \<Rightarrow> gen_ctx \<Rightarrow> event_config \<Rightarrow> gen_state \<Rightarrow> gen_state" where
  "collect_event fl bd gx config s =
     (case setup_message fl gx config s of
        None \<Rightarrow> s
      | Some s1 \<Rightarrow> if arg_idx gx 0 s1 = - 1 then s1 else collect_args fl bd gx config 5 0 s1)"

text \<open>One call of the program that collects arguments is one round of the loop.\<close>

lemma process_step:
  assumes "on_track A fl gx config enter s0 TAIL_CALL_PROCESS s" and "gx_config_map gx (gx_index gx) = Some config"
    and "\<forall>i \<le> 4. plain_ty (ec_arg config ! i)" and "\<not> offloads fl bd"
    and "gs_e s = Some e" and "gk_tailcall_index_process e = of_nat i" and "i \<le> 5"
  shows "i \<le> 4" and "generic_process_event fl bd ok gx s = next_argument ok gx (of_nat i) (read_one fl bd gx config i s)"
    and "\<exists>e'. gs_e (read_one fl bd gx config i s) = Some e'"
    and "on_track A fl gx config enter s0 TAIL_CALL_PROCESS (read_one fl bd gx config i s)"
proof -
  have idx: "gk_idx e = gx_index gx" "unat (gk_tailcall_index_process e) \<le> 4" using assms(1,5) by (auto simp: on_track_def phase_ok_def)
  have i: "unat (gk_tailcall_index_process e) = i" using assms(6,7) by (simp add: unsigned_of_nat take_bit_nat_eq_self)
  with idx(2) show le: "i \<le> 4" by simp
  define r where "r = read_arg fl bd gx i (ec_arg config ! i) (ucast (mc_size (gk_common e))) (extract_arg bd gx config i (arg_value fl gx config i e)) (ec_arm config ! i) s"
  have ty: "plain_ty (ec_arg config ! i)" using assms(3) le by simp
  obtain e' where e': "gs_e (fst r) = Some e'" "steering e' = steering e" unfolding r_def using read_arg_frame(1) [OF assms(5)] by blast
  have r: "0 \<le> snd r" unfolding r_def by (rule read_arg_plain(1) [OF assms(5) ty])
  have cur: "gk_current e' = gk_current e" by (rule read_arg_plain(2) [OF assms(5) ty e'(1) [unfolded r_def]])
  have kep: "kept (fst r) = kept s" unfolding r_def by (rule read_arg_frame(2) [OF assms(5)])
  have "(of_nat (unat (mc_size (gk_common e))) :: u64) = ucast (mc_size (gk_common e))" by (simp add: unsigned_def)
  then have rd: "generic_read_arg fl bd ok gx i (unat (mc_size (gk_common e))) s = (fst r, Ret (snd r))"
    using assms(2,4,5) idx(1) le by (auto simp: generic_read_arg_def Let_def split_beta should_offload_path_def offloads_def r_def)
  have one: "read_one fl bd gx config i s =
      (if mc_size (gk_common e) < MAX_TOTAL then upd_e (set_size (mc_size (gk_common e) + word_of_int (snd r))) (fst r)
       else upd_e (set_size (mc_size (gk_common e))) s)"
    by (simp add: read_one_def assms(5) Let_def r_def split_beta)
  show "generic_process_event fl bd ok gx s = next_argument ok gx (of_nat i) (read_one fl bd gx config i s)"
    using rd r i assms(5) by (simp add: generic_process_event_def one Let_def flip: assms(6))
  have track: "on_track A fl gx config enter s0 TAIL_CALL_PROCESS (upd_e (set_size n) t)"
    if "gs_e t = Some e1" "steering e1 = steering e" "gk_current e1 = gk_current e" "kept t = kept s" for t e1 n
    using that assms(1,5) by (auto simp: on_track_def phase_ok_def steering_def upd_e_def set_size_def)
  show "on_track A fl gx config enter s0 TAIL_CALL_PROCESS (read_one fl bd gx config i s)"
    unfolding one using track [OF e' cur kep] track [OF assms(5)] by simp
  show "\<exists>e'. gs_e (read_one fl bd gx config i s) = Some e'" unfolding one using e'(1) assms(5) by (simp add: upd_e_def)
qed

lemma small_index_sless: "i \<le> 4 \<Longrightarrow> ((of_nat i :: u32) <s 4) = (i < 4)" and small_index_next: "i \<le> 4 \<Longrightarrow> unat (1 + of_nat i :: u32) = Suc i"
proof -
  assume "i \<le> 4"
  then have "i \<in> {0, 1, 2, 3, 4}" by auto
  then show "((of_nat i :: u32) <s 4) = (i < 4)" "unat (1 + of_nat i :: u32) = Suc i" by (auto simp: word_sless_alt)
qed

lemma collect_loop:
  assumes "on_track A fl gx config enter s0 TAIL_CALL_PROCESS s" and "gx_config_map gx (gx_index gx) = Some config"
    and "\<forall>i \<le> 4. plain_ty (ec_arg config ! i)" and "\<not> offloads fl bd" and "has_prog fl bd TAIL_CALL_ARGS" and "has_prog fl bd TAIL_CALL_PROCESS"
    and "gs_e s = Some e" and "gk_tailcall_index_process e = of_nat i" and "i + k = 5" and "k < n"
  shows "on_track A fl gx config enter s0 TAIL_CALL_ARGS (collect_args fl bd gx config k i s)
     \<and> (\<exists>m \<le> k. run_chain (\<lambda>ok. run_prog stale fl bd ok gx) (has_prog fl bd) n (s, Tail TAIL_CALL_PROCESS)
       = run_chain (\<lambda>ok. run_prog stale fl bd ok gx) (has_prog fl bd) (n - m) (collect_args fl bd gx config k i s, Tail TAIL_CALL_ARGS))"
  using assms(1,7-10)
proof (induction k arbitrary: i s e n)
  case 0
  from process_step(1) [OF 0(1) assms(2-4) 0(2,3)] 0(4) show ?case by simp
next
  case (Suc k)
  have "i \<le> 5" using Suc.prems(4) by simp
  note step = process_step [OF Suc.prems(1) assms(2-4) Suc.prems(2,3) this]
  let ?s1 = "read_one fl bd gx config i s" and ?has = "has_prog fl bd" and ?step = "\<lambda>ok. run_prog stale fl bd ok gx"
  obtain e1 where e1: "gs_e ?s1 = Some e1" using step(3) by blast
  obtain n' where n: "n = Suc n'" "0 < n'" using Suc.prems(5) by (cases n) auto
  have start: "run_chain ?step ?has n (s, Tail TAIL_CALL_PROCESS) = run_chain ?step ?has n' (next_argument (\<lambda>q. ?has q \<and> 0 < n') gx (of_nat i) ?s1)"
    by (simp add: n(1) run_prog_def step(2))
  have upd: "on_track A fl gx config enter s0 q (upd_e (\<lambda>e. e\<lparr>gk_tailcall_index_process := of_nat j\<rparr>) ?s1)"
    if "j \<le> 4" "q = TAIL_CALL_PROCESS \<or> q = TAIL_CALL_ARGS" for q j
    using that step(4) e1 by (auto simp: on_track_def upd_e_def phase_ok_def unsigned_of_nat take_bit_nat_eq_self)
  have nxt: "next_argument (\<lambda>q. ?has q \<and> 0 < n') gx (of_nat i) ?s1 =
     (if i < 4 \<and> arg_idx gx (Suc i) ?s1 \<noteq> - 1
      then (upd_e (\<lambda>e. e\<lparr>gk_tailcall_index_process := of_nat (Suc i)\<rparr>) ?s1, Tail TAIL_CALL_PROCESS)
      else (upd_e (\<lambda>e. e\<lparr>gk_tailcall_index_process := 0\<rparr>) ?s1, Tail TAIL_CALL_ARGS))"
    using step(1) assms(5,6) n(2) by (simp add: next_argument_def Let_def tail_call_def small_index_sless small_index_next add.commute)
  show ?case
  proof (cases "i < 4 \<and> arg_idx gx (Suc i) ?s1 \<noteq> - 1")
    case True
    let ?s2 = "upd_e (\<lambda>e. e\<lparr>gk_tailcall_index_process := of_nat (Suc i)\<rparr>) ?s1"
    have "gs_e ?s2 = Some (e1\<lparr>gk_tailcall_index_process := of_nat (Suc i)\<rparr>)" using e1 by (simp add: upd_e_def)
    from Suc.IH [OF upd this, of "Suc i" n'] True Suc.prems(4,5) n obtain m where m: "m \<le> k"
      "on_track A fl gx config enter s0 TAIL_CALL_ARGS (collect_args fl bd gx config k (Suc i) ?s2)"
      "run_chain ?step ?has n' (?s2, Tail TAIL_CALL_PROCESS) = run_chain ?step ?has (n' - m) (collect_args fl bd gx config k (Suc i) ?s2, Tail TAIL_CALL_ARGS)"
      by auto
    have "collect_args fl bd gx config (Suc k) i s = collect_args fl bd gx config k (Suc i) ?s2" using True by (simp add: Let_def)
    with m show ?thesis unfolding start nxt using True n(1) by (intro conjI exI [of _ "Suc m"]) simp_all
  next
    case False
    have c: "collect_args fl bd gx config (Suc k) i s = upd_e (\<lambda>e. e\<lparr>gk_tailcall_index_process := 0\<rparr>) ?s1" using False by (auto simp: Let_def)
    show ?thesis
      unfolding start nxt c if_not_P [OF False] using upd [of 0 TAIL_CALL_ARGS] n(1) by (intro conjI exI [of _ 1]) simp_all
  qed
qed

text \<open>From the set-up program on, the chain collects the event and comes to the argument filters within six tail calls.\<close>

lemma collect_phase:
  assumes "on_track A fl gx config enter s0 TAIL_CALL_SETUP s" and "7 \<le> n" and "fl \<in> {KPROBE, UPROBE, USDT, RAWTP, LSM}" and "\<not> offloads fl bd"
    and "gx_config_map gx (gx_index gx) = Some config" and "fl = KPROBE \<Longrightarrow> ec_syscall config \<noteq> 0 \<Longrightarrow> gx_syscall_regs gx \<noteq> 0"
    and "\<forall>i \<le> 4. plain_ty (ec_arg config ! i)"
  shows "on_track A fl gx config enter s0 TAIL_CALL_ARGS (collect_event fl bd gx config s)"
    and "\<exists>m \<le> 6. run_chain (\<lambda>ok. run_prog stale fl bd ok gx) (has_prog fl bd) n (s, Tail TAIL_CALL_SETUP)
       = run_chain (\<lambda>ok. run_prog stale fl bd ok gx) (has_prog fl bd) (n - m) (collect_event fl bd gx config s, Tail TAIL_CALL_ARGS)"
proof -
  let ?has = "has_prog fl bd" and ?step = "\<lambda>ok. run_prog stale fl bd ok gx" and ?T = "on_track A fl gx config enter s0"
  have has: "?has TAIL_CALL_ARGS" "?has TAIL_CALL_PROCESS" using assms(3) by (auto simp: has_prog_def)
  obtain s1 where s1: "setup_message fl gx config s = Some s1" "?T TAIL_CALL_PROCESS s1" "?T TAIL_CALL_ARGS s1" "unat (gk_tailcall_index_process (the (gs_e s1))) = 0"
    by (rule setup_on_track [OF assms(1,3,6)]) auto
  obtain e e1 where e: "gs_e s = Some e" "gk_idx e = gx_index gx" "gs_e s1 = Some e1"
    using on_track_e [OF assms(1)] on_track_e [OF s1(2)] assms(1) by (auto simp: on_track_def)
  obtain n' where n: "n = Suc n'" "0 < n'" "5 < n'" using assms(2) by (cases n) auto
  have start: "run_chain ?step ?has n (s, Tail TAIL_CALL_SETUP)
      = run_chain ?step ?has n' (s1, Tail (if arg_idx gx 0 s1 = - 1 then TAIL_CALL_ARGS else TAIL_CALL_PROCESS))"
    using e assms(5) s1(1) has n(2) by (simp add: n(1) run_prog_def generic_process_event_and_setup_def tail_call_def Let_def)
  have "gk_tailcall_index_process e1 = of_nat 0" using s1(4) e(3) by (simp add: unat_eq_0)
  note loop = collect_loop [OF s1(2) assms(5,7,4) has e(3) this, of 5 n' stale]
  show "?T TAIL_CALL_ARGS (collect_event fl bd gx config s)"
    using loop n(3) s1 by (simp add: collect_event_def)
  show "\<exists>m \<le> 6. run_chain ?step ?has n (s, Tail TAIL_CALL_SETUP) = run_chain ?step ?has (n - m) (collect_event fl bd gx config s, Tail TAIL_CALL_ARGS)"
  proof (cases "arg_idx gx 0 s1 = - 1")
    case True
    then show ?thesis using start s1(1) n(1) by (intro exI [of _ 1]) (simp add: collect_event_def)
  next
    case False
    then obtain m where "m \<le> 5" "run_chain ?step ?has n' (s1, Tail TAIL_CALL_PROCESS) = run_chain ?step ?has (n' - m) (collect_args fl bd gx config 5 0 s1, Tail TAIL_CALL_ARGS)"
      using loop n(3) by auto
    then show ?thesis using start s1(1) n(1) False by (intro exI [of _ "Suc m"]) (simp add: collect_event_def)
  qed
qed

text \<open>A hit of a hook of a policy without selectors gets as far as the argument filters, with no selector active.\<close>

lemma hit_reaches:
  assumes "fl \<in> {KPROBE, UPROBE, USDT, RAWTP, LSM}" and "\<not> offloads fl bd" and "gs_e s = Some e"
    and "event_find_curr (gx_kt gx) (gs_x s) = (pid, walked, Some enter)"
    and "gx_config_map gx (gx_index gx) = Some config" and "gx_filter_map gx (gx_index gx) = Some f" and "rd32 f 0 = 0"
    and "policy_applies bd gx (ec_policy_id config) s"
    and "fl = KPROBE \<Longrightarrow> ec_syscall config \<noteq> 0 \<Longrightarrow> gx_syscall_regs gx \<noteq> 0" and "\<forall>i \<le> 4. plain_ty (ec_arg config ! i)"
  obtains s1 s' n where "on_track (\<lambda>a. \<not> a ! SELECTORS_ACTIVE) fl gx config enter s TAIL_CALL_SETUP s1" and "gs_rp s1 = gs_rp s"
    and "s' = collect_event fl bd gx config s1" and "on_track (\<lambda>a. \<not> a ! SELECTORS_ACTIVE) fl gx config enter s TAIL_CALL_ARGS s'"
    and "generic_event stale fl bd gx rv s
       = run_chain (\<lambda>ok. run_prog stale fl bd ok gx) (has_prog fl bd) (Suc (Suc n)) (s', Tail TAIL_CALL_ARGS)"
proof -
  let ?T = "on_track (\<lambda>a. \<not> a ! SELECTORS_ACTIVE) fl gx config enter s" and ?step = "\<lambda>ok. run_prog stale fl bd ok gx"
  let ?s0 = "s\<lparr>gs_e := Some (start_message bd gx config (e\<lparr>gk_idx := gx_index gx\<rparr>))\<rparr>"
  have start: "start_prog fl bd (has_prog fl bd) gx rv s = (?s0, Tail TAIL_CALL_FILTER)"
    using assms(1,3,5,8) by (auto simp: start_prog_def generic_start_process_filter_def policy_applies_def upd_e_def tail_call_def has_prog_def Let_def)
  have T0: "?T TAIL_CALL_FILTER ?s0"
    by (simp add: on_track_def phase_ok_def start_message_def reset_selectors_def SELECTORS_ACTIVE_def Let_def)
  have "has_prog fl bd TAIL_CALL_SETUP" "fl \<noteq> TRACEPOINT" using assms(1) by (auto simp: has_prog_def)
  moreover obtain N where N: "MAX_TAIL_CALL_CNT = Suc N" "N = 32" by (simp add: MAX_TAIL_CALL_CNT_def)
  ultimately obtain s1 where s1: "generic_filter_prog fl bd (\<lambda>q. has_prog fl bd q \<and> 0 < N) gx ?s0 = (s1, Tail TAIL_CALL_SETUP)" "?T TAIL_CALL_SETUP s1" "gs_rp s1 = gs_rp s"
    using filter_on_track [where ok = "\<lambda>q. has_prog fl bd q \<and> 0 < N", OF T0 assms(4,6,7) _ _ assms(2)] by auto
  define s' where "s' = collect_event fl bd gx config s1"
  have N7: "7 \<le> N" by (simp add: N(2))
  have track: "?T TAIL_CALL_ARGS s'"
    unfolding s'_def by (rule collect_phase(1) [OF s1(2) N7 assms(1,2,5) _ assms(10)]) (rule assms(9))
  have "\<exists>m \<le> 6. run_chain ?step (has_prog fl bd) N (s1, Tail TAIL_CALL_SETUP) = run_chain ?step (has_prog fl bd) (N - m) (s', Tail TAIL_CALL_ARGS)"
    unfolding s'_def by (rule collect_phase(2) [OF s1(2) N7 assms(1,2,5) _ assms(10)]) (rule assms(9))
  then obtain m where "m \<le> 6" and
    k: "run_chain ?step (has_prog fl bd) N (s1, Tail TAIL_CALL_SETUP) = run_chain ?step (has_prog fl bd) (N - m) (s', Tail TAIL_CALL_ARGS)" by blast
  have "generic_event stale fl bd gx rv s = run_chain ?step (has_prog fl bd) N (generic_filter_prog fl bd (\<lambda>q. has_prog fl bd q \<and> 0 < N) gx ?s0)"
    by (simp add: generic_event_def start run_prog_def N(1))
  moreover have "N - m = Suc (Suc (N - m - 2))" using \<open>m \<le> 6\<close> N(2) by simp
  ultimately show ?thesis using s1 k track s'_def by (intro that [of s1 s' "N - m - 2"]) simp_all
qed

lemma output_sent:
  assumes "gs_e s = Some e" and "\<forall>ring sent sz. 0 \<le> os_answer (gs_os s) ring sent sz"
  shows "\<exists>sz. generic_events (gs_os (generic_output fl bd gx op s)) = generic_events (gs_os s) @ [(Ev_generic e, sz)]"
  using assms
  by (auto simp: generic_output_def event_output_metric_def perf_event_output_metric_def ring_output_def generic_events_def policy_stats_update_def
      is_generic_def Let_def not_less [symmetric])

lemma hit_sends:
  assumes "fl \<in> {KPROBE, UPROBE, USDT, RAWTP}" and "\<not> offloads fl bd" and "gs_e s = Some e"
    and "event_find_curr (gx_kt gx) (gs_x s) = (pid, walked, Some enter)"
    and "gx_config_map gx (gx_index gx) = Some config" and "gx_filter_map gx (gx_index gx) = Some f" and "rd32 f 0 = 0"
    and "policy_applies bd gx (ec_policy_id config) s"
    and "fl = KPROBE \<Longrightarrow> ec_syscall config \<noteq> 0 \<Longrightarrow> gx_syscall_regs gx \<noteq> 0" and "\<forall>i \<le> 4. plain_ty (ec_arg config ! i)"
    and "\<forall>ring sent sz. 0 \<le> os_answer (gs_os s) ring sent sz"
  obtains s1 s' e' sz where "on_track (\<lambda>a. \<not> a ! SELECTORS_ACTIVE) fl gx config enter s TAIL_CALL_SETUP s1" and "gs_rp s1 = gs_rp s"
    and "s' = collect_event fl bd gx config s1" and "fst (generic_event stale fl bd gx rv s) = generic_output fl bd gx (op_of fl) s'" and "gs_e s' = Some e'"
    and "generic_events (gs_os (fst (generic_event stale fl bd gx rv s))) = generic_events (gs_os s) @ [(Ev_generic e', sz)]"
    "gk_current e' = \<lparr>ek_pid = ek_pid (ev_key enter), ek_ktime = ek_ktime (ev_key enter)\<rparr>"
    "gk_func_id e' = ucast (ec_func_id config)" "mc_op (gk_common e') = op_of fl"
proof -
  have fl: "fl \<in> {KPROBE, UPROBE, USDT, RAWTP, LSM}" "has_prog fl bd TAIL_CALL_SEND" "fl \<noteq> LSM" using assms(1) by (auto simp: has_prog_def)
  obtain s1 s' n where s1: "on_track (\<lambda>a. \<not> a ! SELECTORS_ACTIVE) fl gx config enter s TAIL_CALL_SETUP s1" "gs_rp s1 = gs_rp s" "s' = collect_event fl bd gx config s1"
    and s': "on_track (\<lambda>a. \<not> a ! SELECTORS_ACTIVE) fl gx config enter s TAIL_CALL_ARGS s'"
    and run: "generic_event stale fl bd gx rv s
       = run_chain (\<lambda>ok. run_prog stale fl bd ok gx) (has_prog fl bd) (Suc (Suc n)) (s', Tail TAIL_CALL_ARGS)"
    by (rule hit_reaches [where stale = stale and rv = rv, OF fl(1) assms(2-10)]) auto
  obtain e' where e': "gs_e s' = Some e'" using on_track_e [OF s'] by blast
  have "generic_filter_arg bd (\<lambda>q. has_prog fl bd q \<and> 0 < Suc n) gx en s' = (s', Tail TAIL_CALL_SEND)" for en
    using s' e' assms(6) fl(2) by (simp add: generic_filter_arg_def filter_args_def on_track_def tail_call_def Let_def)
  with run have final: "fst (generic_event stale fl bd gx rv s) = generic_output fl bd gx (op_of fl) s'"
    by (simp add: run_prog_def ret_def)
  have out: "generic_events (gs_os s') = generic_events (gs_os s)" "os_answer (gs_os s') = os_answer (gs_os s)"
    using s' by (simp_all add: on_track_def kept_def out_kept_def)
  obtain sz where "generic_events (gs_os (generic_output fl bd gx (op_of fl) s')) = generic_events (gs_os s) @ [(Ev_generic e', sz)]"
    using output_sent [OF e', of fl bd gx "op_of fl"] assms(11) by (auto simp: out)
  then show ?thesis using s1 final s' e' by (intro that [OF s1 final e']) (simp_all add: on_track_def)
qed

text \<open>
  C9. Hits are reported, but for tracepoints and security module hooks. For a policy without selectors that applies to the process's cgroup, a hit of a kernel, user or static probe or of a raw
  tracepoint by a tracked process, on a build without path offloading and with arguments of types that always can be read, makes exactly one event,
  whatever memory holds: with a ring that takes all messages it is sent, with the key of the process and the id of the function. For security module hooks it is not so, see below.
\<close>

theorem unfiltered_hit_reported:
  assumes "fl \<in> {KPROBE, UPROBE, USDT, RAWTP}" and "\<not> offloads fl bd" and "gs_e s = Some e"
    and "event_find_curr (gx_kt gx) (gs_x s) = (pid, walked, Some enter)"
    and "gx_config_map gx (gx_index gx) = Some config" and "gx_filter_map gx (gx_index gx) = Some f" and "rd32 f 0 = 0"
    and "policy_applies bd gx (ec_policy_id config) s"
    and "fl = KPROBE \<Longrightarrow> ec_syscall config \<noteq> 0 \<Longrightarrow> gx_syscall_regs gx \<noteq> 0" and "\<forall>i \<le> 4. plain_ty (ec_arg config ! i)"
    and "\<forall>ring sent sz. 0 \<le> os_answer (gs_os s) ring sent sz"
  shows "\<exists>e' sz. generic_events (gs_os (fst (generic_event stale fl bd gx rv s))) = generic_events (gs_os s) @ [(Ev_generic e', sz)]
     \<and> gk_current e' = \<lparr>ek_pid = ek_pid (ev_key enter), ek_ktime = ek_ktime (ev_key enter)\<rparr>
     \<and> gk_func_id e' = ucast (ec_func_id config) \<and> mc_op (gk_common e') = op_of fl"
  by (rule hit_sends [where stale = stale and rv = rv, OF assms]) (assumption | intro exI conjI)+

text \<open>
  The security module hooks are an exception: their tail-call map has no output program, and the mark that makes the output program of the
  hook send the event is set by the actions only, which a policy without selectors does not reach. Such a policy reports no hit at all.
\<close>

lemma lsm_without_selectors_silent:
  assumes "\<not> offloads LSM bd" and "gs_e s = Some e" and "event_find_curr (gx_kt gx) (gs_x s) = (pid, walked, Some enter)"
    and "gx_config_map gx (gx_index gx) = Some config" and "gx_filter_map gx (gx_index gx) = Some f" and "rd32 f 0 = 0"
    and "policy_applies bd gx (ec_policy_id config) s" and "\<forall>i \<le> 4. plain_ty (ec_arg config ! i)"
  shows "generic_events (gs_os (fst (generic_lsm_output stale bd gx (fst (generic_event stale LSM bd gx rv s))))) = generic_events (gs_os s)"
proof -
  obtain s' n where s': "on_track (\<lambda>a. \<not> a ! SELECTORS_ACTIVE) LSM gx config enter s TAIL_CALL_ARGS s'"
    and run: "generic_event stale LSM bd gx rv s
       = run_chain (\<lambda>ok. run_prog stale LSM bd ok gx) (has_prog LSM bd) (Suc (Suc n)) (s', Tail TAIL_CALL_ARGS)"
    by (rule hit_reaches [where fl = LSM and stale = stale and rv = rv, OF _ assms(1-7) _ assms(8)]) auto
  obtain e' where e': "gs_e s' = Some e'" using on_track_e [OF s'] by blast
  have "\<not> has_prog LSM bd TAIL_CALL_SEND" by (simp add: has_prog_def)
  then have "generic_filter_arg bd (\<lambda>q. has_prog LSM bd q \<and> 0 < Suc n) gx en s' = (s', Ret 0)" for en
    using s' e' assms(5) by (simp add: generic_filter_arg_def filter_args_def on_track_def tail_call_def ret_def Let_def)
  with run have "fst (generic_event stale LSM bd gx rv s) = s'" by (simp add: run_prog_def)
  then show ?thesis
    using s' e' by (simp add: generic_lsm_output_def append_hash_def on_track_def kept_def out_kept_def Let_def split: option.split)
qed

section \<open>A concrete run\<close>

definition gx_open :: gen_ctx where
  "gx_open = gx_example\<lparr>gx_filter_map := [0 \<mapsto> replicate 4096 0], gx_config_map := [0 \<mapsto> ec_example]\<rparr>"

lemma open_plain:
  "rd32 (replicate 4096 0) 0 = 0" "\<forall>i \<le> 4. plain_ty (ec_arg ec_example ! i)"
  "policy_applies build_v61 gx_open (ec_policy_id ec_example) gs_example" "ec_syscall ec_example = 0"
  by (simp_all add: rd32_def slice_def le_word_zeros [of "[]", simplified] plain_ty_def tg_consts policy_applies_def policy_filter_check_def ec_example_def)

lemma open_state:
  "\<not> offloads KPROBE build_v61" "gs_e gs_example = Some e_example" "event_find_curr (gx_kt gx_open) (gs_x gs_example) = (10, False, Some v_example)"
  "gx_config_map gx_open (gx_index gx_open) = Some ec_example" "gx_filter_map gx_open (gx_index gx_open) = Some (replicate 4096 0)"
  "0 \<le> os_answer (gs_os gs_example) ring sent sz" "generic_events (gs_os gs_example) = []" "ev_key v_example = \<lparr>ek_pid = 10, ek_ktime = 5\<rparr>"
  using current_find
  by (simp_all add: gx_open_def gx_example_def gs_example_def offloads_def build_v61_def generic_events_def v_example_def tracked_value_def)

lemma open_hit:
  "\<exists>e' sz. generic_events (gs_os (fst (generic_event id KPROBE build_v61 gx_open 0 gs_example))) = [(Ev_generic e', sz)]
     \<and> gk_current e' = \<lparr>ek_pid = 10, ek_ktime = 5\<rparr>"
  by (rule hit_sends [of KPROBE build_v61 gs_example e_example gx_open 10 False v_example ec_example "replicate 4096 0" id 0])
    (auto simp: open_plain open_state)

theorem unfiltered_hit_reported_witness:
  "\<exists>e' sz. generic_events (gs_os (fst (generic_event id KPROBE build_v61 gx_open 0 gs_example))) = [(Ev_generic e', sz)]
     \<and> mc_op (gk_common e') = MSG_OP_GENERIC_KPROBE"
  using unfiltered_hit_reported [of KPROBE build_v61 gs_example e_example gx_open 10 False v_example ec_example "replicate 4096 0" id 0]
  by (auto simp: open_plain open_state op_of_def)

end
