(* ===== verification/Attribution.thy ===== *)
theory Attribution
  imports Lifecycle Generic_Report
begin

text \<open>
  Whose events the generic sensors report: the process key that an event carries is the key of a live entry of the process table, the
  recorded owner of a socket argument, or the event is marked as one of a process that the table does not know. Together with the
  life cycle of the table this ties generic events to the clone and exec messages that announced their processes.
\<close>

section \<open>The process an event names\<close>

definition live_keys :: "exec_state \<Rightarrow> msg_execve_key set" where
  "live_keys x = {k. \<exists>pid. keys x pid = Some k \<and> ek_ktime k \<noteq> 0}"

definition owners :: "(u64, socket_owner) lru_map \<Rightarrow> msg_execve_key set" where
  "owners so = {\<lparr>ek_pid = so_pid ow, ek_ktime = so_ktime ow\<rparr> |a ow. map_lookup_elem so a = Some ow}"

definition not_found :: "msg_generic_kprobe \<Rightarrow> bool" where
  "not_found e \<longleftrightarrow> mc_flags (gk_common e) AND MSG_COMMON_FLAG_PROCESS_NOT_FOUND \<noteq> 0"

definition named :: "msg_execve_key set \<Rightarrow> msg_generic_kprobe \<Rightarrow> bool" where
  "named K e \<longleftrightarrow> gk_current e \<in> K \<or> not_found e"

definition named_scratch :: "msg_execve_key set \<Rightarrow> gen_state \<Rightarrow> bool" where
  "named_scratch K s \<longleftrightarrow> (\<forall>e. gs_e s = Some e \<longrightarrow> named K e)"

lemma same_keys_live: "same_keys x x' \<Longrightarrow> live_keys x' = live_keys x"
  by (simp add: live_keys_def same_keys_def)

lemma key_eta [simp]: "\<lparr>ek_pid = ek_pid k, ek_ktime = ek_ktime k\<rparr> = (k :: msg_execve_key)"
  by simp

lemma named_same: "gk_current e' = gk_current e \<Longrightarrow> mc_flags (gk_common e') = mc_flags (gk_common e) \<Longrightarrow> named K e' = named K e"
  by (simp add: named_def not_found_def)

lemma not_found_or: "x AND MSG_COMMON_FLAG_PROCESS_NOT_FOUND \<noteq> 0 \<Longrightarrow> (x OR y) AND MSG_COMMON_FLAG_PROCESS_NOT_FOUND \<noteq> (0 :: u8)"
  by (simp add: bit.conj_disj_distrib2 or_eq_0_iff)

lemma named_or_flags: "named K e \<Longrightarrow> named K (or_flags fl e)"
  by (auto simp: named_def not_found_def or_flags_def not_found_or)

section \<open>What names the process\<close>

lemma find_curr_live:
  assumes "event_find_curr kt x = (pid, walked, Some v)"
  shows "ev_key v \<in> live_keys x"
proof -
  have "table x p = Some v \<and> ek_ktime (ev_key v) \<noteq> 0" if "find_curr_loop kt x n t p0 w = (p, w', Some v)" for n t p0 w p w'
    using that
  proof (induction n arbitrary: t p0 w)
    case (Suc n)
    then show ?case
      by (auto simp: Let_def execve_map_get_noinit_def split: option.splits if_splits)
  qed simp
  with assms have "table x pid = Some v" "ek_ktime (ev_key v) \<noteq> 0" by (auto simp: event_find_curr_def)
  then show ?thesis by (auto simp: live_keys_def keys_def)
qed

lemma filter_selectors_accept:
  assumes "snd (filter_selectors bd kf f pl enter sm) \<noteq> PFILTER_CONTINUE"
  shows "gk_current (snd (fst (filter_selectors bd kf f pl enter sm))) = ev_key enter"
    and "gk_common (snd (fst (filter_selectors bd kf f pl enter sm))) = gk_common (snd sm)"
proof -
  have sel: "ev_key (fst (snd (selector_process_filter bd kf f i pl enter sm))) = ev_key enter"
    "gk_common (snd (fst (selector_process_filter bd kf f i pl enter sm))) = gk_common (snd sm)" for i
    by (auto simp: selector_process_filter_def put_enter_def split_beta split: option.split)
  have fin: "gk_current (snd (fst (filter_done v x))) = ev_key v" "gk_common (snd (fst (filter_done v x))) = gk_common (snd x)" for v x
    by (simp_all add: filter_done_def process_filter_done_def)
  show "gk_current (snd (fst (filter_selectors bd kf f pl enter sm))) = ev_key enter"
    "gk_common (snd (fst (filter_selectors bd kf f pl enter sm))) = gk_common (snd sm)"
    using assms by (auto simp: filter_selectors_def Let_def split_beta sel fin)
qed

lemma process_filter_named:
  assumes "generic_process_filter bd kf st = (st', r)" and "r = PFILTER_ACCEPT"
  shows "\<exists>m. ps_msg st' = Some m \<and> named (live_keys (ps_x st)) m"
proof -
  have acc: "named K m'"
    if "filter_selectors bd kf f pl enter sm = ((x', m'), 1)" "ev_key enter \<in> K \<or> not_found (snd sm)" for f pl enter sm x' m' K
    using filter_selectors_accept [of bd kf f pl enter sm] that by (simp add: named_def not_found_def tg_consts)
  have nf: "(x OR MSG_COMMON_FLAG_PROCESS_NOT_FOUND) AND MSG_COMMON_FLAG_PROCESS_NOT_FOUND \<noteq> 0" for x :: u8
    by (simp add: bit.conj_disj_distrib2 tg_consts)
  obtain pid w res where find: "event_find_curr (fk_kt kf) (ps_x st) = (pid, w, res)" by (metis prod.exhaust)
  show ?thesis
  proof (cases res)
    case (Some v)
    with find_curr_live [of "fk_kt kf" "ps_x st" pid w v] find assms show ?thesis
      by (auto simp: generic_process_filter_def Let_def tg_consts split: option.splits prod.splits elim: acc)
  next
    case None
    with find assms show ?thesis
      by (auto simp: generic_process_filter_def Let_def tg_consts split: option.splits prod.splits)
        (erule acc, use nf in \<open>simp add: not_found_def tg_consts\<close>)
  qed
qed

text \<open>Reading an argument: only a tracked socket makes the event name another process.\<close>

lemma sock_current: "gk_current (update_pid_tid_from_sock bd s sk e) \<in> insert (gk_current e) (owners (gs_sock s))"
  by (auto simp: update_pid_tid_from_sock_def owners_def split: option.split)

lemma sock_common [simp]: "gk_common (update_pid_tid_from_sock bd s sk e) = gk_common e"
  by (simp add: update_pid_tid_from_sock_def split: option.split)

lemma copy_current:
  "gk_current (fst (copy_strings gx off arg n e)) = gk_current e" "gk_current (fst (read_fd gx off arg s e)) = gk_current e"
  by (simp_all add: copy_strings_def read_fd_def Let_def split_beta split: option.split)

lemma read_value_current:
  "gk_current (fst (fst (read_value fl bd gx ty off arg argm e s))) \<in> insert (gk_current e) (owners (gs_sock s))" (is "_ \<in> ?K")
proof -
  have args: "gk_current (e\<lparr>gk_args := a\<rparr>) \<in> ?K" for a by simp
  have sock: "gk_current (update_pid_tid_from_sock bd s sk (e\<lparr>gk_args := a\<rparr>)) \<in> ?K" for sk a
    using sock_current [of bd s sk "e\<lparr>gk_args := a\<rparr>"] by simp
  have e: "gk_current e \<in> ?K" by simp
  show ?thesis
    unfolding read_value_def Let_def split_beta if_distrib [of fst] if_distrib [of gk_current] if_distrib [of "\<lambda>k. k \<in> ?K"]
      fst_conv snd_conv lift_copy_def
    by (simp only: copy_char_plain copy_current current_put args sock e if_True if_cancel)
qed

lemma read_arg_named:
  assumes "named_scratch K s" and "owners (gs_sock s) \<subseteq> K"
  shows "named_scratch K (fst (read_arg fl bd gx i ty off arg argm s))"
proof (cases "gs_e s")
  case (Some e)
  obtain e' where e': "gs_e (fst (read_arg fl bd gx i ty off arg argm s)) = Some e'" "steering e' = steering e"
    using read_arg_frame(1) [OF Some] by blast
  have p: "gk_current (fst (fst (copy_path bd gx o1 pb ref e1 s))) = gk_current e1" for o1 pb ref e1
    by (simp add: copy_path_def store_path_def Let_def split_beta split: option.split)
  have "gk_current e' \<in> insert (gk_current e) (owners (gs_sock s))"
    using e'(1) Some read_value_current [of fl bd gx ty _ arg argm "e\<lparr>gk_argsoff := _\<rparr>" s]
    by (auto simp: read_arg_def Let_def split_beta p split: option.splits if_splits)
  moreover have "gk_common e' = gk_common e" using e'(2) by (simp add: steering_def)
  ultimately show ?thesis using assms Some e'(1) by (auto simp: named_scratch_def named_def not_found_def)
qed (use assms in \<open>simp add: read_arg_def\<close>)

section \<open>The programs of a chain\<close>

definition attributed :: "msg_execve_key set \<Rightarrow> gen_state \<Rightarrow> bool" where
  "attributed K s \<longleftrightarrow> named_scratch K s \<and> owners (gs_sock s) \<subseteq> K"

lemma named_scratch_upd_e: "named_scratch K s \<Longrightarrow> (\<And>e. named K e \<Longrightarrow> named K (g e)) \<Longrightarrow> named_scratch K (upd_e g s)"
  by (auto simp: named_scratch_def upd_e_def)

lemma attributed_upd_e: "attributed K s \<Longrightarrow> (\<And>e. named K (g e) = named K e) \<Longrightarrow> attributed K (upd_e g s)"
  by (simp add: attributed_def named_scratch_upd_e) (simp add: upd_e_def)

lemma attributed_updates [simp]:
  "attributed K (s\<lparr>gs_rp := rp\<rparr>) = attributed K s" "attributed K (s\<lparr>gs_path := p\<rparr>) = attributed K s"
  by (simp_all add: attributed_def named_scratch_def)

lemma attributed_setup: "attributed K s \<Longrightarrow> attributed K (fst (generic_process_event_and_setup fl ok gx s))"
proof -
  assume a: "attributed K s"
  have init: "attributed K (upd_e (\<lambda>e. generic_process_init gx op (e\<lparr>gk_a := as\<rparr>)) s)" for as op
    by (rule attributed_upd_e [OF a]) (simp add: generic_process_init_def named_def not_found_def)
  have mark: "attributed K (mark_retprobe gx config t)" if "attributed K t" for t config
    using attributed_upd_e [OF that, of "\<lambda>e. e\<lparr>gk_retprobe_id := _\<rparr>"]
    by (auto simp: mark_retprobe_def Let_def named_def not_found_def split: option.split)
  have "attributed K s1" if "setup_message fl gx config s = Some s1" for config s1
    using that a by (auto simp: setup_message_def Let_def init mark split: flavour.splits if_splits)
  with a show ?thesis
    by (auto simp: generic_process_event_and_setup_def Let_def tail_call_def ret_def split: option.split)
qed

lemma attributed_path_offload: "attributed K s \<Longrightarrow> attributed K (fst (generic_path_offload bd ok gx ty a i off s))"
  by (auto simp: generic_path_offload_def upd_path_def upd_e_def store_path_def attributed_def named_scratch_def named_def not_found_def put_args_def
      Let_def split_beta tail_call_def ret_def split: option.split prod.split)

lemma attributed_process: "attributed K s \<Longrightarrow> attributed K (fst (generic_process_event fl bd ok gx s))"
proof -
  assume a: "attributed K s"
  have "attributed K (fst (read_arg fl bd gx i ty off arg argm s))" for i ty off arg argm
  proof -
    have "kept (fst (read_arg fl bd gx i ty off arg argm s)) = kept s"
      by (cases "gs_e s") (simp add: read_arg_def, erule read_arg_frame(2))
    then have "gs_sock (fst (read_arg fl bd gx i ty off arg argm s)) = gs_sock s" by (simp add: kept_def)
    with a read_arg_named [of K s fl bd gx i ty off arg argm] show ?thesis by (simp add: attributed_def)
  qed
  with a have rd: "attributed K (fst (generic_read_arg fl bd ok gx i off s))" for i off
    by (simp add: generic_read_arg_def Let_def split_beta attributed_path_offload ret_def split: option.split)
  have nxt: "attributed K (fst (next_argument ok gx i (upd_e (set_size n) t)))" if "attributed K t" for i n t
    using that by (auto simp: next_argument_def Let_def tail_call_def ret_def set_size_def named_def not_found_def intro!: attributed_upd_e)
  show ?thesis
  proof (cases "gs_e s")
    case (Some e)
    define tr where "tr = generic_read_arg fl bd ok gx (unat (gk_tailcall_index_process e)) (unat (mc_size (gk_common e))) s"
    have "attributed K (fst tr)" by (simp add: tr_def rd)
    with a nxt Some show ?thesis
      by (cases tr; cases "snd tr") (simp_all add: generic_process_event_def filter_args_reject_def Let_def tr_def [symmetric])
  qed (use a in \<open>simp add: generic_process_event_def ret_def\<close>)
qed

lemma attributed_filter_arg: "attributed K s \<Longrightarrow> attributed K (fst (generic_filter_arg bd ok gx is_entry s))"
  by (auto simp: generic_filter_arg_def filter_args_def filter_args_reject_def tail_call_def ret_def Let_def split_beta named_def not_found_def
      intro!: attributed_upd_e split: option.split)

lemma attributed_path: "attributed K s \<Longrightarrow> attributed K (fst (generic_path bd ok gx s))"
  by (auto simp: generic_path_def path_init_def path_work_def upd_path_def Let_def split_beta tail_call_def ret_def named_def not_found_def
      intro!: attributed_upd_e split: option.split path_state.split)

lemma named_post: "gs_e s = Some e \<Longrightarrow> named_scratch K s \<Longrightarrow> named_scratch K (fst (action_post bd gx arg e s post))"
  by (auto simp: action_post_def Let_def split_beta named_scratch_def or_flags_def named_def not_found_def not_found_or)

lemma named_set: "named_scratch K s \<Longrightarrow> named_scratch K (do_set_action fl bd gx i v s)"
  by (auto simp: do_set_action_def write_user_arg_def Let_def split_beta named_scratch_def named_def not_found_def not_found_or
      split: option.splits if_splits)

lemma action_effect_named:
  assumes "gs_e s = Some e" and "named_scratch K s"
  shows "named_scratch K (fst (action_effect fl bd gx en action arg e s post))"
proof -
  have kept: "named_scratch K t" if "gs_e t = gs_e s" for t using assms(2) that by (simp add: named_scratch_def)
  have arg: "named_scratch K (s\<lparr>gs_e := Some (e\<lparr>gk_action_arg_id := a\<rparr>)\<rparr>)" for a
    using assms by (simp add: named_scratch_def named_def not_found_def)
  show ?thesis
    unfolding action_effect_def split_beta if_distrib [of fst] if_distrib [of "named_scratch K"] fst_conv
    by (simp add: kept e_kept arg named_post assms named_set)
qed

lemma generic_actions_named:
  assumes "named_scratch K s" shows "named_scratch K (fst (generic_actions fl bd gx s))"
proof -
  have step: "named_scratch K (fst (fst (do_action fl bd gx f base en i sp)))" if n: "named_scratch K (fst sp)" for f base en i sp
  proof (cases "gs_e (fst sp)")
    case (Some e)
    define r where "r = action_effect fl bd gx en (act_word f base i) (\<lambda>k. act_word f base (i + k)) e (fst sp) (snd sp)"
    have r: "named_scratch K (fst r)" unfolding r_def by (rule action_effect_named [OF Some n])
    have "named_scratch K (t\<lparr>gs_e := map_option (\<lambda>e'. e'\<lparr>gk_action := a\<rparr>) (gs_e t)\<rparr>)" if "named_scratch K t" for t a
      using that by (auto simp: named_scratch_def named_def not_found_def)
    moreover have "named_scratch K (t\<lparr>gs_os := os\<rparr>) = named_scratch K t" for t os by (simp add: named_scratch_def)
    ultimately show ?thesis
      using Some r by (simp add: do_action_def Let_def split_beta r_def [symmetric] split: option.split)
  qed (use n in \<open>simp add: do_action_def\<close>)
  have "named_scratch K (fst (do_actions_loop fl bd gx f base en n i sp))" if "named_scratch K (fst sp)" for f base en n i sp
    using that by (induction n arbitrary: i sp) (simp_all add: split_beta step)
  with assms show ?thesis
    by (simp add: generic_actions_def do_actions_def Let_def split: option.split)
qed

section \<open>A hit of a hook\<close>

text \<open>
  \<open>K\<close> holds the keys an event may carry, \<open>os0\<close> is the output before the run. A program called from the chain finds a message that names
  its process, except for the process filter, which puts the name there.
\<close>

definition names_process :: "msg_execve_key set \<Rightarrow> out_state \<Rightarrow> prog \<Rightarrow> gen_state \<Rightarrow> bool" where
  "names_process K os0 p s \<longleftrightarrow> generic_events (gs_os s) = generic_events os0 \<and> live_keys (gs_x s) \<subseteq> K
     \<and> (p \<noteq> TAIL_CALL_SEND \<longrightarrow> owners (gs_sock s) \<subseteq> K) \<and> (p \<noteq> TAIL_CALL_FILTER \<longrightarrow> named_scratch K s)"

definition events_named :: "msg_execve_key set \<Rightarrow> out_state \<Rightarrow> gen_state \<Rightarrow> bool" where
  "events_named K os0 s \<longleftrightarrow> (\<exists>evs. generic_events (gs_os s) = generic_events os0 @ evs \<and> (\<forall>ev \<in> set evs. \<exists>e n. ev = (Ev_generic e, n) \<and> named K e))"

lemma events_named_same: "generic_events (gs_os s) = generic_events os0 \<Longrightarrow> events_named K os0 s"
  by (simp add: events_named_def)

lemma output_named:
  assumes "named_scratch K s" and "generic_events (gs_os s) = generic_events os0"
  shows "events_named K os0 (generic_output fl bd gx op s)"
proof (cases "gs_e s")
  case (Some e)
  then have "named K e" using assms(1) by (simp add: named_scratch_def)
  then have "\<exists>evs. generic_events (event_output_metric bd op (Ev_generic e) sz (gs_os s)) = generic_events os0 @ evs
      \<and> (\<forall>ev \<in> set evs. \<exists>e n. ev = (Ev_generic e, n) \<and> named K e)" for sz
    using assms(2) by (cases rule: event_output_metric_cases [of "gs_os s" "Ev_generic e" sz bd op]) (auto simp: generic_events_def is_generic_def)
  with Some show ?thesis by (simp add: events_named_def generic_output_def Let_def)
qed (use assms(2) in \<open>simp add: generic_output_def events_named_same\<close>)

lemma filter_prog_names:
  assumes "names_process K os0 TAIL_CALL_FILTER s"
  shows "ends (events_named K os0) (names_process K os0) (generic_filter_prog fl bd ok gx s)"
proof -
  obtain ps r where f: "generic_process_filter bd (kfilter_of gx) \<lparr>ps_x = gs_x s, ps_path = gs_path s, ps_msg = gs_e s\<rparr> = (ps, r)" by fastforce
  have live: "live_keys (ps_x ps) = live_keys (gs_x s)" using same_keys_live [OF generic_process_filter_keys [OF f]] by simp
  let ?s1 = "s\<lparr>gs_x := ps_x ps, gs_path := ps_path ps, gs_e := ps_msg ps\<rparr>"
  have ev: "events_named K os0 ?s1" using assms by (simp add: names_process_def events_named_same)
  have fil: "names_process K os0 TAIL_CALL_FILTER ?s1" using assms live by (simp add: names_process_def)
  have "named_scratch K ?s1" if "r = PFILTER_ACCEPT"
    using process_filter_named [OF f that] assms by (auto simp: names_process_def named_scratch_def named_def)
  then have "names_process K os0 q ?s1" if "r = PFILTER_ACCEPT" for q using fil that by (simp add: names_process_def)
  with ev fil show ?thesis
    unfolding generic_filter_prog_def f Let_def prod.case by (auto intro!: ends_tail_call)
qed

lemma prog_names:
  assumes "names_process K os0 p s"
  shows "ends (events_named K os0) (names_process K os0) (run_prog stale fl bd ok gx p s)"
proof -
  consider (filter) "p = TAIL_CALL_FILTER" | (actions) "p = TAIL_CALL_ACTIONS" | (send) "p = TAIL_CALL_SEND"
    | (collect) "p \<in> {TAIL_CALL_SETUP, TAIL_CALL_PROCESS, TAIL_CALL_ARGS, TAIL_CALL_PATH}" by (cases p) simp_all
  then show ?thesis
  proof cases
    case filter
    with filter_prog_names assms show ?thesis by (simp add: run_prog_def)
  next
    case send
    with assms show ?thesis by (simp add: run_prog_def names_process_def output_named)
  next
    case actions
    have ev: "generic_events (gs_os (fst (actions_prog stale fl bd ok gx s))) = generic_events os0"
      using actions_prog_out(2) [of stale fl bd ok gx s] assms by (simp add: out_kept_def names_process_def)
    have "named_scratch K (fst (generic_actions fl bd gx s))" using assms actions by (intro generic_actions_named) (simp add: names_process_def)
    then have "snd (actions_prog stale fl bd ok gx s) = Tail q \<Longrightarrow> named_scratch K (fst (actions_prog stale fl bd ok gx s)) \<and> q = TAIL_CALL_SEND" for q
      by (auto simp: actions_prog_def generic_lsm_actions_def tail_call_def ret_def Let_def split_beta split: if_splits option.splits)
    with ev assms actions actions_prog_out(1) [of stale fl bd ok gx s] show ?thesis
      by (auto simp: ends_def run_prog_def names_process_def events_named_same)
  next
    case collect
    then have p: "p \<noteq> TAIL_CALL_FILTER" "p \<noteq> TAIL_CALL_ACTIONS" "p \<noteq> TAIL_CALL_SEND" by auto
    have "attributed K s" using assms p by (simp add: names_process_def attributed_def)
    then have "attributed K (fst (run_prog stale fl bd ok gx p s))"
      using collect by (auto simp: run_prog_def attributed_setup attributed_process attributed_filter_arg attributed_path)
    moreover have "generic_events (gs_os (fst (run_prog stale fl bd ok gx p s))) = generic_events os0"
      using quiet_prog [of p stale fl bd ok gx s] p assms by (simp add: quiet_def out_kept_def names_process_def)
    ultimately show ?thesis
      using table_prog [of p stale fl bd ok gx s] p assms by (auto simp: ends_def names_process_def attributed_def events_named_same)
  qed
qed

lemma upd_e_upd_e: "upd_e g (upd_e h s) = upd_e (\<lambda>e. g (h e)) s"
  by (cases "gs_e s") (simp_all add: upd_e_def)

lemma hit_names:
  assumes "fl \<noteq> KRETPROBE" and "fl \<noteq> URETPROBE" and "live_keys (gs_x s) \<subseteq> K" and "owners (gs_sock s) \<subseteq> K"
  shows "events_named K (gs_os s) (fst (generic_event stale fl bd gx rv s))"
proof -
  have T: "ends (events_named K (gs_os s)) (names_process K (gs_os s)) (tail_call ok TAIL_CALL_FILTER (ret r) (upd_e g s))"
    and R: "ends (events_named K (gs_os s)) (names_process K (gs_os s)) (ret r (upd_e g s))" for g r ok
    using assms(3,4) by (simp_all add: tail_call_def ret_def names_process_def events_named_same) (simp_all add: upd_e_def events_named_same)
  have "ends (events_named K (gs_os s)) (names_process K (gs_os s)) (ret r s)" for r by (simp add: events_named_same)
  with T R assms(1,2) have start: "ends (events_named K (gs_os s)) (names_process K (gs_os s)) (start_prog fl bd (has_prog fl bd) gx rv s)"
    by (simp add: start_prog_def generic_tracepoint_event_def generic_start_process_filter_def upd_e_upd_e Let_def split: option.split)
  show ?thesis
    unfolding generic_event_def
  proof (rule gen.run_chain_inv [where I = "events_named K (gs_os s)" and J = "names_process K (gs_os s)", OF _ start start_has])
    show "ends (events_named K (gs_os s)) (names_process K (gs_os s)) (run_prog stale fl bd ok gx p t)" if "names_process K (gs_os s) p t" for ok p t
      by (rule prog_names [OF that])
  qed
qed

end
