(* ===== verification/Generic_Return.thy ===== *)
theory Generic_Return
  imports Generic_Report
begin

text \<open>
  Calls and their returns: an entry probe records a call that its policy accepted, and the return probe of the same function reports the return in the
  same thread, with the time of the call and the value, once.
\<close>

section \<open>The return of a recorded call\<close>

text \<open>How many bytes a return value of an integer type takes.\<close>

definition value_width :: "u32 \<Rightarrow> nat option" where
  "value_width ty =
     (if ty \<in> {size_type, s64_ty, u64_ty} then Some 8 else if ty \<in> {int_type, s32_ty, u32_ty} then Some 4 else None)"

lemma read_arg_value:
  assumes "value_width ty = Some w" and "gs_e s = Some e"
  shows "read_arg fl bd gx 0 ty 8 v 0 s = (s\<lparr>gs_e := Some (put_args 8 (le_bytes w v) (e\<lparr>gk_argsoff := (gk_argsoff e)[0 := 8]\<rparr>))\<rparr>, int w)"
proof -
  from assms(1) consider "w = 8" "ty = size_type \<or> ty = s64_ty \<or> ty = u64_ty" | "w = 4" "ty = int_type \<or> ty = s32_ty \<or> ty = u32_ty"
    by (auto simp: value_width_def split: if_splits)
  then show ?thesis
    by cases (elim disjE; simp add: assms(2) read_arg_def read_value_def get_path_def type_to_min_size_def Let_def tg_consts)+
qed

lemma blit_head: "length a + length b \<le> length bs \<Longrightarrow> take (length a + length b) (blit (length a) b (blit 0 a bs)) = a @ b"
  by (simp add: blit_def)

text \<open>
  The situation: the return probe of the function of the configuration \<open>config\<close>, with a value of \<open>w\<close> bytes and no buffer to copy, in a thread of the tracked process
  of the entry \<open>enter\<close>; the scratch message \<open>e\<close> has no active selectors and the ring takes all messages.
\<close>

definition returns :: "flavour \<Rightarrow> gen_ctx \<Rightarrow> event_config \<Rightarrow> nat \<Rightarrow> execve_map_value \<Rightarrow> msg_generic_kprobe \<Rightarrow> gen_state \<Rightarrow> bool" where
  "returns fl gx config w enter e s \<longleftrightarrow>
     fl \<in> {KRETPROBE, URETPROBE} \<and> gx_config_map gx (gx_index gx) = Some config
     \<and> value_width (ec_argreturn config) = Some w \<and> ec_argreturncopy config = 0
     \<and> gs_e s = Some e \<and> 16 \<le> length (gk_args e) \<and> \<not> sd_active (gk_sel e) ! SELECTORS_ACTIVE
     \<and> snd (snd (event_find_curr (gx_kt gx) (gs_x s))) = Some enter
     \<and> (\<forall>ring sent sz. 0 \<le> os_answer (gs_os s) ring sent sz)"

definition call_key :: "gen_ctx \<Rightarrow> event_config \<Rightarrow> u64 \<times> u64" where
  "call_key gx config = (ucast (ec_func_id config), retprobe_map_get_key (gx_pid_tgid gx) (gx_fp gx))"

definition pending_call :: "u64 \<times> u64 \<Rightarrow> gen_state \<Rightarrow> retprobe_info option" where
  "pending_call k s = rp_lookup (gs_rp s) (fst k) (snd k)"

lemma return_action_frame:
  "gs_e (return_action fl bd config rv s) = gs_e s" "gs_os (return_action fl bd config rv s) = gs_os s"
  "gs_rp (return_action fl bd config rv s) = gs_rp s" "gs_x (return_action fl bd config rv s) = gs_x s"
  by (simp_all add: return_action_def split: option.split)

text \<open>The program that starts the return: with a pending call the message is made and the chain goes on to the filters, else nothing happens.\<close>

lemma return_start:
  assumes "returns fl gx config w enter e s" and "pending_call (call_key gx config) s = Some info" and "ok TAIL_CALL_ARGS"
  obtains s1 e1 where "generic_retprobe fl bd ok gx rv s = (s1, Tail TAIL_CALL_ARGS)" and "gs_e s1 = Some e1" and "gs_os s1 = gs_os s"
    and "pending_call (call_key gx config) s1 = None" and "gk_sel e1 = gk_sel e"
    and "gk_current e1 = ev_key enter" and "gk_func_id e1 = fst (call_key gx config)" and "mc_flags (gk_common e1) = MSG_COMMON_FLAG_RETURN"
    and "take (8 + w) (gk_args e1) = le_bytes 8 (ri_ktime_enter info) @ le_bytes w rv" and "mc_size (gk_common e1) = of_nat (8 + w)"
proof -
  have h: "gx_config_map gx (gx_index gx) = Some config" "value_width (ec_argreturn config) = Some w" "ec_argreturncopy config = 0" "gs_e s = Some e"
    "16 \<le> length (gk_args e)" "snd (snd (event_find_curr (gx_kt gx) (gs_x s))) = Some enter"
    using assms(1) by (simp_all add: returns_def)
  obtain fid retid where k: "call_key gx config = (fid, retid)" by (metis prod.exhaust)
  obtain rp where get: "retprobe_map_get fid retid (gs_rp s) = (rp, Some info)" and gone: "rp_lookup rp fid retid = None"
    using assms(2) rp_lookup_get [of fid retid "gs_rp s" fid retid] by (auto simp: pending_call_def k retprobe_map_get_def rp_lookup_def Let_def)
  have w: "w \<in> {4, 8}" "ec_argreturn config \<noteq> 0" using h(2) by (auto simp: value_width_def tg_consts split: if_splits)
  let ?e3 = "put_args 0 (le_bytes 8 (ri_ktime_enter info)) (e\<lparr>gk_idx := gx_index gx, gk_func_id := fid, gk_retprobe_id := retid, gk_tid := ucast (gx_pid_tgid gx)\<rparr>)"
  define s3 where "s3 = s\<lparr>gs_e := Some ?e3, gs_rp := rp\<rparr>"
  have s3: "upd_e (put_args 0 (le_bytes 8 (ri_ktime_enter info)))
      ((upd_e (\<lambda>e. e\<lparr>gk_func_id := fid, gk_retprobe_id := retid, gk_tid := ucast (gx_pid_tgid gx)\<rparr>) (upd_e (\<lambda>e. e\<lparr>gk_idx := gx_index gx\<rparr>) s))\<lparr>gs_rp := rp\<rparr>) = s3"
    by (simp add: upd_e_def h(4) s3_def)
  let ?e4 = "put_args 8 (le_bytes w rv) (?e3\<lparr>gk_argsoff := (gk_argsoff ?e3)[0 := 8]\<rparr>)"
  define s4 where "s4 = return_action fl bd config rv (s3\<lparr>gs_e := Some ?e4\<rparr>)"
  have "gs_e s3 = Some ?e3" by (simp add: s3_def)
  from read_arg_value [OF h(2) this] w have rv: "return_value fl bd gx config rv s3 = (s4, of_nat (8 + w))" by (auto simp: return_value_def s4_def)
  have s4: "gs_e s4 = Some ?e4" "gs_os s4 = gs_os s" "gs_rp s4 = rp" "gs_x s4 = gs_x s" by (simp_all add: s4_def s3_def return_action_frame)
  have "ec_argreturncopy config \<noteq> char_buf" "ec_argreturncopy config \<noteq> char_iovec" using h(3) by (simp_all add: tg_consts)
  then have copy: "return_copy fl bd gx config info rv sz s4 = (s4, 0)" for sz by (simp add: return_copy_def s4(1))
  let ?e1 = "return_head fl gx (Some enter) (of_nat (8 + w)) ?e4"
  let ?s1 = "s4\<lparr>gs_e := Some ?e1\<rparr>"
  have keys: "ucast (ec_func_id config) = fid" "retprobe_map_get_key (gx_pid_tgid gx) (gx_fp gx) = retid" using k by (simp_all add: call_key_def)
  have same: "gs_rp (upd_e g (upd_e g' s)) = gs_rp s" for g g' by (simp add: upd_e_def)
  have mask: "(8 + of_nat w AND 0x1fff :: u64) = 8 + of_nat w" "(ucast (8 + of_nat w :: u64) :: u32) = 8 + of_nat w" using w(1) by auto
  show ?thesis
  proof (rule that [of ?s1 ?e1])
    show "generic_retprobe fl bd ok gx rv s = (?s1, Tail TAIL_CALL_ARGS)"
      using h(1,4,6) assms(3)
      by (simp add: generic_retprobe_def keys same get s3 rv mask copy s4 Let_def tail_call_def upd_e_def [of "return_head _ _ _ _"])
    show "pending_call (call_key gx config) ?s1 = None" by (simp add: pending_call_def k s4(3) gone)
    show "take (8 + w) (gk_args ?e1) = le_bytes 8 (ri_ktime_enter info) @ le_bytes w rv"
      using blit_head [of "le_bytes 8 (ri_ktime_enter info)" "le_bytes w rv" "gk_args e"] w(1) h(5) by (auto simp: return_head_def put_args_def)
  qed (simp_all add: s4 return_head_def put_args_def k)
qed

lemma return_event:
  assumes "returns fl gx config w enter e s" and "pending_call (call_key gx config) s = Some info"
  obtains e' sz where "generic_events (gs_os (fst (generic_event stale fl bd gx rv s))) = generic_events (gs_os s) @ [(Ev_generic e', sz)]"
    and "gk_current e' = ev_key enter" and "gk_func_id e' = fst (call_key gx config)" and "mc_flags (gk_common e') = MSG_COMMON_FLAG_RETURN"
    and "take (8 + w) (gk_args e') = le_bytes 8 (ri_ktime_enter info) @ le_bytes w rv" and "mc_size (gk_common e') = of_nat (8 + w)"
    and "pending_call (call_key gx config) (fst (generic_event stale fl bd gx rv s)) = None"
proof -
  have fl: "fl \<in> {KRETPROBE, URETPROBE}" "\<not> sd_active (gk_sel e) ! SELECTORS_ACTIVE" "\<forall>ring sent sz. 0 \<le> os_answer (gs_os s) ring sent sz"
    using assms(1) by (simp_all add: returns_def)
  then have has: "has_prog fl bd TAIL_CALL_ARGS" "has_prog fl bd TAIL_CALL_SEND" by (auto simp: has_prog_def)
  obtain s1 e1 where s1: "generic_retprobe fl bd (has_prog fl bd) gx rv s = (s1, Tail TAIL_CALL_ARGS)" "gs_e s1 = Some e1" "gs_os s1 = gs_os s"
    "pending_call (call_key gx config) s1 = None" "gk_sel e1 = gk_sel e"
    and e1: "gk_current e1 = ev_key enter" "gk_func_id e1 = fst (call_key gx config)" "mc_flags (gk_common e1) = MSG_COMMON_FLAG_RETURN"
    "take (8 + w) (gk_args e1) = le_bytes 8 (ri_ktime_enter info) @ le_bytes w rv" "mc_size (gk_common e1) = of_nat (8 + w)"
    by (rule return_start [where bd = bd and rv = rv and ok = "has_prog fl bd", OF assms has(1)])
  obtain N where N: "MAX_TAIL_CALL_CNT = Suc (Suc N)" by (simp add: MAX_TAIL_CALL_CNT_def)
  have start: "start_prog fl bd (has_prog fl bd) gx rv s = (s1, Tail TAIL_CALL_ARGS)" using fl(1) s1(1) by (auto simp: start_prog_def)
  have "generic_filter_arg bd (\<lambda>q. has_prog fl bd q \<and> 0 < Suc N) gx en s1 = (s1, Tail TAIL_CALL_SEND)" for en
    using s1(2,5) fl(2) has(2) by (simp add: generic_filter_arg_def filter_args_def tail_call_def Let_def split: option.split)
  then have final: "fst (generic_event stale fl bd gx rv s) = generic_output fl bd gx (op_of fl) s1"
    by (simp add: generic_event_def start N run_prog_def ret_def)
  obtain sz where "generic_events (gs_os (generic_output fl bd gx (op_of fl) s1)) = generic_events (gs_os s) @ [(Ev_generic e1, sz)]"
    using output_sent [OF s1(2), of fl bd gx "op_of fl"] fl(3) by (auto simp: s1(3))
  moreover have "pending_call (call_key gx config) (generic_output fl bd gx (op_of fl) s1) = None"
    using s1(2,4) by (simp add: pending_call_def generic_output_def Let_def split_beta)
  ultimately show ?thesis using e1 final by (intro that [of e1 sz]) simp_all
qed

section \<open>The record of a call\<close>

text \<open>The entry of a call for its return probe, with the time of the call; whatever the arguments leave there later has the same key and time.\<close>

definition recorded :: "u64 \<Rightarrow> u64 \<Rightarrow> u64 \<Rightarrow> retprobe_state \<Rightarrow> bool" where
  "recorded fid retid t rp \<longleftrightarrow> (\<exists>info. rp_lookup rp fid retid = Some info \<and> ri_ktime_enter info = t)"

lemma recorded_set [simp]:
  "recorded fid retid t rp \<Longrightarrow> recorded fid retid t (retprobe_map_set fid retid t p rp)"
  "recorded fid retid t rp \<Longrightarrow> recorded fid retid t (retprobe_map_set_iovec fid retid t p c rp)"
  by (auto simp: recorded_def rp_lookup_set)

lemma copy_bytes_rp: "gs_rp (snd (fst (copy_bytes fl bd gx off arg n md e s))) = gs_rp s"
  by (simp add: copy_bytes_def Let_def split_beta)

lemma copy_iov_iter_rp: "gs_rp (snd (fst (copy_iov_iter fl bd gx off arg argm e s))) = gs_rp s"
  by (simp add: copy_iov_iter_def copy_bytes_rp Let_def)

lemma copy_path_rp: "gs_rp (snd (fst (copy_path bd gx off pb ref e s))) = gs_rp s"
  by (simp add: copy_path_def store_path_def Let_def split_beta split: option.split)

lemma read_value_recorded:
  assumes "recorded fid retid t (gs_rp s)" and "gk_func_id e = fid" and "mc_ktime (gk_common e) = t"
    and "retid = retprobe_map_get_key (gx_pid_tgid gx) (gx_fp gx)"
  shows "recorded fid retid t (gs_rp (snd (fst (read_value fl bd gx ty off arg argm e s))))"
proof -
  have "recorded fid retid t (gs_rp (snd (fst (copy_char_buf fl bd gx off arg argm e s))))"
    "recorded fid retid t (gs_rp (snd (fst (copy_char_iovec gx off arg argm e s))))"
    using assms by (simp_all add: copy_char_buf_def copy_char_iovec_def copy_bytes_rp Let_def split_beta)
  with assms(1) show ?thesis
    unfolding read_value_def Let_def split_beta if_distrib [of fst] if_distrib [of snd] if_distrib [of gs_rp] if_distrib [of "recorded fid retid t"]
      fst_conv snd_conv lift_copy_def copy_iov_iter_rp
    by simp
qed

text \<open>The state of a call that has been recorded.\<close>

definition in_call :: "u64 \<Rightarrow> u64 \<Rightarrow> u64 \<Rightarrow> gen_state \<Rightarrow> bool" where
  "in_call fid retid t s \<longleftrightarrow>
     recorded fid retid t (gs_rp s) \<and> (\<exists>e. gs_e s = Some e \<and> gk_func_id e = fid \<and> mc_ktime (gk_common e) = t)"

lemma in_call_upd:
  "in_call fid retid t s \<Longrightarrow> in_call fid retid t (upd_e (set_size n) s)"
  "in_call fid retid t s \<Longrightarrow> in_call fid retid t (upd_e (\<lambda>e. e\<lparr>gk_tailcall_index_process := i\<rparr>) s)"
  by (auto simp: in_call_def upd_e_def set_size_def)

lemma read_arg_in_call:
  assumes "in_call fid retid t s" and "retid = retprobe_map_get_key (gx_pid_tgid gx) (gx_fp gx)"
  shows "in_call fid retid t (fst (read_arg fl bd gx i ty off arg argm s))"
proof -
  obtain e where e: "gs_e s = Some e" "gk_func_id e = fid" "mc_ktime (gk_common e) = t" and r: "recorded fid retid t (gs_rp s)"
    using assms(1) by (auto simp: in_call_def)
  obtain e' where "gs_e (fst (read_arg fl bd gx i ty off arg argm s)) = Some e'" "steering e' = steering e"
    using read_arg_frame(1) [OF e(1)] by blast
  moreover have "recorded fid retid t (gs_rp (fst (read_arg fl bd gx i ty off arg argm s)))"
    using r e assms(2) by (simp add: read_arg_def Let_def split_beta copy_path_rp read_value_recorded split: option.split)
  ultimately show ?thesis using e by (auto simp: in_call_def steering_def)
qed

lemma collect_args_in_call:
  assumes "retid = retprobe_map_get_key (gx_pid_tgid gx) (gx_fp gx)"
  shows "in_call fid retid t s \<Longrightarrow> in_call fid retid t (collect_args fl bd gx config k i s)"
proof (induction k arbitrary: i s)
  case (Suc k)
  from Suc.prems obtain e where e: "gs_e s = Some e" by (auto simp: in_call_def)
  have "in_call fid retid t (read_one fl bd gx config i s)"
    using Suc.prems by (simp add: read_one_def e Let_def split_beta in_call_upd read_arg_in_call assms)
  with Suc.IH show ?case by (simp add: Let_def in_call_upd)
qed simp

lemma collect_event_in_call:
  assumes "on_track A fl gx config enter s0 TAIL_CALL_SETUP s" and "call_key gx config = (fid, retid)"
    and "fl = KPROBE \<and> (ec_syscall config \<noteq> 0 \<longrightarrow> gx_syscall_regs gx \<noteq> 0) \<or> fl = UPROBE" and "0 <s ec_argreturn config"
    and "bm_admit (rp_map (gs_rp s)) (bm_elems (rp_map (gs_rp s))) \<lparr>rk_id = fid, rk_tid = retid\<rparr> = 0"
  shows "in_call fid retid (gx_ktime gx) (collect_event fl bd gx config s)"
proof -
  obtain e where e: "gs_e s = Some e" using on_track_e [OF assms(1)] by blast
  have k: "ucast (ec_func_id config) = fid" "retprobe_map_get_key (gx_pid_tgid gx) (gx_fp gx) = retid"
    using assms(2) by (simp_all add: call_key_def)
  have fid: "gk_func_id e = fid" using assms(1) e k by (simp add: on_track_def)
  have "in_call fid retid (gx_ktime gx) (mark_retprobe gx config (upd_e (\<lambda>e. generic_process_init gx op (e\<lparr>gk_a := as\<rparr>)) s))" for op as
    using assms(4,5) e fid
    by (simp add: in_call_def mark_retprobe_def upd_e_def Let_def generic_process_init_def k recorded_def rp_lookup_set map_update_accepts)
  then obtain s1 where "setup_message fl gx config s = Some s1" "in_call fid retid (gx_ktime gx) s1"
    using assms(3) by (auto simp: setup_message_def Let_def)
  then show ?thesis by (simp add: collect_event_def collect_args_in_call k)
qed

section \<open>Calls and their returns\<close>

text \<open>
  The situation of a call: a hit of a function's entry probe by the tracked process of the entry \<open>enter\<close>, with a policy without selectors that applies to the
  process's cgroup and asks for the return value, on a build without path offloading, with arguments of types that always can be read, a ring
  that takes all messages and a free element for the call.
\<close>

definition called ::
  "flavour \<Rightarrow> build \<Rightarrow> gen_ctx \<Rightarrow> event_config \<Rightarrow> execve_map_value \<Rightarrow> gen_state \<Rightarrow> bool" where
  "called fl bd gx config enter s \<longleftrightarrow>
     (fl = KPROBE \<and> (ec_syscall config \<noteq> 0 \<longrightarrow> gx_syscall_regs gx \<noteq> 0) \<or> fl = UPROBE) \<and> \<not> offloads fl bd \<and> gs_e s \<noteq> None
     \<and> snd (snd (event_find_curr (gx_kt gx) (gs_x s))) = Some enter
     \<and> gx_config_map gx (gx_index gx) = Some config \<and> map_option (\<lambda>f. rd32 f 0) (gx_filter_map gx (gx_index gx)) = Some 0
     \<and> policy_applies bd gx (ec_policy_id config) s \<and> (\<forall>i \<le> 4. plain_ty (ec_arg config ! i)) \<and> 0 <s ec_argreturn config
     \<and> (\<forall>ring sent sz. 0 \<le> os_answer (gs_os s) ring sent sz)
     \<and> bm_admit (rp_map (gs_rp s)) (bm_elems (rp_map (gs_rp s))) \<lparr>rk_id = fst (call_key gx config), rk_tid = snd (call_key gx config)\<rparr> = 0"

lemma call_event:
  assumes "called fl bd gx config enter s"
  obtains e' sz info where "generic_events (gs_os (fst (generic_event stale fl bd gx rv s))) = generic_events (gs_os s) @ [(Ev_generic e', sz)]"
    and "gk_current e' = ev_key enter" and "gk_func_id e' = fst (call_key gx config)" and "mc_ktime (gk_common e') = gx_ktime gx"
    and "pending_call (call_key gx config) (fst (generic_event stale fl bd gx rv s)) = Some info" and "ri_ktime_enter info = gx_ktime gx"
proof -
  have h: "\<not> offloads fl bd" "gx_config_map gx (gx_index gx) = Some config" "policy_applies bd gx (ec_policy_id config) s"
    "\<forall>i \<le> 4. plain_ty (ec_arg config ! i)" "0 <s ec_argreturn config" "\<forall>ring sent sz. 0 \<le> os_answer (gs_os s) ring sent sz"
    and fl: "fl = KPROBE \<and> (ec_syscall config \<noteq> 0 \<longrightarrow> gx_syscall_regs gx \<noteq> 0) \<or> fl = UPROBE"
    using assms by (simp_all add: called_def)
  obtain e f where e: "gs_e s = Some e" "gx_filter_map gx (gx_index gx) = Some f" "rd32 f 0 = 0" using assms by (auto simp: called_def)
  obtain pid walked where find: "event_find_curr (gx_kt gx) (gs_x s) = (pid, walked, Some enter)"
    using assms by (cases "event_find_curr (gx_kt gx) (gs_x s)") (auto simp: called_def)
  obtain fid retid where k: "call_key gx config = (fid, retid)" by (metis prod.exhaust)
  have "fl \<in> {KPROBE, UPROBE, USDT, RAWTP}" "fl = KPROBE \<Longrightarrow> ec_syscall config \<noteq> 0 \<Longrightarrow> gx_syscall_regs gx \<noteq> 0" using fl by auto
  note sends = hit_sends [where stale = stale and rv = rv, OF this(1) h(1) e(1) find h(2) e(2,3) h(3) this(2) h(4,6)]
  obtain s1 s' e' sz where s1: "on_track (\<lambda>a. \<not> a ! SELECTORS_ACTIVE) fl gx config enter s TAIL_CALL_SETUP s1" "gs_rp s1 = gs_rp s"
    "s' = collect_event fl bd gx config s1" "fst (generic_event stale fl bd gx rv s) = generic_output fl bd gx (op_of fl) s'" "gs_e s' = Some e'"
    and e': "generic_events (gs_os (fst (generic_event stale fl bd gx rv s))) = generic_events (gs_os s) @ [(Ev_generic e', sz)]"
    "gk_current e' = \<lparr>ek_pid = ek_pid (ev_key enter), ek_ktime = ek_ktime (ev_key enter)\<rparr>" "gk_func_id e' = ucast (ec_func_id config)"
    by (rule sends)
  have admit: "bm_admit (rp_map (gs_rp s1)) (bm_elems (rp_map (gs_rp s1))) \<lparr>rk_id = fid, rk_tid = retid\<rparr> = 0"
    using assms k by (simp add: called_def s1(2))
  have "in_call fid retid (gx_ktime gx) s'" unfolding s1(3) by (rule collect_event_in_call [OF s1(1) k fl h(5) admit])
  then obtain info where info: "mc_ktime (gk_common e') = gx_ktime gx" "rp_lookup (gs_rp s') fid retid = Some info" "ri_ktime_enter info = gx_ktime gx"
    using s1(5) by (auto simp: in_call_def recorded_def)
  have "pending_call (call_key gx config) (generic_output fl bd gx (op_of fl) s') = Some info"
    using info(2) s1(5) by (simp add: pending_call_def k generic_output_def Let_def split_beta)
  then have pend: "pending_call (call_key gx config) (fst (generic_event stale fl bd gx rv s)) = Some info" by (simp add: s1(4))
  have "gk_current e' = ev_key enter" "gk_func_id e' = fst (call_key gx config)" using e'(2,3) by (simp_all add: call_key_def)
  from that [OF e'(1) this info(1) pend info(3)] show ?thesis .
qed

lemma return_without_call:
  assumes "fl \<in> {KRETPROBE, URETPROBE}" and "gx_config_map gx (gx_index gx) = Some config" and "pending_call (call_key gx config) s = None"
  shows "gs_os (fst (generic_event stale fl bd gx rv s)) = gs_os s"
proof -
  obtain fid retid where k: "call_key gx config = (fid, retid)" by (metis prod.exhaust)
  have "retprobe_map_get fid retid (gs_rp s) = (gs_rp s, None)"
    using assms(3) by (simp add: pending_call_def k rp_lookup_def retprobe_map_get_def Let_def)
  moreover have "ucast (ec_func_id config) = fid" "retprobe_map_get_key (gx_pid_tgid gx) (gx_fp gx) = retid" using k by (simp_all add: call_key_def)
  ultimately obtain s1 where "start_prog fl bd (has_prog fl bd) gx rv s = (s1, Ret 0)" "gs_os s1 = gs_os s"
    using assms(1,2) by (cases "gs_e s") (auto simp: start_prog_def generic_retprobe_def upd_e_def ret_def Let_def)
  then show ?thesis by (simp add: generic_event_def)
qed

text \<open>
  C5. Calls and returns are paired, for policies without selectors. A call is a hit of a kernel or user probe by a tracked process of a cgroup that the policy applies to,
  on a build without path offloading, with arguments of types that always can be read and a return value asked for; its return has an integer value and no buffer to copy, and meets a scratch message
  in which no selectors are active (the return program does not reset them, so that with selectors of another event there the return is filtered by those). The ring and the map of pending calls
  take what they are given. Then the call is reported; when the function returns in the same thread and what the call left for it is still there,
  whatever else happened in between, the return is reported too, with the same function id, the time of the call, the value and the process,
  and a second return without a call is not reported.
\<close>

theorem call_and_return:
  assumes "called fl bd gx config enter s" and "t = fst (generic_event stale fl bd gx rv0 s)"
    and "returns fl' gx' config' w enter' e' t'" and "call_key gx' config' = call_key gx config"
    and "pending_call (call_key gx config) t' = pending_call (call_key gx config) t"
    and "u = fst (generic_event stale fl' bd' gx' rv t')"
  shows "\<exists>e1 e2 sz1 sz2. generic_events (gs_os t) = generic_events (gs_os s) @ [(Ev_generic e1, sz1)]
     \<and> generic_events (gs_os u) = generic_events (gs_os t') @ [(Ev_generic e2, sz2)]
     \<and> gk_current e1 = ev_key enter \<and> mc_ktime (gk_common e1) = gx_ktime gx
     \<and> gk_current e2 = ev_key enter' \<and> mc_flags (gk_common e2) = MSG_COMMON_FLAG_RETURN \<and> gk_func_id e2 = gk_func_id e1
     \<and> mc_size (gk_common e2) = of_nat (8 + w) \<and> take (8 + w) (gk_args e2) = le_bytes 8 (mc_ktime (gk_common e1)) @ le_bytes w rv
     \<and> gs_os (fst (generic_event stale fl' bd' gx' rv' u)) = gs_os u"
proof -
  obtain e1 sz1 info where c: "generic_events (gs_os t) = generic_events (gs_os s) @ [(Ev_generic e1, sz1)]"
    "gk_current e1 = ev_key enter" "gk_func_id e1 = fst (call_key gx config)" "mc_ktime (gk_common e1) = gx_ktime gx"
    "pending_call (call_key gx config) t = Some info" "ri_ktime_enter info = gx_ktime gx"
    unfolding assms(2) by (rule call_event [OF assms(1), of stale rv0])
  have "pending_call (call_key gx' config') t' = Some info" using assms(4,5) c(5) by simp
  note ret = return_event [where stale = stale and bd = bd' and rv = rv, OF assms(3) this, folded assms(6)]
  obtain e2 sz2 where r: "generic_events (gs_os u) = generic_events (gs_os t') @ [(Ev_generic e2, sz2)]"
    "gk_current e2 = ev_key enter'" "gk_func_id e2 = fst (call_key gx' config')" "mc_flags (gk_common e2) = MSG_COMMON_FLAG_RETURN"
    "take (8 + w) (gk_args e2) = le_bytes 8 (ri_ktime_enter info) @ le_bytes w rv" "mc_size (gk_common e2) = of_nat (8 + w)"
    "pending_call (call_key gx' config') u = None"
    by (rule ret)
  have "fl' \<in> {KRETPROBE, URETPROBE}" "gx_config_map gx' (gx_index gx') = Some config'" using assms(3) by (simp_all add: returns_def)
  note again = return_without_call [OF this r(7), of stale bd' rv']
  show ?thesis
    by (intro exI [of _ e1] exI [of _ e2] exI [of _ sz1] exI [of _ sz2] conjI c(1) r(1) c(2,4) r(2,4) r(6) again) (simp_all add: c r assms(4))
qed

section \<open>A concrete run\<close>

definition ec_call :: event_config where
  "ec_call = ec_example\<lparr>ec_argreturn := int_type\<rparr>"

definition gx_call :: gen_ctx where
  "gx_call = gx_example\<lparr>gx_filter_map := [0 \<mapsto> replicate 4096 0], gx_config_map := [0 \<mapsto> ec_call]\<rparr>"

lemma call_hit: "called KPROBE build_v61 gx_call ec_call v_example gs_example"
  using current_find open_plain(1) open_state(1)
  by (simp add: called_def gx_call_def gx_example_def gs_example_def ec_call_def ec_example_def policy_applies_def policy_filter_check_def plain_ty_def
      tg_consts rp_empty_def empty_map_def word_sless_alt)

lemma call_returns: "returns KRETPROBE gx_call ec_call 4 v_example e_example (gs_example\<lparr>gs_rp := rp\<rparr>)"
  using current_find
  by (simp add: returns_def gx_call_def gx_example_def gs_example_def ec_call_def ec_example_def value_width_def tg_consts e_example_def msg_example_def
      SELECTORS_ACTIVE_def sel_example_def)

theorem call_and_return_witness:
  "\<exists>e2 sz. generic_events (gs_os (fst (generic_event id KRETPROBE build_v61 gx_call 42
        (gs_example\<lparr>gs_rp := gs_rp (fst (generic_event id KPROBE build_v61 gx_call 0 gs_example))\<rparr>)))) = [(Ev_generic e2, sz)]
     \<and> gk_current e2 = \<lparr>ek_pid = 10, ek_ktime = 5\<rparr> \<and> take 12 (gk_args e2) = le_bytes 8 (5000000 :: u64) @ le_bytes 4 (42 :: u64)"
proof -
  have "gx_ktime gx_call = 5000000" "generic_events (gs_os gs_example) = []" by (simp_all add: gx_call_def gx_example_def open_state)
  with call_and_return [OF call_hit refl call_returns refl _ refl, of "gs_rp (fst (generic_event id KPROBE build_v61 gx_call 0 gs_example))" id 0 build_v61 42 0]
  show ?thesis by (auto simp: pending_call_def open_state)
qed

end
