(* ===== verification/Generic_Policy.thy ===== *)
theory Generic_Policy
  imports Generic_Report
begin

text \<open>
  A hit of a hook against the meaning of its policy. A policy is a list of selectors, each with filters on the process, filters on the arguments and
  a list of actions. The chain of tail calls does what the policy says: the event is collected, the first selector whose process filters
  and argument filters accept decides, its actions are run and the event is sent unless an action suppresses it.
\<close>

section \<open>The meaning of a policy\<close>

definition act_on :: "flavour \<Rightarrow> build \<Rightarrow> gen_ctx \<Rightarrow> gen_state \<Rightarrow> gen_state" where
  "act_on fl bd gx s =
     (case generic_actions fl bd gx s of
        (s1, post) \<Rightarrow> if post then generic_output fl bd gx (op_of fl) s1 else s1)"

text \<open>The selector that decides; \<open>P\<close> says for which of the \<open>n\<close> selectors the process filters accept, \<open>e\<close> is the collected event.\<close>

definition deciding_selector :: "build \<Rightarrow> gen_ctx \<Rightarrow> byte list \<Rightarrow> nat \<Rightarrow> (nat \<Rightarrow> bool) \<Rightarrow> msg_generic_kprobe \<Rightarrow> nat option" where
  "deciding_selector bd gx f n P e =
     find (\<lambda>j. P j \<and> selector_arg_offset bd (gx_am gx) f e (of_nat j) True \<noteq> 0) [0..<n]"

section \<open>The phases of a hit\<close>

lemma find_upt_cut: "n \<le> m \<Longrightarrow> (\<And>j. n \<le> j \<Longrightarrow> j < m \<Longrightarrow> \<not> Q j) \<Longrightarrow> find Q [i..<m] = find Q [i..<n]"
proof (induction "n - i" arbitrary: i)
  case 0
  then have "\<not> Q j" if "j \<in> set [i..<m]" for j using that by simp
  then have "find Q [i..<m] = None" by (auto simp: find_None_iff)
  with 0 show ?case by simp
next
  case (Suc k)
  then have "[i..<m] = i # [Suc i..<m]" "[i..<n] = i # [Suc i..<n]" by (simp_all add: upt_conv_Cons)
  with Suc show ?case by simp
qed

lemma find_upt_cong: "(\<And>j. i \<le> j \<Longrightarrow> j < n \<Longrightarrow> P j = Q j) \<Longrightarrow> find P [i..<n] = find Q [i..<n]"
  by (rule find_cong) simp_all

lemma actions_phase:
  assumes "fl \<noteq> LSM" and "has_prog fl bd TAIL_CALL_SEND" and "2 \<le> n"
  shows "fst (run_chain (\<lambda>ok. run_prog stale fl bd ok gx) (has_prog fl bd) n (s, Tail TAIL_CALL_ACTIONS)) = act_on fl bd gx s"
proof -
  obtain m where n: "n = Suc (Suc m)" using assms(3) by (intro that [of "n - 2"]) simp
  show ?thesis
    using assms(1,2) by (simp add: n run_prog_def actions_prog_def act_on_def tail_call_def ret_def split_beta)
qed

lemma selector_arg_offset_cases: "selector_arg_offset bd am f e j en \<in> {0, arg_section f j en}"
  by (simp add: selector_arg_offset_def Let_def)

text \<open>From the collected event on.\<close>

lemma decision_phase:
  assumes "on_track (\<lambda>a. a = act) fl gx config enter s0 TAIL_CALL_ARGS s" and "gs_e s = Some e"
    and "gx_filter_map gx (gx_index gx) = Some f" and "fl \<in> {KPROBE, UPROBE, USDT, RAWTP}"
    and "\<forall>j < n. act ! j = P j" and "\<forall>j. n \<le> j \<and> j < 31 \<longrightarrow> \<not> act ! j" and "act ! 31" and "n \<le> 5"
    and "\<forall>j < n. arg_section f (of_nat j) True \<noteq> 1" and "9 \<le> k"
  shows "case deciding_selector bd gx f n P e of
      None \<Rightarrow> kept (fst (run_chain (\<lambda>ok. run_prog stale fl bd ok gx) (has_prog fl bd) k (s, Tail TAIL_CALL_ARGS))) = kept s0
    | Some j \<Rightarrow> fst (run_chain (\<lambda>ok. run_prog stale fl bd ok gx) (has_prog fl bd) k (s, Tail TAIL_CALL_ARGS))
                = act_on fl bd gx (accept_state bd gx f True e j s)"
proof -
  let ?has = "has_prog fl bd" and ?step = "\<lambda>ok. run_prog stale fl bd ok gx"
  have e: "gk_idx e = gx_index gx" "sd_active (gk_sel e) = act" "gk_tailcall_index_selector e = 0" "kept s = kept s0"
    using assms(1,2) by (simp_all add: on_track_def)
  have has: "?has TAIL_CALL_ARGS" "?has TAIL_CALL_ACTIONS" "?has TAIL_CALL_SEND" and fl: "fl \<noteq> LSM" "True = entry_flavour fl"
    using assms(4) by (auto simp: has_prog_def entry_flavour_def)
  have act: "act ! j = (j < n \<and> P j)" if "j < 31" for j using assms(5,6) that by (cases "j < n") auto
  have f: "gx_filter_map gx (gk_idx e) = Some f" "sd_active (gk_sel e) ! SELECTORS_ACTIVE" using e assms(3,7) by (simp_all add: SELECTORS_ACTIVE_def)
  have off: "\<forall>j \<le> 5. sd_active (gk_sel e) ! j \<longrightarrow> selector_arg_offset bd (gx_am gx) f e (of_nat j) True \<noteq> 1"
  proof (intro allI impI)
    fix j :: nat assume "j \<le> 5" "sd_active (gk_sel e) ! j"
    then have "j < n" using act [of j] e(2) by simp
    with assms(9) selector_arg_offset_cases [of bd "gx_am gx" f e "of_nat j" True]
    show "selector_arg_offset bd (gx_am gx) f e (of_nat j) True \<noteq> 1" by fastforce
  qed
  have "find (selector_accepts bd gx f True e) [0..<6] = find (selector_accepts bd gx f True e) [0..<n]"
    using assms(8) act e(2) by (intro find_upt_cut) (auto simp: selector_accepts_def)
  also have "\<dots> = deciding_selector bd gx f n P e"
    unfolding deciding_selector_def using act e(2) assms(8) by (intro find_upt_cong) (auto simp: selector_accepts_def)
  finally have dec: "find (selector_accepts bd gx f True e) [0..<6] = deciding_selector bd gx f n P e" .
  have "e\<lparr>gk_tailcall_index_selector := of_nat 0\<rparr> = e" using e(3) by simp
  then have at: "at_selector e 0 s = s" using assms(2) by (simp add: at_selector_def)
  have "(0 :: nat) \<le> 5" "8 - 0 \<le> k" using assms(10) by simp_all
  from argument_phase [OF f fl(2) off has(1,2) refl this, of stale s, unfolded at dec] obtain m where "m \<le> 6" and
    m: "case deciding_selector bd gx f n P e of
        Some j \<Rightarrow> run_chain ?step ?has k (s, Tail TAIL_CALL_ARGS) = run_chain ?step ?has (k - m) (accept_state bd gx f True e j s, Tail TAIL_CALL_ACTIONS)
      | None \<Rightarrow> \<exists>j. run_chain ?step ?has k (s, Tail TAIL_CALL_ARGS) = (reject_state gx e j s, 0, k - m)" by auto
  show ?thesis
  proof (cases "deciding_selector bd gx f n P e")
    case None
    with m e(4) show ?thesis by (auto simp: reject_state_def)
  next
    case (Some j)
    with m actions_phase [OF fl(1) has(3), of "k - m" stale gx] \<open>m \<le> 6\<close> assms(10) show ?thesis by simp
  qed
qed

section \<open>A hit does what the policy says\<close>

text \<open>
  The situation: a hit of an entry hook by the tracked process of the entry \<open>enter\<close>, with a policy of one to five selectors without binary filters that applies
  to the process's cgroup, on a build without path offloading and with arguments of types that always can be read. \<open>config\<close> is the
  configuration of the hook, \<open>f\<close> the compiled policy with \<open>n\<close> selectors, and \<open>e\<close> the scratch message, which may hold anything.
\<close>

definition policy_hit ::
  "flavour \<Rightarrow> build \<Rightarrow> gen_ctx \<Rightarrow> event_config \<Rightarrow> byte list \<Rightarrow> nat \<Rightarrow> execve_map_value \<Rightarrow> msg_generic_kprobe \<Rightarrow> gen_state \<Rightarrow> bool" where
  "policy_hit fl bd gx config f n enter e s \<longleftrightarrow>
     fl \<in> {KPROBE, UPROBE, USDT, RAWTP} \<and> \<not> offloads fl bd \<and> gs_e s = Some e
     \<and> snd (snd (event_find_curr (gx_kt gx) (gs_x s))) = Some enter
     \<and> gx_config_map gx (gx_index gx) = Some config \<and> gx_filter_map gx (gx_index gx) = Some f
     \<and> rd32 f 0 = of_nat n \<and> 1 \<le> n \<and> n \<le> 5 \<and> mm_sel_opts (gx_mm gx) = (\<lambda>_. None)
     \<and> policy_applies bd gx (ec_policy_id config) s
     \<and> (fl = KPROBE \<longrightarrow> ec_syscall config \<noteq> 0 \<longrightarrow> gx_syscall_regs gx \<noteq> 0)
     \<and> (\<forall>i \<le> 4. plain_ty (ec_arg config ! i)) \<and> (\<forall>j < n. arg_section f (of_nat j) True \<noteq> 1)"

text \<open>For which selectors the process filters accept the process.\<close>

definition process_accepted :: "build \<Rightarrow> gen_ctx \<Rightarrow> event_config \<Rightarrow> byte list \<Rightarrow> execve_map_value \<Rightarrow> msg_generic_kprobe \<Rightarrow> gen_state \<Rightarrow> nat \<Rightarrow> bool" where
  "process_accepted bd gx config f enter e s =
     (let msg = start_message bd gx config e in selector_passes bd (kfilter_of gx) (gs_x s) f enter (gk_ns msg) (gk_caps msg))"

text \<open>The event that is collected for it: the message of the start with the selectors \<open>sel\<close> and the key of the process.\<close>

definition hit_event :: "flavour \<Rightarrow> build \<Rightarrow> gen_ctx \<Rightarrow> event_config \<Rightarrow> execve_map_value \<Rightarrow> msg_generic_kprobe \<Rightarrow> msg_selector_data \<Rightarrow> gen_state \<Rightarrow> gen_state" where
  "hit_event fl bd gx config enter e sel s =
     collect_event fl bd gx config (s\<lparr>gs_e := Some ((start_message bd gx config e)\<lparr>gk_sel := sel, gk_current := ev_key enter\<rparr>)\<rparr>)"

text \<open>The process filters; \<open>msg'\<close> is the message with which the event is set up.\<close>

lemma policy_filter_phase:
  assumes "fl \<in> {KPROBE, UPROBE, USDT, RAWTP}" and "gs_e s = Some e" and "gx_config_map gx (gx_index gx) = Some config"
    and "event_find_curr (gx_kt gx) (gs_x s) = (pid, walked, Some enter)" and "gx_filter_map gx (gx_index gx) = Some f"
    and "mm_sel_opts (gx_mm gx) = (\<lambda>_. None)" and "rd32 f 0 = of_nat n" and "1 \<le> n" and "n \<le> 5"
    and "policy_applies bd gx (ec_policy_id config) s" and "msg = start_message bd gx config e"
    and "P = selector_passes bd (kfilter_of gx) (gs_x s) f enter (gk_ns msg) (gk_caps msg)"
  obtains msg' k where "run_at P n msg msg'" and "27 \<le> k"
    and "generic_event stale fl bd gx rv s =
       (let s1 = s\<lparr>gs_e := Some (msg'\<lparr>gk_current := ev_key enter\<rparr>)\<rparr>
        in if \<exists>j < n. P j then run_chain (\<lambda>ok. run_prog stale fl bd ok gx) (has_prog fl bd) k (s1, Tail TAIL_CALL_SETUP) else (s1, PFILTER_REJECT, k))"
proof -
  let ?s = "s\<lparr>gs_e := Some msg\<rparr>" and ?kf = "kfilter_of gx" and ?has = "has_prog fl bd" and ?step = "\<lambda>ok. run_prog stale fl bd ok gx"
  have has: "?has TAIL_CALL_FILTER" "?has TAIL_CALL_SETUP" and fl: "fl \<noteq> TRACEPOINT" using assms(1) by (auto simp: has_prog_def)
  have "start_message bd gx config (e\<lparr>gk_idx := gx_index gx\<rparr>) = msg" by (simp add: assms(11) start_message_def)
  with assms(1-3,10) has have start: "start_prog fl bd ?has gx rv s = (?s, Tail TAIL_CALL_FILTER)"
    by (auto simp: start_prog_def generic_start_process_filter_def policy_applies_def tail_call_def upd_e_def Let_def)
  have run: "run_at P 0 msg msg" by (simp add: run_at_def assms(11) start_message_def reset_selectors_def Let_def)
  have "gk_idx msg = gx_index gx" by (simp add: assms(11) start_message_def)
  with process_filter_run_from [of ?kf "gs_x s" pid walked enter msg f n P bd 0 n "ps_of ?s" msg, OF _ _ _ assms(7-9,12) _ _ _ run] assms(4-6)
  obtain msg' where m: "run_at P n msg msg'"
    "generic_kprobe_process_filter bd ?kf (Suc n) (ps_of ?s) = Some ((ps_of ?s)\<lparr>ps_msg := Some (msg'\<lparr>gk_current := ev_key enter\<rparr>)\<rparr>, \<exists>j < n. P j)"
    by (auto simp: kfilter_of_def ps_of_def)
  have "Suc n < MAX_TAIL_CALL_CNT" using assms(9) by (simp add: MAX_TAIL_CALL_CNT_def)
  moreover have "put_ps ((ps_of ?s)\<lparr>ps_msg := Some (msg'\<lparr>gk_current := ev_key enter\<rparr>)\<rparr>) ?s = s\<lparr>gs_e := Some (msg'\<lparr>gk_current := ev_key enter\<rparr>)\<rparr>"
    by (simp add: put_ps_def ps_of_def)
  ultimately obtain k where "k \<le> Suc n" and
    "run_chain ?step ?has MAX_TAIL_CALL_CNT (?s, Tail TAIL_CALL_FILTER) =
       (if \<exists>j < n. P j then run_chain ?step ?has (MAX_TAIL_CALL_CNT - k) (s\<lparr>gs_e := Some (msg'\<lparr>gk_current := ev_key enter\<rparr>)\<rparr>, Tail TAIL_CALL_SETUP)
        else (s\<lparr>gs_e := Some (msg'\<lparr>gk_current := ev_key enter\<rparr>)\<rparr>, PFILTER_REJECT, MAX_TAIL_CALL_CNT - k))"
    using filter_phase [OF m(2) _ refl has fl, of MAX_TAIL_CALL_CNT stale] by metis
  then show ?thesis
    using m(1) assms(9) by (intro that [of msg' "MAX_TAIL_CALL_CNT - k"]) (simp_all add: generic_event_def start MAX_TAIL_CALL_CNT_def Let_def)
qed

lemma hit_decided:
  assumes "policy_hit fl bd gx config f n enter e s" and "P = process_accepted bd gx config f enter e s"
  obtains sel e1 where "\<forall>j < n. sd_active sel ! j = P j"
    and "gs_e (hit_event fl bd gx config enter e sel s) = Some e1" and "kept (hit_event fl bd gx config enter e sel s) = kept s"
    and "gk_current e1 = ev_key enter" and "gk_idx e1 = gx_index gx"
    and "case deciding_selector bd gx f n P e1 of
       None \<Rightarrow> kept (fst (generic_event stale fl bd gx rv s)) = kept s
     | Some j \<Rightarrow> fst (generic_event stale fl bd gx rv s) = act_on fl bd gx (accept_state bd gx f True e1 j (hit_event fl bd gx config enter e sel s))"
proof -
  define msg where "msg = start_message bd gx config e"
  obtain pid walked where find: "event_find_curr (gx_kt gx) (gs_x s) = (pid, walked, Some enter)"
    using assms(1) by (cases "event_find_curr (gx_kt gx) (gs_x s)") (auto simp: policy_hit_def)
  have h: "fl \<in> {KPROBE, UPROBE, USDT, RAWTP}" "gs_e s = Some e" "gx_config_map gx (gx_index gx) = Some config" "gx_filter_map gx (gx_index gx) = Some f"
    "mm_sel_opts (gx_mm gx) = (\<lambda>_. None)" "rd32 f 0 = of_nat n" "1 \<le> n" "n \<le> 5" "policy_applies bd gx (ec_policy_id config) s"
    using assms(1) by (simp_all add: policy_hit_def)
  have c: "\<not> offloads fl bd" "fl = KPROBE \<Longrightarrow> ec_syscall config \<noteq> 0 \<Longrightarrow> gx_syscall_regs gx \<noteq> 0"
    "\<forall>i \<le> 4. plain_ty (ec_arg config ! i)" "\<forall>j < n. arg_section f (of_nat j) True \<noteq> 1"
    using assms(1) by (simp_all add: policy_hit_def)
  have P: "P = selector_passes bd (kfilter_of gx) (gs_x s) f enter (gk_ns msg) (gk_caps msg)"
    by (simp add: assms(2) process_accepted_def msg_def Let_def)
  obtain msg' k where run: "run_at P n msg msg'" and k: "27 \<le> k"
    and hit: "generic_event stale fl bd gx rv s =
       (let s1 = s\<lparr>gs_e := Some (msg'\<lparr>gk_current := ev_key enter\<rparr>)\<rparr>
        in if \<exists>j < n. P j then run_chain (\<lambda>ok. run_prog stale fl bd ok gx) (has_prog fl bd) k (s1, Tail TAIL_CALL_SETUP) else (s1, PFILTER_REJECT, k))"
    by (rule policy_filter_phase [where stale = stale and rv = rv, OF h(1-3) find h(4-9) msg_def P])
  define sel where "sel = gk_sel msg'"
  let ?s0 = "s\<lparr>gs_e := Some (msg\<lparr>gk_sel := sel, gk_current := ev_key enter\<rparr>)\<rparr>" and ?has = "has_prog fl bd" and ?step = "\<lambda>ok. run_prog stale fl bd ok gx"
  have "msg' = msg\<lparr>gk_sel := sel\<rparr>" using run by (simp add: run_at_def sel_def)
  then have s0: "s\<lparr>gs_e := Some (msg'\<lparr>gk_current := ev_key enter\<rparr>)\<rparr> = ?s0" by simp
  have act: "\<forall>j < n. sd_active sel ! j = P j" "\<forall>j. n \<le> j \<and> j < 31 \<longrightarrow> \<not> sd_active sel ! j" "sd_active sel ! 31 = (\<exists>j < n. P j)"
    using run by (simp_all add: run_at_def sel_def)
  let ?T = "on_track (\<lambda>a. a = sd_active sel) fl gx config enter s"
  have T: "?T TAIL_CALL_SETUP ?s0" by (simp add: on_track_def phase_ok_def msg_def start_message_def)
  have fl: "fl \<in> {KPROBE, UPROBE, USDT, RAWTP, LSM}" using h(1) by auto
  have k7: "7 \<le> k" using k by simp
  define s1 where "s1 = hit_event fl bd gx config enter e sel s"
  have s1_collect: "s1 = collect_event fl bd gx config ?s0" by (simp add: s1_def hit_event_def msg_def)
  have T1: "?T TAIL_CALL_ARGS s1"
    unfolding s1_collect by (rule collect_phase(1) [OF T k7 fl c(1) h(3) _ c(3)]) (rule c(2))
  then obtain e1 where e1: "gs_e s1 = Some e1" "kept s1 = kept s" "gk_current e1 = ev_key enter" "gk_idx e1 = gx_index gx"
    using on_track_e [OF T1] by (auto simp: on_track_def)
  have "case deciding_selector bd gx f n P e1 of
      None \<Rightarrow> kept (fst (generic_event stale fl bd gx rv s)) = kept s
    | Some j \<Rightarrow> fst (generic_event stale fl bd gx rv s) = act_on fl bd gx (accept_state bd gx f True e1 j s1)"
  proof (cases "\<exists>j < n. P j")
    case True
    have "\<exists>m \<le> 6. run_chain ?step ?has k (?s0, Tail TAIL_CALL_SETUP) = run_chain ?step ?has (k - m) (s1, Tail TAIL_CALL_ARGS)"
      unfolding s1_collect by (rule collect_phase(2) [OF T k7 fl c(1) h(3) _ c(3)]) (rule c(2))
    then obtain m where m: "m \<le> 6" "generic_event stale fl bd gx rv s = run_chain ?step ?has (k - m) (s1, Tail TAIL_CALL_ARGS)"
      using hit True by (auto simp: s0 Let_def)
    have "sd_active sel ! 31" "9 \<le> k - m" using act(3) True m(1) k by simp_all
    from decision_phase [OF T1 e1(1) h(4,1) act(1,2) this(1) h(8) c(4) this(2)] show ?thesis unfolding m(2) .
  next
    case False
    then have "deciding_selector bd gx f n P e1 = None" by (auto simp: deciding_selector_def find_None_iff)
    with hit False show ?thesis by (simp add: s0 Let_def)
  qed
  then show ?thesis using that [of sel e1] act(1) e1 unfolding s1_def by blast
qed

text \<open>
  C3. A hit does what the policy says. This is for a hit of the entry hook of a kernel, user or static probe or of a raw tracepoint (not of a tracepoint or a security module hook)
  by a tracked process, with a policy of one to five selectors without binary filters that applies to the process's cgroup, on a build
  without path offloading, and with arguments of types that always can be read and do not change the process (no descriptor, file name, string, network device,
  data location or socket; an empty string, for example, drops the event before the filters). The event is collected with
  the key of the process; if a selector's process filters accept the process and its argument filters accept the collected event, the first such selector's
  actions are run on it and the event is sent unless they suppress it; if there is none, nothing is sent and nothing is enforced.
\<close>

theorem hit_follows_policy:
  assumes "policy_hit fl bd gx config f n enter e s" and "P = process_accepted bd gx config f enter e s"
  shows "\<exists>sel s1 e1. (\<forall>j < n. sd_active sel ! j = P j) \<and> s1 = hit_event fl bd gx config enter e sel s
     \<and> gs_e s1 = Some e1 \<and> kept s1 = kept s \<and> gk_current e1 = ev_key enter
     \<and> (case deciding_selector bd gx f n P e1 of
          None \<Rightarrow> kept (fst (generic_event stale fl bd gx rv s)) = kept s
        | Some j \<Rightarrow> fst (generic_event stale fl bd gx rv s) = act_on fl bd gx (accept_state bd gx f True e1 j s1))"
  by (rule hit_decided [OF assms, of stale rv]) blast

section \<open>Signals\<close>

text \<open>The signals of an action; a policy that does not enforce sends none, and programs for kernels without the helper cannot.\<close>

definition action_signals :: "build \<Rightarrow> bool \<Rightarrow> u32 list \<Rightarrow> int list" where
  "action_signals bd enforce a =
     (if \<not> enforce \<or> \<not> bd_large bd then []
      else if hd a = ACTION_SIGKILL then [sint FGS_SIGKILL]
      else if hd a = ACTION_SIGNAL then [sint (a ! 1)]
      else [])"

lemma signals_kept:
  "gs_signals (fst (installfd gx e fd name follow s)) = gs_signals s" "gs_signals (fst (copyfd gx e fd name s)) = gs_signals s"
  "gs_signals (fst (tracksock bd gx e i t s)) = gs_signals s" "gs_signals (do_set_action fl bd gx i v s) = gs_signals s"
  "gs_signals (fst (action_post bd gx arg e s post)) = gs_signals s"
  "gs_signals (do_uprobe_override gx v s) = gs_signals s" "gs_signals (do_override_action fl gx v s) = gs_signals s"
  "gs_signals (do_action_notify_enforcer fl gx e a b c s) = gs_signals s" "gs_signals (s\<lparr>gs_e := x\<rparr>) = gs_signals s"
  "gs_signals (s\<lparr>gs_en := en\<rparr>) = gs_signals s"
  by (simp_all add: installfd_def copyfd_def tracksock_def do_set_action_def write_user_arg_def action_post_def rate_limit_def
      do_uprobe_override_def do_override_action_def do_action_notify_enforcer_def Let_def split_beta split: option.split)

lemma run_action_signals:
  assumes "gs_e (fst sp) \<noteq> None"
  shows "gs_signals (fst (run_action fl bd gx enforce sp a)) = gs_signals (fst sp) @ action_signals bd enforce a"
proof -
  obtain e where e: "gs_e (fst sp) = Some e" using assms by blast
  have "gs_signals (fst (action_effect fl bd gx enforce (hd a) (\<lambda>k. a ! unat k) e (fst sp) (snd sp))) = gs_signals (fst sp) @ action_signals bd enforce a"
    unfolding action_effect_def split_beta if_distrib [of fst] if_distrib [of gs_signals] fst_conv signals_kept
    by (simp add: action_signals_def do_action_signal_def action_names)
  with e show ?thesis by (simp add: run_action_def Let_def split_beta split: option.split)
qed

lemma foldl_signals:
  "gs_e (fst sp) \<noteq> None \<Longrightarrow>
   gs_signals (fst (foldl (run_action fl bd gx enforce) sp acts)) = gs_signals (fst sp) @ concat (map (action_signals bd enforce) acts)"
proof (induction acts arbitrary: sp)
  case (Cons a acts)
  then show ?case using run_action_e [OF Cons.prems] run_action_signals [OF Cons.prems] by simp
qed simp

lemma act_on_signals: "gs_signals (act_on fl bd gx s) = gs_signals (fst (generic_actions fl bd gx s))"
  by (simp add: act_on_def generic_output_def Let_def split_beta split: option.split)

lemma small_pass:
  assumes "1 < off" and "off \<le> 0x7ff"
  shows "\<not> (of_nat off :: u32) <=s 1" and "of_nat off AND (0x7ff :: u32) = of_nat off" and "unat (of_nat off :: u32) = off"
proof -
  show u: "unat (of_nat off :: u32) = off" using assms(2) by (simp add: unsigned_of_nat take_bit_nat_eq_self)
  have "sint (of_nat off :: u32) = int off" using assms(2) by (simp add: signed_of_nat signed_take_bit_int_eq_self)
  then show "\<not> (of_nat off :: u32) <=s 1" using assms(1) by (simp add: word_sle_eq)
  have "unat (of_nat off AND (0x7ff :: u32)) = off" using unat_and_mask [of "of_nat off :: u32" 11] u assms(2) by (simp add: mask_eq_exp_minus_1)
  then show "of_nat off AND (0x7ff :: u32) = of_nat off" using u by (simp add: word_unat_eq_iff)
qed

text \<open>
  C4. A matched process is signalled. This is for a hit of the entry hook of a kernel, user or static probe or of a raw tracepoint (not of a tracepoint or a security module hook)
  by a tracked process, with a policy of one to five selectors without binary filters that applies to the process's cgroup, on a build
  without path offloading, and with arguments of types that always can be read and do not change the process (no descriptor, file name, string, network device,
  data location or socket; an empty string, for example, drops the event before the filters). When the first selector that accepts the process has no
  argument filters and a list of at most MAX_ACTIONS actions, none of which is UnfollowFD or UntrackSock (these may fail and keep the rest from running), a hit sends
  exactly the signals of the list, in order, to the process that made the call if the policy enforces and the programs are the large ones. It sends none in monitor mode,
  and the small programs, for kernels without the helper, never send one.
\<close>

theorem matched_process_signalled:
  assumes "policy_hit fl bd gx config f n enter e s" and "P = process_accepted bd gx config f enter e s"
    and "j < n" and "P j" and "\<forall>i < j. \<not> P i"
    and "off = arg_section f (of_nat j) True" and "1 < off" and "off \<le> 0x7ff" and "rd32 f off \<le> 24"
    and "holds_actions bd f (unat ((of_nat off + rd32 f off) AND 0x7ff)) acts" and "length acts \<le> MAX_ACTIONS"
    and "\<forall>a \<in> set acts. hd a \<noteq> ACTION_UNFOLLOWFD \<and> hd a \<noteq> ACTION_UNTRACKSOCK"
  shows "gs_signals (fst (generic_event stale fl bd gx rv s)) = gs_signals s @ concat (map (action_signals bd (enforce_mode gx)) acts)"
proof -
  obtain sel e1 where e1: "gs_e (hit_event fl bd gx config enter e sel s) = Some e1" "kept (hit_event fl bd gx config enter e sel s) = kept s"
    "gk_idx e1 = gx_index gx"
    and dec: "case deciding_selector bd gx f n P e1 of
       None \<Rightarrow> kept (fst (generic_event stale fl bd gx rv s)) = kept s
     | Some j \<Rightarrow> fst (generic_event stale fl bd gx rv s) = act_on fl bd gx (accept_state bd gx f True e1 j (hit_event fl bd gx config enter e sel s))"
    by (rule hit_decided [OF assms(1,2), of stale rv]) blast
  have off: "selector_arg_offset bd (gx_am gx) f e1 (of_nat j) True = off" using assms(6,9) by (simp add: selector_arg_offset_def)
  have "deciding_selector bd gx f n P e1 = Some j"
    unfolding deciding_selector_def find_Some_iff using assms(3-5,7) off by (intro exI [of _ j]) auto
  with dec off have run: "fst (generic_event stale fl bd gx rv s) = act_on fl bd gx (accept_state bd gx f True e1 j (hit_event fl bd gx config enter e sel s))"
    by simp
  let ?s = "accept_state bd gx f True e1 j (hit_event fl bd gx config enter e sel s)" and ?base = "unat ((of_nat off + rd32 f off) AND 0x7ff :: u32)"
  have "gx_filter_map gx (gx_index gx) = Some f" using assms(1) by (simp add: policy_hit_def)
  then have "generic_actions fl bd gx ?s = do_actions fl bd gx f ?base ?s"
    using e1(3) off small_pass [OF assms(7,8)] by (simp add: generic_actions_def accept_state_def Let_def)
  also have "\<dots> = foldl (run_action fl bd gx (enforce_mode gx)) (?s, True) acts"
    using do_actions_loop_words [of bd f ?base "[]" acts MAX_ACTIONS "(?s, True)"] assms(10-12)
    by (simp add: do_actions_def MAX_ACTIONS_def accept_state_def)
  finally have "gs_signals (fst (generic_event stale fl bd gx rv s)) = gs_signals ?s @ concat (map (action_signals bd (enforce_mode gx)) acts)"
    using foldl_signals [of "(?s, True)" fl bd gx "enforce_mode gx" acts] by (simp add: run act_on_signals accept_state_def)
  moreover have "gs_signals ?s = gs_signals s" using e1(2) by (simp add: accept_state_def kept_def enforced_def)
  ultimately show ?thesis by simp
qed

section \<open>Concrete runs\<close>

text \<open>A policy of one selector without filters, whose only action is \<^verbatim>\<open>Sigkill\<close>.\<close>

definition k_words :: "u32 list" where
  "k_words = [1, 4, 56, 4, 4, 4, 4, 4, 24, 0, 0, 0, 0, 0, 8, ACTION_SIGKILL]"

definition k_example :: "byte list" where
  "k_example = concat (map (le_bytes 4) k_words)"

lemma rd32_k_example: "4 * k = off \<Longrightarrow> k < 16 \<Longrightarrow> rd32 k_example off = k_words ! k"
  using slice_concat_words [of k k_words] by (auto simp: k_example_def rd32_def k_words_def le_word_le_bytes)

lemmas rd32_k_simps =
  rd32_k_example [of 0 0, simplified] rd32_k_example [of 1 4, simplified] rd32_k_example [of 3 12, simplified] rd32_k_example [of 4 16, simplified]
  rd32_k_example [of 5 20, simplified] rd32_k_example [of 6 24, simplified] rd32_k_example [of 7 28, simplified] rd32_k_example [of 8 32, simplified]
  rd32_k_example [of 14 56, simplified] rd32_k_example [of 15 60, simplified]

lemma k_passes: "selector_passes build_v61 kf x k_example enter ns caps 0"
proof -
  have "selector_offset k_example 0 = 12"
    by (simp add: selector_offset_def Let_def rd32_k_simps k_words_def INDEX_MASK_def)
  moreover have "match_namespaces build_v61 k_example ns k 0 i = Some i" for k i
    by (induction k arbitrary: i) simp_all
  ultimately show ?thesis
    by (simp add: selector_passes_def selector_sections_def match_pid_def match_capabilities_def match_changes_def Let_def rd32_k_simps k_words_def
        INDEX_MASK_def PFILTER_ACCEPT_def PFILTER_REJECT_def)
qed

lemma k_section: "arg_section k_example 0 True = 32"
proof -
  have "skip_section k_example 4 = 8" "skip_section k_example 12 = 16" "skip_section k_example 16 = 20"
    "skip_section k_example 20 = 24" "skip_section k_example 24 = 28" "skip_section k_example 28 = 32"
    by (simp_all add: skip_section_def INDEX_MASK_def rd32_k_simps k_words_def)
  then show ?thesis by (simp add: arg_section_def Let_def skip_section_5 INDEX_MASK_def)
qed

lemma k_actions: "holds_actions build_v61 k_example 56 [[ACTION_SIGKILL]]"
  by (simp add: holds_actions_def rd32_k_simps k_words_def action_arity_def action_names)

definition gx_kill :: gen_ctx where
  "gx_kill = gx_example\<lparr>gx_filter_map := [0 \<mapsto> k_example], gx_config_map := [0 \<mapsto> ec_example]\<rparr>"

lemma kill_hit: "policy_hit KPROBE build_v61 gx_kill ec_example k_example 1 v_example e_example gs_example"
  using current_find
  by (simp add: policy_hit_def gx_kill_def gx_example_def gs_example_def fk_example_def offloads_def build_v61_def k_section rd32_k_simps k_words_def
      policy_applies_def policy_filter_check_def ec_example_def plain_ty_def tg_consts)

lemma kill_accepted: "process_accepted build_v61 gx_kill ec_example k_example v_example e_example gs_example 0"
  by (simp add: process_accepted_def k_passes Let_def)

theorem matched_process_signalled_witness:
  "gs_signals (fst (generic_event id KPROBE build_v61 gx_kill 0 gs_example)) = [9]"
  using matched_process_signalled [OF kill_hit refl, of 0 32 "[[ACTION_SIGKILL]]" id 0] kill_accepted k_section k_actions
  by (simp add: rd32_k_simps k_words_def MAX_ACTIONS_def action_names action_signals_def enforce_mode_def gx_kill_def gx_example_def gs_example_def
      FGS_SIGKILL_def build_v61_def)

theorem hit_follows_policy_witness:
  "\<exists>s1 e1. gs_e s1 = Some e1 \<and> gk_current e1 = ev_key v_example
     \<and> fst (generic_event id KPROBE build_v61 gx_kill 0 gs_example) = act_on KPROBE build_v61 gx_kill (accept_state build_v61 gx_kill k_example True e1 0 s1)"
proof -
  have "deciding_selector build_v61 gx_kill k_example 1 (process_accepted build_v61 gx_kill ec_example k_example v_example e_example gs_example) e1 = Some 0" for e1
    by (simp add: deciding_selector_def kill_accepted selector_arg_offset_def k_section rd32_k_simps k_words_def)
  with hit_follows_policy [OF kill_hit refl, of id 0] show ?thesis by auto
qed

end
