(* ===== verification/Generic_Paths.thy ===== *)
theory Generic_Paths
  imports Generic_Run
begin

text \<open>
  Path arguments on kernels before 6.1 (\<^verbatim>\<open>process/generic_path.h\<close>): the walk up the directory tree is cut into pieces, one tail call each,
  that continue where the last one stopped. The pieces give the same path as one walk.
\<close>

section \<open>Cutting the walk\<close>

definition walk_from :: "kvfs \<Rightarrow> nat \<Rightarrow> cwd_read_data \<Rightarrow> byte list list \<times> bool" where
  "walk_from vf n d = path_walk vf (cw_root_dentry d) (cw_root_mnt d) n (cw_dentry d) (cw_vfsmnt d) (cw_mnt d)"

lemma path_walk_more: "path_walk vf rd rm n dn vm mn = (names, True) \<Longrightarrow> path_walk vf rd rm (n + m) dn vm mn = (names, True)"
  by (induction n arbitrary: dn vm mn names) (auto simp: Let_def split: if_splits prod.splits)

lemma path_walk_prefix:
  "path_walk vf rd rm n dn vm mn = (names, r) \<Longrightarrow> \<exists>ns. fst (path_walk vf rd rm (n + m) dn vm mn) = names @ ns"
proof (induction n arbitrary: dn vm mn names)
  case (Suc n)
  then show ?case by (fastforce simp: Let_def split: if_splits prod.splits)
qed simp

lemma path_string_append: "path_string (xs @ ys) = path_string ys @ path_string xs"
  by (simp add: path_string_def)

lemma cwd_read_roots [simp]:
  "cw_root_dentry (fst (cwd_read vf d)) = cw_root_dentry d" "cw_root_mnt (fst (cwd_read vf d)) = cw_root_mnt d"
  by (simp_all add: cwd_read_def Let_def split_beta)

lemma cwd_read_loop_roots [simp]:
  "cw_root_dentry (cwd_read_loop vf n d) = cw_root_dentry d" "cw_root_mnt (cwd_read_loop vf n d) = cw_root_mnt d"
  by (induction n arbitrary: d) (simp_all add: split_beta)

text \<open>One step of the walk: it ends, it runs out of room, or it goes on with the names \<open>nms\<close>, at most one, put in front.\<close>

lemma cwd_read_cases:
  assumes "names_bounded vf" and "pb_inv (cw_b d) acc" and "\<not> cw_resolved d"
  obtains (ready) d' where "cwd_read vf d = (d', True)" and "\<And>n. walk_from vf (Suc n) d = ([], True)"
    | (over) d' where "cwd_read vf d = (d', True)" and "full d'"
    | (go) d' nms where "cwd_read vf d = (d', False)" and "\<not> cw_resolved d'" and "pb_inv (cw_b d') (path_string nms @ acc)"
        and "\<And>n. walk_from vf (Suc n) d = (nms @ fst (walk_from vf n d'), snd (walk_from vf n d'))"
proof -
  let ?top = "cw_dentry d = cw_root_dentry d \<and> cw_vfsmnt d = cw_root_mnt d"
  let ?mnt = "cw_dentry d = vf_mnt_root vf (cw_vfsmnt d) \<or> IS_ROOT vf (cw_dentry d)"
  let ?parent = "vf_mnt_parent vf (cw_mnt d)" and ?nm = "dentry_name vf (cw_dentry d)"
  consider (root) "?top \<or> \<not> ?top \<and> ?mnt \<and> cw_mnt d = ?parent" | (mount) "\<not> ?top" "?mnt" "cw_mnt d \<noteq> ?parent"
    | (name) "\<not> ?top" "\<not> ?mnt" by blast
  then show thesis
  proof cases
    case root
    then show thesis by (intro ready [of "d\<lparr>cw_resolved := True\<rparr>"]) (auto simp: cwd_read_def walk_from_def Let_def)
  next
    case mount
    then show thesis
      by (intro go [of "d\<lparr>cw_dentry := vf_mnt_mountpoint vf (cw_mnt d), cw_mnt := ?parent, cw_vfsmnt := ?parent + vf_mnt_offset vf\<rparr>" "[]"])
        (use assms in \<open>auto simp: cwd_read_def walk_from_def Let_def\<close>)
  next
    case name
    have small: "unat (vf_d_name_len vf (cw_dentry d)) \<le> 255" using assms(1) by (simp add: names_bounded_def)
    note fits = prepend_name_fits [OF assms(2) small, of "vf_mem vf" "vf_d_name_name vf (cw_dentry d)"]
      and toolong = prepend_name_full [OF assms(2) _ small, of "vf_mem vf" "vf_d_name_name vf (cw_dentry d)"]
    show thesis
    proof (cases "length acc + length ?nm + 1 \<le> 4096")
      case True
      then obtain b where b: "prepend_name (vf_mem vf) (vf_d_name_name vf (cw_dentry d)) (vf_d_name_len vf (cw_dentry d)) (cw_b d) = (b, 0)"
        and inv: "pb_inv b (SLASH # ?nm @ acc)"
        using fits by (metis dentry_name_def dentry_name_length)
      show thesis
        by (rule go [of "d\<lparr>cw_b := b, cw_dentry := vf_d_parent vf (cw_dentry d)\<rparr>" "[?nm]"])
          (use name b inv assms(3) in \<open>auto simp: cwd_read_def walk_from_def Let_def split_beta\<close>)
    next
      case False
      then obtain b where "prepend_name (vf_mem vf) (vf_d_name_name vf (cw_dentry d)) (vf_d_name_len vf (cw_dentry d)) (cw_b d) = (b, - ENAMETOOLONG)"
        and "pb_len b = 0" "pb_ptr b = 0" "length (pb_buf b) = 4352"
        using toolong by (metis dentry_name_length linorder_not_le)
      then show thesis
        by (intro over [of "d\<lparr>cw_b := b\<rparr>"]) (use name assms(3) in \<open>auto simp: cwd_read_def full_def Let_def ENAMETOOLONG_def\<close>)
    qed
  qed
qed

text \<open>A walk that was cut off continues from where the loop stopped.\<close>

lemma walk_continue:
  assumes "names_bounded vf" and "walk_from vf n d = (names, False)" and "\<not> full (cwd_read_loop vf n d)"
    and "pb_inv (cw_b d) acc" and "\<not> cw_resolved d" and "walk_from vf m (cwd_read_loop vf n d) = (names2, r2)"
  shows "walk_from vf (n + m) d = (names @ names2, r2)"
  using assms(2-)
proof (induction n arbitrary: d names acc)
  case 0
  then show ?case by (simp add: walk_from_def)
next
  case (Suc n)
  from assms(1) Suc.prems(3,4) show ?case
  proof (cases rule: cwd_read_cases)
    case (ready d')
    with Suc.prems(1) show ?thesis by simp
  next
    case (over d')
    with Suc.prems(2) show ?thesis by simp
  next
    case (go d' nms)
    have loop: "cwd_read_loop vf (Suc n) d = cwd_read_loop vf n d'" using go(1) by simp
    have w: "walk_from vf n d' = (drop (length nms) names, False)" "names = nms @ drop (length nms) names"
      using go(4) [of n] Suc.prems(1) by (cases "walk_from vf n d'", auto)+
    from Suc.IH [OF w(1) _ go(3,2)] Suc.prems(2,5) loop
    have "walk_from vf (n + m) d' = (drop (length nms) names @ names2, r2)" by simp
    with go(4) [of "n + m"] w(2) show ?thesis by simp
  qed
qed

section \<open>The pieces\<close>

lemma pb_inv_offset:
  assumes "pb_inv b acc" and "acc \<noteq> []"
  shows "pb_inv \<lparr>pb_buf = pb_buf b, pb_ptr = ucast ((ucast (pb_ptr b) :: u32) AND 0xfff), pb_len = ucast (pb_ptr b)\<rparr> acc"
proof -
  have p: "unat (pb_ptr b) = 4096 - length acc" and l: "length acc \<le> 4096" using assms(1) by (auto simp: pb_inv_def)
  have "0 < length acc" using assms(2) by simp
  with p have "unat (pb_ptr b) < 4096" by simp
  then have "unat (ucast (pb_ptr b) :: u32) = unat (pb_ptr b)" by (simp add: unsigned_ucast_eq take_bit_nat_eq_self)
  moreover from this have "unat ((ucast (pb_ptr b) :: u32) AND 0xfff) = unat (pb_ptr b)"
    using \<open>unat (pb_ptr b) < 4096\<close> by (simp add: unat_and_fff)
  ultimately show ?thesis using assms(1) p by (simp add: pb_inv_def)
qed

definition path_resolved :: "generic_path \<Rightarrow> byte list \<Rightarrow> byte list \<Rightarrow> bool" where
  "path_resolved gp buf acc \<longleftrightarrow> gp_state gp = STATE_WORK \<and> pb_inv (cw_b (path_data gp buf)) acc"

text \<open>One piece: the path grows by the names met, and what is left of the walk starts where the piece ended.\<close>

lemma path_work_step:
  assumes "names_bounded (gx_vf gx)" and "N = GENERIC_PATH_ITERATIONS bd" and "gs_e s = Some e" and "gk_path e = gp" and "gs_path s = Some buf"
    and "path_resolved gp buf acc" and "acc \<noteq> []" and "gp_cnt gp = of_nat j" and "j < 8"
    and "walk_from (gx_vf gx) N (path_data gp buf) = (nm1, r1)" and "length (path_string nm1) + length acc < 4096"
  shows "\<exists>buf' gp'. path_work bd ok gx gp s = tail_call ok (if r1 \<or> j = 7 then TAIL_CALL_PROCESS else TAIL_CALL_PATH) (ret 0)
        (s\<lparr>gs_path := Some buf', gs_e := Some (e\<lparr>gk_path := gp'\<rparr>)\<rparr>)
    \<and> path_resolved gp' buf' (path_string nm1 @ acc) \<and> gp_cnt gp' = of_nat (Suc j) \<and> gp_path gp' = gp_path gp \<and> gp_path_buf gp' = gp_path_buf gp
    \<and> (\<not> r1 \<and> j < 7 \<longrightarrow> (\<forall>m. walk_from (gx_vf gx) (N + m) (path_data gp buf)
         = (nm1 @ fst (walk_from (gx_vf gx) m (path_data gp' buf')), snd (walk_from (gx_vf gx) m (path_data gp' buf')))))"
proof -
  let ?vf = "gx_vf gx" and ?d0 = "path_data gp buf"
  define d where "d = cwd_read_loop ?vf N ?d0"
  have inv0: "pb_inv (cw_b ?d0) acc" "\<not> cw_resolved ?d0" using assms(6) by (simp_all add: path_resolved_def path_data_def)
  have inv: "pb_inv (cw_b d) (path_string nm1 @ acc)" "cw_resolved d = r1"
    using cwd_read_loop_walk [OF assms(1) inv0 assms(10) [unfolded walk_from_def]] assms(11) by (simp_all add: d_def)
  have "0 < unat (pb_len (cw_b d))" using inv(1) assms(11) by (simp add: pb_inv_def)
  then have nfull: "\<not> full d" by (auto simp: full_def)
  define gp1 where "gp1 = gp\<lparr>gp_cnt := gp_cnt gp + 1, gp_off := ucast (pb_ptr (cw_b d))\<rparr>"
  define gp2 where "gp2 = gp1\<lparr>gp_dentry := cw_dentry d, gp_vfsmnt := cw_vfsmnt d, gp_mnt := cw_mnt d\<rparr>"
  define g where "g = (if r1 \<or> j = 7 then gp1 else gp2)"
  have "j \<in> {0, 1, 2, 3, 4, 5, 6, 7}" using assms(9) by auto
  then have cnt: "gp_cnt gp1 = of_nat (Suc j)" "gp_cnt gp1 = GENERIC_PATH_CALLS \<longleftrightarrow> j = 7"
    using assms(8) by (auto simp: gp1_def GENERIC_PATH_CALLS_def)
  have work: "path_work bd ok gx gp s = tail_call ok (if r1 \<or> j = 7 then TAIL_CALL_PROCESS else TAIL_CALL_PATH) (ret 0)
      (s\<lparr>gs_path := Some (pb_buf (cw_b d)), gs_e := Some (e\<lparr>gk_path := g\<rparr>)\<rparr>)"
    using assms(3-5) cnt(2) inv(2)
    by (simp add: path_work_def assms(2) [symmetric] g_def gp2_def gp1_def d_def Let_def upd_path_def upd_e_def)
  have res: "path_resolved g (pb_buf (cw_b d)) (path_string nm1 @ acc)"
    using pb_inv_offset [OF inv(1)] assms(6,7) by (auto simp: path_resolved_def path_data_def g_def gp1_def gp2_def)
  have "walk_from ?vf (N + m) ?d0 = (nm1 @ fst (walk_from ?vf m d), snd (walk_from ?vf m d))" if "\<not> r1" for m
    by (rule walk_continue [OF assms(1) _ _ inv0]) (use assms(10) that nfull in \<open>simp_all add: d_def\<close>)
  moreover have "walk_from ?vf m (path_data g (pb_buf (cw_b d))) = walk_from ?vf m d" if "\<not> r1" "j < 7" for m
    using that by (simp add: walk_from_def path_data_def g_def gp2_def gp1_def d_def)
  ultimately show ?thesis
    by (intro exI [of _ "pb_buf (cw_b d)"] exI [of _ g]) (use work res cnt(1) in \<open>auto simp: g_def gp2_def gp1_def\<close>)
qed

lemma path_work_chain:
  assumes "names_bounded (gx_vf gx)" and "step = (\<lambda>ok. run_prog stale fl bd ok gx)" and "has TAIL_CALL_PATH" and "has TAIL_CALL_PROCESS"
    and "N = GENERIC_PATH_ITERATIONS bd"
    and "gs_e s = Some e" and "gk_path e = gp" and "gs_path s = Some buf" and "path_resolved gp buf acc" and "acc \<noteq> []"
    and "gp_cnt gp = of_nat j" and "j < 8" and "walk_from (gx_vf gx) ((8 - j) * N) (path_data gp buf) = (names, r)"
    and "length (path_string names) + length acc < 4096" and "8 - j < n"
  shows "\<exists>k buf' gp'. 1 \<le> k \<and> k \<le> 8 - j
    \<and> run_chain step has n (s, Tail TAIL_CALL_PATH)
      = run_chain step has (n - k) (s\<lparr>gs_path := Some buf', gs_e := Some (e\<lparr>gk_path := gp'\<rparr>)\<rparr>, Tail TAIL_CALL_PROCESS)
    \<and> path_resolved gp' buf' (path_string names @ acc) \<and> gp_path gp' = gp_path gp \<and> gp_path_buf gp' = gp_path_buf gp"
  using assms(6-)
proof (induction "8 - j" arbitrary: j s e gp buf acc names n)
  case (Suc l)
  let ?vf = "gx_vf gx"
  obtain n' where n: "n = Suc n'" "0 < n'" using Suc.prems by (cases n) auto
  obtain nm1 r1 where w1: "walk_from ?vf N (path_data gp buf) = (nm1, r1)" by fastforce
  define m where "m = (7 - j) * N"
  have split: "(8 - j) * N = N + m" using Suc.prems(7) by (simp add: m_def algebra_simps Suc_diff_le flip: mult_Suc)
  obtain ns where "names = nm1 @ ns"
    using path_walk_prefix [OF w1 [unfolded walk_from_def], of m] Suc.prems(8) by (auto simp: split walk_from_def)
  then have len: "length (path_string nm1) + length acc < 4096" using Suc.prems(9) by (simp add: path_string_append)
  obtain buf1 gp1 where work: "path_work bd (\<lambda>q. has q \<and> 0 < n') gx gp s =
        tail_call (\<lambda>q. has q \<and> 0 < n') (if r1 \<or> j = 7 then TAIL_CALL_PROCESS else TAIL_CALL_PATH) (ret 0)
          (s\<lparr>gs_path := Some buf1, gs_e := Some (e\<lparr>gk_path := gp1\<rparr>)\<rparr>)" (is "_ = tail_call _ _ _ ?s1")
    and gp1: "path_resolved gp1 buf1 (path_string nm1 @ acc)" "gp_cnt gp1 = of_nat (Suc j)" "gp_path gp1 = gp_path gp" "gp_path_buf gp1 = gp_path_buf gp"
    and cont: "\<not> r1 \<Longrightarrow> j < 7 \<Longrightarrow> walk_from ?vf (N + m) (path_data gp buf)
         = (nm1 @ fst (walk_from ?vf m (path_data gp1 buf1)), snd (walk_from ?vf m (path_data gp1 buf1)))"
    using path_work_step [OF assms(1,5) Suc.prems(1-7) w1 len, of "\<lambda>q. has q \<and> 0 < n'"] by blast
  have start: "run_chain step has n (s, Tail TAIL_CALL_PATH) =
     run_chain step has n' (?s1, Tail (if r1 \<or> j = 7 then TAIL_CALL_PROCESS else TAIL_CALL_PATH))"
    using Suc.prems(1,2,4) n assms(2-4) work by (simp add: run_prog_def generic_path_def path_resolved_def tail_call_def)
  show ?case
  proof (cases "r1 \<or> j = 7")
    case True
    then have "names = nm1" using path_walk_more [of ?vf _ _ N _ _ _ nm1 m] w1 Suc.prems(8) by (auto simp: split walk_from_def m_def)
    then show ?thesis using True start n gp1 Suc.prems(7) by (intro exI [of _ 1] exI [of _ buf1] exI [of _ gp1]) simp
  next
    case False
    then have names: "names = nm1 @ fst (walk_from ?vf m (path_data gp1 buf1))" "walk_from ?vf ((8 - Suc j) * N) (path_data gp1 buf1) = (fst (walk_from ?vf m (path_data gp1 buf1)), r)"
      using cont Suc.prems(7,8) by (simp_all add: split m_def prod_eq_iff)
    let ?nm2 = "fst (walk_from ?vf m (path_data gp1 buf1))"
    have "\<exists>k buf' gp'. 1 \<le> k \<and> k \<le> 8 - Suc j
      \<and> run_chain step has n' (?s1, Tail TAIL_CALL_PATH)
        = run_chain step has (n' - k) (?s1\<lparr>gs_path := Some buf', gs_e := Some ((e\<lparr>gk_path := gp1\<rparr>)\<lparr>gk_path := gp'\<rparr>)\<rparr>, Tail TAIL_CALL_PROCESS)
      \<and> path_resolved gp' buf' (path_string ?nm2 @ path_string nm1 @ acc) \<and> gp_path gp' = gp_path gp1 \<and> gp_path_buf gp' = gp_path_buf gp1"
      by (rule Suc.hyps(1)) (use Suc.hyps(2) False names Suc.prems(5,7,9,10) n gp1 in \<open>auto simp: path_string_append\<close>)
    then obtain k buf' gp' where "1 \<le> k" "k \<le> 8 - Suc j"
      "run_chain step has n' (?s1, Tail TAIL_CALL_PATH)
        = run_chain step has (n' - k) (s\<lparr>gs_path := Some buf', gs_e := Some (e\<lparr>gk_path := gp'\<rparr>)\<rparr>, Tail TAIL_CALL_PROCESS)"
      "path_resolved gp' buf' (path_string names @ acc)" "gp_path gp' = gp_path gp" "gp_path_buf gp' = gp_path_buf gp"
      using gp1 by (auto simp: names(1) path_string_append)
    then show ?thesis using False start n
      by (intro exI [of _ "Suc k"] exI [of _ buf'] exI [of _ gp']) auto
  qed
qed simp

lemma path_init_step:
  assumes "vf_with_path (gx_vf gx) (gp_path_buf gp) (gp_path gp) = (vf, p)"
    and "gs_e s = Some e" and "gs_path s = Some buf" and "length buf = BUFFER_HEAP_SIZE" and "ok TAIL_CALL_PATH"
  shows "\<exists>gp' buf'. path_init ok gx gp s = (s\<lparr>gs_path := Some buf', gs_e := Some (e\<lparr>gk_path := gp'\<rparr>)\<rparr>, Tail TAIL_CALL_PATH)
    \<and> path_resolved gp' buf' (deleted_mark vf p @ [buf ! 4095]) \<and> gp_cnt gp' = 0 \<and> gp_path gp' = gp_path gp \<and> gp_path_buf gp' = gp_path_buf gp
    \<and> (\<forall>n. walk_from (gx_vf gx) n (path_data gp' buf') = path_walk (gx_vf gx) (vf_path_dentry vf (vf_fs_root vf)) (vf_path_mnt vf (vf_fs_root vf)) n
            (vf_path_dentry vf p) (vf_path_mnt vf p) (real_mount vf (vf_path_mnt vf p)))"
proof -
  have len: "length buf = 4352" using assms(4) by (simp add: tg_consts)
  define b0 where "b0 = \<lparr>pb_buf = buf, pb_ptr = 4095, pb_len = 4096 :: u32\<rparr>"
  define b where "b = (if d_unlinked vf (vf_path_dentry vf p) then fst (prepend DELETED b0) else b0)"
  define gp' where "gp' = gp\<lparr>gp_root_dentry := vf_path_dentry vf (vf_fs_root vf), gp_root_mnt := vf_path_mnt vf (vf_fs_root vf),
     gp_dentry := vf_path_dentry vf p, gp_vfsmnt := vf_path_mnt vf p, gp_mnt := real_mount vf (vf_path_mnt vf p), gp_cnt := 0,
     gp_off := ucast (pb_ptr b), gp_state := STATE_WORK\<rparr>"
  have init: "path_init ok gx gp s = (s\<lparr>gs_path := Some (pb_buf b), gs_e := Some (e\<lparr>gk_path := gp'\<rparr>)\<rparr>, Tail TAIL_CALL_PATH)"
    using assms by (simp add: path_init_def Let_def b0_def b_def gp'_def MAX_BUF_LEN_def upd_path_def upd_e_def tail_call_def)
  have tail: "slice 4095 1 (blit 4085 DELETED buf) = slice 4095 1 buf" "slice 4095 1 buf = [buf ! 4095]"
    using len drop_blit_after [of 4085 DELETED 4095 buf] by (simp_all add: slice_def DELETED_def take_Suc_conv_app_nth hd_drop_conv_nth)
  have "pb_inv (cw_b (path_data gp' (pb_buf b))) (deleted_mark vf p @ [buf ! 4095])"
  proof (cases "d_unlinked vf (vf_path_dentry vf p)")
    case True
    then have b: "b = \<lparr>pb_buf = blit 4085 DELETED buf, pb_ptr = 4085, pb_len = 4086\<rparr>"
      by (simp add: b_def b0_def prepend_def Let_def DELETED_def word_sless_alt)
    have "slice 4085 (length DELETED + 1) (blit 4085 DELETED buf) = DELETED @ slice 4095 1 buf"
      by (rule slice_blit_prefix) (use len in \<open>simp_all add: DELETED_def\<close>)
    with True len tail show ?thesis
      by (simp add: pb_inv_def path_data_def gp'_def b deleted_mark_def) (simp add: DELETED_def)
  next
    case False
    with len tail show ?thesis by (simp add: pb_inv_def path_data_def gp'_def b_def b0_def deleted_mark_def)
  qed
  then show ?thesis
    by (intro exI [of _ gp'] exI [of _ "pb_buf b"])
      (use init in \<open>simp_all add: path_resolved_def walk_from_def path_data_def, simp_all add: gp'_def\<close>)
qed

text \<open>The resolved path is stored in front of the flags and the mode, without the byte behind it.\<close>

definition path_bytes :: "gen_ctx \<Rightarrow> ptr \<Rightarrow> byte list \<Rightarrow> byte list" where
  "path_bytes gx dentry str = le_bytes 4 (of_nat (length str) :: u32) @ str @ le_bytes 4 (0 :: u32) @ le_bytes 2 (gx_i_mode gx dentry)"

lemma offload_stores:
  assumes "gs_e s = Some e" and "gk_path e = gp" and "gs_path s = Some buf" and "path_resolved gp buf (str @ [x])"
    and "vf_with_path (gx_vf gx) (gp_path_buf gp) (gp_path gp) = (vf, p)"
  shows "generic_path_offload bd ok gx ty arg i off s =
    (s\<lparr>gs_e := Some (put_args (args_off off) (path_bytes gx (vf_path_dentry vf p) str)
        (e\<lparr>gk_path := gp\<lparr>gp_state := STATE_INIT\<rparr>, gk_argsoff := (gk_argsoff e)[i := of_nat off]\<rparr>))\<rparr>, Ret (int (length str) + 10))"
proof -
  let ?b = "cw_b (path_data gp buf)"
  have inv: "pb_inv ?b (str @ [x])" "gp_state gp = STATE_WORK" using assms(4) by (simp_all add: path_resolved_def)
  have l: "length str < 4096" "unat (gp_off gp) = 4095 - length str" "unat (gp_off gp AND 0xfff) = 4095 - length str"
    and sl: "slice (4095 - length str) (Suc (length str)) buf = str @ [x]"
    using inv(1) by (auto simp: pb_inv_def path_data_def)
  have "4096 - gp_off gp - 1 = of_nat (length str)"
    using l(1,2) by (simp add: word_unat_eq_iff unat_sub_u32 unsigned_of_nat take_bit_nat_eq_self word_of_nat_eq_iff)
  moreover have "unat (of_nat (length str) AND 0xfff :: u32) = length str"
    using l(1) by (simp add: unat_and_fff unsigned_of_nat take_bit_nat_eq_self)
  moreover have "take (length str) (drop (4095 - length str) buf) = str"
    using arg_cong [OF sl, of "take (length str)"] by (simp add: slice_def)
  ultimately show ?thesis
    using assms(1-3,5) inv(2) l(3)
    by (simp add: generic_path_offload_def Let_def upd_path_def upd_e_def store_path_def path_bytes_def MAX_BUF_LEN_def)
qed

text \<open>
  C14. Path arguments resolved by tail calls are exact. On a build for kernels before 6.1, with names of at most 255 bytes and a path that fits, the
  chain that starts at the path program comes back to the argument program after at most nine tail calls, and the offload then
  appends to the event the length, the slash-separated path of the part that eight times the iteration bound reach, with the deleted mark of
  an unlinked file, the flags and the mode of the file.
\<close>

theorem path_offload_exact:
  assumes "names_bounded (gx_vf gx)" and "has_prog fl bd TAIL_CALL_PATH" and "9 < n"
    and "gs_e s = Some e" and "gk_path e = gp" and "gp_state gp = STATE_INIT" and "gs_path s = Some buf" and "length buf = BUFFER_HEAP_SIZE"
    and "vf_with_path (gx_vf gx) (gp_path_buf gp) (gp_path gp) = (vf, p)"
    and "path_walk (gx_vf gx) (vf_path_dentry vf (vf_fs_root vf)) (vf_path_mnt vf (vf_fs_root vf)) (8 * GENERIC_PATH_ITERATIONS bd)
           (vf_path_dentry vf p) (vf_path_mnt vf p) (real_mount vf (vf_path_mnt vf p)) = (names, r)"
    and "str = path_string names @ deleted_mark vf p" and "length str < 4095" and "step = (\<lambda>ok. run_prog stale fl bd ok gx)"
  shows "\<exists>k s'. k \<le> 9 \<and> run_chain step (has_prog fl bd) n (s, Tail TAIL_CALL_PATH) = run_chain step (has_prog fl bd) (n - k) (s', Tail TAIL_CALL_PROCESS)
    \<and> (\<forall>ok ty arg i off. \<exists>e'. generic_path_offload bd ok gx ty arg i off s'
          = (s'\<lparr>gs_e := Some (put_args (args_off off) (path_bytes gx (vf_path_dentry vf p) str) e')\<rparr>, Ret (int (length str) + 10))
          \<and> e' = e\<lparr>gk_path := gk_path e', gk_argsoff := (gk_argsoff e)[i := of_nat off]\<rparr> \<and> gp_state (gk_path e') = STATE_INIT)"
proof -
  obtain m where m: "n = Suc m" "8 < m" using assms(3) by (cases n) auto
  have pr: "has_prog fl bd TAIL_CALL_PROCESS" using assms(2) by (auto simp: has_prog_def split: if_splits)
  from path_init_step [OF assms(9,4,7,8), of "\<lambda>q. has_prog fl bd q \<and> 0 < m"] assms(2) m obtain gp1 buf1 where
    init: "path_init (\<lambda>q. has_prog fl bd q \<and> 0 < m) gx gp s = (s\<lparr>gs_path := Some buf1, gs_e := Some (e\<lparr>gk_path := gp1\<rparr>)\<rparr>, Tail TAIL_CALL_PATH)"
      (is "_ = (?s1, _)")
    and r1: "path_resolved gp1 buf1 (deleted_mark vf p @ [buf ! 4095])" "gp_cnt gp1 = of_nat 0" "gp_path gp1 = gp_path gp" "gp_path_buf gp1 = gp_path_buf gp"
    and w: "walk_from (gx_vf gx) ((8 - 0) * GENERIC_PATH_ITERATIONS bd) (path_data gp1 buf1) = (names, r)"
    using assms(10) by auto
  have start: "run_chain step (has_prog fl bd) n (s, Tail TAIL_CALL_PATH) = run_chain step (has_prog fl bd) m (?s1, Tail TAIL_CALL_PATH)"
    using assms(4-6,13) m init by (simp add: run_prog_def generic_path_def)
  have "\<exists>k buf' gp'. 1 \<le> k \<and> k \<le> 8 - 0
    \<and> run_chain step (has_prog fl bd) m (?s1, Tail TAIL_CALL_PATH)
      = run_chain step (has_prog fl bd) (m - k) (?s1\<lparr>gs_path := Some buf', gs_e := Some ((e\<lparr>gk_path := gp1\<rparr>)\<lparr>gk_path := gp'\<rparr>)\<rparr>, Tail TAIL_CALL_PROCESS)
    \<and> path_resolved gp' buf' (path_string names @ deleted_mark vf p @ [buf ! 4095]) \<and> gp_path gp' = gp_path gp1 \<and> gp_path_buf gp' = gp_path_buf gp1"
    by (rule path_work_chain [OF assms(1,13,2) pr refl _ _ _ r1(1) _ r1(2) _ w]) (use m assms(11,12) in simp_all)
  then obtain k buf2 gp2 where k: "k \<le> 8" and run: "run_chain step (has_prog fl bd) m (?s1, Tail TAIL_CALL_PATH)
      = run_chain step (has_prog fl bd) (m - k) (s\<lparr>gs_path := Some buf2, gs_e := Some (e\<lparr>gk_path := gp2\<rparr>)\<rparr>, Tail TAIL_CALL_PROCESS)" (is "_ = run_chain _ _ _ (?s2, _)")
    and r2: "path_resolved gp2 buf2 (str @ [buf ! 4095])" "gp_path gp2 = gp_path gp" "gp_path_buf gp2 = gp_path_buf gp"
    using r1 assms(11) by auto
  have off: "generic_path_offload bd ok gx ty arg i o1 ?s2 =
     (?s2\<lparr>gs_e := Some (put_args (args_off o1) (path_bytes gx (vf_path_dentry vf p) str)
        ((e\<lparr>gk_path := gp2\<rparr>)\<lparr>gk_path := gp2\<lparr>gp_state := STATE_INIT\<rparr>, gk_argsoff := (gk_argsoff (e\<lparr>gk_path := gp2\<rparr>))[i := of_nat o1]\<rparr>))\<rparr>,
      Ret (int (length str) + 10))" for ok ty arg i o1
    by (rule offload_stores [OF _ _ _ r2(1)]) (use assms(9) r2 in simp_all)
  show ?thesis
    by (intro exI [of _ "Suc k"] exI [of _ ?s2] conjI allI, use k start run m in simp_all)
      (subst off, intro exI [of _ "(e\<lparr>gk_path := gp2\<rparr>)\<lparr>gk_path := gp2\<lparr>gp_state := STATE_INIT\<rparr>, gk_argsoff := _\<rparr>"], simp)
qed

section \<open>A concrete run\<close>

definition e_path :: msg_generic_kprobe where
  "e_path = e_example\<lparr>gk_path := (gk_path e_example)\<lparr>gp_path := Path_at 1\<rparr>\<rparr>"

theorem path_offload_exact_witness:
  "\<exists>k s'. run_chain (\<lambda>ok. run_prog id KPROBE build_v419 ok gx_example) (has_prog KPROBE build_v419) 10
       (gs_example\<lparr>gs_e := Some e_path, gs_path := Some (replicate BUFFER_HEAP_SIZE 0)\<rparr>, Tail TAIL_CALL_PATH)
     = run_chain (\<lambda>ok. run_prog id KPROBE build_v419 ok gx_example) (has_prog KPROBE build_v419) (10 - k) (s', Tail TAIL_CALL_PROCESS)
   \<and> snd (generic_path_offload build_v419 (\<lambda>_. True) gx_example path_ty 0 0 0 s') = Ret 17"
proof -
  let ?s = "gs_example\<lparr>gs_e := Some e_path, gs_path := Some (replicate BUFFER_HEAP_SIZE 0)\<rparr>"
  have vf: "gx_vf gx_example = vf_example" by (simp add: gx_example_def)
  have st: "gp_state (gk_path e_path) = STATE_INIT" "vf_with_path (gx_vf gx_example) (gp_path_buf (gk_path e_path)) (gp_path (gk_path e_path)) = (vf_example, 1)"
    by (simp_all add: e_path_def e_example_def msg_example_def vf_with_path_def vf)
  have walk: "path_walk (gx_vf gx_example) (vf_path_dentry vf_example (vf_fs_root vf_example)) (vf_path_mnt vf_example (vf_fs_root vf_example))
      (8 * GENERIC_PATH_ITERATIONS build_v419) (vf_path_dentry vf_example 1) (vf_path_mnt vf_example 1) (real_mount vf_example (vf_path_mnt vf_example 1))
      = ([[0x6c, 0x6d], [0x62, 0x63, 0x64]], True)"
    by (simp add: vf GENERIC_PATH_ITERATIONS_def build_v419_def path_walk_numeral IS_ROOT_def dentry_name_def probe_read_def vf_example_def upt_rec Let_def)
  have "has_prog KPROBE build_v419 TAIL_CALL_PATH" by (simp add: has_prog_def build_v419_def)
  from path_offload_exact [of gx_example KPROBE build_v419 10 ?s e_path _ "replicate BUFFER_HEAP_SIZE 0", OF _ this _ _ refl st(1) _ _ st(2) walk refl _ refl, of id]
  obtain k s' where "run_chain (\<lambda>ok. run_prog id KPROBE build_v419 ok gx_example) (has_prog KPROBE build_v419) 10 (?s, Tail TAIL_CALL_PATH)
      = run_chain (\<lambda>ok. run_prog id KPROBE build_v419 ok gx_example) (has_prog KPROBE build_v419) (10 - k) (s', Tail TAIL_CALL_PROCESS)"
    and off: "\<forall>ok ty arg i off. snd (generic_path_offload build_v419 ok gx_example ty arg i off s') = Ret 17"
    using vf_example_bounded by (auto simp: vf vf_example_mark) (metis snd_conv)
  then show ?thesis by blast
qed

end
