(* ===== verification/Generic_Buffer.thy ===== *)
theory Generic_Buffer
  imports Generic_Run
begin

text \<open>
  The shape of the scratch message of the generic sensors. A copy of \<open>n\<close> bytes to offset \<open>off\<close> of the argument buffer keeps the length of the
  model's buffer exactly when it stays inside, so that a run that keeps the length has not written behind the buffer. (The
  indices of the offsets and values are bounded by the phases of a chain in theory \<open>Generic_Run\<close>.)
\<close>

section \<open>Shapes\<close>

definition buf_ok :: "msg_generic_kprobe \<Rightarrow> bool" where
  "buf_ok e \<longleftrightarrow> length (gk_args e) = 24000 \<and> length (gk_argsoff e) = 5 \<and> length (gk_a e) = 5"

definition shape_ok :: "gen_state \<Rightarrow> bool" where
  "shape_ok s \<longleftrightarrow> (\<forall>e. gs_e s = Some e \<longrightarrow> buf_ok e)"

lemma shape_ok_Some [simp]: "shape_ok (s\<lparr>gs_e := Some e\<rparr>) = buf_ok e"
  by (simp add: shape_ok_def)

lemma shape_ok_other [simp]:
  "shape_ok (s\<lparr>gs_rp := rp\<rparr>) = shape_ok s" "shape_ok (s\<lparr>gs_path := p\<rparr>) = shape_ok s" "shape_ok (s\<lparr>gs_x := x\<rparr>) = shape_ok s"
  "shape_ok (s\<lparr>gs_os := os\<rparr>) = shape_ok s" "shape_ok (s\<lparr>gs_sock := so\<rparr>) = shape_ok s" "shape_ok (s\<lparr>gs_ima := im\<rparr>) = shape_ok s"
  "shape_ok (s\<lparr>gs_override := ov\<rparr>) = shape_ok s"
  by (simp_all add: shape_ok_def)

lemma shape_ok_upd: "shape_ok s \<Longrightarrow> (\<And>e. buf_ok e \<Longrightarrow> buf_ok (g e)) \<Longrightarrow> shape_ok (upd_e g s)"
  by (auto simp: shape_ok_def upd_e_def)

lemma buf_ok_put: "buf_ok e \<Longrightarrow> off + length bs \<le> 24000 \<Longrightarrow> buf_ok (put_args off bs e)"
  by (simp add: buf_ok_def put_args_def)

lemma args_off_less: "args_off off < 16384"
  by (simp add: args_off_def)

section \<open>Readers of one argument\<close>

text \<open>Every reader that gets an offset inside the first 16384 bytes stays inside the buffer.\<close>

lemma length_puts200: "writes_fit 200 ws \<Longrightarrow> off + 200 \<le> length buf \<Longrightarrow> length (puts off ws buf) = length buf"
  by (rule length_puts)

lemma writes_fit_simps [simp]:
  "writes_fit n []" "writes_fit n ((r, bs) # ws) \<longleftrightarrow> r + length bs \<le> n \<and> writes_fit n ws"
  "writes_fit n (ws @ vs) \<longleftrightarrow> writes_fit n ws \<and> writes_fit n vs"
  by (auto simp: writes_fit_def)

lemma probe_read_str_length: "length (fst (probe_read_str mem n a)) \<le> n"
  using probe_read_str_bounds(1) [of mem n a] by (cases "probe_read_str mem n a") simp

lemma set_event_length:
  assumes "off + 200 \<le> length buf"
  shows "length (set_event_from_sock gx off sk buf) = length buf" "length (set_event_from_socket gx off sk buf) = length buf"
    "length (set_event_from_sockaddr_in gx off sk buf) = length buf"
  using assms
  by (auto simp: set_event_from_sock_def set_event_from_socket_def set_event_from_sockaddr_in_def sock_addrs_def ntohs_bytes_def
      Let_def length_puts200)

lemma set_event_from_skb_length:
  assumes "off + 200 \<le> length buf"
  shows "length (set_event_from_skb gx off skb buf) = length buf"
proof -
  have ports: "length (fst (skb_ports gx h p l)) = 2" "length (snd (skb_ports gx h p l)) = 2" for h p l
    by (simp_all add: skb_ports_def Let_def)
  have sec: "writes_fit 200 (skb_secpath gx skb)" by (simp add: skb_secpath_def Let_def)
  have fin: "length (puts off ((32, ntohs_bytes (fst (skb_ports gx h p l))) # (34, ntohs_bytes (snd (skb_ports gx h p l))) # skb_secpath gx skb) b) = length b"
    if "length b = length buf" for h p l b
    by (rule length_puts200) (use sec that assms in \<open>auto simp: ntohs_bytes_def ports\<close>)
  have len: "length (puts off ws buf) = length buf" if "writes_fit 200 ws" for ws
    using length_puts200 [OF that assms] .
  show ?thesis
    by (simp add: set_event_from_skb_def Let_def) (simp add: fin len split: option.split)
qed

lemma copy_length:
  assumes "off + 200 \<le> length buf"
  shows "length (fst (copy_skb gx off arg buf)) = length buf" "length (fst (copy_sock gx off arg buf)) = length buf"
    "length (fst (copy_sockaddr gx off arg buf)) = length buf" "length (fst (copy_socket gx off arg buf)) = length buf"
    "length (fst (copy_user_ns gx off arg buf)) = length buf" "length (fst (copy_cred gx off arg buf)) = length buf"
    "length (fst (copy_capability off arg buf)) = length buf" "length (fst (copy_bpf_attr gx off arg buf)) = length buf"
    "length (fst (copy_bpf_map gx off arg buf)) = length buf"
proof -
  have len: "length (puts off ws buf) = length buf" if "writes_fit 200 ws" for ws
    using length_puts200 [OF that assms] .
  have ns0: "writes_fit 200 (user_ns_writes gx p)" for p by (simp add: user_ns_writes_def)
  have ns: "length (puts (off + 64) (user_ns_writes gx p) b) = length b" if "length b = length buf" for p b
    by (rule length_puts [of 16]) (use assms that in \<open>auto simp: user_ns_writes_def\<close>)
  show "length (fst (copy_skb gx off arg buf)) = length buf" "length (fst (copy_sock gx off arg buf)) = length buf"
    "length (fst (copy_sockaddr gx off arg buf)) = length buf" "length (fst (copy_socket gx off arg buf)) = length buf"
    "length (fst (copy_user_ns gx off arg buf)) = length buf" "length (fst (copy_cred gx off arg buf)) = length buf"
    "length (fst (copy_capability off arg buf)) = length buf" "length (fst (copy_bpf_attr gx off arg buf)) = length buf"
    "length (fst (copy_bpf_map gx off arg buf)) = length buf"
    using assms
    by (simp_all add: copy_skb_def copy_sock_def copy_sockaddr_def copy_socket_def copy_user_ns_def copy_cred_def copy_capability_def
        copy_bpf_attr_def copy_bpf_map_def set_event_length set_event_from_skb_length len ns ns0 Let_def)
qed

lemma copy_names_length:
  assumes "off + 200 \<le> length buf"
  shows "length (fst (copy_load_module gx off arg buf)) = length buf" "length (fst (copy_kernel_module gx off arg buf)) = length buf"
    "length (fst (copy_bpf_prog gx off arg buf)) = length buf" "length (fst (copy_perf_event gx off arg buf)) = length buf"
proof -
  have len: "length (puts off ws b) = length buf" if "writes_fit 200 ws" "length b = length buf" for ws b
    using length_puts200 [OF that(1), of off b] that(2) assms by simp
  have str: "r + length (fst (probe_read_str (gx_mem gx) n a)) \<le> 200" if "r + n \<le> 200" for r n a
    using probe_read_str_length [of "gx_mem gx" n a] that by simp
  show "length (fst (copy_load_module gx off arg buf)) = length buf" "length (fst (copy_kernel_module gx off arg buf)) = length buf"
    "length (fst (copy_bpf_prog gx off arg buf)) = length buf" "length (fst (copy_perf_event gx off arg buf)) = length buf"
    using str [of 16 63] str [of 8 16] str [of 0 128]
    by (simp_all add: copy_load_module_def copy_kernel_module_def copy_bpf_prog_def copy_perf_event_def len Let_def split_beta)
qed

lemma buf_ok_copy: "buf_ok e \<Longrightarrow> length a = length (gk_args e) \<Longrightarrow> buf_ok (e\<lparr>gk_args := a\<rparr>)"
  by (simp add: buf_ok_def)

lemma buf_ok_other [simp]:
  "buf_ok (update_pid_tid_from_sock bd s sk e) = buf_ok e" "buf_ok (e\<lparr>gk_argsoff := (gk_argsoff e)[i := o1]\<rparr>) = buf_ok e"
  "buf_ok (e\<lparr>gk_path := gp\<rparr>) = buf_ok e" "buf_ok (set_size n e) = buf_ok e" "buf_ok (e\<lparr>gk_tailcall_index_process := i1\<rparr>) = buf_ok e"
  "buf_ok (e\<lparr>gk_tailcall_index_selector := i2\<rparr>) = buf_ok e" "buf_ok (e\<lparr>gk_pass := ps\<rparr>) = buf_ok e" "buf_ok (e\<lparr>gk_lsm_post := lp\<rparr>) = buf_ok e"
  by (simp_all add: buf_ok_def update_pid_tid_from_sock_def set_size_def split: option.split)

lemma copy_strings_ok:
  assumes "buf_ok e" and "off < 16384" and "n \<le> 4096"
  shows "buf_ok (fst (copy_strings gx off arg n e))"
proof -
  have "off + 4 + length (fst (probe_read_str (gx_mem gx) (n + 1) arg)) \<le> 24000"
    using probe_read_str_length [of "gx_mem gx" "n + 1" arg] assms(2,3) by simp
  then show ?thesis using assms(1,2) by (simp add: copy_strings_def Let_def split_beta buf_ok_put le32_def)
qed

lemma fff: "unat ((w :: u64) AND 0xfff) \<le> 4095" "unat ((v :: u32) AND 0xfff) \<le> 4095"
  using unat_and_mask [of w 12] unat_and_mask [of v 12] by (simp_all add: mask_eq_exp_minus_1)

lemma fff_le: "4095 \<le> k \<Longrightarrow> unat ((w :: u64) AND 0xfff) \<le> k"
  using fff(1) [of w] by simp

lemma put_near:
  "buf_ok e \<Longrightarrow> length bs \<le> 7000 \<Longrightarrow> buf_ok (put_args (args_off off) bs e)"
  "buf_ok e \<Longrightarrow> d + length bs \<le> 7000 \<Longrightarrow> buf_ok (put_args (args_off off + d) bs e)"
  using args_off_less [of off] by (auto intro!: buf_ok_put)

lemma copy_bytes_ok: "buf_ok e \<Longrightarrow> buf_ok (fst (fst (copy_bytes fl bd gx off arg n md e s)))"
  by (simp add: fff_le copy_bytes_def Let_def split_beta put_near le32_def return_error_def SIZEOF_DATA_EVENT_DESC_def)

lemma parse_iovec_array_ok:
  assumes "buf_ok e"
  shows "buf_ok (fst (parse_iovec_array gx off arg i mx e))"
  using assms by (simp add: fff_le parse_iovec_array_def Let_def split_beta put_near)

lemma iovec_entries_ok: "buf_ok e \<Longrightarrow> buf_ok (fst (iovec_entries gx arg cnt k i off mx tot e))"
proof (induction k arbitrary: i off mx tot e)
  case (Suc k)
  then show ?case using parse_iovec_array_ok [OF Suc.prems, of gx off arg i mx] by (simp add: Let_def split_beta)
qed simp

lemma copy_iovec_ok: "buf_ok e \<Longrightarrow> buf_ok (fst (copy_iovec gx off arg cnt mx e))"
  using iovec_entries_ok [of e gx arg cnt 7 0 "off + 8" mx 0]
  by (auto simp: copy_iovec_def return_error_def put_near le32_def split: prod.split sum.split)

lemma copy_char_ok:
  assumes "buf_ok e"
  shows "buf_ok (fst (fst (copy_char_buf fl bd gx off arg argm e s)))" "buf_ok (fst (fst (copy_char_iovec gx off arg argm e s)))"
    "buf_ok (fst (fst (copy_iov_iter fl bd gx off arg argm e s)))"
  using assms
  by (simp_all add: copy_char_buf_def copy_char_iovec_def copy_iov_iter_def copy_bytes_ok copy_iovec_ok return_error_def put_near le32_def Let_def split_beta)

lemma read_fd_ok:
  assumes "buf_ok e" and "off < 16384"
  shows "buf_ok (fst (read_fd gx off arg s e))"
proof (cases "map_lookup_elem (gs_fd s) (fd_key gx (ucast arg))")
  case (Some val)
  let ?n = "unat (rd32 val 0 AND 0xfff)"
  have n: "?n \<le> 4095" by (rule fff)
  have sl: "length (slice i k val) \<le> k" for i k by (simp add: slice_def)
  have "off + 4 + length (slice 0 (?n + 4) val) \<le> 24000" "off + (?n + 8) + length (slice (?n + 4) 4 val) \<le> 24000"
    using n assms(2) sl [of 0 "?n + 4"] sl [of "?n + 4" 4] by linarith+
  then show ?thesis
    using Some assms by (simp add: read_fd_def Let_def buf_ok_put)
qed (use assms in \<open>simp add: read_fd_def Let_def\<close>)

lemma store_path_ok:
  assumes "buf_ok e" and "off < 16384"
  shows "buf_ok (fst (store_path gx off buffer dentry len flags e))"
proof -
  have "unat (len AND 0xfff) \<le> 4095" by (rule fff)
  with assms show ?thesis by (simp add: store_path_def Let_def buf_ok_put)
qed

lemma copy_path_ok: "buf_ok e \<Longrightarrow> off < 16384 \<Longrightarrow> buf_ok (fst (fst (copy_path bd gx off pb ref e s)))"
  using store_path_ok by (simp add: copy_path_def split_beta split: option.split)

lemma MAX_STRING_le: "MAX_STRING bd \<le> 4096"
  by (simp add: MAX_STRING_def STRING_MAPS_SIZE_def)

lemma read_value_ok:
  assumes "buf_ok e" and "off < 16384"
  shows "buf_ok (fst (fst (read_value fl bd gx ty off arg argm e s)))"
proof -
  have len: "off + 200 \<le> length (gk_args e)" using assms by (simp add: buf_ok_def)
  have cp: "buf_ok (e\<lparr>gk_args := a\<rparr>)" if "length a = length (gk_args e)" for a using assms(1) that by (rule buf_ok_copy)
  have put: "buf_ok (put_args off bs e)" if "length bs \<le> 1023" for bs using assms that by (intro buf_ok_put) simp_all
  have cs: "unat (argm AND 0x3ff) \<le> 1023" using unat_and_mask [of argm 10] by (simp add: mask_eq_exp_minus_1)
  have loc: "unat (drop_bit 16 arg AND 0xfff) \<le> 4096" using fff(1) [of "drop_bit 16 arg"] by simp
  note str = copy_strings_ok [OF assms MAX_STRING_le] copy_strings_ok [OF assms loc] copy_strings_ok [OF assms, of 16, simplified]
  note small = put [of "le_bytes n w" for n w, simplified] put [of "fst (probe_read mem n a)" for mem n a, simplified]
  show ?thesis
    unfolding read_value_def Let_def split_beta if_distrib [of fst] if_distrib [of buf_ok] fst_conv lift_copy_def
    by (simp add: buf_ok_other copy_char_ok [OF assms(1)] read_fd_ok [OF assms] str small cs assms(1)
        cp [OF copy_length(1) [OF len]] cp [OF copy_length(2) [OF len]] cp [OF copy_length(3) [OF len]] cp [OF copy_length(4) [OF len]]
        cp [OF copy_length(5) [OF len]] cp [OF copy_length(6) [OF len]] cp [OF copy_length(7) [OF len]] cp [OF copy_length(8) [OF len]]
        cp [OF copy_length(9) [OF len]] cp [OF copy_names_length(1) [OF len]] cp [OF copy_names_length(2) [OF len]]
        cp [OF copy_names_length(3) [OF len]] cp [OF copy_names_length(4) [OF len]])
qed

lemma read_arg_ok:
  assumes "shape_ok s"
  shows "shape_ok (fst (read_arg fl bd gx i ty off arg argm s))"
proof (cases "gs_e s")
  case (Some e)
  let ?off = "unat (off AND 16383)" and ?e = "e\<lparr>gk_argsoff := (gk_argsoff e)[i mod 8 := of_nat (unat (off AND 16383))]\<rparr>"
  have "?off < 16384" using unat_and_mask [of off 14] by (simp add: mask_eq_exp_minus_1)
  moreover have "buf_ok ?e" using assms Some by (simp add: shape_ok_def)
  ultimately show ?thesis
    using assms Some by (simp add: read_arg_def Let_def split_beta read_value_ok copy_path_ok split: option.split)
qed (use assms in \<open>simp add: read_arg_def\<close>)

section \<open>The other programs\<close>

text \<open>What they do to the argument buffer, the offsets and the values: nothing, or a new list of five values.\<close>

definition arrays :: "msg_generic_kprobe \<Rightarrow> byte list \<times> u64 list \<times> u64 list" where
  "arrays e = (gk_args e, gk_argsoff e, gk_a e)"

definition arrays_of :: "gen_state \<Rightarrow> (byte list \<times> u64 list \<times> u64 list) option" where
  "arrays_of s = map_option arrays (gs_e s)"

lemma shape_ok_alt:
  "shape_ok s = (case arrays_of s of None \<Rightarrow> True | Some (a, b, c) \<Rightarrow> length a = 24000 \<and> length b = 5 \<and> length c = 5)"
  by (cases "gs_e s") (simp_all add: shape_ok_def arrays_of_def arrays_def buf_ok_def)

lemma shape_ok_arrays: "arrays_of s' = arrays_of s \<Longrightarrow> shape_ok s' = shape_ok s"
  by (simp add: shape_ok_alt)

lemma arrays_of_e: "gs_e s' = gs_e s \<Longrightarrow> arrays_of s' = arrays_of s" "arrays_of (s\<lparr>gs_e := Some e\<rparr>) = Some (arrays e)"
  by (simp_all add: arrays_of_def)

lemma arrays_of_upd: "(\<And>e. arrays (g e) = arrays e) \<Longrightarrow> arrays_of (upd_e g s) = arrays_of s"
  by (cases "gs_e s") (simp_all add: arrays_of_def upd_e_def)

lemma arrays_updates [simp]:
  "arrays (e\<lparr>gk_sel := a1\<rparr>) = arrays e" "arrays (e\<lparr>gk_current := a2\<rparr>) = arrays e" "arrays (e\<lparr>gk_common := a3\<rparr>) = arrays e"
  "arrays (e\<lparr>gk_curr := a4\<rparr>) = arrays e" "arrays (e\<lparr>gk_exe := a5\<rparr>) = arrays e" "arrays (e\<lparr>gk_action := a6\<rparr>) = arrays e"
  "arrays (e\<lparr>gk_kernel_stack_id := a7\<rparr>) = arrays e" "arrays (e\<lparr>gk_user_stack_id := a8\<rparr>) = arrays e" "arrays (e\<lparr>gk_action_arg_id := a9\<rparr>) = arrays e"
  by (simp_all add: arrays_def)

lemma filter_selectors_arrays: "arrays (snd (fst (filter_selectors bd kf f pl enter sm))) = arrays (snd sm)"
proof -
  have "arrays (snd (fst (selector_process_filter bd kf f i pl enter sm))) = arrays (snd sm)" for i
    by (simp add: selector_process_filter_def put_enter_def split_beta split: option.split)
  then show ?thesis by (simp add: filter_selectors_def filter_done_def Let_def split_beta)
qed

lemma generic_process_filter_arrays:
  "map_option arrays (ps_msg (fst (generic_process_filter bd kf st))) = map_option arrays (ps_msg st)"
proof (cases "ps_msg st")
  case (Some msg)
  obtain pid w o1 where fc: "event_find_curr (fk_kt kf) (ps_x st) = (pid, w, o1)" by (cases "event_find_curr (fk_kt kf) (ps_x st)") auto
  obtain p x o2 where fp: "event_find_curr_probe bd (fk_vf kf) (fk_kt kf) (fk_kp kf) (fk_ktime kf) (ps_path st) (gk_curr msg) (gk_exe msg) = (p, x, o2)"
    by (cases "event_find_curr_probe bd (fk_vf kf) (fk_kt kf) (fk_kp kf) (fk_ktime kf) (ps_path st) (gk_curr msg) (gk_exe msg)") auto
  show ?thesis
    by (cases o1; cases o2) (simp_all add: generic_process_filter_def Some fc fp filter_selectors_arrays split_beta split: option.split)
qed (simp add: generic_process_filter_def)

lemma shape_filter: "shape_ok (fst (generic_filter_prog fl bd ok gx s)) = shape_ok s"
proof (rule shape_ok_arrays)
  let ?st = "\<lparr>ps_x = gs_x s, ps_path = gs_path s, ps_msg = gs_e s\<rparr>"
  show "arrays_of (fst (generic_filter_prog fl bd ok gx s)) = arrays_of s"
    using generic_process_filter_arrays [of bd "kfilter_of gx" ?st] by (simp add: generic_filter_prog_def arrays_of_def Let_def split_beta)
qed

lemma action_effect_arrays:
  assumes "gs_e s = Some e"
  shows "arrays_of (fst (action_effect fl bd gx enforce action arg e s post)) = Some (arrays e)"
proof -
  have s: "arrays_of s = Some (arrays e)" using assms by (simp add: arrays_of_def)
  note keep = e_kept [THEN arrays_of_e(1)]
  have post: "arrays_of (fst (action_post bd gx arg e s post)) = Some (arrays e)"
    by (simp add: action_post_def or_flags_def Let_def split_beta arrays_of_e(2))
  have set: "arrays_of (do_set_action fl bd gx i v s) = Some (arrays e)" for i v
    using assms by (simp add: do_set_action_def or_flags_def Let_def split_beta arrays_of_def e_kept split: option.split)
  have en: "arrays_of (s\<lparr>gs_en := x\<rparr>) = arrays_of s" for x by (rule arrays_of_e) simp
  show ?thesis
    unfolding action_effect_def split_beta if_distrib [of fst] if_distrib [of arrays_of] fst_conv
    by (simp only: keep post set en s arrays_of_e(2) arrays_updates if_cancel)
qed

lemma generic_actions_arrays: "arrays_of (fst (generic_actions fl bd gx s)) = arrays_of s"
proof -
  have act: "arrays_of (fst (fst (do_action fl bd gx f base en i sp))) = arrays_of (fst sp)" for f base en i sp
  proof (cases "gs_e (fst sp)")
    case (Some e)
    let ?a = "action_effect fl bd gx en (act_word f base i) (\<lambda>k. act_word f base (i + k)) e (fst sp) (snd sp)"
    have a: "arrays_of (fst ?a) = arrays_of (fst sp)" using action_effect_arrays [OF Some] by (simp add: arrays_of_def Some)
    have os: "arrays_of (t\<lparr>gs_os := x\<rparr>) = arrays_of t" for t x by (rule arrays_of_e) simp
    have ac: "arrays_of (t\<lparr>gs_e := map_option (\<lambda>e'. e'\<lparr>gk_action := x\<rparr>) (gs_e t)\<rparr>) = arrays_of t" for t x
      by (cases "gs_e t") (simp_all add: arrays_of_def)
    show ?thesis by (simp add: do_action_def Some Let_def split_beta a os ac split: option.split)
  qed (simp add: do_action_def)
  have "arrays_of (fst (do_actions_loop fl bd gx f base en n i sp)) = arrays_of (fst sp)" for f base en n i sp
    by (induction n arbitrary: i sp) (simp_all add: split_beta act)
  then show ?thesis by (simp add: generic_actions_def do_actions_def Let_def split: option.split)
qed

lemma shape_actions: "shape_ok (fst (actions_prog stale fl bd ok gx s)) = shape_ok s"
proof -
  have "shape_ok (fst (generic_actions fl bd gx s)) = shape_ok s" for fl by (rule shape_ok_arrays) (rule generic_actions_arrays)
  moreover have "shape_ok (fst (try_override stale gx t)) = shape_ok t" for t by (simp add: try_override_def split: option.split)
  moreover have "shape_ok (upd_e (\<lambda>e. e\<lparr>gk_lsm_post := b\<rparr>) t) = shape_ok t" for b t
    by (rule shape_ok_arrays, rule arrays_of_upd) (simp add: arrays_def)
  ultimately show ?thesis
    by (simp add: actions_prog_def generic_lsm_actions_def Let_def split_beta split: option.split)
qed

lemma shape_process:
  assumes "shape_ok s"
  shows "shape_ok (fst (generic_process_event fl bd ok gx s))"
proof -
  have path: "shape_ok (upd_path g t)" if "shape_ok t" for g t
    using that unfolding upd_path_def by (rule shape_ok_upd) simp
  have off: "shape_ok (fst (generic_path_offload bd ok gx ty a i o1 s))" for ty a i o1
  proof (cases "gs_e s")
    case (Some e)
    have e1: "buf_ok (e\<lparr>gk_path := gp, gk_argsoff := (gk_argsoff e)[i := w]\<rparr>)" for gp w
      using assms Some by (simp add: shape_ok_def buf_ok_def)
    show ?thesis
      using assms
      by (simp add: generic_path_offload_def Some Let_def split_beta store_path_ok [OF e1 args_off_less] path split: option.split prod.split)
  qed (use assms in \<open>simp add: generic_path_offload_def ret_def\<close>)
  have rd: "shape_ok (fst (generic_read_arg fl bd ok gx i o1 s))" for i o1
    using assms off by (simp add: generic_read_arg_def Let_def split_beta read_arg_ok ret_def split: option.split)
  have next_ok: "shape_ok (fst (next_argument ok gx i t))" if "shape_ok t" for i t
    using that by (simp add: next_argument_def tail_call_def ret_def Let_def shape_ok_upd)
  have size: "shape_ok (upd_e (set_size n) t)" if "shape_ok t" for n t
    using that by (rule shape_ok_upd) simp
  show ?thesis
    using assms rd
    by (simp add: generic_process_event_def filter_args_reject_def Let_def split_beta next_ok size ret_def split: option.split outcome.split)
qed

lemma shape_path:
  assumes "shape_ok s"
  shows "shape_ok (fst (generic_path bd ok gx s))"
  using assms
  by (auto simp: generic_path_def path_init_def path_work_def upd_path_def tail_call_def ret_def Let_def split_beta shape_ok_upd
      split: option.split path_state.split)

lemma shape_setup:
  assumes "shape_ok s"
  shows "shape_ok (fst (generic_process_event_and_setup fl ok gx s))"
proof -
  have init: "shape_ok (upd_e (\<lambda>e. generic_process_init gx op (e\<lparr>gk_a := as\<rparr>)) s)" if "length as = 5" for op as
    using assms by (rule shape_ok_upd) (use that in \<open>simp add: buf_ok_def generic_process_init_def\<close>)
  have mark: "shape_ok (mark_retprobe gx config t)" if "shape_ok t" for config t
    using shape_ok_upd [OF that, of "\<lambda>e. e\<lparr>gk_retprobe_id := r\<rparr>" for r]
    by (simp add: mark_retprobe_def Let_def buf_ok_def split: option.split)
  have "shape_ok t" if "setup_message fl gx config s = Some t" for config t
    using that assms
    by (auto simp: setup_message_def Let_def init mark func_args_def syscall_args_def raw_args_def split: flavour.splits if_splits)
  then show ?thesis
    using assms by (simp add: generic_process_event_and_setup_def tail_call_def ret_def Let_def split: option.split)
qed

lemma shape_filter_arg:
  "shape_ok s \<Longrightarrow> shape_ok (fst (generic_filter_arg bd ok gx is_entry s))"
  by (simp add: generic_filter_arg_def filter_args_def filter_args_reject_def tail_call_def ret_def Let_def split_beta shape_ok_upd split: option.split)

section \<open>Whole runs\<close>

lemma shape_prog: "shape_ok s \<Longrightarrow> shape_ok (fst (run_prog stale fl bd ok gx p s))"
  by (cases p) (simp_all add: run_prog_def shape_setup shape_process shape_filter shape_filter_arg shape_actions shape_path
      generic_output_def Let_def ret_def split: option.split)

lemma shape_retprobe:
  assumes "shape_ok s"
  shows "shape_ok (fst (generic_retprobe fl bd ok gx rv s))"
proof -
  have act: "shape_ok (return_action fl bd config rv t) = shape_ok t" for config t
    by (simp add: return_action_def split: option.split)
  have val: "shape_ok (fst (return_value fl bd gx config rv t))" if "shape_ok t" for config t
    using that by (simp add: return_value_def split_beta act read_arg_ok)
  have cp: "shape_ok (fst (return_copy fl bd gx config info rv n t))" if "shape_ok t" for config info n t
    using that
    by (cases "gs_e t") (simp_all add: return_copy_def split_beta copy_bytes_ok copy_iovec_ok shape_ok_def [of t])
  have put: "shape_ok (upd_e (put_args 0 (le_bytes 8 w)) t)" if "shape_ok t" for t and w :: u64
    using that by (rule shape_ok_upd) (simp add: buf_ok_put)
  have hd: "shape_ok (upd_e (return_head fl gx en n) t)" if "shape_ok t" for en n t
    using that by (rule shape_ok_upd) (simp add: return_head_def buf_ok_def)
  have ids: "shape_ok (upd_e (\<lambda>e. e\<lparr>gk_idx := i\<rparr>) t)" "shape_ok (upd_e (\<lambda>e. e\<lparr>gk_func_id := a, gk_retprobe_id := b, gk_tid := c\<rparr>) t)"
    if "shape_ok t" for t i a b c
    using that by (rule shape_ok_upd, simp add: buf_ok_def)+
  show ?thesis
    using assms
    by (simp add: generic_retprobe_def Let_def split_beta val cp put hd ids split: option.split)
qed

lemma shape_start:
  assumes "shape_ok s"
  shows "shape_ok (fst (start_prog fl bd ok gx rv s))"
proof -
  have "shape_ok (upd_e (\<lambda>e. e\<lparr>gk_idx := i\<rparr>) t)" "shape_ok (upd_e (start_message bd gx config) t)" "shape_ok (upd_e (tracepoint_message bd gx config) t)"
    if "shape_ok t" for t i config
    using that by (rule shape_ok_upd, simp add: buf_ok_def start_message_def tracepoint_message_def tracepoint_args_def generic_process_init_def Let_def)+
  then show ?thesis
    using assms
    by (simp add: start_prog_def generic_tracepoint_event_def generic_start_process_filter_def shape_retprobe Let_def split: option.split)
qed

text \<open>
  C10. The argument buffer is never overrun: a complete run of a hook, for every program type, build, configuration, policy and content of memory,
  keeps the 24000 bytes of the argument buffer, the five offsets and the five values of the scratch message.
\<close>

theorem buffer_never_overrun:
  assumes "shape_ok s"
  shows "shape_ok (fst (generic_event stale fl bd gx rv s))"
  unfolding generic_event_def
  by (rule gen.run_chain_inv [where J = "\<lambda>_ _. True"]) (auto simp: ends_def start_has shape_start [OF assms] shape_prog)

text \<open>The hash that the output program of the security module hooks appends stays inside as well.\<close>

lemma append_hash_shape:
  assumes "shape_ok s" and "gs_e s = Some e"
    and "\<And>h. map_lookup_elem (gs_ima s) (gx_pid_tgid gx) = Some h \<Longrightarrow> length (ih_value h) = 64"
  shows "shape_ok (append_hash bd gx e s)"
proof -
  have e: "buf_ok e" using assms(1,2) by (simp add: shape_ok_def)
  have "unat (mc_size (gk_common e) AND 16383) < 16384" using unat_and_mask [of "mc_size (gk_common e)" 14] by (simp add: mask_eq_exp_minus_1)
  then have "buf_ok (put_args (unat (mc_size (gk_common e) AND 16383)) (ima_bytes h) e)" if "length (ih_value h) = 64" for h
    using e that by (intro buf_ok_put) (simp_all add: ima_bytes_def)
  with assms e show ?thesis by (simp add: append_hash_def Let_def split: option.split)
qed

theorem buffer_never_overrun_witness: "shape_ok (fst (generic_event id KPROBE build_v61 gx_example 0 gs_example))"
  by (rule buffer_never_overrun) (simp add: shape_ok_def gs_example_def buf_ok_def e_example_def msg_example_def)

end
