(* ===== verification/Windows_Monitor.thy ===== *)
theory Windows_Monitor
  imports BPF_Maps
begin

text \<open>
  The process monitor for Windows (\<^verbatim>\<open>bpf/windows/process_monitor.c\<close>): one program, called by the process hook when a process is created and when it is
  deleted. It keeps the image path and the command line of a process in maps and writes an event to a ring.

  The hook's header is not part of the repository. The context it passes and its two helpers are parameters: \<open>md_command\<close> is what lies between
  \<^verbatim>\<open>command_start\<close> and \<^verbatim>\<open>command_end\<close>, ids are taken at their largest width and cut where the code assigns them, \<open>wc_logon_id\<close> is the
  answer of \<^verbatim>\<open>bpf_get_current_logon_id\<close>, and \<open>wc_image_path n\<close> is what \<^verbatim>\<open>bpf_process_get_image_path\<close> writes to a buffer of \<open>n\<close> bytes and what it answers.
\<close>

section \<open>State\<close>

definition IMAGE_PATH_SIZE :: nat where "IMAGE_PATH_SIZE = 1024"
definition COMMAND_SCRATCH_SIZE :: nat where "COMMAND_SCRATCH_SIZE = 65504"
definition WIN_MSG_OP_EXECVE :: u8 where [tg_consts]: "WIN_MSG_OP_EXECVE = 5"
definition WIN_MSG_OP_EXIT :: u8 where [tg_consts]: "WIN_MSG_OP_EXIT = 7"

datatype process_operation = PROCESS_OPERATION_CREATE | PROCESS_OPERATION_DELETE | PROCESS_OPERATION_OTHER

record win_msg_common =
  wmc_op :: u8
  wmc_flags :: u8
  wmc_size :: u32
  wmc_ktime :: u64

record process_create_info =
  ci_common :: win_msg_common
  ci_process_id :: u32
  ci_parent_process_id :: u32
  ci_creating_process_id :: u32
  ci_creating_thread_id :: u32
  ci_user_luid :: u64
  ci_creation_time :: u64

record process_exit_info =
  xi_common :: win_msg_common
  xi_process_id :: u32
  xi_exit_time :: u64
  xi_process_exit_code :: u32
  xi_operation :: u8

datatype win_event = Win_create process_create_info | Win_exit process_exit_info

record process_md =
  md_operation :: process_operation
  md_process_id :: u64
  md_parent_process_id :: u64
  md_creating_process_id :: u64
  md_creating_thread_id :: u64
  md_creation_time :: u64
  md_exit_time :: u64
  md_process_exit_code :: u32
  md_command :: "byte list"

text \<open>\<open>wc_above\<close> holds the four bytes that lie behind the local variable \<^verbatim>\<open>temp_key\<close>, which is half as wide as the keys of the map it is used with.\<close>

record win_ctx =
  wc_md :: process_md
  wc_pid_tgid :: u64
  wc_above :: u32
  wc_logon_id :: u64
  wc_image_path :: "nat \<Rightarrow> byte list \<times> u32"

record win_state =
  wm_temp :: "(u64, byte list) bpf_map"
  wm_scratch_space :: "(u64, byte list) lru_map"
  wm_process_map :: "(u32, byte list) lru_map"
  wm_command_map :: "(u32, byte list) lru_map"
  wm_ring :: "win_event list"
  wm_ring_answer :: "win_event list \<Rightarrow> win_event \<Rightarrow> int"

section \<open>The scratch buffer\<close>

text \<open>A pointer to the buffer points into one of two maps.\<close>

datatype scratch_ptr = In_temp u64 | In_scratch u64

fun read_scratch :: "scratch_ptr \<Rightarrow> win_state \<Rightarrow> byte list option" where
  "read_scratch (In_temp k) s = map_lookup_elem (wm_temp s) k"
| "read_scratch (In_scratch k) s = map_lookup_elem (wm_scratch_space s) k"

fun write_scratch :: "scratch_ptr \<Rightarrow> (byte list \<Rightarrow> byte list) \<Rightarrow> win_state \<Rightarrow> win_state" where
  "write_scratch (In_temp k) f s = s\<lparr>wm_temp := map_modify (wm_temp s) k f\<rparr>"
| "write_scratch (In_scratch k) f s = s\<lparr>wm_scratch_space := map_modify (wm_scratch_space s) k f\<rparr>"

definition zero_scratch :: "byte list \<Rightarrow> byte list" where
  "zero_scratch buf = blit 0 (replicate COMMAND_SCRATCH_SIZE 0) buf"

definition get_scratch_space :: "win_ctx \<Rightarrow> win_state \<Rightarrow> win_state \<times> scratch_ptr option" where
  "get_scratch_space wc s =
     (let key = wc_pid_tgid wc; temp_key = push_bit 32 (ucast (wc_above wc))
      in case map_lookup_elem (wm_temp s) key of
           Some _ \<Rightarrow> (s, Some (In_temp key))
         | None \<Rightarrow>
             (case map_lookup_elem (wm_temp s) temp_key of
                None \<Rightarrow> (s, None)
              | Some scratch \<Rightarrow>
                  let s1 = s\<lparr>wm_scratch_space := fst (lru_update_elem (wm_scratch_space s) key scratch)\<rparr>
                  in case map_lookup_elem (wm_scratch_space s1) key of
                       None \<Rightarrow> (s1, None)
                     | Some _ \<Rightarrow> (write_scratch (In_scratch key) zero_scratch s1, Some (In_scratch key))))"

section \<open>Lower case\<close>

text \<open>The code's \<^verbatim>\<open>char\<close> may be signed; the letters are below 128, so the comparison is the same.\<close>

definition lower_char :: "byte \<Rightarrow> byte" where
  "lower_char p = (if 0x41 \<le> p \<and> p \<le> 0x5a then p + 0x20 else p)"

fun copy_lower_loop :: "byte list \<Rightarrow> byte list \<Rightarrow> nat \<Rightarrow> nat \<Rightarrow> byte list" where
  "copy_lower_loop d s i 0 = d"
| "copy_lower_loop d s i (Suc k) = copy_lower_loop (d[i := lower_char (s ! i)]) s (Suc i) k"

fun lower_loop :: "byte list \<Rightarrow> nat \<Rightarrow> nat \<Rightarrow> byte list" where
  "lower_loop s i 0 = s"
| "lower_loop s i (Suc k) = lower_loop (s[i := lower_char (s ! i)]) (Suc i) k"

definition str_to_lower_and_copy :: "byte list \<Rightarrow> byte list \<Rightarrow> u32 \<Rightarrow> byte list" where
  "str_to_lower_and_copy dst src len = copy_lower_loop dst src 0 (nat (sint len))"

definition str_to_lower :: "byte list \<Rightarrow> u32 \<Rightarrow> byte list" where
  "str_to_lower src len = lower_loop src 0 (nat (sint len))"

section \<open>The program\<close>

definition bpf_ringbuf_output :: "win_event \<Rightarrow> win_state \<Rightarrow> win_state" where
  "bpf_ringbuf_output ev s = (if wm_ring_answer s (wm_ring s) ev < 0 then s else s\<lparr>wm_ring := wm_ring s @ [ev]\<rparr>)"

definition create_info :: "win_ctx \<Rightarrow> process_create_info" where
  "create_info wc =
     (let md = wc_md wc
      in \<lparr>ci_common = \<lparr>wmc_op = WIN_MSG_OP_EXECVE, wmc_flags = 0, wmc_size = 48, wmc_ktime = md_creation_time md\<rparr>,
          ci_process_id = ucast (md_process_id md), ci_parent_process_id = ucast (md_parent_process_id md),
          ci_creating_process_id = ucast (md_creating_process_id md), ci_creating_thread_id = ucast (md_creating_thread_id md),
          ci_user_luid = wc_logon_id wc, ci_creation_time = md_creation_time md\<rparr>)"

definition win_exit_info :: "win_ctx \<Rightarrow> process_exit_info" where
  "win_exit_info wc =
     (let md = wc_md wc
      in \<lparr>xi_common = \<lparr>wmc_op = WIN_MSG_OP_EXIT, wmc_flags = 0, wmc_size = 40, wmc_ktime = md_exit_time md\<rparr>,
          xi_process_id = ucast (md_process_id md), xi_exit_time = md_exit_time md,
          xi_process_exit_code = md_process_exit_code md, xi_operation = 0\<rparr>)"

text \<open>The store of the command line: the buffer's whole contents become the value.\<close>

definition store_command :: "win_ctx \<Rightarrow> scratch_ptr \<Rightarrow> win_state \<Rightarrow> win_state" where
  "store_command wc buffer s =
     (let n0 = (of_nat (length (md_command (wc_md wc))) :: u32);
          n = (if of_nat COMMAND_SCRATCH_SIZE <s n0 then of_nat COMMAND_SCRATCH_SIZE else n0);
          s1 = write_scratch buffer (\<lambda>b. str_to_lower_and_copy b (md_command (wc_md wc)) n) s
      in case read_scratch buffer s1 of
           None \<Rightarrow> s1
         | Some v \<Rightarrow> s1\<lparr>wm_command_map := fst (lru_update_elem (wm_command_map s1) (ci_process_id (create_info wc)) v)\<rparr>)"

text \<open>The store of the image path, from the first bytes of the buffer.\<close>

definition store_image_path :: "win_ctx \<Rightarrow> scratch_ptr \<Rightarrow> win_state \<Rightarrow> win_state" where
  "store_image_path wc buffer s =
     (case wc_image_path wc (IMAGE_PATH_SIZE - 1) of
        (path, len) \<Rightarrow>
          let n = (if of_nat (IMAGE_PATH_SIZE - 1) <s len then of_nat (IMAGE_PATH_SIZE - 1) else len);
              s1 = write_scratch buffer (\<lambda>b. str_to_lower (blit 0 path b) n) s
          in case read_scratch buffer s1 of
               None \<Rightarrow> s1
             | Some v \<Rightarrow> s1\<lparr>wm_process_map := fst (lru_update_elem (wm_process_map s1) (ci_process_id (create_info wc)) (take IMAGE_PATH_SIZE v))\<rparr>)"

definition process_created :: "win_ctx \<Rightarrow> win_state \<Rightarrow> win_state" where
  "process_created wc s =
     (case get_scratch_space wc s of
        (s1, None) \<Rightarrow> s1
      | (s1, Some buffer) \<Rightarrow>
          bpf_ringbuf_output (Win_create (create_info wc))
            (store_image_path wc buffer (write_scratch buffer zero_scratch (store_command wc buffer s1))))"

text \<open>A write of a word through a pointer: there is no object at the null pointer, so that such a write has no result.\<close>

definition write_pid :: "ptr \<Rightarrow> u32 \<Rightarrow> u32 option" where
  "write_pid p v = (if p = 0 then None else Some v)"

definition process_deleted :: "win_ctx \<Rightarrow> win_state \<Rightarrow> win_state option" where
  "process_deleted wc s =
     (if md_process_id (wc_md wc) = 0 then Some s
      else case write_pid 0 (ucast (md_process_id (wc_md wc))) of
             None \<Rightarrow> None
           | Some pid \<Rightarrow>
               let s1 = s\<lparr>wm_process_map := fst (map_delete_elem (wm_process_map s) pid)\<rparr>;
                   s2 = s1\<lparr>wm_command_map := fst (map_delete_elem (wm_command_map s1) pid)\<rparr>
               in Some (bpf_ringbuf_output (Win_exit (win_exit_info wc)) s2))"

text \<open>The program; \<open>None\<close> is a run that ends in an access that C gives no meaning.\<close>

definition ProcessMonitor :: "win_ctx \<Rightarrow> win_state \<Rightarrow> win_state option" where
  "ProcessMonitor wc s =
     (case md_operation (wc_md wc) of
        PROCESS_OPERATION_CREATE \<Rightarrow> Some (process_created wc s)
      | PROCESS_OPERATION_DELETE \<Rightarrow> process_deleted wc s
      | PROCESS_OPERATION_OTHER \<Rightarrow> Some s)"

section \<open>Lower case, in one go\<close>

lemma blit_step: "i < length d \<Longrightarrow> blit (Suc i) bs (d[i := x]) = blit i (x # bs) d"
  by (simp add: blit_def take_Suc_conv_app_nth)

lemma slice_Suc: "i < length s \<Longrightarrow> slice i (Suc k) s = s ! i # slice (Suc i) k s"
  by (simp add: slice_def Cons_nth_drop_Suc [symmetric])

lemma copy_lower_loop_blit:
  "i + k \<le> length d \<Longrightarrow> i + k \<le> length s \<Longrightarrow> copy_lower_loop d s i k = blit i (map lower_char (slice i k s)) d"
  by (induction k arbitrary: i d) (simp_all add: slice_Suc blit_step, simp add: slice_def)

lemma lower_loop_blit: "i + k \<le> length s \<Longrightarrow> lower_loop s i k = blit i (map lower_char (slice i k s)) s"
proof (induction k arbitrary: i s)
  case (Suc k)
  have "slice (Suc i) k (s[i := x]) = slice (Suc i) k s" for x by (simp add: slice_def)
  with Suc show ?case by (simp add: slice_Suc blit_step)
qed (simp add: slice_def)

lemma nat_sint_of_nat: "n < 2 ^ 31 \<Longrightarrow> nat (sint (of_nat n :: u32)) = n" "n < 2 ^ 31 \<Longrightarrow> sint (of_nat n :: u32) = int n"
  by (simp_all add: signed_of_nat signed_take_bit_int_eq_self)

lemma str_to_lower_and_copy_blit:
  "n \<le> length d \<Longrightarrow> n \<le> length s \<Longrightarrow> n < 2 ^ 31 \<Longrightarrow> str_to_lower_and_copy d s (of_nat n) = blit 0 (map lower_char (take n s)) d"
  by (simp add: str_to_lower_and_copy_def nat_sint_of_nat copy_lower_loop_blit slice_def)

lemma str_to_lower_blit:
  "n \<le> length s \<Longrightarrow> n < 2 ^ 31 \<Longrightarrow> str_to_lower s (of_nat n) = blit 0 (map lower_char (take n s)) s"
  by (simp add: str_to_lower_def nat_sint_of_nat lower_loop_blit slice_def)

lemma lower_char_idem: "lower_char (lower_char p) = lower_char p"
proof -
  have "\<not> (p + 0x20 \<le> 0x5a)" if "0x41 \<le> p" "p \<le> 0x5a"
    using that by (simp add: word_le_nat_alt unat_word_ariths)
  then show ?thesis by (auto simp: lower_char_def)
qed

section \<open>What is stored\<close>

text \<open>The buffers have their size, and the values of the two maps the sizes that their declarations say.\<close>

definition win_ok :: "win_state \<Rightarrow> bool" where
  "win_ok s \<longleftrightarrow>
     (\<forall>b \<in> ran (bm_elems (wm_temp s)) \<union> ran (bm_elems (wm_scratch_space s)). length b = COMMAND_SCRATCH_SIZE)
     \<and> (\<forall>v \<in> ran (bm_elems (wm_command_map s)). length v = COMMAND_SCRATCH_SIZE)
     \<and> (\<forall>v \<in> ran (bm_elems (wm_process_map s)). length v = IMAGE_PATH_SIZE)"

text \<open>A text in a field of \<open>n\<close> bytes: lower case, cut at the end, filled with zeros.\<close>

definition field :: "nat \<Rightarrow> byte list \<Rightarrow> byte list" where
  "field n bs = map lower_char (take n bs) @ replicate (n - length bs) 0"

lemma blit_field: "length bs \<le> n \<Longrightarrow> blit 0 bs (replicate n 0) = bs @ replicate (n - length bs) 0"
  by (simp add: blit_def)

lemma write_read_scratch [simp]:
  "read_scratch p (write_scratch p f s) = map_option f (read_scratch p s)"
  by (cases p) (simp_all add: map_lookup_elem_def map_modify_def)

lemma write_scratch_frame [simp]:
  "wm_process_map (write_scratch p f s) = wm_process_map s" "wm_command_map (write_scratch p f s) = wm_command_map s"
  "wm_ring (write_scratch p f s) = wm_ring s" "wm_ring_answer (write_scratch p f s) = wm_ring_answer s"
  by (cases p; simp)+

lemma read_scratch_frame [simp]:
  "read_scratch p (s\<lparr>wm_command_map := c\<rparr>) = read_scratch p s" "read_scratch p (s\<lparr>wm_process_map := m\<rparr>) = read_scratch p s"
  by (cases p; simp)+

text \<open>With a zeroed buffer, the command line becomes a field of the size of the buffer.\<close>

lemma store_command_field:
  assumes "read_scratch p s = Some (replicate COMMAND_SCRATCH_SIZE 0)" and "length (md_command (wc_md wc)) < 2 ^ 31"
    and "v = field COMMAND_SCRATCH_SIZE (md_command (wc_md wc))"
  shows "\<exists>s1. store_command wc p s = s1\<lparr>wm_command_map := fst (lru_update_elem (wm_command_map s) (ci_process_id (create_info wc)) v)\<rparr>
     \<and> read_scratch p s1 = Some v \<and> wm_process_map s1 = wm_process_map s \<and> wm_ring s1 = wm_ring s \<and> wm_ring_answer s1 = wm_ring_answer s"
proof -
  let ?c = "md_command (wc_md wc)"
  define n where "n = min COMMAND_SCRATCH_SIZE (length ?c)"
  have n: "n < 2 ^ 31" "n \<le> COMMAND_SCRATCH_SIZE" "n \<le> length ?c" using assms(2) by (simp_all add: n_def)
  have cut: "(if (of_nat COMMAND_SCRATCH_SIZE :: u32) <s of_nat (length ?c) then of_nat COMMAND_SCRATCH_SIZE else of_nat (length ?c)) = (of_nat n :: u32)"
    using assms(2) by (simp add: word_sless_alt nat_sint_of_nat COMMAND_SCRATCH_SIZE_def n_def)
  have "str_to_lower_and_copy (replicate COMMAND_SCRATCH_SIZE 0) ?c (of_nat n) = map lower_char (take n ?c) @ replicate (COMMAND_SCRATCH_SIZE - n) 0"
    using n by (simp add: str_to_lower_and_copy_blit blit_field)
  also have "\<dots> = v"
    using assms(3) by (auto simp: field_def n_def min_def)
  finally have lower: "str_to_lower_and_copy (replicate COMMAND_SCRATCH_SIZE 0) ?c (of_nat n) = v" .
  show ?thesis
    by (rule exI [of _ "write_scratch p (\<lambda>b. str_to_lower_and_copy b ?c (of_nat n)) s"])
      (simp add: store_command_def Let_def cut assms(1) lower)
qed

lemma store_image_path_field:
  assumes "read_scratch p s = Some (replicate COMMAND_SCRATCH_SIZE 0)" and "wc_image_path wc (IMAGE_PATH_SIZE - 1) = (path, of_nat (length path))"
    and "length path \<le> IMAGE_PATH_SIZE - 1" and "v = field IMAGE_PATH_SIZE path"
  shows "\<exists>s1. store_image_path wc p s = s1\<lparr>wm_process_map := fst (lru_update_elem (wm_process_map s) (ci_process_id (create_info wc)) v)\<rparr>
     \<and> wm_command_map s1 = wm_command_map s \<and> wm_ring s1 = wm_ring s \<and> wm_ring_answer s1 = wm_ring_answer s"
proof -
  let ?b = "path @ replicate (COMMAND_SCRATCH_SIZE - length path) 0"
  have len: "length path \<le> COMMAND_SCRATCH_SIZE" "length path < 2 ^ 31" using assms(3) by (simp_all add: IMAGE_PATH_SIZE_def COMMAND_SCRATCH_SIZE_def)
  have cut: "\<not> (of_nat (IMAGE_PATH_SIZE - 1) :: u32) <s of_nat (length path)"
    using assms(3) len by (simp add: word_sless_alt nat_sint_of_nat IMAGE_PATH_SIZE_def)
  have "str_to_lower ?b (of_nat (length path)) = map lower_char path @ replicate (COMMAND_SCRATCH_SIZE - length path) 0"
    using len by (simp add: str_to_lower_blit) (simp add: blit_def)
  moreover have "take IMAGE_PATH_SIZE (map lower_char path @ replicate (COMMAND_SCRATCH_SIZE - length path) 0) = v"
    using assms(3,4) by (simp add: field_def IMAGE_PATH_SIZE_def COMMAND_SCRATCH_SIZE_def)
  ultimately show ?thesis
    using assms(1,2) cut len
    by (intro exI [of _ "write_scratch p (\<lambda>b. str_to_lower (blit 0 path b) (of_nat (length path))) s"])
      (simp add: store_image_path_def Let_def blit_field)
qed

section \<open>Sizes are kept\<close>

lemma length_lower [simp]: "length (str_to_lower_and_copy d s n) = length d" "length (str_to_lower s n) = length s"
proof -
  have "length (copy_lower_loop d s i k) = length d" for i k by (induction k arbitrary: d i) simp_all
  then show "length (str_to_lower_and_copy d s n) = length d" by (simp add: str_to_lower_and_copy_def)
  have "length (lower_loop s i k) = length s" for i k by (induction k arbitrary: s i) simp_all
  then show "length (str_to_lower s n) = length s" by (simp add: str_to_lower_def)
qed

lemma ran_modify: "v \<in> ran (m(k := map_option f (m k))) \<Longrightarrow> v \<in> ran m \<or> (\<exists>b \<in> ran m. v = f b)"
  by (auto simp: ran_def split: if_splits)

lemma write_scratch_ok:
  assumes "win_ok s" and "\<And>b. length b = COMMAND_SCRATCH_SIZE \<Longrightarrow> length (f b) = COMMAND_SCRATCH_SIZE"
  shows "win_ok (write_scratch p f s)"
  using assms by (cases p) (auto simp: win_ok_def map_modify_def dest!: ran_modify)

lemma ran_lru_update: "ran (bm_elems (fst (lru_update_elem m k v))) \<subseteq> insert v (ran (bm_elems m))"
  by (auto simp: lru_update_elem_def ran_def split: if_splits)

lemma ran_delete: "ran (bm_elems (fst (map_delete_elem m k))) \<subseteq> ran (bm_elems m)"
  by (auto simp: map_delete_elem_def ran_def split: if_splits)

lemma win_ok_read: "win_ok s \<Longrightarrow> read_scratch p s = Some v \<Longrightarrow> length v = COMMAND_SCRATCH_SIZE"
  by (cases p) (auto simp: win_ok_def map_lookup_elem_def ran_def)

lemma length_zero_scratch [simp]: "length b = COMMAND_SCRATCH_SIZE \<Longrightarrow> zero_scratch b = replicate COMMAND_SCRATCH_SIZE 0"
  by (simp add: zero_scratch_def blit_def)

lemma put_ok:
  assumes "win_ok s" and "\<And>b. length b = COMMAND_SCRATCH_SIZE \<Longrightarrow> length (f b) = COMMAND_SCRATCH_SIZE" and "s1 = write_scratch p f s"
  shows "win_ok (case read_scratch p s1 of None \<Rightarrow> s1 | Some v \<Rightarrow> s1\<lparr>wm_command_map := fst (lru_update_elem (wm_command_map s1) k v)\<rparr>)"
    and "win_ok (case read_scratch p s1 of None \<Rightarrow> s1
      | Some v \<Rightarrow> s1\<lparr>wm_process_map := fst (lru_update_elem (wm_process_map s1) k (take IMAGE_PATH_SIZE v))\<rparr>)"
proof -
  have s1: "win_ok s1" unfolding assms(3) by (rule write_scratch_ok [OF assms(1,2)])
  have "win_ok (s1\<lparr>wm_command_map := fst (lru_update_elem (wm_command_map s1) k v)\<rparr>)"
    "win_ok (s1\<lparr>wm_process_map := fst (lru_update_elem (wm_process_map s1) k (take IMAGE_PATH_SIZE v))\<rparr>)" if "read_scratch p s1 = Some v" for v
    using s1 win_ok_read [OF s1 that] ran_lru_update [of "wm_command_map s1" k v] ran_lru_update [of "wm_process_map s1" k "take IMAGE_PATH_SIZE v"]
    by (auto simp: win_ok_def IMAGE_PATH_SIZE_def COMMAND_SCRATCH_SIZE_def)
  with s1 show "win_ok (case read_scratch p s1 of None \<Rightarrow> s1 | Some v \<Rightarrow> s1\<lparr>wm_command_map := fst (lru_update_elem (wm_command_map s1) k v)\<rparr>)"
    "win_ok (case read_scratch p s1 of None \<Rightarrow> s1
      | Some v \<Rightarrow> s1\<lparr>wm_process_map := fst (lru_update_elem (wm_process_map s1) k (take IMAGE_PATH_SIZE v))\<rparr>)"
    by (auto split: option.split)
qed

lemma store_ok:
  assumes "win_ok s"
  shows "win_ok (store_command wc p s)"
    and "length (fst (wc_image_path wc (IMAGE_PATH_SIZE - 1))) \<le> IMAGE_PATH_SIZE - 1 \<Longrightarrow> win_ok (store_image_path wc p s)"
proof -
  show "win_ok (store_command wc p s)"
    unfolding store_command_def Let_def by (rule put_ok(1) [OF assms _ refl]) simp
  assume "length (fst (wc_image_path wc (IMAGE_PATH_SIZE - 1))) \<le> IMAGE_PATH_SIZE - 1"
  then show "win_ok (store_image_path wc p s)"
    unfolding store_image_path_def Let_def split_beta
    by (intro put_ok(2) [OF assms _ refl]) (simp add: IMAGE_PATH_SIZE_def COMMAND_SCRATCH_SIZE_def)
qed

lemma get_scratch_space_ok:
  assumes "win_ok s"
  shows "win_ok (fst (get_scratch_space wc s))"
proof -
  have up: "win_ok (s\<lparr>wm_scratch_space := fst (lru_update_elem (wm_scratch_space s) k b)\<rparr>)" if "length b = COMMAND_SCRATCH_SIZE" for k b
    using assms ran_lru_update [of "wm_scratch_space s" k b] that by (auto simp: win_ok_def)
  have "length b = COMMAND_SCRATCH_SIZE" if "map_lookup_elem (wm_temp s) k = Some b" for k b
    using win_ok_read [OF assms, of "In_temp k"] that by simp
  with up assms show ?thesis
    by (auto simp: get_scratch_space_def Let_def simp del: write_scratch.simps split: option.split intro!: write_scratch_ok)
qed

text \<open>
  Whatever the program is called with, the buffers and the values of the maps keep the sizes of their declarations: no copy of a command
  line or a path, of any length, leaves its buffer.
\<close>

theorem monitor_keeps_sizes:
  assumes "win_ok s" and "length (fst (wc_image_path wc (IMAGE_PATH_SIZE - 1))) \<le> IMAGE_PATH_SIZE - 1" and "ProcessMonitor wc s = Some s'"
  shows "win_ok s'"
proof -
  have ring: "win_ok (bpf_ringbuf_output ev t) = win_ok t" for ev t by (simp add: bpf_ringbuf_output_def win_ok_def)
  have "win_ok (process_created wc s)"
    using get_scratch_space_ok [OF assms(1), of wc] assms(2)
    by (auto simp: process_created_def ring split: prod.split option.split intro!: store_ok write_scratch_ok)
  moreover have "win_ok t" if "process_deleted wc s = Some t" for t
    using that assms(1) by (simp add: process_deleted_def write_pid_def split: if_splits)
  ultimately show ?thesis using assms(1,3) by (auto simp: ProcessMonitor_def split: process_operation.splits)
qed

section \<open>A new process\<close>

lemma process_recorded:
  assumes "win_ok s" and "md_operation (wc_md wc) = PROCESS_OPERATION_CREATE" and "pid = ucast (md_process_id (wc_md wc))"
    and "map_lookup_elem (wm_temp s) (wc_pid_tgid wc) = None" and b: "map_lookup_elem (wm_temp s) (push_bit 32 (ucast (wc_above wc))) = Some b"
    and "\<forall>m k. bm_admit (wm_scratch_space s) m k = 0" and "\<forall>m k. bm_admit (wm_command_map s) m k = 0" and "\<forall>m k. bm_admit (wm_process_map s) m k = 0"
    and "\<forall>sent ev. 0 \<le> wm_ring_answer s sent ev" and "length (md_command (wc_md wc)) < 2 ^ 31"
    and "wc_image_path wc (IMAGE_PATH_SIZE - 1) = (path, of_nat (length path))" and "length path \<le> IMAGE_PATH_SIZE - 1"
  shows "\<exists>s'. ProcessMonitor wc s = Some s'
     \<and> map_lookup_elem (wm_command_map s') pid = Some (field COMMAND_SCRATCH_SIZE (md_command (wc_md wc)))
     \<and> map_lookup_elem (wm_process_map s') pid = Some (field IMAGE_PATH_SIZE path)
     \<and> wm_ring s' = wm_ring s @ [Win_create (create_info wc)]"
proof -
  have len: "length b = COMMAND_SCRATCH_SIZE" using win_ok_read [OF assms(1), of "In_temp (push_bit 32 (ucast (wc_above wc)))"] b by simp
  let ?k = "wc_pid_tgid wc" and ?p = "In_scratch (wc_pid_tgid wc)"
  have lru: "map_lookup_elem (fst (lru_update_elem m k v)) k = Some v" if "\<forall>x y. bm_admit m x y = 0" for m :: "('k, 'v) lru_map" and k v
    using that by (simp add: lru_update_elem_def map_lookup_elem_def)
  define s1 where "s1 = write_scratch ?p zero_scratch (s\<lparr>wm_scratch_space := fst (lru_update_elem (wm_scratch_space s) ?k b)\<rparr>)"
  have get: "get_scratch_space wc s = (s1, Some ?p)"
    using assms(4,6) b by (simp add: get_scratch_space_def Let_def lru s1_def)
  have r1: "read_scratch ?p s1 = Some (replicate COMMAND_SCRATCH_SIZE 0)"
    using len lru [OF assms(6)] by (simp add: s1_def map_lookup_elem_def map_modify_def)
  have f1: "wm_command_map s1 = wm_command_map s" "wm_process_map s1 = wm_process_map s" "wm_ring s1 = wm_ring s" "wm_ring_answer s1 = wm_ring_answer s"
    by (simp_all add: s1_def)
  let ?c = "field COMMAND_SCRATCH_SIZE (md_command (wc_md wc))"
  obtain s2 where s2: "store_command wc ?p s1 = s2\<lparr>wm_command_map := fst (lru_update_elem (wm_command_map s) (ci_process_id (create_info wc)) ?c)\<rparr>"
    "read_scratch ?p s2 = Some ?c" "wm_process_map s2 = wm_process_map s" "wm_ring s2 = wm_ring s" "wm_ring_answer s2 = wm_ring_answer s"
    using store_command_field [OF r1 assms(10) refl] unfolding f1 by blast
  let ?t = "write_scratch ?p zero_scratch (store_command wc ?p s1)"
  have "length ?c = COMMAND_SCRATCH_SIZE" by (simp add: field_def)
  then have rt: "read_scratch ?p ?t = Some (replicate COMMAND_SCRATCH_SIZE 0)"
    by (simp del: write_scratch.simps read_scratch.simps add: s2(1,2))
  obtain s3 where s3: "store_image_path wc ?p ?t = s3\<lparr>wm_process_map := fst (lru_update_elem (wm_process_map ?t) (ci_process_id (create_info wc)) (field IMAGE_PATH_SIZE path))\<rparr>"
    "wm_command_map s3 = wm_command_map ?t" "wm_ring s3 = wm_ring ?t" "wm_ring_answer s3 = wm_ring_answer ?t"
    using store_image_path_field [OF rt assms(11,12) refl] by blast
  have pid: "ci_process_id (create_info wc) = pid" by (simp add: create_info_def assms(3) Let_def)
  let ?s' = "bpf_ringbuf_output (Win_create (create_info wc)) (store_image_path wc ?p ?t)"
  have "ProcessMonitor wc s = Some ?s'" by (simp add: ProcessMonitor_def assms(2) process_created_def get)
  moreover have "wm_ring ?s' = wm_ring s @ [Win_create (create_info wc)]" "wm_command_map ?s' = wm_command_map s3"
    "wm_process_map ?s' = fst (lru_update_elem (wm_process_map s) pid (field IMAGE_PATH_SIZE path))"
    using assms(9) unfolding s3(1) by (simp_all add: bpf_ringbuf_output_def s3(3,4) s2(1,3-5) pid not_less)
  ultimately show ?thesis using lru [OF assms(7)] lru [OF assms(8)] by (simp add: s3(2) s2(1) pid)
qed

text \<open>
  C33. What the creation of a process does, for a thread whose own id is not a key of the buffer array \<open>temp\<close>. The code asks this array for its
  element with an eight byte key of which it has set only the lower four bytes, to zero; the other four are what lies behind the variable on the stack. If
  the array has no element under the key that results, the creation goes unnoticed: nothing is recorded and nothing is announced. If it has one, the
  process is recorded and announced: under its id the command line and the image path can be looked up, in lower case and filled with zeros, and
  the ring has one more event, with the ids and the time of the creation. This is so when the three maps and the ring take what they are given, for
  command lines below 2 GiB (cut at the size of the buffer) and image paths of up to 1023 bytes.
\<close>

theorem windows_process_recorded:
  assumes "win_ok s" and "md_operation (wc_md wc) = PROCESS_OPERATION_CREATE" and "pid = ucast (md_process_id (wc_md wc))"
    and "map_lookup_elem (wm_temp s) (wc_pid_tgid wc) = None"
    and "\<forall>m k. bm_admit (wm_scratch_space s) m k = 0" and "\<forall>m k. bm_admit (wm_command_map s) m k = 0" and "\<forall>m k. bm_admit (wm_process_map s) m k = 0"
    and "\<forall>sent ev. 0 \<le> wm_ring_answer s sent ev" and "length (md_command (wc_md wc)) < 2 ^ 31"
    and "wc_image_path wc (IMAGE_PATH_SIZE - 1) = (path, of_nat (length path))" and "length path \<le> IMAGE_PATH_SIZE - 1"
  shows "case map_lookup_elem (wm_temp s) (push_bit 32 (ucast (wc_above wc))) of
      None \<Rightarrow> ProcessMonitor wc s = Some s
    | Some _ \<Rightarrow> \<exists>s'. ProcessMonitor wc s = Some s'
        \<and> map_lookup_elem (wm_command_map s') pid = Some (field COMMAND_SCRATCH_SIZE (md_command (wc_md wc)))
        \<and> map_lookup_elem (wm_process_map s') pid = Some (field IMAGE_PATH_SIZE path)
        \<and> wm_ring s' = wm_ring s @ [Win_create (create_info wc)]"
proof (cases "map_lookup_elem (wm_temp s) (push_bit 32 (ucast (wc_above wc)))")
  case None
  then have "get_scratch_space wc s = (s, None)" using assms(4) by (simp add: get_scratch_space_def Let_def)
  then show ?thesis using None assms(2) by (simp add: ProcessMonitor_def process_created_def)
next
  case (Some b)
  then show ?thesis using process_recorded [OF assms(1-4) Some assms(5-11)] by simp
qed

text \<open>
  A process that ends is never reported: the code writes the id through a pointer that is null, so that every call for the end of a process with an id ends in
  that access, and without an id nothing is done.
\<close>

lemma windows_exit_faults:
  assumes "md_operation (wc_md wc) = PROCESS_OPERATION_DELETE"
  shows "ProcessMonitor wc s = (if md_process_id (wc_md wc) = 0 then Some s else None)"
  using assms by (simp add: ProcessMonitor_def process_deleted_def write_pid_def)

section \<open>A concrete run\<close>

definition wc_example :: win_ctx where
  "wc_example = \<lparr>wc_md = \<lparr>md_operation = PROCESS_OPERATION_CREATE, md_process_id = 42, md_parent_process_id = 1, md_creating_process_id = 1,
       md_creating_thread_id = 2, md_creation_time = 7, md_exit_time = 0, md_process_exit_code = 0, md_command = [0x41, 0x62]\<rparr>,
     wc_pid_tgid = 5, wc_above = 0, wc_logon_id = 3, wc_image_path = (\<lambda>_. ([0x43, 0x3a], 2))\<rparr>"

definition wm_example :: win_state where
  "wm_example = \<lparr>wm_temp = empty_map\<lparr>bm_elems := [0 \<mapsto> replicate COMMAND_SCRATCH_SIZE 9]\<rparr>, wm_scratch_space = empty_lru, wm_process_map = empty_lru,
     wm_command_map = empty_lru, wm_ring = [], wm_ring_answer = (\<lambda>_ _. 0)\<rparr>"

lemma wm_example_ok: "win_ok wm_example"
  by (simp add: win_ok_def wm_example_def empty_map_def empty_lru_def)

theorem windows_process_recorded_witness:
  "ProcessMonitor (wc_example\<lparr>wc_above := 1\<rparr>) wm_example = Some wm_example
   \<and> (\<exists>s'. ProcessMonitor wc_example wm_example = Some s'
     \<and> map_lookup_elem (wm_process_map s') 42 = Some ([0x63, 0x3a] @ replicate 1022 0) \<and> wm_ring s' = [Win_create (create_info wc_example)])"
  using windows_process_recorded [OF wm_example_ok, of wc_example 42 "[0x43, 0x3a]"]
    windows_process_recorded [OF wm_example_ok, of "wc_example\<lparr>wc_above := 1\<rparr>" 42 "[0x43, 0x3a]"]
  by (auto simp: wc_example_def wm_example_def empty_map_def empty_lru_def map_lookup_elem_def IMAGE_PATH_SIZE_def field_def lower_char_def)

theorem monitor_keeps_sizes_witness: "win_ok (process_created wc_example wm_example)"
  using monitor_keeps_sizes [OF wm_example_ok, of wc_example "process_created wc_example wm_example"]
  by (simp add: wc_example_def IMAGE_PATH_SIZE_def ProcessMonitor_def)

end
