(* ===== verification/Spec2Isabelle.thy ===== *)
theory Spec2Isabelle
  imports Attribution Generic_Return Generic_Policy Generic_Paths Generic_Buffer Windows_Monitor
begin

text \<open>
  \<^bold>\<open>A verification development for the BPF programs of Tetragon.\<close>

  Tetragon observes a Linux system with BPF programs (C code under \<^verbatim>\<open>src/bpf\<close>) that run in the kernel at hooks
  and send messages through a ring to an agent in user space. The programs of the base sensors follow the life of every process: they keep the process table
  \<^verbatim>\<open>execve_map\<close> and report clone, exec and exit. The generic sensors are compiled once per program type and configured by policies: at a hit of a
  hook they filter by process, collect arguments, filter by arguments, act (post, signal, override, follow descriptors, notify the enforcer and
  more) and report. Smaller sensors track cgroups, enforce return values, throttle events and report executable mappings. The programs share
  the process table, the ring and its counters, and the policy and cgroup maps; this is how the components interact.

  \<^bold>\<open>Modelling.\<close> C structures are records with the source's fields, integers are words of their width, the pending effects of a program
  are a state record that every operation returns updated. A BPF map is a record of its contents and of how the kernel answers
  an insertion; a helper of the kernel (probe reads, task structures, dentries, cgroups, stack ids) is read through parameters
  that stand for the kernel's memory and structures. Code under \<^verbatim>\<open>#ifdef\<close> is selected by the record \<open>build\<close> (kernel version and size of
  the programs) or, for the generic sensors, by the program type \<open>flavour\<close>. Reads through a pointer into a map element that was deleted before
  take what the freed memory then holds from a parameter named \<open>stale\<close>.

  \<^bold>\<open>The theories.\<close>

  \<^item> \<open>Prelude\<close>, \<open>BPF_Maps\<close>, \<open>Kernel_Mem\<close>, \<open>Tail_Calls\<close>: byte lists and words, the hash, LRU and per-CPU maps with their interface as locales (\<open>kv_store\<close> and the
    counters), probe reads, and the chain of tail calls with the kernel's limit of 33 as a locale (\<open>chain\<close>) whose laws are proved once and used for all
    program types.
  \<^item> \<open>Messages\<close>: the structures of \<^verbatim>\<open>lib/process.h\<close>, \<^verbatim>\<open>lib/common.h\<close>, \<^verbatim>\<open>lib/msg_types.h\<close>, \<^verbatim>\<open>lib/bpf_cgroup.h\<close>, \<^verbatim>\<open>lib/data_msg.h\<close> and others; sizes and offsets are
    those of the x86 layout.
  \<^item> \<open>Event_Output\<close> (\<^verbatim>\<open>lib/process.h\<close>, \<^verbatim>\<open>lib/policy_stats.h\<close>, \<^verbatim>\<open>lib/errmetrics.h\<close>): sends and the accounting of failures.
  \<^item> \<open>Execve_Map\<close>, \<open>Task\<close> (\<^verbatim>\<open>lib/process.h\<close>, \<^verbatim>\<open>lib/bpf_task.h\<close>): the process table with its entry counter, and the search along the parents of a task.
  \<^item> \<open>D_Path\<close>, \<open>Process_Event\<close>, \<open>Cred\<close>, \<open>Data_Event\<close> (\<^verbatim>\<open>lib/bpf_d_path.h\<close>, \<^verbatim>\<open>process/bpf_process_event.h\<close>, \<^verbatim>\<open>process/bpf_execve_bprm_commit_creds.c\<close>,
    \<^verbatim>\<open>process/data_event.h\<close>): paths against a reference definition, credentials, namespaces, cgroup names, and long arguments in chunks: what is sent
    is the requested memory, as far as the descriptor says, and an error has a cause in memory or in the ring.
  \<^item> \<open>Exec_Collect\<close>, \<open>Exec_Send\<close>, \<open>Fork_Exit\<close> (\<^verbatim>\<open>process/bpf_execve_event.c\<close>, \<^verbatim>\<open>process/bpf_fork.c\<close>, \<^verbatim>\<open>process/bpf_exit.h\<close>): the base sensors. The four
    sections of the exec message are stages of one locale (\<open>section_reader\<close>, and \<open>section_writer\<close> for what stands in them), interpreted on the four readers of the code.
  \<^item> \<open>Mbset\<close>, \<open>Binaries\<close>, \<open>Pfilter\<close> (\<^verbatim>\<open>process/bpf_mbset.h\<close>, \<^verbatim>\<open>process/types/basic.h\<close>, \<^verbatim>\<open>process/pfilter.h\<close>, \<^verbatim>\<open>process/generic_calls.h\<close>): the process side of selectors.
  \<^item> \<open>Cgroup\<close>, \<open>Rate\<close>, \<open>Enforcer\<close>, \<open>Retprobe\<close>, \<open>Loader\<close> (\<^verbatim>\<open>cgroup/\<close>, \<^verbatim>\<open>process/policy_filter.h\<close>, \<^verbatim>\<open>process/bpf_rate.h\<close>, \<^verbatim>\<open>process/bpf_enforcer.h\<close>,
    \<^verbatim>\<open>process/retprobe_map.h\<close>, \<^verbatim>\<open>process/bpf_loader.c\<close>): tracking of cgroups, the rate limit refining a sliding window that is
    computed from the times of all events (\<open>rate_verdicts\<close>), the enforcer refining one
    pending action per thread, the link from entry to return probes, and the mapping sensor.
  \<^item> \<open>Arg_Filters\<close>, \<open>Generic_State\<close>, \<open>Generic_Actions\<close>, \<open>Kernel_Args\<close>, \<open>Uprobe_Offload\<close>, \<open>Generic_Args\<close>, \<open>Generic_Programs\<close> (\<^verbatim>\<open>process/types/\<close>,
    \<^verbatim>\<open>process/generic_calls.h\<close>, \<^verbatim>\<open>process/generic_path.h\<close>, \<^verbatim>\<open>process/regs.h\<close>, \<^verbatim>\<open>process/uprobe_offload.h\<close>, \<^verbatim>\<open>process/bpf_generic_*.c\<close>): the generic sensors. \<open>generic_event\<close>
    is a complete hit of a hook: \<open>start_prog\<close> is the attached program, \<open>run_prog\<close> the programs in the tail-call map. For security module hooks it is the
    core program with its tail calls; the program that sends the event and returns the override is attached behind it and is a definition of its own, \<open>generic_lsm_output\<close>.
  \<^item> \<open>Windows_Monitor\<close> (\<^verbatim>\<open>windows/process_monitor.c\<close>): the process monitor for Windows, a program on its own; the context of its hook and the
    helpers that a header outside the repository declares are parameters.
  \<^item> \<open>Generic_Frames\<close>, \<open>Generic_Run\<close>, \<open>Generic_Selection\<close>, \<open>Generic_Report\<close>, \<open>Generic_Policy\<close>, \<open>Generic_Return\<close>, \<open>Generic_Paths\<close>, \<open>Generic_Buffer\<close>: theorems on complete hits. What the programs
    leave alone; the number of tail calls, at most one event, nothing enforced in monitor mode; which selector decides; that unfiltered hits are
    reported; that a hit does what its policy means (\<open>hit_event\<close>, \<open>deciding_selector\<close>, \<open>act_on\<close>) and which signals it sends; that calls and their returns are
    paired; the path resolution by tail calls; the argument buffer.
  \<^item> \<open>Lifecycle\<close>, \<open>Attribution\<close> and this theory: properties of every sequence of runs of all hooks (the step relation \<open>hook\<close>), by
    rule induction: the entry counter, keys stored under their own pid, exits and generic events that name announced processes.

  \<^bold>\<open>Bounds.\<close> Loops that the source unrolls or bounds have the same bound in the model (four tasks of a parent chain, 4 values of a filter in the
  small programs, 11, 128 or 2048 path components, 10 chunks of a data event, 7 I/O vectors, 5 arguments, 5 selectors and 3 actions), as a structural
  recursion on that number. The only fuel is the kernel's own: \<open>MAX_TAIL_CALL_CNT\<close>, 33. The number of calls of a chain without path
  offloading is proved to be at most 22, so the limit is never reached there; with path offloading the limit is part of the behaviour.

  \<^bold>\<open>Not modelled.\<close> The side counters of \<^verbatim>\<open>with_errmetrics\<close> in the generic sensors (the exec sensor has them), \<^verbatim>\<open>bpf_prog_iter.c\<close>
  (it writes the id of each loaded program to a file), the programs of the test suites,
  the registers and layouts of arm64, the generated kernel headers and the declarations of libbpf. The agent in user space, in Go, is the environment: what it writes to the maps is a parameter.
  Programs run atomically in the model: interleavings are sequences of whole runs, and races inside a run are covered only
  where the code names them (the enforcer's missed notifications).

  \<^bold>\<open>Conditions.\<close> Where the code has known gaps the theorems say under which conditions it does what it means to, in the text in front of each: the theorems on whole hits
  leave out argument types whose reading can drop an event or change its process (\<open>plain_ty\<close>), binary filters (which write the process table) and builds
  with path offloading; the order of actions is for actions that cannot fail; the rate limit of an action starts one interval after boot; a filter on gained
  capabilities forgets the filters before it; and the Windows monitor records a process only if the stack bytes behind its key happen to make a key of the map. The gaps themselves
  are lemmas (\<open>failed_action_blocks_rest\<close>, \<open>rate_limit_early\<close>, \<open>capabilities_gained_forgets\<close>, \<open>lsm_without_selectors_silent\<close>, \<open>windows_exit_faults\<close> and others).
\<close>

section \<open>Events and the life of processes\<close>

text \<open>
  C2. User space can tell whose event it gets. When events are not rate limited, the ring takes every message and every entry of the table at the start is stored under its own
  pid, in any state that a sequence of program runs reaches, an event of a generic entry hook carries the key of a process that an earlier clone or exec message announced or that was in the table at the
  start, or the recorded owner of a tracked socket, or it is marked as an event of a process that is not known.
\<close>

theorem events_name_announced:
  assumes "hooks bd se se'" and "os_sent (se_os se) = []"
    and "rs_options (se_rate se) = None" and "\<forall>r ms sz. 0 \<le> os_answer (se_os se) r ms sz"
    and "\<forall>pid v. table (se_x se) pid = Some v \<and> ek_ktime (ev_key v) \<noteq> 0 \<longrightarrow> ek_pid (ev_key v) = pid"
    and "fl \<noteq> KRETPROBE" and "fl \<noteq> URETPROBE" and "gs_x s = se_x se'" and "gs_os s = se_os se'"
    and "generic_events (gs_os (fst (generic_event stale fl bd gx rv s))) = generic_events (gs_os s) @ (Ev_generic e, n) # rest"
  shows "gk_current e \<in> told (os_sent (se_os se')) \<or> (\<exists>pid v. table (se_x se) pid = Some v \<and> ev_key v = gk_current e)
     \<or> gk_current e \<in> owners (gs_sock s) \<or> not_found e"
proof -
  let ?K = "{ev_key v |pid v. table (se_x se) pid = Some v} \<union> told (os_sent (se_os se'))"
  have "lifecycle_ok {ev_key v |pid v. table (se_x se) pid = Some v} se'" by (rule hooks_lifecycle_ok [OF assms(1-5)])
  then have "live_keys (gs_x s) \<subseteq> ?K \<union> owners (gs_sock s)"
    unfolding lifecycle_ok_def live_keys_def assms(8) by blast
  from hit_names [OF assms(6,7) this, of stale bd gx rv] have "named (?K \<union> owners (gs_sock s)) e"
    by (auto simp: events_named_def assms(10))
  then show ?thesis unfolding named_def by (elim disjE UnE CollectE exE conjE) (metis, simp_all)
qed

text \<open>The example: the process that the sensor starts with hits a kernel probe.\<close>

theorem events_name_announced_witness:
  "\<exists>e n. generic_events (gs_os (fst (generic_event id KPROBE build_v61 gx_open 0 gs_example))) = [(Ev_generic e, n)]
     \<and> ((\<exists>pid v. table (gs_x gs_example) pid = Some v \<and> ev_key v = gk_current e) \<or> not_found e)"
proof -
  let ?se = "se_open\<lparr>se_x := gs_x gs_example, se_os := gs_os gs_example\<rparr>"
  obtain e n where e: "generic_events (gs_os (fst (generic_event id KPROBE build_v61 gx_open 0 gs_example))) = [(Ev_generic e, n)]"
    "gk_current e = \<lparr>ek_pid = 10, ek_ktime = 5\<rparr>"
    using open_hit by blast
  have "gk_current e \<notin> told (os_sent (se_os ?se))" "os_sent (se_os ?se) = []" "rs_options (se_rate ?se) = None"
    by (simp_all add: gs_example_def told_def se_open_def)
  moreover have "owners (gs_sock gs_example) = {}" by (simp add: owners_def gs_example_def map_ops_defs)
  moreover have "\<forall>pid v. table (se_x ?se) pid = Some v \<and> ek_ktime (ev_key v) \<noteq> 0 \<longrightarrow> ek_pid (ev_key v) = pid"
    by (auto simp: gs_example_def xs_current_def map_lookup_elem_def tracked_value_def v_example_def split: if_splits)
  ultimately show ?thesis
    using events_name_announced [of build_v61 ?se ?se KPROBE gs_example id gx_open 0 e n "[]"] e(1) open_state(6,7) by auto
qed

end
